(* ===== verification/Prelude.thy ===== *)
theory Prelude
  imports
    Main
    "HOL-Library.Word"
    "HOL-Library.AList"
    "HOL-Library.Char_ord"
    "HOL-Library.List_Lexorder"
    "HOL-Library.Multiset"
begin

text \<open>
  Shared vocabulary of the development.

  \<^item> Go data: a \<open>[]byte\<close> is a list of 8-bit words, a Go \<open>string\<close> (a byte sequence) is a
    \<^typ>\<open>string\<close>, whose characters are bytes, so that \<open>len(s)\<close> is \<^const>\<open>length\<close>.
    Byte-wise lexicographic order, the order of Go's \<open>sort.Strings\<close>, is the order that
    \<open>Char_ord\<close> and \<open>List_Lexorder\<close> give to strings.
  \<^item> A Go \<open>map\<close> is an association list with distinct keys. The order of the list is the order
    in which \<open>range\<close> visits the map, which Go leaves open: a theorem about an arbitrary state
    is a theorem about every order.
  \<^item> A \<open>time.Time\<close> is an instant, counted in nanoseconds from Go's zero time; a
    \<open>time.Duration\<close> is a number of nanoseconds.
  \<^item> A fallible Go function returns a sum, \<^const>\<open>Inl\<close> of the sentinel error or \<^const>\<open>Inr\<close> of
    the value; a method that changes its receiver returns the new receiver beside it.
\<close>

section \<open>Types\<close>

type_synonym byte = "8 word"
type_synonym bytes = "byte list"
type_synonym ('k, 'v) gomap = "('k \<times> 'v) list"
type_synonym time = int
type_synonym duration = int

named_theorems spec_simps \<open>operational equations used to evaluate the model\<close>
named_theorems inv_intros \<open>preservation of the state invariants\<close>

abbreviation zero_time :: time where
  "zero_time \<equiv> 0"

definition millisecond :: duration where "millisecond = 1000000"
definition second :: duration where "second = 1000000000"
definition minute :: duration where "minute = 60 * second"
definition hour :: duration where "hour = 60 * minute"

lemmas duration_defs = millisecond_def second_def minute_def hour_def

text \<open>\<open>Time.Sub\<close> saturates at the bounds of the 64-bit \<open>Duration\<close>.\<close>

definition time_sub :: "time \<Rightarrow> time \<Rightarrow> duration" where
  "time_sub t u = max (- (2 ^ 63)) (min (2 ^ 63 - 1) (t - u))"

section \<open>Maps\<close>

definition wf_map :: "('k, 'v) gomap \<Rightarrow> bool" where
  "wf_map m \<longleftrightarrow> distinct (map fst m)"

abbreviation mget :: "('k, 'v) gomap \<Rightarrow> 'k \<Rightarrow> 'v option" where
  "mget \<equiv> map_of"

abbreviation mput :: "'k \<Rightarrow> 'v \<Rightarrow> ('k, 'v) gomap \<Rightarrow> ('k, 'v) gomap" where
  "mput \<equiv> AList.update"

text \<open>\<open>m[k]\<close> on a map of numbers yields zero for a missing key.\<close>

definition mcount :: "('k, int) gomap \<Rightarrow> 'k \<Rightarrow> int" where
  "mcount m k = (case mget m k of None \<Rightarrow> 0 | Some n \<Rightarrow> n)"

definition mincr :: "'k \<Rightarrow> ('k, int) gomap \<Rightarrow> ('k, int) gomap" where
  "mincr k m = mput k (mcount m k + 1) m"

definition count_keys :: "'k list \<Rightarrow> ('k, int) gomap" where
  "count_keys ks = fold mincr ks []"

lemma wf_map_empty [simp, intro]: "wf_map []"
  by (simp add: wf_map_def)

lemma wf_map_mput [simp, intro]: "wf_map m \<Longrightarrow> wf_map (mput k v m)"
  by (simp add: wf_map_def distinct_update)

lemma wf_map_Cons: "wf_map ((k, v) # m) \<longleftrightarrow> mget m k = None \<and> wf_map m"
  by (auto simp: wf_map_def map_of_eq_None_iff)

lemma mget_mput [simp]: "mget (mput k v m) k' = (if k' = k then Some v else mget m k')"
  by (simp add: update_conv')

lemma mget_in_set: "mget m k = Some v \<Longrightarrow> (k, v) \<in> set m"
  by (rule map_of_SomeD)

lemma in_set_mget: "wf_map m \<Longrightarrow> (k, v) \<in> set m \<longleftrightarrow> mget m k = Some v"
  by (simp add: wf_map_def)

lemma set_mputD:
  assumes "wf_map m" and "(k', v') \<in> set (mput k v m)"
  shows "(k' = k \<and> v' = v) \<or> (k' \<noteq> k \<and> (k', v') \<in> set m)"
proof -
  from assms have "mget (mput k v m) k' = Some v'"
    by (simp add: in_set_mget)
  then show ?thesis
    by (auto split: if_splits dest: mget_in_set)
qed

lemma mcount_mincr [simp]:
  "mcount (mincr k m) k' = (if k' = k then mcount m k + 1 else mcount m k')"
  by (simp add: mincr_def mcount_def)

lemma mcount_fold_mincr: "mcount (fold mincr ks m) k = mcount m k + int (count_list ks k)"
  by (induction ks arbitrary: m) auto

lemma mcount_count_keys: "mcount (count_keys ks) k = int (count_list ks k)"
  by (simp add: count_keys_def mcount_fold_mincr) (simp add: mcount_def)

section \<open>Lists\<close>

lemma count_list_zero: "count_list xs x = 0 \<longleftrightarrow> x \<notin> set xs"
  by (induction xs) auto

lemma list_all_filter: "list_all P (filter P xs)"
  by (induction xs) auto

lemma length_filter_split:
  "length (filter P xs) + length (filter (\<lambda>x. \<not> P x) xs) = length xs"
  by (induction xs) auto

section \<open>Words\<close>

lemma word_succ_gt: "x + 1 \<noteq> (0 :: 'a::len word) \<Longrightarrow> x < x + 1"
  by (metis add.commute lessI unatSuc word_less_nat_alt)

lemma word_less_succ:
  assumes "x < (y :: 'a::len word)"
  shows "x + 1 \<noteq> 0" "unat (x + 1) = Suc (unat x)" "x < x + 1" "x + 1 \<le> y"
proof -
  show nz: "x + 1 \<noteq> 0"
  proof
    assume "x + 1 = 0"
    then have "x = - 1" by (simp add: eq_neg_iff_add_eq_0)
    with assms show False by (metis word_order.extremum_strict)
  qed
  then show u: "unat (x + 1) = Suc (unat x)" by (metis add.commute unatSuc)
  then show "x < x + 1" by (simp add: word_less_nat_alt)
  from u assms show "x + 1 \<le> y" by (simp add: word_le_nat_alt word_less_nat_alt)
qed

section \<open>Sums\<close>

lemma Inr_case_iff:
  "(case r of Inl e \<Rightarrow> Inl e | Inr x \<Rightarrow> f x) = Inr y \<longleftrightarrow> (\<exists>x. r = Inr x \<and> f x = Inr y)"
  by (cases r) auto

definition is_ok :: "'e + 'a \<Rightarrow> bool" where
  "is_ok r \<longleftrightarrow> (case r of Inl _ \<Rightarrow> False | Inr _ \<Rightarrow> True)"

lemma is_ok_simps [simp]: "is_ok (Inr x)" "\<not> is_ok (Inl e)"
  by (simp_all add: is_ok_def)

lemma is_okE: "is_ok r \<Longrightarrow> (\<And>x. r = Inr x \<Longrightarrow> P) \<Longrightarrow> P"
  by (cases r) auto

section \<open>Systems that run a sequence of operations\<close>

text \<open>
  The state of a component after a sequence of calls, whatever callers issued them and in
  whatever interleaving: the mutex of the Go code (or the transaction lock of the database)
  makes every call one step. \<open>ok\<close> says what is assumed of a call in a state, for instance that
  an identifier drawn at random is a new one; \<open>run_ok\<close> says it of every call of a sequence. A
  component interprets the contract by showing that each step keeps its invariant; the facts
  about whole runs are proved once, here.
\<close>

fun run_ok :: "('s \<Rightarrow> 'op \<Rightarrow> 's) \<Rightarrow> ('s \<Rightarrow> 'op \<Rightarrow> bool) \<Rightarrow> 's \<Rightarrow> 'op list \<Rightarrow> bool" where
  "run_ok step ok s [] \<longleftrightarrow> True"
| "run_ok step ok s (x # xs) \<longleftrightarrow> ok s x \<and> run_ok step ok (step s x) xs"

locale transition_system =
  fixes step :: "'s \<Rightarrow> 'op \<Rightarrow> 's"
    and ok :: "'s \<Rightarrow> 'op \<Rightarrow> bool"
    and inv :: "'s \<Rightarrow> bool"
  assumes step_inv: "inv s \<Longrightarrow> ok s x \<Longrightarrow> inv (step s x)"
begin

lemma run_inv: "inv s \<Longrightarrow> run_ok step ok s xs \<Longrightarrow> inv (foldl step s xs)"
  by (induction xs arbitrary: s) (auto intro: step_inv)

end

locale monotone_system = transition_system step ok inv
  for step :: "'s \<Rightarrow> 'op \<Rightarrow> 's" and ok :: "'s \<Rightarrow> 'op \<Rightarrow> bool" and inv :: "'s \<Rightarrow> bool" +
  fixes le :: "'s \<Rightarrow> 's \<Rightarrow> bool"
  assumes le_refl: "le s s"
    and le_trans: "le s t \<Longrightarrow> le t u \<Longrightarrow> le s u"
    and step_le: "inv s \<Longrightarrow> ok s x \<Longrightarrow> le s (step s x)"
begin

lemma run_le: "inv s \<Longrightarrow> run_ok step ok s xs \<Longrightarrow> le s (foldl step s xs)"
proof (induction xs arbitrary: s)
  case Nil
  then show ?case by (simp add: le_refl)
next
  case (Cons x xs)
  then have "le (step s x) (foldl step (step s x) xs)" by (simp add: step_inv)
  with Cons.prems show ?case by (auto intro: le_trans step_le)
qed

end

text \<open>
  Simulation by a system whose steps are a relation: \<open>step\<close> answers a call and changes the state,
  \<open>allowed\<close> says which answers and successors the abstract system permits for the operation of
  the call. A run of the one is a run of the other with the same answers.
\<close>

fun answers :: "('s \<Rightarrow> 'c \<Rightarrow> 'a \<times> 's) \<Rightarrow> 's \<Rightarrow> 'c list \<Rightarrow> 'a list \<times> 's" where
  "answers step s [] = ([], s)"
| "answers step s (c # cs) = (case step s c of (a, s') \<Rightarrow> (case answers step s' cs of (as, s'') \<Rightarrow> (a # as, s'')))"

inductive permits :: "('b \<Rightarrow> 'o \<Rightarrow> 'a \<Rightarrow> 'b \<Rightarrow> bool) \<Rightarrow> 'b \<Rightarrow> 'o list \<Rightarrow> 'a list \<Rightarrow> 'b \<Rightarrow> bool" for allowed where
  stop: "permits allowed b [] [] b"
| move: "allowed b x a b' \<Longrightarrow> permits allowed b' xs as b'' \<Longrightarrow> permits allowed b (x # xs) (a # as) b''"

locale simulation =
  fixes step :: "'s \<Rightarrow> 'c \<Rightarrow> 'a \<times> 's"
    and ok :: "'s \<Rightarrow> 'c \<Rightarrow> bool"
    and op_of :: "'c \<Rightarrow> 'o"
    and allowed :: "'b \<Rightarrow> 'o \<Rightarrow> 'a \<Rightarrow> 'b \<Rightarrow> bool"
    and related :: "'s \<Rightarrow> 'b \<Rightarrow> bool"
  assumes step_simulated: "related s b \<Longrightarrow> ok s c \<Longrightarrow> \<exists>b'. allowed b (op_of c) (fst (step s c)) b' \<and> related (snd (step s c)) b'"
begin

lemma run_simulated:
  "related s b \<Longrightarrow> run_ok (\<lambda>s c. snd (step s c)) ok s cs \<Longrightarrow>
   \<exists>b'. permits allowed b (map op_of cs) (fst (answers step s cs)) b' \<and> related (snd (answers step s cs)) b'"
proof (induction cs arbitrary: s b)
  case (Cons c cs)
  then obtain b1 where b1: "allowed b (op_of c) (fst (step s c)) b1" "related (snd (step s c)) b1"
    using step_simulated [of s b c] by auto
  moreover obtain b2 where "permits allowed b1 (map op_of cs) (fst (answers step (snd (step s c)) cs)) b2"
    "related (snd (answers step (snd (step s c)) cs)) b2"
    using Cons.IH [OF b1(2)] Cons.prems(2) by auto
  ultimately show ?case by (auto simp: split_beta intro: permits.move)
qed (auto intro: permits.stop)

end

text \<open>
  Progress: a step that keeps the client waiting makes the state smaller, and no step makes it
  larger. However many calls a client makes, it waits at most as often as the size of the state
  it found.
\<close>

locale progress =
  fixes step :: "'s \<Rightarrow> 'c \<Rightarrow> 'a \<times> 's"
    and ok :: "'c \<Rightarrow> bool"
    and inv :: "'s \<Rightarrow> bool"
    and size_of :: "'s \<Rightarrow> nat"
    and waits :: "'a \<Rightarrow> bool"
  assumes step_keeps: "inv s \<Longrightarrow> ok c \<Longrightarrow> inv (snd (step s c))"
    and step_shrinks: "inv s \<Longrightarrow> ok c \<Longrightarrow> size_of (snd (step s c)) \<le> size_of s"
    and step_strict: "inv s \<Longrightarrow> ok c \<Longrightarrow> waits (fst (step s c)) \<Longrightarrow> size_of (snd (step s c)) < size_of s"
begin

lemma waits_bounded:
  "inv s \<Longrightarrow> list_all ok cs \<Longrightarrow> length (filter waits (fst (answers step s cs))) + size_of (snd (answers step s cs)) \<le> size_of s"
proof (induction cs arbitrary: s)
  case (Cons c cs)
  then have "length (filter waits (fst (answers step (snd (step s c)) cs))) + size_of (snd (answers step (snd (step s c)) cs)) \<le> size_of (snd (step s c))"
    using step_keeps [of s c] by simp
  then show ?case
    using Cons.prems step_shrinks [of s c] step_strict [of s c] by (auto simp: split_beta)
qed simp

end

end
