(* ===== verification/GoStrings.thy ===== *)
theory GoStrings
  imports Prelude
begin

text \<open>
  The part of Go's \<open>strings\<close>, \<open>unicode/utf8\<close> and \<open>encoding/hex\<close> packages that the service uses.
  A string is a sequence of bytes. \<open>range\<close> over a string visits runes: \<open>runes\<close> decodes UTF-8
  the way Go does, an ill-formed byte giving U+FFFD of width one. A loop that accepts only
  ASCII runes is the same as the loop over bytes (\<open>runes_ascii\<close>), which is how the validators
  of the later theories are written.
\<close>

section \<open>Bytes and strings\<close>

abbreviation code :: "char \<Rightarrow> nat" where
  "code \<equiv> of_char"

definition bytes_of :: "string \<Rightarrow> bytes" where
  "bytes_of s = map (\<lambda>c. of_nat (code c)) s"

definition string_of :: "bytes \<Rightarrow> string" where
  "string_of b = map (\<lambda>w. char_of (unat w)) b"

definition nul :: char where "nul = char_of (0::nat)"

section \<open>Prefixes, suffixes, search\<close>

definition HasPrefix :: "string \<Rightarrow> string \<Rightarrow> bool" where
  "HasPrefix s p \<longleftrightarrow> take (length p) s = p"

definition HasSuffix :: "string \<Rightarrow> string \<Rightarrow> bool" where
  "HasSuffix s p \<longleftrightarrow> length p \<le> length s \<and> drop (length s - length p) s = p"

definition TrimPrefix :: "string \<Rightarrow> string \<Rightarrow> string" where
  "TrimPrefix s p = (if HasPrefix s p then drop (length p) s else s)"

definition TrimSuffix :: "string \<Rightarrow> string \<Rightarrow> string" where
  "TrimSuffix s p = (if HasSuffix s p then take (length s - length p) s else s)"

fun Contains :: "string \<Rightarrow> string \<Rightarrow> bool" where
  "Contains [] sub \<longleftrightarrow> sub = []"
| "Contains (c # s) sub \<longleftrightarrow> HasPrefix (c # s) sub \<or> Contains s sub"

text \<open>\<open>strings.ContainsAny\<close> with a set of ASCII characters.\<close>

definition ContainsAny :: "string \<Rightarrow> string \<Rightarrow> bool" where
  "ContainsAny s cs \<longleftrightarrow> list_ex (\<lambda>c. c \<in> set cs) s"

text \<open>\<open>strings.Split\<close> with a one-byte separator.\<close>

fun Split :: "string \<Rightarrow> char \<Rightarrow> string list" where
  "Split [] sep = [[]]"
| "Split (c # s) sep =
     (if c = sep then [] # Split s sep
      else (case Split s sep of [] \<Rightarrow> [[c]] | p # ps \<Rightarrow> (c # p) # ps))"

text \<open>\<open>strings.Trim(s, cut)\<close> for a one-byte cutset.\<close>

definition TrimChar :: "string \<Rightarrow> char \<Rightarrow> string" where
  "TrimChar s c = rev (dropWhile (\<lambda>x. x = c) (rev (dropWhile (\<lambda>x. x = c) s)))"

section \<open>White space\<close>

text \<open>
  The UTF-8 encodings of the runes for which \<open>unicode.IsSpace\<close> holds. Trimming a leading or
  trailing white-space rune is dropping one of these sequences: a valid encoding is decoded as
  one rune from either end.
\<close>

definition space_seqs :: "string list" where
  "space_seqs = map (map char_of)
    ([[9], [10], [11], [12], [13], [32], [0xC2, 0x85], [0xC2, 0xA0], [0xE1, 0x9A, 0x80],
      [0xE2, 0x80, 0xA8], [0xE2, 0x80, 0xA9], [0xE2, 0x80, 0xAF], [0xE2, 0x81, 0x9F],
      [0xE3, 0x80, 0x80]]
     @ map (\<lambda>k. [0xE2, 0x80, 0x80 + k]) [0..<11] :: nat list list)"

definition lead_space :: "string \<Rightarrow> nat" where
  "lead_space s = (case find (HasPrefix s) space_seqs of None \<Rightarrow> 0 | Some p \<Rightarrow> length p)"

definition trail_space :: "string \<Rightarrow> nat" where
  "trail_space s = (case find (HasSuffix s) space_seqs of None \<Rightarrow> 0 | Some p \<Rightarrow> length p)"

function trim_left :: "string \<Rightarrow> string" where
  "trim_left s =
     (if lead_space s = 0 \<or> s = [] then s else trim_left (drop (lead_space s) s))"
  by pat_completeness auto
termination by (relation "measure length") auto

function trim_right :: "string \<Rightarrow> string" where
  "trim_right s =
     (if trail_space s = 0 \<or> s = [] then s else trim_right (take (length s - trail_space s) s))"
  by pat_completeness auto
termination by (relation "measure length") auto

declare trim_left.simps [simp del] trim_right.simps [simp del]

definition TrimSpace :: "string \<Rightarrow> string" where
  "TrimSpace s = trim_right (trim_left s)"

section \<open>UTF-8\<close>

definition rune_error :: nat where "rune_error = 0xFFFD"

definition cont :: "nat \<Rightarrow> nat \<Rightarrow> nat \<Rightarrow> bool" where
  "cont lo hi b \<longleftrightarrow> lo \<le> b \<and> b \<le> hi"

text \<open>\<open>utf8.DecodeRune\<close>: the rune and its width, by the length its first byte announces.\<close>

fun decode2 :: "nat \<Rightarrow> nat list \<Rightarrow> nat \<times> nat" where
  "decode2 a (b # _) =
     (if cont 0x80 0xBF b then ((a - 0xC0) * 64 + (b - 0x80), 2) else (rune_error, 1))"
| "decode2 a [] = (rune_error, 1)"

fun decode3 :: "nat \<Rightarrow> nat list \<Rightarrow> nat \<times> nat" where
  "decode3 a (b # c # _) =
     (if cont (if a = 0xE0 then 0xA0 else 0x80) (if a = 0xED then 0x9F else 0xBF) b \<and>
         cont 0x80 0xBF c
      then ((a - 0xE0) * 4096 + (b - 0x80) * 64 + (c - 0x80), 3) else (rune_error, 1))"
| "decode3 a _ = (rune_error, 1)"

fun decode4 :: "nat \<Rightarrow> nat list \<Rightarrow> nat \<times> nat" where
  "decode4 a (b # c # d # _) =
     (if cont (if a = 0xF0 then 0x90 else 0x80) (if a = 0xF4 then 0x8F else 0xBF) b \<and>
         cont 0x80 0xBF c \<and> cont 0x80 0xBF d
      then ((a - 0xF0) * 262144 + (b - 0x80) * 4096 + (c - 0x80) * 64 + (d - 0x80), 4)
      else (rune_error, 1))"
| "decode4 a _ = (rune_error, 1)"

fun decode_rune :: "nat list \<Rightarrow> nat \<times> nat" where
  "decode_rune [] = (rune_error, 0)"
| "decode_rune (a # rest) =
     (if a < 0x80 then (a, 1)
      else if cont 0xC2 0xDF a then decode2 a rest
      else if cont 0xE0 0xEF a then decode3 a rest
      else if cont 0xF0 0xF4 a then decode4 a rest
      else (rune_error, 1))"

definition rune_at :: "string \<Rightarrow> nat \<times> nat" where
  "rune_at s = decode_rune (map code (take 4 s))"

function runes :: "string \<Rightarrow> nat list" where
  "runes s = (if s = [] then []
     else fst (rune_at s) # runes (drop (max 1 (snd (rune_at s))) s))"
  by pat_completeness auto
termination by (relation "measure length") auto

declare runes.simps [simp del]

section \<open>Hexadecimal\<close>

definition hex_digit :: "nat \<Rightarrow> char" where
  "hex_digit n = char_of (if n < 10 then 48 + n else 87 + n)"

definition hex_value :: "char \<Rightarrow> nat option" where
  "hex_value c =
     (if 48 \<le> code c \<and> code c \<le> 57 then Some (code c - 48)
      else if 97 \<le> code c \<and> code c \<le> 102 then Some (code c - 87)
      else if 65 \<le> code c \<and> code c \<le> 70 then Some (code c - 55)
      else None)"

definition hex_byte :: "byte \<Rightarrow> string" where
  "hex_byte b = [hex_digit (unat b div 16), hex_digit (unat b mod 16)]"

definition hex_encode :: "bytes \<Rightarrow> string" where
  "hex_encode bs = concat (map hex_byte bs)"

fun hex_decode :: "string \<Rightarrow> bytes option" where
  "hex_decode [] = Some []"
| "hex_decode [c] = None"
| "hex_decode (c # d # s) =
     (case (hex_value c, hex_value d, hex_decode s) of
        (Some h, Some l, Some r) \<Rightarrow> Some (of_nat (16 * h + l) # r)
      | _ \<Rightarrow> None)"

section \<open>Facts\<close>

lemma length_bytes_of [simp]: "length (bytes_of s) = length s"
  by (simp add: bytes_of_def)

lemma code_less_256: "code c < 256"
  by simp

lemma unat_of_code [simp]: "unat (word_of_nat (code c) :: byte) = code c"
  using code_less_256 [of c] by (simp add: unat_of_nat)

lemma string_of_bytes_of [simp]: "string_of (bytes_of s) = s"
  by (simp add: string_of_def bytes_of_def o_def)

lemma byte_less_256: "unat (b :: byte) < 256"
  using unsigned_less [of b] by simp

lemma bytes_of_string_of [simp]: "bytes_of (string_of b) = b"
  using byte_less_256 by (simp add: string_of_def bytes_of_def o_def)

lemma bytes_of_inj [simp]: "bytes_of s = bytes_of t \<longleftrightarrow> s = t"
  by (metis string_of_bytes_of)

lemma HasPrefix_append [simp]: "HasPrefix (p @ s) p"
  by (simp add: HasPrefix_def)

lemma HasSuffix_append [simp]: "HasSuffix (s @ p) p"
  by (simp add: HasSuffix_def)

lemma HasPrefix_iff: "HasPrefix s p \<longleftrightarrow> (\<exists>r. s = p @ r)"
  by (metis HasPrefix_append HasPrefix_def append_take_drop_id)

lemma HasSuffix_iff: "HasSuffix s p \<longleftrightarrow> (\<exists>r. s = r @ p)"
  by (metis HasSuffix_append HasSuffix_def append_take_drop_id)

lemma TrimPrefix_append [simp]: "TrimPrefix (p @ s) p = s"
  by (simp add: TrimPrefix_def)

lemma TrimSuffix_append [simp]: "TrimSuffix (s @ p) p = s"
  by (simp add: TrimSuffix_def)

lemma Split_not_Nil [simp]: "Split s c \<noteq> []"
  by (induction s) (auto split: list.splits)

lemma Split_no_sep: "c \<notin> set s \<Longrightarrow> Split s c = [s]"
  by (induction s) auto

lemma Split_sep: "c \<notin> set s \<Longrightarrow> Split (s @ c # t) c = s # Split t c"
  by (induction s) auto

lemma Split_parts: "p \<in> set (Split s c) \<Longrightarrow> c \<notin> set p"
proof (induction s arbitrary: p)
  case (Cons x s)
  then show ?case by (cases "Split s c") (auto split: if_splits)
qed simp

lemma ContainsAny_iff: "ContainsAny s cs \<longleftrightarrow> set s \<inter> set cs \<noteq> {}"
  by (auto simp: ContainsAny_def list_ex_iff)

lemma hex_value_digit: "n < 16 \<Longrightarrow> hex_value (hex_digit n) = Some n"
  by (simp add: hex_value_def hex_digit_def)

lemma length_hex_encode [simp]: "length (hex_encode bs) = 2 * length bs"
  by (induction bs) (simp_all add: hex_encode_def hex_byte_def)

lemma hex_encode_Nil_iff [simp]: "hex_encode b = [] \<longleftrightarrow> b = []"
  by (metis length_0_conv length_hex_encode mult_is_0 zero_neq_numeral)

lemma hex_decode_encode [simp]: "hex_decode (hex_encode bs) = Some bs"
proof (induction bs)
  case (Cons b bs)
  have "unat b < 256" by (rule byte_less_256)
  then have "unat b div 16 < 16" and "unat b mod 16 < 16" by auto
  moreover have "16 * (unat b div 16) + unat b mod 16 = unat b" by simp
  ultimately show ?case
    using Cons.IH by (simp add: hex_encode_def hex_byte_def hex_value_digit)
qed (simp add: hex_encode_def)

lemma hex_encode_inj: "hex_encode a = hex_encode b \<longleftrightarrow> a = b"
  by (metis hex_decode_encode option.inject)

lemma hex_digit_ascii: "n < 16 \<Longrightarrow> code (hex_digit n) < (0x80 :: nat)"
  by (simp add: hex_digit_def)

lemma hex_encode_ascii: "list_all (\<lambda>c. code c < (0x80 :: nat)) (hex_encode b)"
proof (induction b)
  case (Cons a b)
  have "unat a div 16 < 16" using byte_less_256 [of a] by linarith
  with Cons show ?case by (simp add: hex_encode_def hex_byte_def hex_digit_ascii)
qed (simp add: hex_encode_def)

lemma rune_error_not_ascii [simp]: "\<not> rune_error < 0x80"
  by (simp add: rune_error_def)

lemma decode2_not_ascii: "cont 0xC2 0xDF a \<Longrightarrow> \<not> fst (decode2 a rest) < 0x80"
  by (cases rest) (auto simp: cont_def)

lemma decode3_not_ascii: "cont 0xE0 0xEF a \<Longrightarrow> \<not> fst (decode3 a rest) < 0x80"
  by (cases "(a, rest)" rule: decode3.cases) (auto simp: cont_def split: if_splits)

lemma decode4_not_ascii: "cont 0xF0 0xF4 a \<Longrightarrow> \<not> fst (decode4 a rest) < 0x80"
  by (cases "(a, rest)" rule: decode4.cases) (auto simp: cont_def split: if_splits)

lemma decode_rune_ascii_iff: "fst (decode_rune (a # rest)) < 0x80 \<longleftrightarrow> a < 0x80"
  using decode2_not_ascii decode3_not_ascii decode4_not_ascii by simp

lemma decode_rune_ascii: "a < 0x80 \<Longrightarrow> decode_rune (a # rest) = (a, 1)"
  by simp

text \<open>A loop over runes that accepts ASCII runes only is the loop over the bytes.\<close>

lemma runes_ascii:
  assumes "\<And>r. P r \<Longrightarrow> r < 0x80"
  shows "list_all P (runes s) \<longleftrightarrow> list_all (\<lambda>c. P (code c)) s"
proof (induction s rule: runes.induct)
  case (1 s)
  show ?case
  proof (cases s)
    case Nil
    then show ?thesis by (simp add: runes.simps)
  next
    case (Cons c t)
    show ?thesis
    proof (cases "code c < 0x80")
      case True
      then have "rune_at s = (code c, 1)"
        using Cons by (simp add: rune_at_def)
      then show ?thesis
        using 1 Cons by (simp add: runes.simps [of "c # t"])
    next
      case False
      then have "\<not> P (code c)" using assms by blast
      moreover have "\<not> P (fst (rune_at s))"
        using False assms Cons decode_rune_ascii_iff [of "code c"]
        by (auto simp: rune_at_def simp del: decode_rune.simps)
      ultimately show ?thesis
        using Cons by (simp add: runes.simps [of "c # t"])
    qed
  qed
qed

lemma space_seqs_ends:
  "p \<in> set space_seqs \<Longrightarrow> p \<noteq> [] \<and> (code (hd p) \<le> (32 :: nat) \<or> code (hd p) \<ge> (0x80 :: nat)) \<and>
     (code (last p) \<le> (32 :: nat) \<or> code (last p) \<ge> (0x80 :: nat))"
  by (auto simp: space_seqs_def)

definition graphic :: "char \<Rightarrow> bool" where
  "graphic c \<longleftrightarrow> 32 < code c \<and> code c < (0x80 :: nat)"

lemma lead_space_graphic: "graphic c \<Longrightarrow> lead_space (c # s) = 0"
proof -
  assume g: "graphic c"
  have "\<not> HasPrefix (c # s) p" if "p \<in> set space_seqs" for p
    using space_seqs_ends [OF that] g by (cases p) (auto simp: HasPrefix_def graphic_def)
  then have "find (HasPrefix (c # s)) space_seqs = None" by (simp add: find_None_iff)
  then show ?thesis by (simp add: lead_space_def)
qed

lemma trail_space_graphic: "graphic c \<Longrightarrow> trail_space (s @ [c]) = 0"
proof -
  assume g: "graphic c"
  have "\<not> HasSuffix (s @ [c]) p" if "p \<in> set space_seqs" for p
    using space_seqs_ends [OF that] g by (cases p rule: rev_cases) (auto simp: HasSuffix_iff graphic_def)
  then have "find (HasSuffix (s @ [c])) space_seqs = None" by (simp add: find_None_iff)
  then show ?thesis by (simp add: trail_space_def)
qed

text \<open>A string that neither starts nor ends with a blank is its own trimmed form.\<close>

lemma TrimSpace_graphic:
  assumes "s \<noteq> []" and "graphic (hd s)" and "graphic (last s)"
  shows "TrimSpace s = s"
proof -
  have "lead_space s = 0" using assms lead_space_graphic [of "hd s" "tl s"] by simp
  moreover have "trail_space s = 0" using assms trail_space_graphic [of "last s" "butlast s"] by simp
  ultimately show ?thesis
    by (simp add: TrimSpace_def trim_left.simps [of s] trim_right.simps [of s])
qed

end
