(* ===== verification/GoJson.thy ===== *)
theory GoJson
  imports GoStrings
begin

text \<open>
  The part of Go's \<open>encoding/json\<close> that the service uses: \<open>Marshal\<close> of strings, unsigned numbers
  and \<open>map[string]string\<close> (keys sorted, HTML characters escaped, ill-formed UTF-8 replaced by
  \<open>\ufffd\<close>), and \<open>Unmarshal\<close> of an arbitrary document into a \<open>map[string]string\<close>. The parser is
  driven by fuel; the length of the document is always enough (\<open>pvalue_fuel\<close>). The round trip
  \<open>unmarshal_marshal\<close> holds for inputs that are well-formed UTF-8, which is what a document
  decoded by the HTTP boundary contains.
\<close>

section \<open>Encoding\<close>

abbreviation quote :: char where "quote \<equiv> CHR 0x22"
abbreviation backslash :: char where "backslash \<equiv> CHR 0x5C"

text \<open>The escapes of one ASCII byte (\<open>htmlSafeSet\<close> and the short escapes of \<open>appendString\<close>).\<close>

definition escape_ascii :: "char \<Rightarrow> string" where
  "escape_ascii c =
     (if c = quote \<or> c = backslash then [backslash, c]
      else if c = CHR 0x08 then [backslash, CHR ''b'']
      else if c = CHR 0x0C then [backslash, CHR ''f'']
      else if c = CHR 0x0A then [backslash, CHR ''n'']
      else if c = CHR 0x0D then [backslash, CHR ''r'']
      else if c = CHR 0x09 then [backslash, CHR ''t'']
      else if code c < 32 \<or> c = CHR ''<'' \<or> c = CHR ''>'' \<or> c = CHR ''&''
      then [backslash, CHR ''u'', CHR ''0'', CHR ''0'',
            hex_digit (code c div 16), hex_digit (code c mod 16)]
      else [c])"

definition bad_rune :: "nat \<times> nat \<Rightarrow> bool" where
  "bad_rune rw \<longleftrightarrow> rw = (rune_error, 1)"

function quote_body :: "string \<Rightarrow> string" where
  "quote_body s =
     (case s of [] \<Rightarrow> []
      | c # t \<Rightarrow>
          if code c < 0x80 then escape_ascii c @ quote_body t
          else (let rw = rune_at s; w = max 1 (snd rw) in
            (if bad_rune rw then [backslash] @ ''ufffd''
             else if fst rw = 0x2028 \<or> fst rw = 0x2029
             then [backslash] @ ''u202'' @ [hex_digit (fst rw mod 16)]
             else take w s) @ quote_body (drop w s)))"
  by pat_completeness auto
termination by (relation "measure length") (auto simp: Let_def)

declare quote_body.simps [simp del]

definition json_string :: "string \<Rightarrow> string" where
  "json_string s = quote # quote_body s @ [quote]"

definition digit :: "nat \<Rightarrow> char" where
  "digit n = char_of (48 + n)"

function json_nat :: "nat \<Rightarrow> string" where
  "json_nat n = (if n < 10 then [digit n] else json_nat (n div 10) @ [digit (n mod 10)])"
  by pat_completeness auto
termination by (relation "measure id") auto

declare json_nat.simps [simp del]

definition json_member :: "string \<times> string \<Rightarrow> string" where
  "json_member kv = json_string (fst kv) @ '':'' @ json_string (snd kv)"

fun json_members :: "(string \<times> string) list \<Rightarrow> string" where
  "json_members [] = []"
| "json_members [kv] = json_member kv"
| "json_members (kv # kvs) = json_member kv @ '','' @ json_members kvs"

text \<open>\<open>json.Marshal\<close> of a non-nil \<open>map[string]string\<close>.\<close>

definition marshal_inputs :: "(string, string) gomap \<Rightarrow> string" where
  "marshal_inputs m = ''{'' @ json_members (sort_key fst m) @ ''}''"

section \<open>Decoding\<close>

definition surrogate :: "nat \<Rightarrow> bool" where
  "surrogate r \<longleftrightarrow> 0xD800 \<le> r \<and> r < 0xE000"

text \<open>\<open>utf8.AppendRune\<close>.\<close>

definition encode_rune :: "nat \<Rightarrow> nat list" where
  "encode_rune r =
     (if r < 0x80 then [r]
      else if r < 0x800 then [0xC0 + r div 64, 0x80 + r mod 64]
      else if surrogate r \<or> 0x10FFFF < r then [0xEF, 0xBF, 0xBD]
      else if r < 0x10000 then [0xE0 + r div 4096, 0x80 + r div 64 mod 64, 0x80 + r mod 64]
      else [0xF0 + r div 262144, 0x80 + r div 4096 mod 64, 0x80 + r div 64 mod 64, 0x80 + r mod 64])"

definition rune_string :: "nat \<Rightarrow> string" where
  "rune_string r = map char_of (encode_rune r)"

definition simple_escape :: "char \<Rightarrow> char option" where
  "simple_escape e =
     (if e = quote \<or> e = backslash \<or> e = CHR ''/'' then Some e
      else if e = CHR ''b'' then Some (CHR 0x08)
      else if e = CHR ''f'' then Some (CHR 0x0C)
      else if e = CHR ''n'' then Some (CHR 0x0A)
      else if e = CHR ''r'' then Some (CHR 0x0D)
      else if e = CHR ''t'' then Some (CHR 0x09)
      else None)"

fun hex4 :: "string \<Rightarrow> nat option" where
  "hex4 (a # b # c # d # _) =
     (case (hex_value a, hex_value b, hex_value c, hex_value d) of
        (Some w, Some x, Some y, Some z) \<Rightarrow> Some (((w * 16 + x) * 16 + y) * 16 + z)
      | _ \<Rightarrow> None)"
| "hex4 _ = None"

text \<open>The second half of a surrogate pair, if it follows as another \<open>\u\<close> escape.\<close>

definition low_surrogate :: "string \<Rightarrow> nat option" where
  "low_surrogate s =
     (if take 2 s = [backslash, CHR ''u'']
      then (case hex4 (drop 2 s) of
              Some r \<Rightarrow> if 0xDC00 \<le> r \<and> r < 0xE000 then Some r else None
            | None \<Rightarrow> None)
      else None)"

definition prepend :: "string \<Rightarrow> (string \<times> string) option \<Rightarrow> (string \<times> string) option" where
  "prepend p r = map_option (\<lambda>(x, rest). (p @ x, rest)) r"

text \<open>The rest of a string literal after its opening quote: its value and what follows it.\<close>

function unquote :: "string \<Rightarrow> (string \<times> string) option" where
  "unquote s =
     (case s of [] \<Rightarrow> None
      | c # t \<Rightarrow>
          if c = quote then Some ([], t)
          else if c = backslash then
            (case t of [] \<Rightarrow> None
             | e # u \<Rightarrow>
                (case simple_escape e of
                   Some d \<Rightarrow> prepend [d] (unquote u)
                 | None \<Rightarrow>
                    if e \<noteq> CHR ''u'' then None
                    else (case hex4 u of
                        None \<Rightarrow> None
                      | Some r \<Rightarrow>
                          (case (if 0xD800 \<le> r \<and> r < 0xDC00 then low_surrogate (drop 4 u) else None) of
                             Some l \<Rightarrow> prepend (rune_string (0x10000 + (r - 0xD800) * 1024 + (l - 0xDC00)))
                                         (unquote (drop 10 u))
                           | None \<Rightarrow> prepend (rune_string r) (unquote (drop 4 u))))))
          else if code c < 32 then None
          else if code c < 0x80 then prepend [c] (unquote t)
          else (let rw = rune_at s; w = max 1 (snd rw) in
                prepend (if bad_rune rw then rune_string rune_error else take w s)
                  (unquote (drop w s))))"
  by pat_completeness auto
termination by (relation "measure length") (auto simp: Let_def)

declare unquote.simps [simp del]

datatype json =
    JNull
  | JBool bool
  | JNumber string
  | JString string
  | JArray "json list"
  | JObject "(string \<times> json) list"

definition json_space :: "char \<Rightarrow> bool" where
  "json_space c \<longleftrightarrow> c = CHR '' '' \<or> c = CHR 0x09 \<or> c = CHR 0x0A \<or> c = CHR 0x0D"

definition skip_ws :: "string \<Rightarrow> string" where
  "skip_ws s = dropWhile json_space s"

definition is_digit :: "char \<Rightarrow> bool" where
  "is_digit c \<longleftrightarrow> 48 \<le> code c \<and> code c \<le> 57"

text \<open>The longest number literal at the head of the input.\<close>

definition int_part :: "string \<Rightarrow> (string \<times> string) option" where
  "int_part s =
     (case s of [] \<Rightarrow> None
      | c # t \<Rightarrow> if c = CHR ''0'' then Some ([c], t)
                else if is_digit c then Some (takeWhile is_digit s, dropWhile is_digit s)
                else None)"

definition digits1 :: "string \<Rightarrow> (string \<times> string) option" where
  "digits1 s = (if takeWhile is_digit s = [] then None
                else Some (takeWhile is_digit s, dropWhile is_digit s))"

definition frac_part :: "string \<Rightarrow> (string \<times> string) option" where
  "frac_part s =
     (case s of CHR ''.'' # t \<Rightarrow> prepend ''.'' (digits1 t) | _ \<Rightarrow> Some ([], s))"

definition exp_part :: "string \<Rightarrow> (string \<times> string) option" where
  "exp_part s =
     (case s of [] \<Rightarrow> Some ([], s)
      | e # t \<Rightarrow>
          if e = CHR ''e'' \<or> e = CHR ''E''
          then (case t of [] \<Rightarrow> None
                | g # u \<Rightarrow> if g = CHR ''+'' \<or> g = CHR ''-'' then prepend [e, g] (digits1 u)
                          else prepend [e] (digits1 t))
          else Some ([], s))"

definition pnumber :: "string \<Rightarrow> (string \<times> string) option" where
  "pnumber s =
     (let (sign, t) = (case s of CHR ''-'' # u \<Rightarrow> (''-'', u) | _ \<Rightarrow> ([], s)) in
      case int_part t of None \<Rightarrow> None
      | Some (i, u) \<Rightarrow>
          (case frac_part u of None \<Rightarrow> None
           | Some (f, v) \<Rightarrow>
               (case exp_part v of None \<Rightarrow> None
                | Some (e, r) \<Rightarrow> Some (sign @ i @ f @ e, r))))"

definition literal :: "string \<Rightarrow> json \<Rightarrow> string \<Rightarrow> (json \<times> string) option" where
  "literal word v s = (if HasPrefix s word then Some (v, drop (length word) s) else None)"

definition max_depth :: nat where "max_depth = 10000"

fun pvalue :: "nat \<Rightarrow> nat \<Rightarrow> string \<Rightarrow> (json \<times> string) option"
and pelems :: "nat \<Rightarrow> nat \<Rightarrow> string \<Rightarrow> (json list \<times> string) option"
and pmembers :: "nat \<Rightarrow> nat \<Rightarrow> string \<Rightarrow> ((string \<times> json) list \<times> string) option" where
  "pvalue 0 d s = None"
| "pvalue (Suc n) d s =
     (case skip_ws s of [] \<Rightarrow> None
      | c # t \<Rightarrow>
          if c = quote then map_option (\<lambda>(x, r). (JString x, r)) (unquote t)
          else if c = CHR ''{'' then
            (if max_depth \<le> d then None
             else if HasPrefix (skip_ws t) ''}'' then Some (JObject [], tl (skip_ws t))
             else map_option (\<lambda>(x, r). (JObject x, r)) (pmembers n (Suc d) t))
          else if c = CHR ''['' then
            (if max_depth \<le> d then None
             else if HasPrefix (skip_ws t) '']'' then Some (JArray [], tl (skip_ws t))
             else map_option (\<lambda>(x, r). (JArray x, r)) (pelems n (Suc d) t))
          else if c = CHR ''t'' then literal ''true'' (JBool True) (c # t)
          else if c = CHR ''f'' then literal ''false'' (JBool False) (c # t)
          else if c = CHR ''n'' then literal ''null'' JNull (c # t)
          else map_option (\<lambda>(x, r). (JNumber x, r)) (pnumber (c # t)))"
| "pelems 0 d s = None"
| "pelems (Suc n) d s =
     (case pvalue n d s of None \<Rightarrow> None
      | Some (v, r) \<Rightarrow>
          (case skip_ws r of [] \<Rightarrow> None
           | c # u \<Rightarrow>
               if c = CHR '']'' then Some ([v], u)
               else if c = CHR '','' then map_option (\<lambda>(vs, q). (v # vs, q)) (pelems n d u)
               else None))"
| "pmembers 0 d s = None"
| "pmembers (Suc n) d s =
     (case skip_ws s of [] \<Rightarrow> None
      | c # t \<Rightarrow>
          if c \<noteq> quote then None
          else (case unquote t of None \<Rightarrow> None
            | Some (k, r) \<Rightarrow>
                (case skip_ws r of [] \<Rightarrow> None
                 | e # u \<Rightarrow>
                     if e \<noteq> CHR '':'' then None
                     else (case pvalue n d u of None \<Rightarrow> None
                       | Some (v, q) \<Rightarrow>
                           (case skip_ws q of [] \<Rightarrow> None
                            | f # w \<Rightarrow>
                                if f = CHR ''}'' then Some ([(k, v)], w)
                                else if f = CHR '','' then
                                  map_option (\<lambda>(kvs, z). ((k, v) # kvs, z)) (pmembers n d w)
                                else None)))))"

definition parse_json :: "string \<Rightarrow> json option" where
  "parse_json s =
     (case pvalue (2 * length s + 2) 0 s of
        Some (v, r) \<Rightarrow> if skip_ws r = [] then Some v else None
      | None \<Rightarrow> None)"

text \<open>
  Storing into a \<open>map[string]string\<close>: a null element leaves the zero value, any other kind than
  a string is a type error, which \<open>Unmarshal\<close> returns.
\<close>

fun store_members :: "(string \<times> json) list \<Rightarrow> (string, string) gomap \<Rightarrow> (string, string) gomap option"
  where
  "store_members [] m = Some m"
| "store_members ((k, v) # kvs) m =
     (case v of JString x \<Rightarrow> store_members kvs (mput k x m)
      | JNull \<Rightarrow> store_members kvs (mput k [] m)
      | _ \<Rightarrow> None)"

definition unmarshal_inputs :: "string \<Rightarrow> (string, string) gomap option" where
  "unmarshal_inputs s =
     (case parse_json s of
        Some JNull \<Rightarrow> Some []
      | Some (JObject kvs) \<Rightarrow> store_members kvs []
      | _ \<Rightarrow> None)"

text \<open>\<open>utf8.ValidString\<close>.\<close>

function valid_utf8 :: "string \<Rightarrow> bool" where
  "valid_utf8 s \<longleftrightarrow>
     (if s = [] then True
      else \<not> bad_rune (rune_at s) \<and> valid_utf8 (drop (max 1 (snd (rune_at s))) s))"
  by pat_completeness auto
termination by (relation "measure length") auto

declare valid_utf8.simps [simp del]

lemma valid_utf8_Nil [simp]: "valid_utf8 []"
  by (simp add: valid_utf8.simps)

lemma valid_utf8_ascii: "list_all (\<lambda>c. code c < 0x80) s \<Longrightarrow> valid_utf8 s"
proof (induction s)
  case (Cons c s)
  then have "rune_at (c # s) = (code c, 1)"
    by (simp add: rune_at_def)
  with Cons show ?case
    by (simp add: valid_utf8.simps [of "c # s"] bad_rune_def rune_error_def)
qed simp

lemma valid_utf8_hex [simp]: "valid_utf8 (hex_encode b)"
  by (rule valid_utf8_ascii) (rule hex_encode_ascii)

section \<open>String literals round trip\<close>

lemma decode2_prefix:
  "cont 0xC2 0xDF a \<Longrightarrow> decode2 a rest = (r, w) \<Longrightarrow> \<not> bad_rune (r, w) \<Longrightarrow>
   w = 2 \<and> 1 \<le> length rest \<and> decode2 a (take 1 rest @ X) = (r, w)"
  by (cases rest) (auto simp: bad_rune_def split: if_splits)

lemma decode3_prefix:
  "cont 0xE0 0xEF a \<Longrightarrow> decode3 a rest = (r, w) \<Longrightarrow> \<not> bad_rune (r, w) \<Longrightarrow>
   w = 3 \<and> 2 \<le> length rest \<and> decode3 a (take 2 rest @ X) = (r, w)"
  by (cases "(a, rest)" rule: decode3.cases) (auto simp: bad_rune_def split: if_splits)

lemma decode4_prefix:
  "cont 0xF0 0xF4 a \<Longrightarrow> decode4 a rest = (r, w) \<Longrightarrow> \<not> bad_rune (r, w) \<Longrightarrow>
   w = 4 \<and> 3 \<le> length rest \<and> decode4 a (take 3 rest @ X) = (r, w)"
  by (cases "(a, rest)" rule: decode4.cases)
    (auto simp: bad_rune_def split: if_splits)

lemma decode_rune_prefix:
  assumes "decode_rune (a # rest) = (r, w)" and "\<not> bad_rune (r, w)" and "\<not> a < 0x80"
  shows "2 \<le> w \<and> w \<le> 4 \<and> w \<le> Suc (length rest) \<and> decode_rune (a # take (w - 1) rest @ X) = (r, w)"
proof -
  consider "cont 0xC2 0xDF a" | "\<not> cont 0xC2 0xDF a" "cont 0xE0 0xEF a"
    | "\<not> cont 0xC2 0xDF a" "\<not> cont 0xE0 0xEF a" "cont 0xF0 0xF4 a"
    using assms by (auto simp: bad_rune_def split: if_splits)
  then show ?thesis
  proof cases
    case 1 then show ?thesis using assms decode2_prefix [of a rest r w X] by auto
  next
    case 2 then show ?thesis using assms decode3_prefix [of a rest r w X] by auto
  next
    case 3 then show ?thesis using assms decode4_prefix [of a rest r w X] by auto
  qed
qed

lemma rune_at_prefix:
  assumes "rune_at s = (r, w)" and "\<not> bad_rune (r, w)" and "s = c # t" and "\<not> code c < 0x80"
  shows "2 \<le> w \<and> w \<le> length s \<and> rune_at (take w s @ X) = (r, w)"
proof -
  have d: "decode_rune (code c # map code (take 3 t)) = (r, w)"
    using assms by (simp add: rune_at_def)
  from decode_rune_prefix [OF d assms(2,4), of "map code (take (4 - w) X)"]
  have w: "2 \<le> w" "w \<le> 4" "w \<le> length s"
    and e: "decode_rune (code c # take (w - 1) (map code (take 3 t)) @ map code (take (4 - w) X)) = (r, w)"
    using assms(3) by auto
  have "map code (take 4 (take w s @ X)) =
      code c # take (w - 1) (map code (take 3 t)) @ map code (take (4 - w) X)"
    using w assms(3) by (cases w) (auto simp: take_map min_def)
  with e show ?thesis using w by (simp add: rune_at_def)
qed

lemma decode2_bound: "cont 0xC2 0xDF a \<Longrightarrow> fst (decode2 a rest) < 0x800 \<or> fst (decode2 a rest) = rune_error"
  by (cases rest) (auto simp: cont_def)

lemma separator_arith:
  assumes "(x::nat) * 4096 + y * 64 + z = r" and "r = 0x2028 \<or> r = 0x2029" and "y < 64" and "z < 64"
  shows "x = 2 \<and> y = 0 \<and> z = r - 0x2000"
proof -
  have r: "8232 \<le> r" "r \<le> 8233" using assms(2) by auto
  have "\<not> x \<le> 1" and "\<not> 3 \<le> x" using assms r by linarith+
  then have x: "x = 2" by linarith
  then have "\<not> 1 \<le> y" using assms r by linarith
  then show ?thesis using x assms(1) by simp
qed

lemma decode3_separator:
  assumes "fst (decode3 a rest) = r" and "r = 0x2028 \<or> r = 0x2029" and "cont 0xE0 0xEF a"
  shows "snd (decode3 a rest) = 3 \<and> take 3 (a # rest) = [0xE2, 0x80, r - 0x2028 + 0xA8]"
proof (cases "(a, rest)" rule: decode3.cases)
  case (1 a' b c rest')
  with assms have "cont (if a = 0xE0 then 0xA0 else 0x80) (if a = 0xED then 0x9F else 0xBF) b"
      "cont 0x80 0xBF c" "(a - 0xE0) * 4096 + (b - 0x80) * 64 + (c - 0x80) = r"
    by (auto simp: rune_error_def split: if_splits)
  moreover from this have "0x80 \<le> b" "0x80 \<le> c" "b - 0x80 < 64" "c - 0x80 < 64"
    by (auto simp: cont_def split: if_splits)
  moreover from this have "a = 0xE2 \<and> b = 0x80 \<and> c = r - 0x2028 + 0xA8"
    using separator_arith [of "a - 0xE0" "b - 0x80" "c - 0x80" r] assms(2) calculation(3) by auto
  ultimately show ?thesis using 1 by (auto simp: cont_def)
qed (use assms in \<open>auto simp: rune_error_def\<close>)

lemma decode4_bound: "cont 0xF0 0xF4 a \<Longrightarrow> 0x10000 \<le> fst (decode4 a rest) \<or> fst (decode4 a rest) = rune_error"
  by (cases "(a, rest)" rule: decode4.cases) (auto simp: cont_def split: if_splits)

lemma decode_rune_separator:
  assumes "fst (decode_rune bs) = r" and "r = 0x2028 \<or> r = 0x2029"
  shows "snd (decode_rune bs) = 3 \<and> take 3 bs = [0xE2, 0x80, r - 0x2028 + 0xA8]"
proof (cases bs)
  case Nil
  with assms show ?thesis by (auto simp: rune_error_def)
next
  case (Cons a rest)
  with assms decode2_bound [of a rest] decode4_bound [of a rest]
  have "\<not> a < 0x80" "\<not> cont 0xC2 0xDF a" "cont 0xE0 0xEF a"
    by (auto simp: rune_error_def split: if_splits)
  with Cons assms decode3_separator [of a rest r] show ?thesis by auto
qed

lemma separator_bytes:
  assumes "rune_at s = (r, w)" and "r = 0x2028 \<or> r = 0x2029"
  shows "take w s = rune_string r"
proof -
  have "w = 3" and t: "take 3 (map code (take 4 s)) = [0xE2, 0x80, r - 0x2028 + 0xA8]"
    using decode_rune_separator [of "map code (take 4 s)" r] assms by (auto simp: rune_at_def)
  have "map char_of (take 3 (map code (take 4 s))) = take 3 s"
    by (simp add: take_map o_def)
  with t \<open>w = 3\<close> assms(2) show ?thesis
    by (auto simp: rune_string_def encode_rune_def surrogate_def)
qed

lemma hex4_escape:
  "code c < 0x80 \<Longrightarrow>
   hex4 (CHR ''0'' # CHR ''0'' # hex_digit (code c div 16) # hex_digit (code c mod 16) # rest) = Some (code c)"
  by (simp add: hex_value_digit) (simp add: hex_value_def)

lemma unquote_unicode:
  assumes "hex4 u = Some r" and "\<not> surrogate r"
  shows "unquote (backslash # CHR ''u'' # u) = prepend (rune_string r) (unquote (drop 4 u))"
  using assms by (subst unquote.simps) (auto simp: simple_escape_def surrogate_def)

lemma unquote_simple:
  "simple_escape e = Some d \<Longrightarrow> unquote (backslash # e # u) = prepend [d] (unquote u)"
  by (subst unquote.simps) simp

lemma rune_string_ascii: "code c < 0x80 \<Longrightarrow> rune_string (code c) = [c]"
  by (simp add: rune_string_def encode_rune_def)

lemma unquote_escape_ascii:
  assumes "code c < 0x80"
  shows "unquote (escape_ascii c @ rest) = prepend [c] (unquote rest)"
proof -
  have "(\<exists>e. escape_ascii c = [backslash, e] \<and> simple_escape e = Some c) \<or>
      escape_ascii c = [backslash, CHR ''u'', CHR ''0'', CHR ''0'',
            hex_digit (code c div 16), hex_digit (code c mod 16)] \<or>
      (escape_ascii c = [c] \<and> c \<noteq> quote \<and> c \<noteq> backslash \<and> \<not> code c < 32)"
    by (simp add: escape_ascii_def simple_escape_def)
  then consider (simple) e where "escape_ascii c = [backslash, e]" "simple_escape e = Some c"
    | (unicode) "escape_ascii c = [backslash, CHR ''u'', CHR ''0'', CHR ''0'',
            hex_digit (code c div 16), hex_digit (code c mod 16)]"
    | (plain) "escape_ascii c = [c]" "c \<noteq> quote" "c \<noteq> backslash" "\<not> code c < 32"
    by blast
  then show ?thesis
  proof cases
    case simple
    then show ?thesis by (simp add: unquote_simple)
  next
    case unicode
    then show ?thesis using assms
      by (simp add: unquote_unicode [OF hex4_escape] surrogate_def rune_string_ascii)
  next
    case plain
    then show ?thesis using assms by (simp add: unquote.simps [of "c # rest"])
  qed
qed

lemma unquote_multibyte:
  assumes "rune_at s = (r, w)" and "\<not> bad_rune (r, w)" and "s = c # t" and "\<not> code c < 0x80"
  shows "unquote (take w s @ X) = prepend (take w s) (unquote X)"
proof -
  from rune_at_prefix [OF assms, of X] have w: "2 \<le> w" "w \<le> length s"
    and ra: "rune_at (take w s @ X) = (r, w)" by auto
  then obtain t' where t': "take w s @ X = c # t'"
    using assms(3) by (cases w) auto
  have c: "c \<noteq> quote" "c \<noteq> backslash" "\<not> code c < 32"
    using assms(4) by auto
  have "unquote (take w s @ X) = prepend (take w (take w s @ X)) (unquote (drop w (take w s @ X)))"
    using c assms(2,4) w ra t' by (subst t', subst unquote.simps) (simp add: Let_def max_def)
  with w show ?thesis by simp
qed

lemma unquote_separator:
  assumes "r = 0x2028 \<or> r = 0x2029"
  shows "unquote ([backslash] @ ''u202'' @ [hex_digit (r mod 16)] @ X) = prepend (rune_string r) (unquote X)"
proof -
  have "hex4 (''202'' @ [hex_digit (r mod 16)] @ X) = Some r"
    using assms by (auto simp: hex_value_digit) (auto simp: hex_value_def)
  moreover have "\<not> surrogate r" using assms by (auto simp: surrogate_def)
  ultimately show ?thesis using unquote_unicode [of "''202'' @ [hex_digit (r mod 16)] @ X" r] by simp
qed

lemma prepend_prepend: "prepend p (prepend q r) = prepend (p @ q) r"
  by (cases r) (auto simp: prepend_def)

lemma unquote_quote_body:
  "valid_utf8 s \<Longrightarrow> unquote (quote_body s @ quote # rest) = Some (s, rest)"
proof (induction s rule: valid_utf8.induct)
  case (1 s)
  show ?case
  proof (cases s)
    case Nil
    then show ?thesis by (simp add: quote_body.simps unquote.simps [of "quote # rest"])
  next
    case (Cons c t)
    obtain r w where rw: "rune_at s = (r, w)" by fastforce
    have v: "\<not> bad_rune (r, w)" "valid_utf8 (drop (max 1 w) s)"
      using "1.prems" Cons rw by (simp_all add: valid_utf8.simps [of "c # t"])
    have IH: "unquote (quote_body (drop (max 1 w) s) @ quote # rest) = Some (drop (max 1 w) s, rest)"
      using "1.IH" v Cons rw by simp
    show ?thesis
    proof (cases "code c < 0x80")
      case True
      then have "w = 1" using rw Cons by (simp add: rune_at_def)
      then show ?thesis using IH True Cons
        by (simp add: quote_body.simps [of "c # t"] unquote_escape_ascii prepend_def)
    next
      case False
      from rune_at_prefix [OF rw v(1) Cons False, of "[]"] have w: "2 \<le> w" "max 1 w = w" by auto
      let ?q = "quote_body (drop w s) @ quote # rest"
      have "unquote (quote_body s @ quote # rest) = prepend (take w s) (unquote ?q)"
      proof (cases "r = 0x2028 \<or> r = 0x2029")
        case True
        then show ?thesis
          using unquote_separator [of r ?q] separator_bytes [OF rw] v(1) rw False Cons w
          by (auto simp: quote_body.simps [of "c # t"] Let_def)
      next
        case other: False
        then show ?thesis
          using unquote_multibyte [OF rw v(1) Cons False, of ?q] v(1) rw False Cons w
          by (simp add: quote_body.simps [of "c # t"] Let_def)
      qed
      then show ?thesis using IH w by (simp add: prepend_def)
    qed
  qed
qed

lemma skip_ws_nonspace [simp]: "\<not> json_space c \<Longrightarrow> skip_ws (c # s) = c # s"
  by (simp add: skip_ws_def)

lemma not_json_space [simp]:
  "\<not> json_space quote" "\<not> json_space (CHR '':'')" "\<not> json_space (CHR '','')"
  "\<not> json_space (CHR ''{'')" "\<not> json_space (CHR ''}'')"
  by (simp_all add: json_space_def)

lemma pvalue_json_string:
  "valid_utf8 s \<Longrightarrow> pvalue (Suc n) d (json_string s @ rest) = Some (JString s, rest)"
  by (simp add: json_string_def unquote_quote_body)

lemma pmembers_json_members:
  assumes "kvs \<noteq> []" and "\<And>k v. (k, v) \<in> set kvs \<Longrightarrow> valid_utf8 k \<and> valid_utf8 v"
    and "2 * length kvs \<le> n"
  shows "pmembers n d (json_members kvs @ CHR ''}'' # rest) = Some (map (apsnd JString) kvs, rest)"
  using assms
proof (induction kvs arbitrary: n rule: json_members.induct)
  case (2 kv)
  obtain k v where kv: "kv = (k, v)" by fastforce
  from 2 obtain m where n: "n = Suc (Suc m)"
    by (cases n; cases "n - 1") auto
  have "valid_utf8 k" "valid_utf8 v" using "2.prems" kv by auto
  then show ?case
    using unquote_quote_body [of k] pvalue_json_string [of v m d]
    by (simp add: n kv json_member_def json_string_def)
next
  case (3 kv kv' kvs)
  obtain k v where kv: "kv = (k, v)" by fastforce
  from 3 obtain m where n: "n = Suc (Suc m)" by (cases n; cases "n - 1") auto
  have "valid_utf8 k" "valid_utf8 v" using "3.prems" kv by auto
  moreover have "pmembers (Suc m) d (json_members (kv' # kvs) @ CHR ''}'' # rest) =
      Some (map (apsnd JString) (kv' # kvs), rest)"
    using "3.prems" n by (intro "3.IH") auto
  ultimately show ?case
    using unquote_quote_body [of k] pvalue_json_string [of v m d]
    by (simp add: n kv json_member_def json_string_def)
qed simp

lemma length_json_members: "2 * length kvs \<le> length (json_members kvs)"
  by (induction kvs rule: json_members.induct) (auto simp: json_member_def json_string_def)

lemma mput_new: "k \<notin> fst ` set m \<Longrightarrow> mput k v m = m @ [(k, v)]"
  by (induction m) auto

lemma store_members_strings:
  "distinct (map fst (m @ kvs)) \<Longrightarrow> store_members (map (apsnd JString) kvs) m = Some (m @ kvs)"
proof (induction kvs arbitrary: m)
  case (Cons kv kvs)
  obtain k v where kv: "kv = (k, v)" by fastforce
  with Cons.prems have "k \<notin> fst ` set m" by force
  with Cons kv show ?case by (simp add: mput_new)
qed simp

lemma distinct_sort_key: "distinct (map fst m) \<Longrightarrow> distinct (map fst (sort_key f m))"
  by (metis distinct_map distinct_sort set_sort)

lemma sort_key_map_of: "distinct (map fst m) \<Longrightarrow> map_of (sort_key f m) = map_of m"
  by (intro map_of_inject_set [THEN iffD2]) (auto simp: distinct_sort_key)

lemma unmarshal_marshal:
  assumes "wf_map m" and "\<And>k v. (k, v) \<in> set m \<Longrightarrow> valid_utf8 k \<and> valid_utf8 v"
  shows "unmarshal_inputs (marshal_inputs m) = Some (sort_key fst m)"
proof -
  let ?kvs = "sort_key fst m"
  have d: "distinct (map fst ?kvs)"
    using assms(1) by (simp add: wf_map_def distinct_sort_key)
  have "parse_json (marshal_inputs m) = Some (JObject (map (apsnd JString) ?kvs))"
  proof (cases "?kvs = []")
    case True
    then have "marshal_inputs m = ''{}''" by (simp add: marshal_inputs_def)
    then show ?thesis using True
      by (simp add: parse_json_def max_depth_def HasPrefix_def numeral_eq_Suc) (simp add: skip_ws_def)
  next
    case False
    have "\<not> HasPrefix (skip_ws (json_members ?kvs @ ''}'')) ''}''"
      using False by (cases ?kvs rule: json_members.cases)
        (auto simp: json_member_def json_string_def HasPrefix_def)
    moreover have "pmembers (2 * length (json_members ?kvs) + 5) (Suc 0) (json_members ?kvs @ CHR ''}'' # []) =
        Some (map (apsnd JString) ?kvs, [])"
      using False assms(2) length_json_members [of ?kvs]
      by (intro pmembers_json_members) auto
    ultimately show ?thesis
      by (simp add: parse_json_def marshal_inputs_def max_depth_def numeral_eq_Suc) (simp add: skip_ws_def)
  qed
  with d show ?thesis
    using store_members_strings [of "[]" ?kvs] by (simp add: unmarshal_inputs_def)
qed

section \<open>Fuel\<close>

lemma prependD: "prepend p r = Some (x, rest) \<Longrightarrow> \<exists>y. r = Some (y, rest)"
  by (auto simp: prepend_def)

lemma unquote_step:
  assumes "unquote s = Some (x, r)"
  shows "\<exists>c t. s = c # t \<and> (r = t \<or> (\<exists>u y. unquote u = Some (y, r) \<and> length u \<le> length t))"
proof (cases s)
  case Nil
  with assms show ?thesis by (simp add: unquote.simps)
next
  case (Cons c t)
  have "length (drop (max (Suc 0) w) s) \<le> length t" for w
    using Cons by simp
  then show ?thesis
    using assms unfolding Cons unquote.simps [of "c # t"]
    by (fastforce simp: Let_def dest!: prependD split: if_splits list.splits option.splits)
qed

lemma unquote_shorter: "unquote s = Some (x, r) \<Longrightarrow> length r < length s"
proof (induction s arbitrary: x rule: length_induct)
  case (1 s)
  from unquote_step [OF "1.prems"] obtain c t where s: "s = c # t"
    and alt: "r = t \<or> (\<exists>u y. unquote u = Some (y, r) \<and> length u \<le> length t)" by blast
  from alt show ?case
  proof
    assume "\<exists>u y. unquote u = Some (y, r) \<and> length u \<le> length t"
    then obtain u y where "unquote u = Some (y, r)" "length u \<le> length t" by blast
    moreover from this s have "length r < length u" using 1 by simp
    ultimately show ?thesis using s by simp
  qed (simp add: s)
qed

lemma length_skip_ws: "length (skip_ws s) \<le> length s"
  by (simp add: skip_ws_def length_dropWhile_le)

lemma digits1_shorter: "digits1 s = Some (x, r) \<Longrightarrow> length r \<le> length s"
  by (auto simp: digits1_def length_dropWhile_le split: if_splits)

lemma int_part_shorter: "int_part s = Some (x, r) \<Longrightarrow> length r < length s"
  by (cases s) (auto simp: int_part_def is_digit_def le_imp_less_Suc length_dropWhile_le split: if_splits)

lemma frac_part_shorter: "frac_part s = Some (x, r) \<Longrightarrow> length r \<le> length s"
  by (cases s)
    (auto simp: frac_part_def le_Suc_eq dest!: prependD digits1_shorter split: char.splits bool.splits)

lemma exp_part_shorter: "exp_part s = Some (x, r) \<Longrightarrow> length r \<le> length s"
  by (cases s)
    (auto simp: exp_part_def split: list.splits if_splits dest!: prependD dest: digits1_shorter)

lemma pnumber_shorter: "pnumber s = Some (x, r) \<Longrightarrow> length r < length s"
proof -
  assume p: "pnumber s = Some (x, r)"
  obtain sign t where st: "(case s of CHR ''-'' # u \<Rightarrow> (''-'', u) | _ \<Rightarrow> ([], s)) = (sign, t)"
    by fastforce
  then have "length t \<le> length s"
    by (cases s) (auto split: char.splits bool.splits)
  moreover from p st obtain i u f v e where "int_part t = Some (i, u)" "frac_part u = Some (f, v)"
      "exp_part v = Some (e, r)"
    by (auto simp: pnumber_def split: option.splits)
  ultimately show ?thesis
    using int_part_shorter frac_part_shorter exp_part_shorter by (meson le_less_trans less_le_trans)
qed

lemma literal_shorter: "literal w v s = Some (x, r) \<Longrightarrow> w \<noteq> [] \<Longrightarrow> length r < length s"
  by (cases s) (auto simp: literal_def HasPrefix_def split: if_splits)

lemma scalar_le:
  "unquote t = Some (x, r) \<Longrightarrow> length r \<le> length t"
  "pnumber (c # t) = Some (x, r) \<Longrightarrow> length r \<le> length t"
  "literal w v (c # t) = Some (y, r) \<Longrightarrow> w \<noteq> [] \<Longrightarrow> length r \<le> length t"
  using unquote_shorter [of t x r] pnumber_shorter [of "c # t" x r] literal_shorter [of w v "c # t" y r]
  by simp_all

lemma skip_ws_Cons: "skip_ws s = c # t \<Longrightarrow> length t < length s"
  using length_skip_ws [of s] by simp

lemma parser_shorter:
  "(\<forall>d s v r. pvalue n d s = Some (v, r) \<longrightarrow> length r < length s) \<and>
   (\<forall>d s v r. pelems n d s = Some (v, r) \<longrightarrow> length r < length s) \<and>
   (\<forall>d s v r. pmembers n d s = Some (v, r) \<longrightarrow> length r < length s)"
proof (induction n)
  case (Suc n)
  have "length r < length s" if "pvalue (Suc n) d s = Some (v, r)" for d s v r
  proof -
    from that obtain c t where ct: "skip_ws s = c # t" by (auto split: list.splits)
    have tl: "length (tl (skip_ws t)) \<le> length t"
      using length_skip_ws [of t] by simp
    have nested: "length r \<le> length t"
      if "pelems n (Suc d) t = Some (vs, r) \<or> pmembers n (Suc d) t = Some (kvs, r)" for vs kvs
      using that Suc.IH by (meson less_imp_le)
    have "length r \<le> length t"
      using that ct tl nested scalar_le
      by (fastforce split: if_splits simp del: length_tl)
    then show ?thesis using skip_ws_Cons [OF ct] by simp
  qed
  moreover have "length r < length s" if "pelems (Suc n) d s = Some (v, r)" for d s v r
  proof -
    from that obtain x q c u where x: "pvalue n d s = Some (x, q)" "skip_ws q = c # u"
      and alt: "r = u \<or> (\<exists>ws. pelems n d u = Some (ws, r))"
      by (auto split: option.splits list.splits if_splits)
    then have "length q < length s" "length u < length q" "length r \<le> length u"
      using Suc.IH skip_ws_Cons by (blast, blast, metis less_imp_le order_refl)
    then show ?thesis by linarith
  qed
  moreover have "length r < length s" if "pmembers (Suc n) d s = Some (v, r)" for d s v r
  proof -
    from that obtain c t k q e u x p f w where *: "skip_ws s = c # t" "unquote t = Some (k, q)"
        "skip_ws q = e # u" "pvalue n d u = Some (x, p)" "skip_ws p = f # w"
      and alt: "r = w \<or> (\<exists>ws. pmembers n d w = Some (ws, r))"
      by (auto split: option.splits list.splits if_splits)
    have "length t < length s" "length q < length t" "length u < length q" "length p < length u"
        "length w < length p" "length r \<le> length w"
      using * alt Suc.IH skip_ws_Cons unquote_shorter
      by (blast, blast, blast, blast, blast, metis less_imp_le order_refl)
    then show ?thesis by linarith
  qed
  ultimately show ?case by blast
qed simp

lemma parser_fuel:
  "(\<forall>d s. 2 * length s < n \<longrightarrow> pvalue (Suc n) d s = pvalue n d s) \<and>
   (\<forall>d s. 2 * length s + 1 < n \<longrightarrow> pelems (Suc n) d s = pelems n d s) \<and>
   (\<forall>d s. 2 * length s + 1 < n \<longrightarrow> pmembers (Suc n) d s = pmembers n d s)"
proof (induction n)
  case (Suc n)
  have "pvalue (Suc (Suc n)) d s = pvalue (Suc n) d s" if "2 * length s < Suc n" for d s
  proof (cases "skip_ws s")
    case (Cons c t)
    then have "2 * length t + 1 < n" using skip_ws_Cons [OF Cons] that by linarith
    then have "pelems (Suc n) (Suc d) t = pelems n (Suc d) t" "pmembers (Suc n) (Suc d) t = pmembers n (Suc d) t"
      using Suc.IH by blast+
    then show ?thesis
      by (simp only: pvalue.simps Cons list.case)
  qed simp
  moreover have "pelems (Suc (Suc n)) d s = pelems (Suc n) d s" if "2 * length s + 1 < Suc n" for d s
  proof -
    have v: "pvalue (Suc n) d s = pvalue n d s" using Suc.IH that by simp
    have "pelems (Suc n) d u = pelems n d u" if *: "pvalue n d s = Some (x, q)" "skip_ws q = c # u" for x q c u
    proof -
      have "length q < length s" "length u < length q"
        using * parser_shorter [of n] skip_ws_Cons by blast+
      then have "2 * length u + 1 < n" using \<open>2 * length s + 1 < Suc n\<close> by linarith
      then show ?thesis using Suc.IH by blast
    qed
    then show ?thesis
      unfolding pelems.simps(2) [of "Suc n"] pelems.simps(2) [of n] v
      by (auto split: option.splits list.splits)
  qed
  moreover have "pmembers (Suc (Suc n)) d s = pmembers (Suc n) d s" if "2 * length s + 1 < Suc n" for d s
  proof -
    have *: "pvalue (Suc n) d u = pvalue n d u \<and>
        (pvalue n d u = Some (x, p) \<longrightarrow> skip_ws p = f # w \<longrightarrow> pmembers (Suc n) d w = pmembers n d w)"
      if "skip_ws s = c # t" "unquote t = Some (k, q)" "skip_ws q = e # u" for c t k q e u x p f w
    proof -
      have "length t < length s" "length q < length t" "length u < length q"
        using that skip_ws_Cons unquote_shorter by blast+
      then have "2 * length u + 1 < n" using \<open>2 * length s + 1 < Suc n\<close> by linarith
      moreover have "length w < length u" if "pvalue n d u = Some (x, p)" "skip_ws p = f # w"
        using that parser_shorter [of n] skip_ws_Cons [of p] by (meson less_trans)
      ultimately show ?thesis using Suc.IH by auto
    qed
    show ?thesis
      unfolding pmembers.simps(2) [of "Suc n"] pmembers.simps(2) [of n]
      using * by (auto split: option.splits list.splits)
  qed
  ultimately show ?case by blast
qed simp

lemma pvalue_fuel: "2 * length s < n \<Longrightarrow> pvalue n d s = pvalue (Suc (2 * length s)) d s"
proof (induction n)
  case (Suc n)
  show ?case
  proof (cases "2 * length s < n")
    case True
    then show ?thesis using Suc.IH parser_fuel [of n] by metis
  next
    case False
    with Suc.prems have "n = 2 * length s" by simp
    then show ?thesis by simp
  qed
qed simp

section \<open>Encodings are injective\<close>

definition digits_val :: "string \<Rightarrow> nat" where
  "digits_val s = foldl (\<lambda>a c. 10 * a + (code c - 48)) 0 s"

lemma is_digit_digit: "n < 10 \<Longrightarrow> is_digit (digit n)"
  by (simp add: is_digit_def digit_def)

lemma json_nat_digits: "list_all is_digit (json_nat n)"
proof (induction n rule: json_nat.induct)
  case (1 n)
  then show ?case by (subst json_nat.simps) (simp add: is_digit_digit)
qed

lemma digits_val_json_nat: "digits_val (json_nat n) = n"
proof (induction n rule: json_nat.induct)
  case (1 n)
  have d: "code (digit (n mod 10)) - 48 = n mod 10"
    by (simp add: digit_def)
  show ?case
  proof (cases "n < 10")
    case True
    then show ?thesis by (subst json_nat.simps) (simp add: digits_val_def digit_def)
  next
    case False
    with 1 d show ?thesis by (subst json_nat.simps) (simp add: digits_val_def)
  qed
qed

lemma json_nat_inj: "json_nat m = json_nat n \<longleftrightarrow> m = n"
  by (metis digits_val_json_nat)

lemma json_nat_append_inj:
  assumes "json_nat m @ c # x = json_nat n @ d # y" and "\<not> is_digit c" and "\<not> is_digit d"
  shows "m = n \<and> c = d \<and> x = y"
proof -
  have "takeWhile is_digit (json_nat k @ e # z) = json_nat k" if "\<not> is_digit e" for k e z
    using json_nat_digits [of k] that by (simp add: takeWhile_append2 list_all_iff)
  with assms have "json_nat m = json_nat n" by metis
  with assms(1) show ?thesis by (simp add: json_nat_inj)
qed

lemma json_string_append_inj:
  assumes "json_string s @ x = json_string t @ y" and "valid_utf8 s" and "valid_utf8 t"
  shows "s = t \<and> x = y"
proof -
  from assms(1) have "unquote (quote_body s @ quote # x) = unquote (quote_body t @ quote # y)"
    by (simp add: json_string_def)
  with assms(2,3) show ?thesis by (simp add: unquote_quote_body)
qed

lemma not_digit_punct [simp]: "\<not> is_digit (CHR '','')" "\<not> is_digit (CHR ''}'')"
  by (simp_all add: is_digit_def)

end
