(* ===== verification/GoTime.thy ===== *)
theory GoTime
  imports GoJson "HOL-Library.Monad_Syntax"
begin

text \<open>
  \<open>time.Time\<close> where the service prints it: an instant together with the offset of its zone, in
  minutes east of UTC, as a JSON request carries it. \<open>rfc3339\<close> is
  \<open>Format(time.RFC3339Nano)\<close>, \<open>marshal_time\<close> is \<open>Time.MarshalJSON\<close>, which refuses a year of
  more than four digits and an offset of a day or more. The calendar is the proleptic Gregorian
  one; days are counted from 1 January of year 1, the day of Go's zero time.
\<close>

record zoned =
  z_instant :: time
  z_offset :: int

abbreviation utc :: "time \<Rightarrow> zoned" where
  "utc t \<equiv> \<lparr>z_instant = t, z_offset = 0\<rparr>"

text \<open>Days of year 0 and later years are counted from 1 March, in cycles of 400 years.\<close>

definition civil_date :: "int \<Rightarrow> int \<times> int \<times> int" where
  "civil_date days =
     (let z = days + 306; era = z div 146097; doe = z mod 146097;
          yoe = (doe - doe div 1460 + doe div 36524 - doe div 146096) div 365;
          doy = doe - (365 * yoe + yoe div 4 - yoe div 100);
          mp = (5 * doy + 2) div 153;
          d = doy - (153 * mp + 2) div 5 + 1;
          m = (if mp < 10 then mp + 3 else mp - 9);
          y = yoe + era * 400 + (if m \<le> 2 then 1 else 0)
      in (y, m, d))"

definition pad :: "nat \<Rightarrow> nat \<Rightarrow> string" where
  "pad w n = (let s = json_nat n in replicate (w - length s) (CHR ''0'') @ s)"

text \<open>The fraction of a second, without trailing zeros; nothing for a whole second.\<close>

definition fraction :: "nat \<Rightarrow> string" where
  "fraction nanos =
     (if nanos = 0 then [] else ''.'' @ rev (dropWhile (\<lambda>c. c = CHR ''0'') (rev (pad 9 nanos))))"

definition zone_suffix :: "int \<Rightarrow> string" where
  "zone_suffix off =
     (if off = 0 then ''Z''
      else (if off < 0 then ''-'' else ''+'') @ pad 2 (nat (\<bar>off\<bar> div 60)) @ '':'' @ pad 2 (nat (\<bar>off\<bar> mod 60)))"

definition year_string :: "int \<Rightarrow> string" where
  "year_string y = (if y < 0 then ''-'' @ pad 4 (nat (- y)) else pad 4 (nat y))"

definition local_nanos :: "zoned \<Rightarrow> int" where
  "local_nanos t = z_instant t + z_offset t * minute"

definition local_year :: "zoned \<Rightarrow> int" where
  "local_year t = fst (civil_date (local_nanos t div (24 * hour)))"

definition rfc3339 :: "zoned \<Rightarrow> string" where
  "rfc3339 t =
     (let ns = local_nanos t; (y, m, d) = civil_date (ns div (24 * hour));
          tod = ns mod (24 * hour)
      in year_string y @ ''-'' @ pad 2 (nat m) @ ''-'' @ pad 2 (nat d) @ ''T''
         @ pad 2 (nat (tod div hour)) @ '':'' @ pad 2 (nat (tod mod hour div minute)) @ '':''
         @ pad 2 (nat (tod mod minute div second)) @ fraction (nat (tod mod second))
         @ zone_suffix (z_offset t))"

definition marshal_time :: "zoned \<Rightarrow> string option" where
  "marshal_time t =
     (if 0 \<le> local_year t \<and> local_year t \<le> 9999 \<and> \<bar>z_offset t\<bar> < 24 * 60
      then Some (''\"'' @ rfc3339 t @ ''\"'') else None)"

section \<open>Instances\<close>

lemma rfc3339_zero: "rfc3339 (utc 0) = ''0001-01-01T00:00:00Z''"
  by code_simp

lemma rfc3339_leap_day:
  "rfc3339 \<lparr>z_instant = 63844761600 * second + 20, z_offset = -90\<rparr> =
     ''2024-02-28T22:30:00.00000002-01:30''"
  by code_simp

section \<open>Parsing\<close>

text \<open>
  \<open>Time.UnmarshalJSON\<close> on the text between the quotes. Go first tries \<open>parseRFC3339\<close>, which
  accepts exactly the RFC's layout, and otherwise falls back to \<open>Parse(RFC3339, ...)\<close>, which also
  accepts an hour of one digit, a comma before the fraction and zone offsets up to 24:60.
\<close>

definition slice :: "nat \<Rightarrow> nat \<Rightarrow> string \<Rightarrow> string" where
  "slice i j s = take (j - i) (drop i s)"

definition parse_uint :: "nat \<Rightarrow> nat \<Rightarrow> string \<Rightarrow> nat option" where
  "parse_uint lo hi s =
     (if list_all is_digit s \<and> lo \<le> digits_val s \<and> digits_val s \<le> hi then Some (digits_val s) else None)"

definition is_leap :: "nat \<Rightarrow> bool" where
  "is_leap y \<longleftrightarrow> y mod 4 = 0 \<and> (y mod 100 \<noteq> 0 \<or> y mod 400 = 0)"

definition days_in :: "nat \<Rightarrow> nat \<Rightarrow> nat" where
  "days_in m y =
     (if m = 2 then if is_leap y then 29 else 28
      else if m = 4 \<or> m = 6 \<or> m = 9 \<or> m = 11 then 30 else 31)"

text \<open>Days from 1 January of year 1 to a date.\<close>

definition days_from :: "int \<Rightarrow> int \<Rightarrow> int \<Rightarrow> int" where
  "days_from y m d =
     (let y' = (if m \<le> 2 then y - 1 else y); era = y' div 400; yoe = y' mod 400;
          mp = (m + 9) mod 12; doy = (153 * mp + 2) div 5 + d - 1;
          doe = yoe * 365 + yoe div 4 - yoe div 100 + doy
      in era * 146097 + doe - 306)"

definition instant_of :: "nat \<Rightarrow> nat \<Rightarrow> nat \<Rightarrow> nat \<Rightarrow> nat \<Rightarrow> nat \<Rightarrow> nat \<Rightarrow> int \<Rightarrow> zoned" where
  "instant_of y mo d h mi s ns off =
     \<lparr>z_instant = days_from (int y) (int mo) (int d) * (24 * hour) + int h * hour + int mi * minute + int s * second
        + int ns - off * minute,
      z_offset = off\<rparr>"

text \<open>The fraction of a second after its separator: at most nine digits count.\<close>

definition nanoseconds :: "string \<Rightarrow> nat" where
  "nanoseconds ds = (let d = take 9 ds in digits_val d * 10 ^ (9 - length d))"

definition split_fraction :: "(char \<Rightarrow> bool) \<Rightarrow> string \<Rightarrow> nat \<times> string" where
  "split_fraction sep s =
     (case s of c # d # t \<Rightarrow>
        if sep c \<and> is_digit d
        then (nanoseconds (takeWhile is_digit (d # t)), dropWhile is_digit (d # t)) else (0, s)
      | _ \<Rightarrow> (0, s))"

definition parse_zone :: "nat \<Rightarrow> nat \<Rightarrow> string \<Rightarrow> int option" where
  "parse_zone hmax mmax s =
     (if s = ''Z'' then Some 0
      else if length s \<noteq> 6 \<or> s ! 3 \<noteq> CHR '':'' then None
      else (case (parse_uint 0 hmax (slice 1 3 s), parse_uint 0 mmax (slice 4 6 s)) of
              (Some hr, Some mm) \<Rightarrow>
                if s ! 0 = CHR ''+'' then Some (int (hr * 60 + mm))
                else if s ! 0 = CHR ''-'' then Some (- int (hr * 60 + mm)) else None
            | _ \<Rightarrow> None))"

definition parseRFC3339 :: "string \<Rightarrow> zoned option" where
  "parseRFC3339 s =
     (if length s < 19 then None
      else if \<not> (s ! 4 = CHR ''-'' \<and> s ! 7 = CHR ''-'' \<and> s ! 10 = CHR ''T'' \<and> s ! 13 = CHR '':'' \<and> s ! 16 = CHR '':'')
      then None
      else (case (parse_uint 0 9999 (slice 0 4 s), parse_uint 1 12 (slice 5 7 s), parse_uint 0 23 (slice 11 13 s),
                  parse_uint 0 59 (slice 14 16 s), parse_uint 0 59 (slice 17 19 s)) of
              (Some y, Some mo, Some h, Some mi, Some sec) \<Rightarrow>
                (case parse_uint 1 (days_in mo y) (slice 8 10 s) of None \<Rightarrow> None
                 | Some d \<Rightarrow>
                    (let (ns, z) = split_fraction (\<lambda>c. c = CHR ''.'') (drop 19 s)
                     in map_option (instant_of y mo d h mi sec ns) (parse_zone 23 59 z)))
            | _ \<Rightarrow> None))"

text \<open>\<open>Parse(RFC3339, ...)\<close>: the same layout read chunk by chunk.\<close>

definition digits_of :: "nat \<Rightarrow> string \<Rightarrow> (nat \<times> string) option" where
  "digits_of n s =
     (if n \<le> length s \<and> list_all is_digit (take n s) then Some (digits_val (take n s), drop n s) else None)"

definition expect :: "char \<Rightarrow> string \<Rightarrow> string option" where
  "expect c s = (case s of [] \<Rightarrow> None | d # t \<Rightarrow> if d = c then Some t else None)"

text \<open>An hour is two digits, or one when a second does not follow.\<close>

definition parse_hour :: "string \<Rightarrow> (nat \<times> string) option" where
  "parse_hour s = (case digits_of 2 s of Some r \<Rightarrow> Some r | None \<Rightarrow> digits_of 1 s)"

definition Parse_rfc3339 :: "string \<Rightarrow> zoned option" where
  "Parse_rfc3339 s =
     do { (y, s) \<leftarrow> digits_of 4 s; s \<leftarrow> expect (CHR ''-'') s;
          (mo, s) \<leftarrow> digits_of 2 s; s \<leftarrow> expect (CHR ''-'') s;
          (d, s) \<leftarrow> digits_of 2 s; s \<leftarrow> expect (CHR ''T'') s;
          (h, s) \<leftarrow> parse_hour s; s \<leftarrow> expect (CHR '':'') s;
          (mi, s) \<leftarrow> digits_of 2 s; s \<leftarrow> expect (CHR '':'') s;
          (sec, s) \<leftarrow> digits_of 2 s;
          (let (ns, s) = split_fraction (\<lambda>c. c = CHR ''.'' \<or> c = CHR '','') s in
           do { z \<leftarrow> parse_zone 24 60 s;
                if mo < 1 \<or> 12 < mo \<or> d < 1 \<or> days_in mo y < d \<or> 23 < h \<or> 59 < mi \<or> 59 < sec then None
                else Some (instant_of y mo d h mi sec ns z) }) }"

definition parse_time :: "string \<Rightarrow> zoned option" where
  "parse_time s = (case parseRFC3339 s of Some t \<Rightarrow> Some t | None \<Rightarrow> Parse_rfc3339 s)"

section \<open>Printing and parsing are inverse\<close>

lemma div_unique: "0 \<le> r \<Longrightarrow> r < n \<Longrightarrow> a = n * q + r \<Longrightarrow> a div n = (q :: int)"
  by (metis div_pos_pos_trivial add.commute div_mult_self2 order_le_less_trans order_less_irrefl add.right_neutral add_0)

text \<open>A day of a cycle of 400 years: its century, span of four years, and year.\<close>

lemma cycle_day:
  fixes doe :: int
  assumes "0 \<le> doe" "doe < 146096"
  obtains c b s j :: int where "0 \<le> c" "c < 4" "0 \<le> b" "b < 25" "0 \<le> s" "s < 1461" "b = 24 \<longrightarrow> s < 1460"
    "0 \<le> j" "j < 4" "365 * j \<le> s" "s \<le> 365 * j + 365" "s = 365 * j + 365 \<longrightarrow> s = 1460"
    "doe = 36524 * c + 1461 * b + s"
proof -
  define c r where "c = doe div 36524" and "r = doe mod 36524"
  define b s where "b = r div 1461" and "s = r mod 1461"
  have c: "0 \<le> c" "c < 4" and r: "0 \<le> r" "r < 36524" "doe = 36524 * c + r"
    using assms by (auto simp: c_def r_def)
  have b: "0 \<le> b" "b < 25" and s: "0 \<le> s" "s < 1461" "r = 1461 * b + s"
    using r by (auto simp: b_def s_def)
  have "b = 24 \<longrightarrow> s < 1460" using r s by auto
  moreover define j where "j = (if s = 1460 then 3 else s div 365)"
  have "0 \<le> j" "j < 4" "365 * j \<le> s" "s \<le> 365 * j + 365" "s = 365 * j + 365 \<longrightarrow> s = 1460"
    using s by (auto simp: j_def split: if_splits)
  ultimately show ?thesis using c r b s by (intro that [of c b s j]) simp_all
qed

lemma year_of_era:
  fixes doe :: int
  assumes "0 \<le> doe" "doe < 146097"
  defines "yoe \<equiv> (doe - doe div 1460 + doe div 36524 - doe div 146096) div 365"
  defines "doy \<equiv> doe - (365 * yoe + yoe div 4 - yoe div 100)"
  shows "0 \<le> yoe \<and> yoe < 400 \<and> 0 \<le> doy \<and> doy \<le> 365 \<and>
    (doy = 365 \<longrightarrow> (yoe + 1) mod 4 = 0 \<and> ((yoe + 1) mod 100 \<noteq> 0 \<or> (yoe + 1) mod 400 = 0))"
proof (cases "doe = 146096")
  case True
  then show ?thesis by (simp add: yoe_def doy_def)
next
  case False
  with assms(2) have "doe < 146096" by simp
  with assms(1) obtain c b s j where v: "0 \<le> c" "c < 4" "0 \<le> b" "b < 25" "0 \<le> s" "s < 1461" "b = 24 \<longrightarrow> s < 1460"
    "0 \<le> j" "j < 4" "365 * j \<le> s" "s \<le> 365 * j + 365" "s = 365 * j + 365 \<longrightarrow> s = 1460"
    and doe: "doe = 36524 * c + 1461 * b + s"
    by (rule cycle_day)
  define e :: int where "e = (if b + s + 24 * c \<ge> 1460 then 1 else 0)"
  have "doe div 36524 = c" by (rule div_unique [of "1461 * b + s"]) (use v doe in auto)
  moreover have "doe div 146096 = 0" using False assms(1,2) by auto
  moreover have "doe div 1460 = 25 * c + b + e"
    by (rule div_unique [of "b + s + 24 * c - 1460 * e"]) (use v doe in \<open>auto simp: e_def\<close>)
  ultimately have "yoe = (36500 * c + 1460 * b + s - e) div 365"
    by (simp add: yoe_def doe algebra_simps)
  also have "\<dots> = 100 * c + 4 * b + j"
    by (rule div_unique [of "s - e - 365 * j"]) (use v in \<open>auto simp: e_def\<close>)
  finally have y: "yoe = 100 * c + 4 * b + j" .
  have "yoe div 4 = 25 * c + b"
    by (rule div_unique [of j]) (use v y in auto)
  moreover have "yoe div 100 = c"
    by (rule div_unique [of "4 * b + j"]) (use v y in auto)
  ultimately have d: "doy = s - 365 * j" by (simp add: doy_def doe y)
  have "(yoe + 1) mod 4 = 0 \<and> (yoe + 1) mod 100 \<noteq> 0" if "doy = 365"
  proof -
    from that d v have "j = 3" "b < 24" by auto
    then have "yoe + 1 = 4 * (25 * c + b + 1)" "yoe + 1 = 100 * c + (4 * b + 4)" "0 < 4 * b + 4" "4 * b + 4 < 100"
      using y v by auto
    then show ?thesis by (metis mod_mult_self1_is_0 mod_mult_self4 mod_pos_pos_trivial order_less_imp_le order_less_irrefl)
  qed
  with v y d show ?thesis by auto
qed

lemma leap_era:
  fixes yoe era :: int
  assumes "0 \<le> yoe + era * 400 + 1" and "(yoe + 1) mod 4 = 0 \<and> ((yoe + 1) mod 100 \<noteq> 0 \<or> (yoe + 1) mod 400 = 0)"
  shows "is_leap (nat (yoe + era * 400 + 1))"
proof -
  have p: "int (nat (yoe + era * 400 + 1)) = yoe + 1 + 400 * era" using assms(1) by simp
  have iff: "nat (yoe + era * 400 + 1) mod n = 0 \<longleftrightarrow> (yoe + 1 + 400 * era) mod int n = 0" for n
    unfolding p [symmetric] of_nat_mod [symmetric] by simp
  have "(yoe + 1 + 400 * era) mod 4 = (yoe + 1) mod 4"
    using mod_mult_self1 [of "yoe + 1" "100 * era" 4] by (simp add: mult.commute)
  moreover have "(yoe + 1 + 400 * era) mod 100 = (yoe + 1) mod 100"
    using mod_mult_self1 [of "yoe + 1" "4 * era" 100] by (simp add: mult.commute)
  moreover have "(yoe + 1 + 400 * era) mod 400 = (yoe + 1) mod 400" by (rule mod_mult_self2)
  ultimately show ?thesis
    using assms(2) unfolding is_leap_def iff by simp
qed

lemma civil_date_days:
  assumes "civil_date days = (y, m, d)" and "0 \<le> y"
  shows "days_from y m d = days" and "1 \<le> m" and "m \<le> 12" and "1 \<le> d" and "d \<le> int (days_in (nat m) (nat y))"
proof -
  define z era doe where "z = days + 306" and "era = z div 146097" and "doe = z mod 146097"
  define yoe where "yoe = (doe - doe div 1460 + doe div 36524 - doe div 146096) div 365"
  define doy where "doy = doe - (365 * yoe + yoe div 4 - yoe div 100)"
  define mp where "mp = (5 * doy + 2) div 153"
  have c: "m = (if mp < 10 then mp + 3 else mp - 9)" "d = doy - (153 * mp + 2) div 5 + 1"
    "y = yoe + era * 400 + (if m \<le> 2 then 1 else 0)"
  proof -
    have "civil_date days = (yoe + era * 400 + (if (if mp < 10 then mp + 3 else mp - 9) \<le> 2 then 1 else 0),
        if mp < 10 then mp + 3 else mp - 9, doy - (153 * mp + 2) div 5 + 1)"
      by (simp only: civil_date_def Let_def z_def era_def doe_def yoe_def doy_def mp_def)
    from trans [OF this [symmetric] assms(1)]
    have e: "yoe + era * 400 + (if (if mp < 10 then mp + 3 else mp - 9) \<le> 2 then 1 else 0) = y"
      "(if mp < 10 then mp + 3 else mp - 9) = m" "doy - (153 * mp + 2) div 5 + 1 = d"
      unfolding prod.inject by blast+
    show "m = (if mp < 10 then mp + 3 else mp - 9)" "d = doy - (153 * mp + 2) div 5 + 1"
      "y = yoe + era * 400 + (if m \<le> 2 then 1 else 0)"
      using e(2,3) e(1) [unfolded e(2)] by simp_all
  qed
  have doe: "0 \<le> doe" "doe < 146097" "z = era * 146097 + doe" by (simp_all add: doe_def era_def)
  note yd = year_of_era [OF doe(1,2), folded yoe_def, folded doy_def]
  have k: "153 * mp \<le> 5 * doy + 2" "5 * doy + 2 < 153 * mp + 153"
    by (simp_all add: mp_def mult.commute [of 153])
  with yd have "0 \<le> mp" "mp < 12" by linarith+
  then have mp: "mp \<in> {0, 1, 2, 3, 4, 5, 6, 7, 8, 9, 10, 11}" unfolding insert_iff empty_iff by presburger
  then show m: "1 \<le> m" "m \<le> 12" by (auto simp: c(1))
  show "1 \<le> d" using mp k by (auto simp: c(2))
  have "(m + 9) mod 12 = mp" using mp by (auto simp: c(1))
  moreover have "(if m \<le> 2 then y - 1 else y) = era * 400 + yoe" by (simp add: c(3))
  moreover have "(era * 400 + yoe) div 400 = era" "(era * 400 + yoe) mod 400 = yoe" using yd by auto
  ultimately show "days_from y m d = days"
    using doe(3) by (simp add: days_from_def Let_def c(2) doy_def z_def)
  show "d \<le> int (days_in (nat m) (nat y))"
  proof (cases "mp = 11")
    case True
    then have "m = 2" "d = doy - 336" "y = yoe + era * 400 + 1" by (simp_all add: c)
    with yd leap_era [of yoe era] assms(2) show ?thesis by (auto simp: days_in_def)
  next
    case False
    have "mp = 0 \<or> mp = 1 \<or> mp = 2 \<or> mp = 3 \<or> mp = 4 \<or> mp = 5 \<or> mp = 6 \<or> mp = 7 \<or> mp = 8 \<or> mp = 9 \<or> mp = 10"
      using mp False by simp
    then show ?thesis
      by (elim disjE) (use k(2) yd in \<open>simp_all add: days_in_def c(1,2)\<close>)
  qed
qed

lemma digits_val_snoc: "digits_val (xs @ [c]) = 10 * digits_val xs + (code c - 48)"
  by (simp add: digits_val_def)

lemma digits_val_append: "digits_val (xs @ ys) = digits_val xs * 10 ^ length ys + digits_val ys"
proof (induction ys rule: rev_induct)
  case (snoc c ys)
  then show ?case
    unfolding append_assoc [symmetric] digits_val_snoc by (simp add: algebra_simps)
qed (simp add: digits_val_def)

lemma digits_val_zeros [simp]: "digits_val (replicate n (CHR ''0'')) = 0"
  by (induction n) (simp_all add: digits_val_def)

lemma length_json_nat: "0 < w \<Longrightarrow> n < 10 ^ w \<Longrightarrow> length (json_nat n) \<le> w"
proof (induction w arbitrary: n)
  case (Suc w)
  then show ?case
    by (cases "n < 10"; cases w) (simp_all add: json_nat.simps [of n] div_less_iff_less_mult)
qed simp

lemma pad_props:
  assumes "0 < w" and "n < 10 ^ w"
  shows "length (pad w n) = w" and "list_all is_digit (pad w n)" and "digits_val (pad w n) = n"
  using length_json_nat [OF assms] json_nat_digits [of n]
  by (auto simp: pad_def Let_def digits_val_append digits_val_json_nat is_digit_def list_all_iff)

lemma parse_uint_pad: "0 < w \<Longrightarrow> n < 10 ^ w \<Longrightarrow> lo \<le> n \<Longrightarrow> n \<le> hi \<Longrightarrow> parse_uint lo hi (pad w n) = Some n"
  by (simp add: parse_uint_def pad_props)

lemma trim_zeros:
  obtains k where "s = rev (dropWhile (\<lambda>c. c = CHR ''0'') (rev s)) @ replicate k (CHR ''0'')"
proof -
  have "rev s = takeWhile (\<lambda>c. c = CHR ''0'') (rev s) @ dropWhile (\<lambda>c. c = CHR ''0'') (rev s)" by simp
  moreover have "takeWhile (\<lambda>c. c = CHR ''0'') (rev s) = replicate (length (takeWhile (\<lambda>c. c = CHR ''0'') (rev s))) (CHR ''0'')"
    by (rule replicate_eqI) (auto dest: set_takeWhileD)
  ultimately show ?thesis by (metis that rev_append rev_replicate rev_rev_ident)
qed

lemma split_fraction_print:
  assumes "ns < 10 ^ 9" and "\<not> is_digit c" "c \<noteq> CHR ''.''"
  shows "split_fraction (\<lambda>c. c = CHR ''.'') (fraction ns @ c # t) = (ns, c # t)"
proof (cases "ns = 0")
  case True
  then show ?thesis using assms(2,3) by (cases t) (auto simp: fraction_def split_fraction_def)
next
  case False
  define ds where "ds = rev (dropWhile (\<lambda>c. c = CHR ''0'') (rev (pad 9 ns)))"
  obtain k where k: "pad 9 ns = ds @ replicate k (CHR ''0'')" using trim_zeros [of "pad 9 ns"] unfolding ds_def by blast
  have p: "length (pad 9 ns) = 9" "list_all is_digit (pad 9 ns)" "digits_val (pad 9 ns) = ns"
    using pad_props [of 9 ns] assms(1) by simp_all
  from p k have d: "list_all is_digit ds" "length ds + k = 9" "digits_val ds * 10 ^ k = ns"
    by (simp_all add: digits_val_append)
  with False have "ds \<noteq> []" by (auto simp: digits_val_def)
  then obtain e u where "ds = e # u" by (cases ds) auto
  have "takeWhile is_digit (ds @ c # t) = ds" "dropWhile is_digit (ds @ c # t) = c # t"
    using d(1) assms(2) by (simp_all add: list_all_iff takeWhile_append2 dropWhile_append2)
  moreover have "nanoseconds ds = ns" using d by (simp add: nanoseconds_def Let_def) (metis diff_add_inverse)
  ultimately show ?thesis
    using False d(1) \<open>ds = e # u\<close> by (simp add: fraction_def ds_def [symmetric] split_fraction_def)
qed

lemma pad2_parts: "n < 100 \<Longrightarrow> \<exists>a b. pad 2 n = [a, b] \<and> is_digit a \<and> is_digit b"
  using pad_props(1,2) [of 2 n] by (auto simp: numeral_2_eq_2 length_Suc_conv)

lemma parse_zone_print:
  assumes "\<bar>off\<bar> < 24 * 60"
  shows "parse_zone 23 59 (zone_suffix off) = Some off"
proof (cases "off = 0")
  case False
  define h m where "h = nat (\<bar>off\<bar> div 60)" and "m = nat (\<bar>off\<bar> mod 60)"
  have hm: "h \<le> 23" "m \<le> 59" "int (h * 60 + m) = \<bar>off\<bar>"
    using assms by (auto simp: h_def m_def)
  then have p: "parse_uint 0 23 (pad 2 h) = Some h" "parse_uint 0 59 (pad 2 m) = Some m"
    by (simp_all add: parse_uint_pad)
  obtain a b c d where ab: "pad 2 h = [a, b]" "pad 2 m = [c, d]" using pad2_parts [of h] pad2_parts [of m] hm by auto
  have "parse_zone 23 59 (g # pad 2 h @ '':'' @ pad 2 m) =
      (if g = CHR ''+'' then Some (int (h * 60 + m)) else if g = CHR ''-'' then Some (- int (h * 60 + m)) else None)" for g
    using p by (simp add: parse_zone_def slice_def ab)
  with False hm(3) show ?thesis
    by (auto simp: zone_suffix_def h_def [symmetric] m_def [symmetric] simp del: of_nat_add of_nat_mult)
qed (simp add: zone_suffix_def parse_zone_def)

lemma zone_suffix_head: "\<exists>c t. zone_suffix off = c # t \<and> \<not> is_digit c \<and> c \<noteq> CHR ''.''"
  by (simp add: zone_suffix_def is_digit_def)

lemma parse_layout:
  assumes "y \<le> 9999" "1 \<le> mo" "mo \<le> 12" "1 \<le> d" "d \<le> days_in mo y" "h \<le> 23" "mi \<le> 59" "sec \<le> 59" "ns < 10 ^ 9"
    "\<bar>off\<bar> < 24 * 60"
  shows "parseRFC3339 (pad 4 y @ ''-'' @ pad 2 mo @ ''-'' @ pad 2 d @ ''T'' @ pad 2 h @ '':'' @ pad 2 mi @ '':'' @ pad 2 sec
    @ fraction ns @ zone_suffix off) = Some (instant_of y mo d h mi sec ns off)"
proof -
  have d: "d \<le> 31" using assms(5) by (auto simp: days_in_def split: if_splits)
  have n: "parse_uint 0 9999 (pad 4 y) = Some y" "parse_uint 1 12 (pad 2 mo) = Some mo"
    "parse_uint 1 (days_in mo y) (pad 2 d) = Some d" "parse_uint 0 23 (pad 2 h) = Some h" "parse_uint 0 59 (pad 2 mi) = Some mi"
    "parse_uint 0 59 (pad 2 sec) = Some sec"
    using assms d by (simp_all add: parse_uint_pad)
  have l: "length (pad 4 y) = 4" "length (pad 2 mo) = 2" "length (pad 2 d) = 2" "length (pad 2 h) = 2" "length (pad 2 mi) = 2"
    "length (pad 2 sec) = 2"
    using assms d by (simp_all add: pad_props)
  obtain c t where z: "zone_suffix off = c # t" "\<not> is_digit c" "c \<noteq> CHR ''.''" using zone_suffix_head by blast
  have "split_fraction (\<lambda>c. c = CHR ''.'') (fraction ns @ zone_suffix off) = (ns, zone_suffix off)"
    unfolding z(1) by (rule split_fraction_print [OF assms(9) z(2,3)])
  then show ?thesis
    using n l parse_zone_print [OF assms(10)]
    by (simp add: parseRFC3339_def slice_def nth_append nth_Cons' Let_def)
qed

text \<open>The fields of the clock add up to the time of day.\<close>

lemma clock_fields:
  fixes tod :: int
  assumes "0 \<le> tod" "tod < 24 * hour"
  defines "h \<equiv> nat (tod div hour)" and "mi \<equiv> nat (tod mod hour div minute)" and "s \<equiv> nat (tod mod minute div second)"
    and "ns \<equiv> nat (tod mod second)"
  shows "h \<le> 23" "mi \<le> 59" "s \<le> 59" "ns < 10 ^ 9"
    "int h * hour + int mi * minute + int s * second + int ns = tod"
proof -
  have m: "tod mod hour mod minute = tod mod minute" "tod mod minute mod second = tod mod second"
    by (simp_all add: duration_defs mod_mod_cancel)
  have i: "int h = tod div hour" "int mi = tod mod hour div minute" "int s = tod mod minute div second" "int ns = tod mod second"
    using assms(1) by (simp_all add: h_def mi_def s_def ns_def duration_defs pos_imp_zdiv_nonneg_iff)
  show "int h * hour + int mi * minute + int s * second + int ns = tod"
    unfolding i using div_mult_mod_eq [of tod hour] div_mult_mod_eq [of "tod mod hour" minute]
      div_mult_mod_eq [of "tod mod minute" second] m by linarith
  have "int h < 24" unfolding i using assms(1,2) by (simp add: duration_defs)
  moreover have "int mi < 60" unfolding i using pos_mod_bound [of hour tod] by (simp add: duration_defs)
  moreover have "int s < 60" unfolding i using pos_mod_bound [of minute tod] by (simp add: duration_defs)
  moreover have "int ns < 10 ^ 9" unfolding i using pos_mod_bound [of second tod] by (simp add: duration_defs)
  ultimately show "h \<le> 23" "mi \<le> 59" "s \<le> 59" "ns < 10 ^ 9" by simp_all
qed

lemma parse_time_rfc3339:
  assumes "0 \<le> local_year t" "local_year t \<le> 9999" "\<bar>z_offset t\<bar> < 24 * 60"
  shows "parse_time (rfc3339 t) = Some t"
proof -
  obtain y m d where c: "civil_date (local_nanos t div (24 * hour)) = (y, m, d)" by (cases "civil_date (local_nanos t div (24 * hour))")
  define tod where "tod = local_nanos t mod (24 * hour)"
  have y: "0 \<le> y" "y \<le> 9999" using assms c by (simp_all add: local_year_def)
  note cd = civil_date_days [OF c y(1)]
  have tod: "0 \<le> tod" "tod < 24 * hour" by (simp_all add: tod_def duration_defs)
  note cf = clock_fields [OF tod]
  have "rfc3339 t = pad 4 (nat y) @ ''-'' @ pad 2 (nat m) @ ''-'' @ pad 2 (nat d) @ ''T'' @ pad 2 (nat (tod div hour)) @ '':''
      @ pad 2 (nat (tod mod hour div minute)) @ '':'' @ pad 2 (nat (tod mod minute div second))
      @ fraction (nat (tod mod second)) @ zone_suffix (z_offset t)"
    using y by (simp add: rfc3339_def c Let_def year_string_def tod_def)
  also have "parseRFC3339 \<dots> = Some (instant_of (nat y) (nat m) (nat d) (nat (tod div hour)) (nat (tod mod hour div minute))
      (nat (tod mod minute div second)) (nat (tod mod second)) (z_offset t))"
    by (rule parse_layout) (use y cd(2-5) cf(1-4) assms(3) in \<open>simp_all add: nat_le_iff le_nat_iff\<close>)
  finally have p: "parseRFC3339 (rfc3339 t) = Some (instant_of (nat y) (nat m) (nat d) (nat (tod div hour)) (nat (tod mod hour div minute))
      (nat (tod mod minute div second)) (nat (tod mod second)) (z_offset t))" .
  have "local_nanos t div (24 * hour) * (24 * hour) + tod = local_nanos t"
    unfolding tod_def by (rule div_mult_mod_eq)
  with cf(5) cd(1) y(1) cd(2,4) have "instant_of (nat y) (nat m) (nat d) (nat (tod div hour)) (nat (tod mod hour div minute))
      (nat (tod mod minute div second)) (nat (tod mod second)) (z_offset t) = t"
    by (simp add: instant_of_def local_nanos_def)
  with p show ?thesis by (simp add: parse_time_def)
qed

lemma parse_time_marshal:
  "marshal_time t = Some s \<Longrightarrow> \<exists>u. s = ''\"'' @ u @ ''\"'' \<and> parse_time u = Some t"
  by (auto simp: marshal_time_def parse_time_rfc3339 split: if_splits)

end
