(* ===== verification/GoStruct.thy ===== *)
theory GoStruct
  imports GoTime
begin

text \<open>
  \<open>encoding/json\<close> decoding into a struct. An object's members are matched with the struct's
  fields in their order of appearance, by exact name or else by case folding, and each value is
  stored by the rule of the field's type; \<open>null\<close> leaves a string, number, struct or time as it
  is. A type error makes the call fail, and every caller then drops the destination, so a failed
  decoding is \<^const>\<open>None\<close>. \<open>Time.UnmarshalJSON\<close> reads the raw text of its value, with escapes
  not undone, so the members of the outermost object are taken together with their text.
\<close>

section \<open>Members with their text\<close>

fun rmembers :: "nat \<Rightarrow> nat \<Rightarrow> string \<Rightarrow> ((string \<times> json \<times> string) list \<times> string) option" where
  "rmembers 0 d s = None"
| "rmembers (Suc n) d s =
     (case skip_ws s of [] \<Rightarrow> None
      | c # t \<Rightarrow>
          if c \<noteq> quote then None
          else (case unquote t of None \<Rightarrow> None
            | Some (k, r) \<Rightarrow>
                (case skip_ws r of [] \<Rightarrow> None
                 | e # u \<Rightarrow>
                     if e \<noteq> CHR '':'' then None
                     else (case pvalue n d u of None \<Rightarrow> None
                       | Some (v, q) \<Rightarrow>
                           (let raw = take (length (skip_ws u) - length q) (skip_ws u) in
                            case skip_ws q of [] \<Rightarrow> None
                            | f # w \<Rightarrow>
                                if f = CHR ''}'' then Some ([(k, v, raw)], w)
                                else if f = CHR '','' then
                                  map_option (\<lambda>(kvs, z). ((k, v, raw) # kvs, z)) (rmembers n d w)
                                else None)))))"

definition forget_raw :: "(string \<times> json \<times> string) list \<Rightarrow> (string \<times> json) list" where
  "forget_raw ms = map (\<lambda>(k, v, _). (k, v)) ms"

text \<open>A whole text that is one object: its members, each with the text of its value.\<close>

definition object_members :: "string \<Rightarrow> (string \<times> json \<times> string) list option" where
  "object_members s =
     (case skip_ws s of [] \<Rightarrow> None
      | c # t \<Rightarrow>
          if c \<noteq> CHR ''{'' then None
          else if HasPrefix (skip_ws t) ''}'' then (if skip_ws (tl (skip_ws t)) = [] then Some [] else None)
          else (case rmembers (2 * length s + 1) 1 t of
                  Some (ms, r) \<Rightarrow> if skip_ws r = [] then Some ms else None
                | None \<Rightarrow> None))"

lemma rmembers_pmembers: "pmembers n d s = map_option (\<lambda>(ms, r). (forget_raw ms, r)) (rmembers n d s)"
proof (induction n d s rule: rmembers.induct)
  case (2 n d s)
  then show ?case
    by (auto simp: forget_raw_def Let_def option.map_comp o_def case_prod_beta split: list.splits option.splits if_splits)
qed simp

lemma object_members_parse:
  "parse_json s = Some (JObject kvs) \<longleftrightarrow> (\<exists>ms. object_members s = Some ms \<and> forget_raw ms = kvs)"
proof -
  have "pvalue (2 * length s + 2) 0 s = pvalue (Suc (2 * length s + 1)) 0 s" by simp
  then show ?thesis
    by (auto simp: parse_json_def object_members_def max_depth_def forget_raw_def literal_def rmembers_pmembers
        split: list.splits option.splits prod.splits if_splits)
qed

section \<open>Fields\<close>

text \<open>
  Case folding, as far as it decides equality with an ASCII name: the long s and the Kelvin sign
  are the only other runes that fold to an ASCII letter.
\<close>

definition fold_rune :: "nat \<Rightarrow> nat" where
  "fold_rune r =
     (if 97 \<le> r \<and> r \<le> 122 then r - 32 else if r = 0x17F then 83 else if r = 0x212A then 75 else r)"

definition fold_name :: "string \<Rightarrow> nat list" where
  "fold_name s = map fold_rune (runes s)"

type_synonym 'a setter = "json \<Rightarrow> string \<Rightarrow> 'a \<Rightarrow> 'a option"

definition find_field :: "(string \<times> 'a setter) list \<Rightarrow> string \<Rightarrow> 'a setter option" where
  "find_field fs k =
     (case find (\<lambda>(n, _). n = k) fs of Some (_, f) \<Rightarrow> Some f
      | None \<Rightarrow> map_option snd (find (\<lambda>(n, _). fold_name n = fold_name k) fs))"

text \<open>With \<open>DisallowUnknownFields\<close> (\<open>strict\<close>) a member without a field is an error.\<close>

fun decode_members :: "bool \<Rightarrow> (string \<times> 'a setter) list \<Rightarrow> (string \<times> json \<times> string) list \<Rightarrow> 'a \<Rightarrow> 'a option" where
  "decode_members strict fs [] x = Some x"
| "decode_members strict fs ((k, v, raw) # ms) x =
     (case find_field fs k of
        None \<Rightarrow> if strict then None else decode_members strict fs ms x
      | Some f \<Rightarrow> (case f v raw x of None \<Rightarrow> None | Some y \<Rightarrow> decode_members strict fs ms y))"

definition decode_struct :: "bool \<Rightarrow> (string \<times> 'a setter) list \<Rightarrow> 'a \<Rightarrow> string \<Rightarrow> 'a option" where
  "decode_struct strict fs zero s =
     (case parse_json s of None \<Rightarrow> None
      | Some JNull \<Rightarrow> Some zero
      | Some v \<Rightarrow> (case object_members s of None \<Rightarrow> None | Some ms \<Rightarrow> decode_members strict fs ms zero))"

section \<open>Values\<close>

definition set_string :: "(string \<Rightarrow> 'a \<Rightarrow> 'a) \<Rightarrow> 'a setter" where
  "set_string put v raw x =
     (case v of JNull \<Rightarrow> Some x | JString s \<Rightarrow> Some (put s x) | _ \<Rightarrow> None)"

definition ParseUint :: "nat \<Rightarrow> string \<Rightarrow> nat option" where
  "ParseUint bits s =
     (if s \<noteq> [] \<and> list_all is_digit s \<and> digits_val s < 2 ^ bits then Some (digits_val s) else None)"

definition ParseInt64 :: "string \<Rightarrow> int option" where
  "ParseInt64 s =
     (case s of [] \<Rightarrow> None
      | c # t \<Rightarrow>
          let neg = (c = CHR ''-''); ds = (if c = CHR ''-'' \<or> c = CHR ''+'' then t else s) in
          if ds \<noteq> [] \<and> list_all is_digit ds \<and> digits_val ds < (if neg then 2 ^ 63 + 1 else 2 ^ 63)
          then Some (if neg then - int (digits_val ds) else int (digits_val ds)) else None)"

definition set_uint :: "('w::len word \<Rightarrow> 'a \<Rightarrow> 'a) \<Rightarrow> 'a setter" where
  "set_uint put v raw x =
     (case v of JNull \<Rightarrow> Some x
      | JNumber n \<Rightarrow> map_option (\<lambda>k. put (of_nat k) x) (ParseUint LENGTH('w) n)
      | _ \<Rightarrow> None)"

definition set_int :: "(int \<Rightarrow> 'a \<Rightarrow> 'a) \<Rightarrow> 'a setter" where
  "set_int put v raw x =
     (case v of JNull \<Rightarrow> Some x
      | JNumber n \<Rightarrow> map_option (\<lambda>k. put k x) (ParseInt64 n)
      | _ \<Rightarrow> None)"

text \<open>\<open>Time.UnmarshalJSON\<close> gets the text of the value, quotes included.\<close>

definition set_time :: "(zoned \<Rightarrow> 'a \<Rightarrow> 'a) \<Rightarrow> 'a setter" where
  "set_time put v raw x =
     (if raw = ''null'' then Some x
      else if length raw < 2 \<or> hd raw \<noteq> quote \<or> last raw \<noteq> quote then None
      else map_option (\<lambda>t. put t x) (parse_time (butlast (tl raw))))"

text \<open>A \<open>map[string]string\<close> keeps the entries it has; \<open>null\<close> makes it nil.\<close>

definition set_map :: "('a \<Rightarrow> (string, string) gomap) \<Rightarrow> ((string, string) gomap \<Rightarrow> 'a \<Rightarrow> 'a) \<Rightarrow> 'a setter" where
  "set_map get put v raw x =
     (case v of JNull \<Rightarrow> Some (put [] x)
      | JObject kvs \<Rightarrow> map_option (\<lambda>m. put m x) (store_members kvs (get x))
      | _ \<Rightarrow> None)"

text \<open>A \<open>[]string\<close>: a \<open>null\<close> element keeps the string that was at its place.\<close>

fun fill_strings :: "string list \<Rightarrow> json list \<Rightarrow> string list option" where
  "fill_strings olds [] = Some []"
| "fill_strings olds (v # vs) =
     (case v of
        JString s \<Rightarrow> map_option ((#) s) (fill_strings (drop 1 olds) vs)
      | JNull \<Rightarrow> map_option ((#) (case olds of [] \<Rightarrow> [] | p # _ \<Rightarrow> p)) (fill_strings (drop 1 olds) vs)
      | _ \<Rightarrow> None)"

definition set_strings :: "('a \<Rightarrow> string list) \<Rightarrow> (string list \<Rightarrow> 'a \<Rightarrow> 'a) \<Rightarrow> 'a setter" where
  "set_strings get put v raw x =
     (case v of JNull \<Rightarrow> Some (put [] x)
      | JArray vs \<Rightarrow> map_option (\<lambda>ss. put ss x) (fill_strings (get x) vs)
      | _ \<Rightarrow> None)"

text \<open>A nested struct is decoded from its own text.\<close>

definition set_struct :: "bool \<Rightarrow> (string \<times> 'b setter) list \<Rightarrow> ('a \<Rightarrow> 'b) \<Rightarrow> ('b \<Rightarrow> 'a \<Rightarrow> 'a) \<Rightarrow> 'a setter" where
  "set_struct strict fs get put v raw x =
     (case v of JNull \<Rightarrow> Some x
      | JObject _ \<Rightarrow>
          (case object_members raw of None \<Rightarrow> None
           | Some ms \<Rightarrow> map_option (\<lambda>y. put y x) (decode_members strict fs ms (get x)))
      | _ \<Rightarrow> None)"

section \<open>Base64\<close>

text \<open>
  A \<open>[]byte\<close> is a string in standard base64 with padding. The decoder skips line breaks, which
  the encoder does not write; here a text with any other character than the alphabet and correct
  padding is refused, after line breaks have been dropped.
\<close>

text \<open>The letters A-Z, a-z, 0-9, + and / by their number.\<close>

definition letter :: "nat \<Rightarrow> char" where
  "letter i = char_of (if i < 26 then i + 65 else if i < 52 then i + 71 else if i < 62 then i - 4 else if i = 62 then 43 else 47)"

fun base64 :: "nat list \<Rightarrow> string" where
  "base64 [] = []"
| "base64 [a] = [letter (a div 4), letter (a mod 4 * 16), CHR ''='', CHR ''='']"
| "base64 [a, b] = [letter (a div 4), letter (a mod 4 * 16 + b div 16), letter (b mod 16 * 4), CHR ''='']"
| "base64 (a # b # c # r) =
     letter (a div 4) # letter (a mod 4 * 16 + b div 16) # letter (b mod 16 * 4 + c div 64)
     # letter (c mod 64) # base64 r"

definition sextet :: "char \<Rightarrow> nat option" where
  "sextet c =
     (let n = code c in
      if 65 \<le> n \<and> n \<le> 90 then Some (n - 65) else if 97 \<le> n \<and> n \<le> 122 then Some (n - 71)
      else if 48 \<le> n \<and> n \<le> 57 then Some (n + 4) else if n = 43 then Some 62 else if n = 47 then Some 63 else None)"

fun unbase64 :: "string \<Rightarrow> nat list option" where
  "unbase64 [] = Some []"
| "unbase64 (p # q # r # s # t) =
     (case (sextet p, sextet q) of
        (Some i, Some j) \<Rightarrow>
          (case (sextet r, sextet s) of
             (Some k, Some l) \<Rightarrow>
               map_option (\<lambda>x. (i * 4 + j div 16) # (j mod 16 * 16 + k div 4) # (k mod 4 * 64 + l) # x) (unbase64 t)
           | (Some k, None) \<Rightarrow>
               if s = CHR ''='' \<and> t = [] then Some [i * 4 + j div 16, j mod 16 * 16 + k div 4] else None
           | (None, None) \<Rightarrow>
               if r = CHR ''='' \<and> s = CHR ''='' \<and> t = [] then Some [i * 4 + j div 16] else None
           | (None, Some _) \<Rightarrow> None)
      | _ \<Rightarrow> None)"
| "unbase64 _ = None"

definition base64_encode :: "bytes \<Rightarrow> string" where
  "base64_encode b = base64 (map unat b)"

definition base64_decode :: "string \<Rightarrow> bytes option" where
  "base64_decode s = map_option (map of_nat) (unbase64 (filter (\<lambda>c. c \<noteq> CHR 0x0A \<and> c \<noteq> CHR 0x0D) s))"

definition set_bytes :: "(bytes \<Rightarrow> 'a \<Rightarrow> 'a) \<Rightarrow> 'a setter" where
  "set_bytes put v raw x =
     (case v of JNull \<Rightarrow> Some (put [] x)
      | JString s \<Rightarrow> map_option (\<lambda>b. put b x) (base64_decode s)
      | _ \<Rightarrow> None)"

lemma sextet_letter: "i < 64 \<Longrightarrow> sextet (letter i) = Some i"
  by (auto simp: letter_def sextet_def Let_def)

lemma sextet_pad [simp]: "sextet (CHR ''='') = None"
  by code_simp

lemma unbase64_base64: "list_all (\<lambda>a. a < 256) xs \<Longrightarrow> unbase64 (base64 xs) = Some xs"
proof (induction xs rule: base64.induct)
  case (4 a b c r)
  then have "a div 4 < 64" "a mod 4 * 16 + b div 16 < 64" "b mod 16 * 4 + c div 64 < 64" "c mod 64 < 64" "b div 16 < 16" "c div 64 < 4" by auto
  with 4 show ?case by (simp add: sextet_letter)
next
  case (2 a)
  then have "a div 4 < 64" "a mod 4 * 16 < 64" by auto
  then show ?case by (simp add: sextet_letter)
next
  case (3 a b)
  then have "a div 4 < 64" "a mod 4 * 16 + b div 16 < 64" "b mod 16 * 4 < 64" "b div 16 < 16" by auto
  then show ?case by (simp add: sextet_letter)
qed simp

definition base64_char :: "char \<Rightarrow> bool" where
  "base64_char c \<longleftrightarrow> sextet c \<noteq> None \<or> c = CHR ''=''"

lemma base64_chars: "list_all (\<lambda>a. a < 256) xs \<Longrightarrow> list_all base64_char (base64 xs)"
proof (induction xs rule: base64.induct)
  case (4 a b c r)
  then have "a div 4 < 64" "a mod 4 * 16 + b div 16 < 64" "b mod 16 * 4 + c div 64 < 64" "c mod 64 < 64" by auto
  with 4 show ?case by (simp add: sextet_letter base64_char_def)
next
  case (2 a)
  then have "a div 4 < 64" "a mod 4 * 16 < 64" by auto
  then show ?case by (simp add: sextet_letter base64_char_def)
next
  case (3 a b)
  then have "a div 4 < 64" "a mod 4 * 16 + b div 16 < 64" "b mod 16 * 4 < 64" by auto
  then show ?case by (simp add: sextet_letter base64_char_def)
qed simp

lemma base64_char_code: "base64_char c \<Longrightarrow> code c < 0x80 \<and> c \<noteq> CHR 0x0A \<and> c \<noteq> CHR 0x0D"
  by (auto simp: base64_char_def sextet_def Let_def split: if_splits)

lemma base64_roundtrip: "base64_decode (base64_encode b) = Some b" and base64_utf8: "valid_utf8 (base64_encode b)"
proof -
  have "unat w < 256" for w :: byte using unsigned_less [of w] by simp
  then have u: "list_all (\<lambda>a. a < 256) (map unat b)" by (simp add: list_all_iff)
  have c: "list_all base64_char (base64_encode b)" unfolding base64_encode_def by (rule base64_chars [OF u])
  then have "filter (\<lambda>c. c \<noteq> CHR 0x0A \<and> c \<noteq> CHR 0x0D) (base64_encode b) = base64_encode b"
    by (auto simp: filter_id_conv list_all_iff dest: base64_char_code)
  then show "base64_decode (base64_encode b) = Some b"
    using unbase64_base64 [OF u] by (simp add: base64_decode_def base64_encode_def o_def)
  show "valid_utf8 (base64_encode b)"
    by (rule valid_utf8_ascii) (use c base64_char_code in \<open>auto simp: list_all_iff\<close>)
qed

section \<open>Encoding a struct\<close>

text \<open>\<open>json.Marshal\<close> of a struct: its members in order, \<open>omitempty\<close> dropping empty ones.\<close>

fun json_fields :: "(string \<times> string) list \<Rightarrow> string" where
  "json_fields [] = []"
| "json_fields [(k, t)] = json_string k @ '':'' @ t"
| "json_fields ((k, t) # kvs) = json_string k @ '':'' @ t @ '','' @ json_fields kvs"

definition json_object :: "(string \<times> string) list \<Rightarrow> string" where
  "json_object kvs = ''{'' @ json_fields kvs @ ''}''"

definition opt_string :: "string \<Rightarrow> string \<Rightarrow> (string \<times> string) list" where
  "opt_string k s = (if s = [] then [] else [(k, json_string s)])"

definition opt_nat :: "string \<Rightarrow> nat \<Rightarrow> (string \<times> string) list" where
  "opt_nat k n = (if n = 0 then [] else [(k, json_nat n)])"

text \<open>Decimal integers, as \<open>strconv.AppendInt\<close> writes them.\<close>

definition json_int :: "int \<Rightarrow> string" where
  "json_int n = (if n < 0 then ''-'' @ json_nat (nat (- n)) else json_nat (nat n))"

section \<open>Decoding what was encoded\<close>

text \<open>
  A text that the parser reads as one value wherever an object has it, given room for the depth
  of its nesting and fuel for its length.
\<close>

definition reads :: "nat \<Rightarrow> string \<Rightarrow> json \<Rightarrow> bool" where
  "reads h t v \<longleftrightarrow> t \<noteq> [] \<and> \<not> json_space (hd t) \<and>
     (\<forall>n d c rest. (c = CHR '','' \<or> c = CHR ''}'') \<and> d + h \<le> max_depth \<and> 2 * length t \<le> n \<longrightarrow>
        pvalue (Suc n) d (t @ c # rest) = Some (v, c # rest))"

lemma reads_string: "valid_utf8 s \<Longrightarrow> reads h (json_string s) (JString s)"
  by (auto simp: reads_def json_string_def unquote_quote_body)

lemma pnumber_digits:
  assumes "list_all is_digit ds" "ds \<noteq> []" "hd ds \<noteq> CHR ''0'' \<or> length ds = 1" "c = CHR '','' \<or> c = CHR ''}''"
  shows "pnumber (ds @ c # rest) = Some (ds, c # rest)"
proof -
  obtain e u where ds: "ds = e # u" using assms(2) by (cases ds) auto
  have "int_part (ds @ c # rest) = Some (ds, c # rest)"
  proof (cases "e = CHR ''0''")
    case True
    then show ?thesis using assms(3) ds by (simp add: int_part_def)
  next
    case False
    have "\<not> is_digit c" using assms(4) by (auto simp: is_digit_def)
    with assms(1) have "takeWhile is_digit (ds @ c # rest) = ds" "dropWhile is_digit (ds @ c # rest) = c # rest"
      by (simp_all add: list_all_iff takeWhile_append2 dropWhile_append2)
    with False ds assms(1) show ?thesis by (simp add: int_part_def)
  qed
  moreover have "frac_part (c # rest) = Some ([], c # rest)" "exp_part (c # rest) = Some ([], c # rest)"
    using assms(4) by (auto simp: frac_part_def exp_part_def)
  moreover have "(case ds @ c # rest of CHR ''-'' # u \<Rightarrow> (''-'', u) | _ \<Rightarrow> ([], ds @ c # rest)) = ([], ds @ c # rest)"
  proof -
    have "e \<noteq> CHR ''-''" using assms(1) ds by (auto simp: is_digit_def)
    then show ?thesis unfolding ds by (cases e) (auto split: bool.splits)
  qed
  ultimately show ?thesis
    by (simp only: pnumber_def Let_def) simp
qed

lemma json_nat_head: "json_nat n \<noteq> [] \<and> (hd (json_nat n) \<noteq> CHR ''0'' \<or> length (json_nat n) = 1)"
proof (induction n rule: json_nat.induct)
  case (1 n)
  show ?case
  proof (cases "n < 10")
    case False
    have "hd (json_nat (n div 10)) \<noteq> CHR ''0'' \<or> n div 10 = 0"
    proof -
      have "digits_val [CHR ''0''] = 0" by (simp add: digits_val_def)
      with 1 False digits_val_json_nat [of "n div 10"] show ?thesis
        by (cases "json_nat (n div 10)") auto
    qed
    with False 1 show ?thesis by (subst (1 2 3) json_nat.simps) (auto simp: hd_append)
  qed (simp add: json_nat.simps [of n])
qed

lemma reads_nat: "reads h (json_nat n) (JNumber (json_nat n))"
proof -
  obtain c u where s: "json_nat n = c # u" using json_nat_head [of n] by (cases "json_nat n") auto
  have c: "is_digit c" using json_nat_digits [of n] s by simp
  then have "c \<noteq> quote" "c \<notin> {CHR ''{'', CHR ''['', CHR ''t'', CHR ''f'', CHR ''n''}" "\<not> json_space c"
    by (auto simp: is_digit_def json_space_def)
  with pnumber_digits [OF json_nat_digits, of n] json_nat_head [of n] s show ?thesis
    by (simp add: reads_def)
qed

lemma length_json_fields: "2 * length kvs \<le> length (json_fields kvs)"
  by (induction kvs rule: json_fields.induct) (auto simp: json_string_def)

lemma rmembers_json_fields:
  assumes "ms \<noteq> []" and "\<And>k v t. (k, v, t) \<in> set ms \<Longrightarrow> valid_utf8 k \<and> reads h t v"
    and "2 * length (json_fields (map (\<lambda>(k, v, t). (k, t)) ms)) \<le> n" and "d + h \<le> max_depth"
  shows "rmembers n d (json_fields (map (\<lambda>(k, v, t). (k, t)) ms) @ CHR ''}'' # rest) = Some (ms, rest)"
  using assms
proof (induction ms arbitrary: n)
  case (Cons m ms)
  obtain k v t where m: "m = (k, v, t)" by (cases m)
  define i where "i = n - 2"
  have f: "json_fields (map (\<lambda>(k, v, t). (k, t)) (m # ms)) =
      json_string k @ '':'' @ t @ (if ms = [] then [] else '','' @ json_fields (map (\<lambda>(k, v, t). (k, t)) ms))"
    using m by (cases ms) auto
  have n: "n = Suc (Suc i)" "2 * length t \<le> i" using Cons.prems(3) unfolding f by (simp_all add: i_def json_string_def)
  from Cons.prems(2) [of k v t] m have kt: "valid_utf8 k" and t: "reads h t v" by auto
  obtain a u where au: "t = a # u" "\<not> json_space a" using t by (cases t) (auto simp: reads_def)
  have step: "rmembers n d (json_string k @ '':'' @ t @ c # x) =
      (if c = CHR ''}'' then Some ([(k, v, t)], x) else map_option (\<lambda>(kvs, z). ((k, v, t) # kvs, z)) (rmembers (Suc i) d x))"
    if c: "c = CHR '','' \<or> c = CHR ''}''" for c x
  proof -
    have "pvalue (Suc i) d (t @ c # x) = Some (v, c # x)" using t c n(2) assms(4) by (auto simp: reads_def)
    moreover have "skip_ws (t @ c # x) = t @ c # x" using au by simp
    moreover have "\<not> json_space c" using c by auto
    ultimately show ?thesis
      using c kt by (auto simp: n(1) json_string_def unquote_quote_body Let_def simp del: pvalue.simps)
  qed
  show ?case
  proof (cases "ms = []")
    case True
    then show ?thesis using step [of "CHR ''}''" rest] m by simp
  next
    case False
    have "2 * length (json_fields (map (\<lambda>(k, v, t). (k, t)) ms)) \<le> Suc i"
      using Cons.prems(3) False unfolding f n(1) by (simp add: json_string_def)
    then have "rmembers (Suc i) d (json_fields (map (\<lambda>(k, v, t). (k, t)) ms) @ CHR ''}'' # rest) = Some (ms, rest)"
      by (intro Cons.IH) (use Cons.prems False in auto)
    with False show ?thesis
      using step [of "CHR '',''" "json_fields (map (\<lambda>(k, v, t). (k, t)) ms) @ CHR ''}'' # rest"] m f by simp
  qed
qed simp

lemma json_fields_head: "ms \<noteq> [] \<Longrightarrow> \<exists>u. json_fields (map (\<lambda>(k, v, t). (k, t)) ms) = quote # u"
  by (cases "map (\<lambda>(k, v, t). (k, t)) ms" rule: json_fields.cases) (auto simp: json_string_def)

lemma json_object_members:
  assumes "ms \<noteq> []" and "\<And>k v t. (k, v, t) \<in> set ms \<Longrightarrow> valid_utf8 k \<and> reads h t v" and "Suc h \<le> max_depth"
  shows "object_members (json_object (map (\<lambda>(k, v, t). (k, t)) ms)) = Some ms"
proof -
  let ?kvs = "map (\<lambda>(k, v, t). (k, t)) ms"
  have l: "2 * length (json_fields ?kvs) \<le> 2 * length (json_object ?kvs) + 1" "1 + h \<le> max_depth"
    using assms(3) by (simp_all add: json_object_def)
  have "\<not> HasPrefix (skip_ws (json_fields ?kvs @ ''}'')) ''}''"
    using json_fields_head [OF assms(1)] by (auto simp: HasPrefix_def)
  with rmembers_json_fields [OF assms(1,2) l, of "[]"] show ?thesis
    by (simp add: object_members_def json_object_def skip_ws_def)
qed

text \<open>An object as a member of another.\<close>

lemma reads_object:
  assumes "ms \<noteq> []" and "\<And>k v t. (k, v, t) \<in> set ms \<Longrightarrow> valid_utf8 k \<and> reads h t v"
  shows "reads (Suc h) (json_object (map (\<lambda>(k, v, t). (k, t)) ms)) (JObject (forget_raw ms))"
proof -
  let ?kvs = "map (\<lambda>(k, v, t). (k, t)) ms"
  have "pvalue (Suc n) d (json_object ?kvs @ c # rest) = Some (JObject (forget_raw ms), c # rest)"
    if "d + Suc h \<le> max_depth" "2 * length (json_object ?kvs) \<le> n" for n d c rest
  proof -
    have "pmembers n (Suc d) (json_fields ?kvs @ CHR ''}'' # c # rest) = Some (forget_raw ms, c # rest)"
      unfolding rmembers_pmembers using rmembers_json_fields [OF assms, of n "Suc d" "c # rest"] that
      by (simp add: json_object_def)
    moreover have "\<not> HasPrefix (skip_ws (json_fields ?kvs @ CHR ''}'' # c # rest)) ''}''"
      using json_fields_head [OF assms(1)] by (auto simp: HasPrefix_def)
    ultimately show ?thesis using that by (simp add: json_object_def)
  qed
  then show ?thesis by (simp add: reads_def json_object_def)
qed

lemma decode_struct_object:
  assumes "ms \<noteq> []" and "\<And>k v t. (k, v, t) \<in> set ms \<Longrightarrow> valid_utf8 k \<and> reads h t v" and "Suc h \<le> max_depth"
  shows "decode_struct strict fs zero (json_object (map (\<lambda>(k, v, t). (k, t)) ms)) = decode_members strict fs ms zero"
proof -
  have o: "object_members (json_object (map (\<lambda>(k, v, t). (k, t)) ms)) = Some ms"
    by (rule json_object_members [OF assms])
  then have "parse_json (json_object (map (\<lambda>(k, v, t). (k, t)) ms)) = Some (JObject (forget_raw ms))"
    using object_members_parse by blast
  with o show ?thesis by (simp add: decode_struct_def)
qed

text \<open>The members of an encoded struct, with their values.\<close>

definition str_member :: "string \<Rightarrow> string \<Rightarrow> string \<times> json \<times> string" where
  "str_member k s = (k, JString s, json_string s)"

definition nat_member :: "string \<Rightarrow> nat \<Rightarrow> string \<times> json \<times> string" where
  "nat_member k n = (k, JNumber (json_nat n), json_nat n)"

definition opt_str :: "string \<Rightarrow> string \<Rightarrow> (string \<times> json \<times> string) list" where
  "opt_str k s = (if s = [] then [] else [str_member k s])"

definition opt_num :: "string \<Rightarrow> nat \<Rightarrow> (string \<times> json \<times> string) list" where
  "opt_num k n = (if n = 0 then [] else [nat_member k n])"

lemma member_text [simp]:
  "(\<lambda>(k, v, t). (k, t)) (str_member k s) = (k, json_string s)" "(\<lambda>(k, v, t). (k, t)) (nat_member k n) = (k, json_nat n)"
  "map (\<lambda>(k, v, t). (k, t)) (opt_str k s) = opt_string k s" "map (\<lambda>(k, v, t). (k, t)) (opt_num k n) = opt_nat k n"
  by (simp_all add: str_member_def nat_member_def opt_str_def opt_num_def opt_string_def opt_nat_def)

lemma decode_members_append:
  "decode_members strict fs (xs @ ys) x = Option.bind (decode_members strict fs xs x) (decode_members strict fs ys)"
  by (induction xs arbitrary: x) (auto split: option.splits)

lemma decode_str_member:
  "find_field fs k = Some (set_string put) \<Longrightarrow>
   decode_members strict fs (str_member k s # ms) x = decode_members strict fs ms (put s x)"
  by (simp add: str_member_def set_string_def)

lemma ParseUint_json_nat: "n < 2 ^ bits \<Longrightarrow> ParseUint bits (json_nat n) = Some n"
  using json_nat_head [of n] json_nat_digits [of n] by (simp add: ParseUint_def digits_val_json_nat)

lemma decode_nat_member:
  fixes put :: "'w::len word \<Rightarrow> 'a \<Rightarrow> 'a"
  shows "find_field fs k = Some (set_uint put) \<Longrightarrow>
   decode_members strict fs (nat_member k (unat w) # ms) x = decode_members strict fs ms (put w x)"
  by (simp add: nat_member_def set_uint_def ParseUint_json_nat)

lemma decode_opt_str:
  "find_field fs k = Some (set_string put) \<Longrightarrow> put [] x = x \<Longrightarrow>
   decode_members strict fs (opt_str k s @ ms) x = decode_members strict fs ms (put s x)"
  by (simp add: opt_str_def decode_str_member)

lemma decode_opt_num:
  fixes put :: "'w::len word \<Rightarrow> 'a \<Rightarrow> 'a"
  shows "find_field fs k = Some (set_uint put) \<Longrightarrow> put 0 x = x \<Longrightarrow>
   decode_members strict fs (opt_num k (unat w) @ ms) x = decode_members strict fs ms (put w x)"
  by (auto simp: opt_num_def decode_nat_member unat_eq_0)

text \<open>A printed time is plain text: it needs no escapes.\<close>

lemma quote_body_plain:
  "list_all (\<lambda>c. is_digit c \<or> c \<in> set ''-:.TZ+'') s \<Longrightarrow> quote_body s = s"
proof (induction s)
  case (Cons c s)
  then consider "is_digit c" | "c \<in> set ''-:.TZ+''" by auto
  then have "code c < 0x80 \<and> escape_ascii c = [c]"
  proof cases
    case 1
    have "c \<noteq> d" if "\<not> is_digit d" for d using 1 that by auto
    from this [of quote] this [of backslash] this [of "CHR 0x08"] this [of "CHR 0x0C"] this [of "CHR 0x0A"] this [of "CHR 0x0D"]
      this [of "CHR 0x09"] this [of "CHR ''<''"] this [of "CHR ''>''"] this [of "CHR ''&''"]
    show ?thesis using 1 by (simp add: escape_ascii_def is_digit_def)
  next
    case 2
    have "list_all (\<lambda>c. code c < (0x80 :: nat) \<and> escape_ascii c = [c]) ''-:.TZ+''" by code_simp
    with 2 show ?thesis unfolding list_all_iff by blast
  qed
  with Cons show ?case by (simp add: quote_body.simps [of "c # s"])
qed (simp add: quote_body.simps)

lemma rfc3339_plain:
  assumes "0 \<le> local_year t"
  shows "list_all (\<lambda>c. is_digit c \<or> c \<in> set ''-:.TZ+'') (rfc3339 t)"
proof -
  have p: "list_all (\<lambda>c. is_digit c \<or> c \<in> set ''-:.TZ+'') (pad w n)" for w n
    using json_nat_digits [of n] by (auto simp: pad_def Let_def list_all_iff is_digit_def)
  have "list_all (\<lambda>c. is_digit c \<or> c \<in> set ''-:.TZ+'') (fraction n)" for n
    using p [of 9 n] by (auto simp: fraction_def list_all_iff dest!: set_dropWhileD)
  with p assms show ?thesis
    by (auto simp: rfc3339_def Let_def year_string_def zone_suffix_def local_year_def split: prod.splits)
qed

lemma marshal_time_text:
  assumes "marshal_time t = Some s"
  shows "s = json_string (rfc3339 t)" and "valid_utf8 (rfc3339 t)" and "parse_time (rfc3339 t) = Some t"
proof -
  from assms have t: "0 \<le> local_year t" "local_year t \<le> 9999" "\<bar>z_offset t\<bar> < 24 * 60" and s: "s = ''\"'' @ rfc3339 t @ ''\"''"
    by (auto simp: marshal_time_def split: if_splits)
  show "s = json_string (rfc3339 t)" using s quote_body_plain [OF rfc3339_plain [OF t(1)]] by (simp add: json_string_def)
  show "valid_utf8 (rfc3339 t)"
    by (rule valid_utf8_ascii) (use rfc3339_plain [OF t(1)] in \<open>auto simp: list_all_iff is_digit_def\<close>)
  show "parse_time (rfc3339 t) = Some t" by (rule parse_time_rfc3339 [OF t])
qed

lemma decode_time_member:
  assumes "find_field fs k = Some (set_time put)" and "marshal_time t = Some s"
  shows "decode_members strict fs ((k, JString (rfc3339 t), s) # ms) x = decode_members strict fs ms (put t x)"
proof -
  note m = marshal_time_text [OF assms(2)]
  have "s = quote # rfc3339 t @ [quote]"
    using assms(2) by (auto simp: marshal_time_def split: if_splits)
  with assms(1) m(3) show ?thesis by (simp add: set_time_def butlast_append)
qed

end
