(* ===== verification/Audit_Events.thy ===== *)
theory Audit_Events
  imports GoStruct
begin

text \<open>
  The vocabulary of audit events and their encoding (\<open>audit/events.go\<close>, the type \<open>Event\<close> and its
  validation in \<open>audit/spool.go\<close>, \<open>Completion\<close> and \<open>StableResult\<close> in \<open>audit/recorder.go\<close>). An
  event is encoded by \<open>json.Marshal\<close> and read back by \<open>json.Unmarshal\<close>.
\<close>

definition EventTypeRequestCompleted :: string where "EventTypeRequestCompleted = ''request_completed''"
definition EventTypeStateTransition :: string where "EventTypeStateTransition = ''state_transition''"

definition ResultSuccess :: string where "ResultSuccess = ''success''"
definition ResultDenied :: string where "ResultDenied = ''denied''"
definition ResultRejected :: string where "ResultRejected = ''rejected''"
definition ResultError :: string where "ResultError = ''error''"

definition ReasonCompleted :: string where "ReasonCompleted = ''completed''"
definition ReasonOperationNotPermitted :: string where "ReasonOperationNotPermitted = ''operation_not_permitted''"
definition ReasonInvalidRequest :: string where "ReasonInvalidRequest = ''invalid_request''"
definition ReasonSecureOperationFailed :: string where "ReasonSecureOperationFailed = ''secure_operation_failed''"

definition OperationUnknownRoute :: string where "OperationUnknownRoute = ''unknown_route''"
definition OperationSecurityStatusRead :: string where "OperationSecurityStatusRead = ''security_status_read''"
definition OperationKeyStatusRead :: string where "OperationKeyStatusRead = ''key_status_read''"
definition OperationCredentialCreated :: string where "OperationCredentialCreated = ''credential_created''"
definition OperationCredentialRead :: string where "OperationCredentialRead = ''credential_read''"
definition OperationCredentialInputsReplaced :: string where "OperationCredentialInputsReplaced = ''credential_inputs_replaced''"
definition OperationCredentialMetadataUpdated :: string where "OperationCredentialMetadataUpdated = ''credential_metadata_updated''"
definition OperationCredentialRetired :: string where "OperationCredentialRetired = ''credential_retired''"
definition OperationRunBindingRegistered :: string where "OperationRunBindingRegistered = ''run_binding_registered''"
definition OperationRunBindingInspected :: string where "OperationRunBindingInspected = ''run_binding_inspected''"
definition OperationRunBindingCanceled :: string where "OperationRunBindingCanceled = ''run_binding_canceled''"
definition OperationRunBindingExpired :: string where "OperationRunBindingExpired = ''run_binding_expired''"
definition OperationRunBindingExhausted :: string where "OperationRunBindingExhausted = ''run_binding_exhausted''"
definition OperationCredentialResolved :: string where "OperationCredentialResolved = ''credential_resolved''"
definition OperationMasterKeyRotationStarted :: string where "OperationMasterKeyRotationStarted = ''master_key_rotation_started''"
definition OperationMasterKeyRotationInspected :: string where "OperationMasterKeyRotationInspected = ''master_key_rotation_inspected''"
definition OperationMasterKeyRotationResumed :: string where "OperationMasterKeyRotationResumed = ''master_key_rotation_resumed''"
definition OperationCredentialKeyRotated :: string where "OperationCredentialKeyRotated = ''credential_key_rotated''"
definition OperationMasterKeyRotationFinalized :: string where "OperationMasterKeyRotationFinalized = ''master_key_rotation_finalized''"
definition OperationRecoveryValidationStarted :: string where "OperationRecoveryValidationStarted = ''recovery_validation_started''"
definition OperationRecoveryValidationFinished :: string where "OperationRecoveryValidationFinished = ''recovery_validation_finished''"
definition OperationBackupRegistered :: string where "OperationBackupRegistered = ''backup_registered''"
definition OperationBackupExpired :: string where "OperationBackupExpired = ''backup_expired''"

definition knownEventTypes :: "string list" where
  "knownEventTypes = [EventTypeRequestCompleted, EventTypeStateTransition]"

definition knownResults :: "string list" where
  "knownResults = [ResultSuccess, ResultDenied, ResultRejected, ResultError]"

definition knownOperations :: "string list" where
  "knownOperations =
     [OperationUnknownRoute, OperationSecurityStatusRead, OperationKeyStatusRead, OperationCredentialCreated,
      OperationCredentialRead, OperationCredentialInputsReplaced, OperationCredentialMetadataUpdated,
      OperationCredentialRetired, OperationRunBindingRegistered, OperationRunBindingInspected,
      OperationRunBindingCanceled, OperationRunBindingExpired, OperationRunBindingExhausted,
      OperationCredentialResolved, OperationMasterKeyRotationStarted, OperationMasterKeyRotationInspected,
      OperationMasterKeyRotationResumed, OperationCredentialKeyRotated, OperationMasterKeyRotationFinalized,
      OperationRecoveryValidationStarted, OperationRecoveryValidationFinished, OperationBackupRegistered,
      OperationBackupExpired]"

lemmas operation_defs =
  OperationUnknownRoute_def OperationSecurityStatusRead_def OperationKeyStatusRead_def OperationCredentialCreated_def
  OperationCredentialRead_def OperationCredentialInputsReplaced_def OperationCredentialMetadataUpdated_def
  OperationCredentialRetired_def OperationRunBindingRegistered_def OperationRunBindingInspected_def
  OperationRunBindingCanceled_def OperationRunBindingExpired_def OperationRunBindingExhausted_def
  OperationCredentialResolved_def OperationMasterKeyRotationStarted_def OperationMasterKeyRotationInspected_def
  OperationMasterKeyRotationResumed_def OperationCredentialKeyRotated_def OperationMasterKeyRotationFinalized_def
  OperationRecoveryValidationStarted_def OperationRecoveryValidationFinished_def OperationBackupRegistered_def
  OperationBackupExpired_def

lemmas result_defs = ResultSuccess_def ResultDenied_def ResultRejected_def ResultError_def ReasonCompleted_def
  ReasonOperationNotPermitted_def ReasonInvalidRequest_def ReasonSecureOperationFailed_def

definition known :: "string \<Rightarrow> string list \<Rightarrow> bool" where
  "known value vocabulary \<longleftrightarrow> value \<in> set vocabulary"

definition KnownOperation :: "string \<Rightarrow> bool" where
  "KnownOperation operation \<longleftrightarrow> operation \<in> set knownOperations"

section \<open>Events\<close>

record Event =
  ev_SchemaVersion :: "32 word"
  ev_Timestamp :: zoned
  ev_EventType :: string
  ev_Operation :: string
  ev_Result :: string
  ev_ReasonCode :: string
  ev_WorkloadIdentity :: string
  ev_HumanActor :: string
  ev_OrganizationID :: string
  ev_CredentialID :: string
  ev_RunID :: string
  ev_RotationID :: string
  ev_ExecutorIdentity :: string
  ev_CredentialVersion :: "64 word"
  ev_CredentialSchema :: "32 word"
  ev_KeyVersion :: string
  ev_RequestID :: string
  ev_LatencyClass :: string

definition zero_event :: Event where
  "zero_event = \<lparr>ev_SchemaVersion = 0, ev_Timestamp = utc zero_time, ev_EventType = [], ev_Operation = [], ev_Result = [],
     ev_ReasonCode = [], ev_WorkloadIdentity = [], ev_HumanActor = [], ev_OrganizationID = [], ev_CredentialID = [],
     ev_RunID = [], ev_RotationID = [], ev_ExecutorIdentity = [], ev_CredentialVersion = 0, ev_CredentialSchema = 0,
     ev_KeyVersion = [], ev_RequestID = [], ev_LatencyClass = []\<rparr>"

definition marshal_event :: "Event \<Rightarrow> string option" where
  "marshal_event e =
     (case marshal_time (ev_Timestamp e) of None \<Rightarrow> None
      | Some ts \<Rightarrow> Some (json_object
         ([(''schema_version'', json_nat (unat (ev_SchemaVersion e))), (''timestamp'', ts),
           (''event_type'', json_string (ev_EventType e)), (''operation'', json_string (ev_Operation e)),
           (''result'', json_string (ev_Result e)), (''reason_code'', json_string (ev_ReasonCode e))]
          @ opt_string ''workload_identity'' (ev_WorkloadIdentity e) @ opt_string ''human_actor'' (ev_HumanActor e)
          @ opt_string ''organization_id'' (ev_OrganizationID e) @ opt_string ''credential_id'' (ev_CredentialID e)
          @ opt_string ''run_id'' (ev_RunID e) @ opt_string ''rotation_id'' (ev_RotationID e)
          @ opt_string ''executor_identity'' (ev_ExecutorIdentity e)
          @ opt_nat ''credential_version'' (unat (ev_CredentialVersion e))
          @ opt_nat ''credential_schema_version'' (unat (ev_CredentialSchema e))
          @ opt_string ''key_version'' (ev_KeyVersion e) @ opt_string ''request_id'' (ev_RequestID e)
          @ opt_string ''latency_class'' (ev_LatencyClass e))))"

definition event_fields :: "(string \<times> Event setter) list" where
  "event_fields =
     [(''schema_version'', set_uint (\<lambda>w e. e\<lparr>ev_SchemaVersion := w\<rparr>)),
      (''timestamp'', set_time (\<lambda>t e. e\<lparr>ev_Timestamp := t\<rparr>)),
      (''event_type'', set_string (\<lambda>s e. e\<lparr>ev_EventType := s\<rparr>)),
      (''operation'', set_string (\<lambda>s e. e\<lparr>ev_Operation := s\<rparr>)),
      (''result'', set_string (\<lambda>s e. e\<lparr>ev_Result := s\<rparr>)),
      (''reason_code'', set_string (\<lambda>s e. e\<lparr>ev_ReasonCode := s\<rparr>)),
      (''workload_identity'', set_string (\<lambda>s e. e\<lparr>ev_WorkloadIdentity := s\<rparr>)),
      (''human_actor'', set_string (\<lambda>s e. e\<lparr>ev_HumanActor := s\<rparr>)),
      (''organization_id'', set_string (\<lambda>s e. e\<lparr>ev_OrganizationID := s\<rparr>)),
      (''credential_id'', set_string (\<lambda>s e. e\<lparr>ev_CredentialID := s\<rparr>)),
      (''run_id'', set_string (\<lambda>s e. e\<lparr>ev_RunID := s\<rparr>)),
      (''rotation_id'', set_string (\<lambda>s e. e\<lparr>ev_RotationID := s\<rparr>)),
      (''executor_identity'', set_string (\<lambda>s e. e\<lparr>ev_ExecutorIdentity := s\<rparr>)),
      (''credential_version'', set_uint (\<lambda>w e. e\<lparr>ev_CredentialVersion := w\<rparr>)),
      (''credential_schema_version'', set_uint (\<lambda>w e. e\<lparr>ev_CredentialSchema := w\<rparr>)),
      (''key_version'', set_string (\<lambda>s e. e\<lparr>ev_KeyVersion := s\<rparr>)),
      (''request_id'', set_string (\<lambda>s e. e\<lparr>ev_RequestID := s\<rparr>)),
      (''latency_class'', set_string (\<lambda>s e. e\<lparr>ev_LatencyClass := s\<rparr>))]"

definition unmarshal_event :: "string \<Rightarrow> Event option" where
  "unmarshal_event s = decode_struct False event_fields zero_event s"

section \<open>Validation\<close>

definition token :: "string \<Rightarrow> bool" where
  "token value \<longleftrightarrow> value \<noteq> [] \<and> length value \<le> 64 \<and>
     list_all (\<lambda>r. 97 \<le> r \<and> r \<le> 122 \<or> 48 \<le> r \<and> r \<le> 57 \<or> r = 95 \<or> r = 45) (runes value)"

definition audit_SchemaVersion :: "32 word" where "audit_SchemaVersion = 1"

definition event_strings :: "Event \<Rightarrow> string list" where
  "event_strings e = [ev_WorkloadIdentity e, ev_HumanActor e, ev_OrganizationID e, ev_CredentialID e, ev_RunID e,
     ev_RotationID e, ev_ExecutorIdentity e, ev_KeyVersion e, ev_RequestID e]"

text \<open>
  The comparison of the timestamp with itself in UTC compares instants, so it never fails; it is
  kept as the code has it.
\<close>

definition validate_event :: "Event \<Rightarrow> bool" where
  "validate_event e \<longleftrightarrow>
     ev_SchemaVersion e = audit_SchemaVersion \<and> z_instant (ev_Timestamp e) \<noteq> zero_time \<and>
     z_instant (ev_Timestamp e) = z_instant (utc (z_instant (ev_Timestamp e))) \<and>
     known (ev_EventType e) knownEventTypes \<and> KnownOperation (ev_Operation e) \<and>
     known (ev_Result e) knownResults \<and> token (ev_ReasonCode e) \<and>
     (ev_LatencyClass e \<noteq> [] \<longrightarrow> token (ev_LatencyClass e)) \<and>
     list_all (\<lambda>v. length v \<le> 255 \<and> \<not> ContainsAny v [nul, CHR 0x0D, CHR 0x0A]) (event_strings e)"

section \<open>Completion events\<close>

record audit_Request =
  ar_ID :: string
  ar_WorkloadIdentity :: string
  ar_Operation :: string
  ar_HumanActor :: string
  ar_StartedAt :: time

definition latency_class :: "duration \<Rightarrow> string" where
  "latency_class duration =
     (if 100 * millisecond \<le> duration then ''slow''
      else if 10 * millisecond \<le> duration then ''medium'' else ''fast'')"

definition Completion :: "audit_Request \<Rightarrow> string \<Rightarrow> string \<Rightarrow> time \<Rightarrow> Event" where
  "Completion request result reason finished =
     zero_event\<lparr>ev_SchemaVersion := audit_SchemaVersion, ev_Timestamp := utc finished,
       ev_EventType := EventTypeRequestCompleted, ev_Operation := ar_Operation request, ev_Result := result,
       ev_ReasonCode := reason, ev_WorkloadIdentity := ar_WorkloadIdentity request,
       ev_HumanActor := ar_HumanActor request, ev_RequestID := ar_ID request,
       ev_LatencyClass := latency_class (time_sub finished (ar_StartedAt request))\<rparr>"

definition StableResult :: "int \<Rightarrow> string \<times> string" where
  "StableResult status =
     (if 200 \<le> status \<and> status < 300 then (ResultSuccess, ReasonCompleted)
      else if status = 401 \<or> status = 403 then (ResultDenied, ReasonOperationNotPermitted)
      else if 400 \<le> status \<and> status < 500 then (ResultRejected, ReasonInvalidRequest)
      else (ResultError, ReasonSecureOperationFailed))"

section \<open>Round trip\<close>

definition event_utf8 :: "Event \<Rightarrow> bool" where
  "event_utf8 e \<longleftrightarrow> list_all valid_utf8 (event_strings e) \<and> valid_utf8 (ev_EventType e) \<and> valid_utf8 (ev_Operation e) \<and>
     valid_utf8 (ev_Result e) \<and> valid_utf8 (ev_ReasonCode e) \<and> valid_utf8 (ev_LatencyClass e)"

definition event_members :: "Event \<Rightarrow> string \<Rightarrow> (string \<times> json \<times> string) list" where
  "event_members e ts =
     nat_member ''schema_version'' (unat (ev_SchemaVersion e)) # (''timestamp'', JString (rfc3339 (ev_Timestamp e)), ts)
     # str_member ''event_type'' (ev_EventType e) # str_member ''operation'' (ev_Operation e)
     # str_member ''result'' (ev_Result e) # str_member ''reason_code'' (ev_ReasonCode e)
     # opt_str ''workload_identity'' (ev_WorkloadIdentity e) @ opt_str ''human_actor'' (ev_HumanActor e)
     @ opt_str ''organization_id'' (ev_OrganizationID e) @ opt_str ''credential_id'' (ev_CredentialID e)
     @ opt_str ''run_id'' (ev_RunID e) @ opt_str ''rotation_id'' (ev_RotationID e)
     @ opt_str ''executor_identity'' (ev_ExecutorIdentity e)
     @ opt_num ''credential_version'' (unat (ev_CredentialVersion e))
     @ opt_num ''credential_schema_version'' (unat (ev_CredentialSchema e))
     @ opt_str ''key_version'' (ev_KeyVersion e) @ opt_str ''request_id'' (ev_RequestID e)
     @ opt_str ''latency_class'' (ev_LatencyClass e) @ []"

lemma marshal_event_members:
  "marshal_time (ev_Timestamp e) = Some ts \<Longrightarrow> marshal_event e = Some (json_object (map (\<lambda>(k, v, t). (k, t)) (event_members e ts)))"
  by (simp add: marshal_event_def event_members_def del: case_prod_conv)

lemma reads_str_member: "(k, v, t) = str_member n s \<Longrightarrow> valid_utf8 n \<Longrightarrow> valid_utf8 s \<Longrightarrow> valid_utf8 k \<and> reads h t v"
  by (simp add: str_member_def reads_string)

lemma reads_opt_str: "(k, v, t) \<in> set (opt_str n s) \<Longrightarrow> valid_utf8 n \<Longrightarrow> valid_utf8 s \<Longrightarrow> valid_utf8 k \<and> reads h t v"
  by (auto simp: opt_str_def str_member_def reads_string split: if_splits)

lemma reads_opt_num: "(k, v, t) \<in> set (opt_num n i) \<Longrightarrow> valid_utf8 n \<Longrightarrow> valid_utf8 k \<and> reads h t v"
  by (auto simp: opt_num_def nat_member_def reads_nat split: if_splits)

lemma event_members_read:
  assumes "marshal_time (ev_Timestamp e) = Some ts" and "event_utf8 e" and "(k, v, t) \<in> set (event_members e ts)"
  shows "valid_utf8 k \<and> reads h t v"
proof -
  have u: "valid_utf8 (ev_WorkloadIdentity e)" "valid_utf8 (ev_HumanActor e)" "valid_utf8 (ev_OrganizationID e)"
    "valid_utf8 (ev_CredentialID e)" "valid_utf8 (ev_RunID e)" "valid_utf8 (ev_RotationID e)" "valid_utf8 (ev_ExecutorIdentity e)"
    "valid_utf8 (ev_KeyVersion e)" "valid_utf8 (ev_RequestID e)" "valid_utf8 (ev_EventType e)" "valid_utf8 (ev_Operation e)"
    "valid_utf8 (ev_Result e)" "valid_utf8 (ev_ReasonCode e)" "valid_utf8 (ev_LatencyClass e)"
    using assms(2) by (simp_all add: event_utf8_def event_strings_def)
  note m = marshal_time_text [OF assms(1)]
  have n: "valid_utf8 ''schema_version''" "valid_utf8 ''timestamp''" "valid_utf8 ''event_type''" "valid_utf8 ''operation''"
    "valid_utf8 ''result''" "valid_utf8 ''reason_code''" "valid_utf8 ''workload_identity''" "valid_utf8 ''human_actor''"
    "valid_utf8 ''organization_id''" "valid_utf8 ''credential_id''" "valid_utf8 ''run_id''" "valid_utf8 ''rotation_id''"
    "valid_utf8 ''executor_identity''" "valid_utf8 ''credential_version''" "valid_utf8 ''credential_schema_version''"
    "valid_utf8 ''key_version''" "valid_utf8 ''request_id''" "valid_utf8 ''latency_class''"
    by (rule valid_utf8_ascii, simp)+
  show ?thesis
    using assms(3) unfolding event_members_def set_append list.set insert_iff Un_iff empty_iff
    using u n reads_string [OF m(2)] m(1) reads_nat
    by (elim disjE) (simp_all only: reads_opt_str reads_opt_num reads_str_member prod.inject nat_member_def)
qed

lemma event_find:
  "find_field event_fields ''schema_version'' = Some (set_uint (\<lambda>x e. e\<lparr>ev_SchemaVersion := x\<rparr>))"
  "find_field event_fields ''timestamp'' = Some (set_time (\<lambda>x e. e\<lparr>ev_Timestamp := x\<rparr>))"
  "find_field event_fields ''event_type'' = Some (set_string (\<lambda>x e. e\<lparr>ev_EventType := x\<rparr>))"
  "find_field event_fields ''operation'' = Some (set_string (\<lambda>x e. e\<lparr>ev_Operation := x\<rparr>))"
  "find_field event_fields ''result'' = Some (set_string (\<lambda>x e. e\<lparr>ev_Result := x\<rparr>))"
  "find_field event_fields ''reason_code'' = Some (set_string (\<lambda>x e. e\<lparr>ev_ReasonCode := x\<rparr>))"
  "find_field event_fields ''workload_identity'' = Some (set_string (\<lambda>x e. e\<lparr>ev_WorkloadIdentity := x\<rparr>))"
  "find_field event_fields ''human_actor'' = Some (set_string (\<lambda>x e. e\<lparr>ev_HumanActor := x\<rparr>))"
  "find_field event_fields ''organization_id'' = Some (set_string (\<lambda>x e. e\<lparr>ev_OrganizationID := x\<rparr>))"
  "find_field event_fields ''credential_id'' = Some (set_string (\<lambda>x e. e\<lparr>ev_CredentialID := x\<rparr>))"
  "find_field event_fields ''run_id'' = Some (set_string (\<lambda>x e. e\<lparr>ev_RunID := x\<rparr>))"
  "find_field event_fields ''rotation_id'' = Some (set_string (\<lambda>x e. e\<lparr>ev_RotationID := x\<rparr>))"
  "find_field event_fields ''executor_identity'' = Some (set_string (\<lambda>x e. e\<lparr>ev_ExecutorIdentity := x\<rparr>))"
  "find_field event_fields ''credential_version'' = Some (set_uint (\<lambda>x e. e\<lparr>ev_CredentialVersion := x\<rparr>))"
  "find_field event_fields ''credential_schema_version'' = Some (set_uint (\<lambda>x e. e\<lparr>ev_CredentialSchema := x\<rparr>))"
  "find_field event_fields ''key_version'' = Some (set_string (\<lambda>x e. e\<lparr>ev_KeyVersion := x\<rparr>))"
  "find_field event_fields ''request_id'' = Some (set_string (\<lambda>x e. e\<lparr>ev_RequestID := x\<rparr>))"
  "find_field event_fields ''latency_class'' = Some (set_string (\<lambda>x e. e\<lparr>ev_LatencyClass := x\<rparr>))"
  by (simp_all add: find_field_def event_fields_def)

lemmas event_steps = event_find(1) [THEN decode_nat_member] event_find(2) [THEN decode_time_member]
  event_find(3-6) [THEN decode_str_member] event_find(7-13,16-18) [THEN decode_opt_str] event_find(14,15) [THEN decode_opt_num]

lemma event_decode:
  assumes "marshal_time (ev_Timestamp e) = Some ts"
  shows "decode_members False event_fields (event_members e ts) zero_event = Some e"
  using assms by (simp add: event_members_def event_steps zero_event_def del: decode_members.simps(2) append_Nil2)

lemma unmarshal_marshal_event:
  assumes "marshal_event e = Some s" and "event_utf8 e"
  shows "unmarshal_event s = Some e"
proof -
  from assms(1) obtain ts where ts: "marshal_time (ev_Timestamp e) = Some ts"
    by (auto simp: marshal_event_def split: option.splits)
  have "s = json_object (map (\<lambda>(k, v, t). (k, t)) (event_members e ts))"
    using assms(1) marshal_event_members [OF ts] by simp
  moreover have "event_members e ts \<noteq> []" by (simp add: event_members_def)
  ultimately show ?thesis
    using decode_struct_object [of "event_members e ts" 0 False event_fields zero_event] event_members_read [OF ts assms(2)]
      event_decode [OF ts]
    by (simp add: unmarshal_event_def max_depth_def)
qed

end
