(* ===== verification/Audit_Spool.thy ===== *)
theory Audit_Spool
  imports Audit_Events
begin

text \<open>
  The audit spool (\<open>audit/spool.go\<close> over the tables of \<open>audit/migrations/001_audit_spool.sql\<close>): an
  append-only table of events chained by HMAC-SHA-256, and a row that holds the head of the
  chain. A table is the list of its rows in the order they were inserted; a query with
  \<open>ORDER BY sequence\<close> sorts it. Two things the code relies on are parameters: HMAC-SHA-256, and
  the text PostgreSQL returns for a \<open>jsonb\<close> column that was written with a given text
  (\<^const>\<open>None\<close> when it refuses the text). A failed statement makes the call return \<open>ErrAudit\<close> and
  the enclosing transaction roll back; statements fail on the constraints of the tables, losing
  the connection is not modelled.
\<close>

datatype audit_error = ErrAudit | ErrSink

record audit_env =
  ae_hmac :: "bytes \<Rightarrow> bytes \<Rightarrow> bytes"
  ae_jsonb :: "string \<Rightarrow> string option"

record Spool =
  sp_key :: bytes
  sp_maximumPending :: int

record spool_row =
  row_sequence :: int
  row_event :: string
  row_previous :: bytes
  row_mac :: bytes
  row_delivered :: "time option"

record audit_db =
  db_last_sequence :: int
  db_last_mac :: bytes
  db_spool :: "spool_row list"

record audit_Record =
  rec_Sequence :: int
  rec_Event :: Event
  rec_MAC :: bytes

definition NewSpool :: "bytes \<Rightarrow> int \<Rightarrow> audit_error + Spool" where
  "NewSpool key maximumPending =
     (if length key \<noteq> 32 \<or> maximumPending < 1 then Inl ErrAudit
      else Inr \<lparr>sp_key = key, sp_maximumPending = maximumPending\<rparr>)"

text \<open>The tables as the migration creates them.\<close>

definition migrated :: audit_db where
  "migrated = \<lparr>db_last_sequence = 0, db_last_mac = [], db_spool = []\<rparr>"

definition pending_rows :: "audit_db \<Rightarrow> spool_row list" where
  "pending_rows db = filter (\<lambda>r. row_delivered r = None) (db_spool db)"

definition by_sequence :: "spool_row list \<Rightarrow> spool_row list" where
  "by_sequence rs = sort_key row_sequence rs"

section \<open>Appending\<close>

text \<open>\<open>sequence++\<close> on an \<open>int64\<close>, and \<open>binary.BigEndian.PutUint64\<close> of one.\<close>

definition incr64 :: "int \<Rightarrow> int" where
  "incr64 n = (if n = 2 ^ 63 - 1 then - (2 ^ 63) else n + 1)"

definition be64 :: "int \<Rightarrow> bytes" where
  "be64 n = map (\<lambda>i. of_int (n div 2 ^ (8 * (7 - i)))) [0..<8]"

definition authenticate :: "audit_env \<Rightarrow> Spool \<Rightarrow> int \<Rightarrow> bytes \<Rightarrow> string \<Rightarrow> bytes" where
  "authenticate env sp sequence previous encoded = ae_hmac env (sp_key sp) (be64 sequence @ previous @ bytes_of encoded)"

text \<open>\<open>INSERT INTO audit_spool\<close>: the primary key and the checks on the lengths.\<close>

definition insert_row :: "audit_env \<Rightarrow> audit_db \<Rightarrow> int \<Rightarrow> string \<Rightarrow> bytes \<Rightarrow> bytes \<Rightarrow> audit_db option" where
  "insert_row env db sequence encoded previous mac =
     (case ae_jsonb env encoded of None \<Rightarrow> None
      | Some stored \<Rightarrow>
          if sequence \<in> row_sequence ` set (db_spool db) \<or> length previous \<notin> {0, 32} \<or> length mac \<noteq> 32 then None
          else Some (db\<lparr>db_spool := db_spool db @ [\<lparr>row_sequence = sequence, row_event = stored,
                 row_previous = previous, row_mac = mac, row_delivered = None\<rparr>]\<rparr>))"

text \<open>\<open>UPDATE audit_chain_state\<close>, with its check on the length.\<close>

definition update_head :: "audit_db \<Rightarrow> int \<Rightarrow> bytes \<Rightarrow> audit_db option" where
  "update_head db sequence mac =
     (if length mac \<notin> {0, 32} then None else Some (db\<lparr>db_last_sequence := sequence, db_last_mac := mac\<rparr>))"

definition AppendTx :: "audit_env \<Rightarrow> Spool \<Rightarrow> audit_db \<Rightarrow> Event \<Rightarrow> audit_error + audit_db" where
  "AppendTx env sp db event =
     (if \<not> validate_event event then Inl ErrAudit
      else if sp_maximumPending sp \<le> int (length (pending_rows db)) then Inl ErrAudit
      else (let sequence = incr64 (db_last_sequence db); previous = db_last_mac db in
            case marshal_event event of None \<Rightarrow> Inl ErrAudit
            | Some encoded \<Rightarrow>
                (let mac = authenticate env sp sequence previous encoded in
                 case insert_row env db sequence encoded previous mac of None \<Rightarrow> Inl ErrAudit
                 | Some db' \<Rightarrow>
                     (case update_head db' sequence mac of None \<Rightarrow> Inl ErrAudit
                      | Some db'' \<Rightarrow> Inr db''))))"

section \<open>Reading and delivery marks\<close>

text \<open>A row as \<open>Pending\<close> reads it, with its code authenticated over the canonical encoding.\<close>

definition read_row :: "audit_env \<Rightarrow> Spool \<Rightarrow> spool_row \<Rightarrow> audit_Record option" where
  "read_row env sp r =
     (case unmarshal_event (row_event r) of None \<Rightarrow> None
      | Some event \<Rightarrow>
          (case marshal_event event of None \<Rightarrow> None
           | Some canonical \<Rightarrow>
               if row_mac r \<noteq> authenticate env sp (row_sequence r) (row_previous r) canonical then None
               else Some \<lparr>rec_Sequence = row_sequence r, rec_Event = event, rec_MAC = row_mac r\<rparr>))"

fun read_rows :: "audit_env \<Rightarrow> Spool \<Rightarrow> spool_row list \<Rightarrow> audit_Record list option" where
  "read_rows env sp [] = Some []"
| "read_rows env sp (r # rs) =
     (case read_row env sp r of None \<Rightarrow> None
      | Some x \<Rightarrow> map_option ((#) x) (read_rows env sp rs))"

definition head_matches :: "audit_db \<Rightarrow> bool" where
  "head_matches db \<longleftrightarrow>
     (0 < db_last_sequence db \<longrightarrow>
        (case rev (by_sequence (db_spool db)) of [] \<Rightarrow> False
         | r # _ \<Rightarrow> db_last_sequence db = row_sequence r \<and> db_last_mac db = row_mac r))"

definition Pending :: "audit_env \<Rightarrow> Spool \<Rightarrow> audit_db \<Rightarrow> int \<Rightarrow> audit_error + audit_Record list" where
  "Pending env sp db limit =
     (if limit < 1 \<or> 1000 < limit then Inl ErrAudit
      else case read_rows env sp (take (nat limit) (by_sequence (pending_rows db))) of None \<Rightarrow> Inl ErrAudit
      | Some records \<Rightarrow> if head_matches db then Inr records else Inl ErrAudit)"

definition marks :: "int \<Rightarrow> bytes \<Rightarrow> spool_row \<Rightarrow> bool" where
  "marks sequence mac r \<longleftrightarrow> row_sequence r = sequence \<and> row_mac r = mac \<and> row_delivered r = None"

definition MarkDelivered :: "audit_db \<Rightarrow> int \<Rightarrow> bytes \<Rightarrow> time \<Rightarrow> audit_error + audit_db" where
  "MarkDelivered db sequence mac deliveredAt =
     (if sequence < 1 \<or> length mac \<noteq> 32 \<or> deliveredAt = zero_time then Inl ErrAudit
      else if length (filter (marks sequence mac) (db_spool db)) \<noteq> 1 then Inl ErrAudit
      else Inr (db\<lparr>db_spool := map (\<lambda>r. if marks sequence mac r then r\<lparr>row_delivered := Some deliveredAt\<rparr> else r) (db_spool db)\<rparr>))"

definition PendingCount :: "Spool \<Rightarrow> audit_db \<Rightarrow> int \<times> int" where
  "PendingCount sp db = (int (length (pending_rows db)), sp_maximumPending sp)"

section \<open>Verification\<close>

text \<open>The loop of \<open>Verify\<close>: the sequence number and code expected next.\<close>

fun verify_rows :: "audit_env \<Rightarrow> Spool \<Rightarrow> int \<Rightarrow> bytes \<Rightarrow> spool_row list \<Rightarrow> (int \<times> bytes) option" where
  "verify_rows env sp expected previous [] = Some (expected, previous)"
| "verify_rows env sp expected previous (r # rs) =
     (case unmarshal_event (row_event r) of None \<Rightarrow> None
      | Some event \<Rightarrow>
          (case marshal_event event of None \<Rightarrow> None
           | Some canonical \<Rightarrow>
               let expected' = incr64 expected in
               if row_sequence r \<noteq> expected' \<or> row_previous r \<noteq> previous \<or>
                  row_mac r \<noteq> authenticate env sp (row_sequence r) previous canonical
               then None
               else verify_rows env sp expected' (row_mac r) rs))"

definition Verify :: "audit_env \<Rightarrow> Spool \<Rightarrow> audit_db \<Rightarrow> audit_error option" where
  "Verify env sp db =
     (case verify_rows env sp 0 [] (by_sequence (db_spool db)) of None \<Rightarrow> Some ErrAudit
      | Some (expected, previous) \<Rightarrow>
          if db_last_sequence db \<noteq> expected \<or> db_last_mac db \<noteq> previous then Some ErrAudit else None)"

section \<open>The chain\<close>

text \<open>
  What the code relies on: HMAC-SHA-256 is 32 bytes, and a \<open>jsonb\<close> column written with the
  encoding of a valid event is accepted and reads back as a text that decodes to the same event.
\<close>

definition audit_env_ok :: "audit_env \<Rightarrow> bool" where
  "audit_env_ok env \<longleftrightarrow> (\<forall>k m. length (ae_hmac env k m) = 32) \<and>
     (\<forall>e s. validate_event e \<and> event_utf8 e \<and> marshal_event e = Some s \<longrightarrow>
        (\<exists>t. ae_jsonb env s = Some t \<and> unmarshal_event t = unmarshal_event s))"

lemma incr64_small: "n < 2 ^ 63 - 1 \<Longrightarrow> incr64 n = n + 1"
  by (simp add: incr64_def)

lemma verify_rows_append:
  "verify_rows env sp k p (xs @ ys) =
     (case verify_rows env sp k p xs of None \<Rightarrow> None | Some (k', p') \<Rightarrow> verify_rows env sp k' p' ys)"
  by (induction xs arbitrary: k p) (auto simp: Let_def split: option.splits)

text \<open>A verified chain is numbered without gaps.\<close>

lemma verify_rows_numbered:
  assumes "verify_rows env sp k p rs = Some (k', p')" and "k + int (length rs) < 2 ^ 63" and "0 \<le> k"
  shows "k' = k + int (length rs)" and "map row_sequence rs = map (\<lambda>i. k + 1 + int i) [0..<length rs]"
proof -
  have "k' = k + int (length rs) \<and> map row_sequence rs = map (\<lambda>i. k + 1 + int i) [0..<length rs]"
    using assms
  proof (induction rs arbitrary: k p)
    case (Cons r rs)
    then have k: "incr64 k = k + 1" by (intro incr64_small) simp
    from Cons.prems(1) k obtain p1 where "row_sequence r = k + 1" "verify_rows env sp (k + 1) p1 rs = Some (k', p')"
      by (auto simp: Let_def split: option.splits if_splits)
    with Cons.IH [of "k + 1" p1] Cons.prems(2,3) show ?case
      by (simp add: map_upt_Suc ac_simps del: upt_Suc)
  qed simp
  then show "k' = k + int (length rs)" and "map row_sequence rs = map (\<lambda>i. k + 1 + int i) [0..<length rs]" by simp_all
qed

lemma numbered_sorted:
  assumes "map row_sequence rs = map (\<lambda>i. k + 1 + int i) [0..<length rs]"
  shows "by_sequence rs = rs" and "distinct (map row_sequence rs)"
    and "by_sequence (filter P rs) = filter P rs"
proof -
  have s: "sorted (map row_sequence rs)" unfolding assms by (auto simp: sorted_iff_nth_mono)
  then show "by_sequence rs = rs" by (simp add: by_sequence_def sorted_sort_id sort_key_id_if_sorted)
  show "distinct (map row_sequence rs)" unfolding assms by (simp add: distinct_map inj_on_def)
  show "by_sequence (filter P rs) = filter P rs"
    unfolding by_sequence_def using s by (intro sort_key_id_if_sorted sorted_filter)
qed

definition spool_inv :: "audit_env \<Rightarrow> Spool \<Rightarrow> audit_db \<Rightarrow> bool" where
  "spool_inv env sp db \<longleftrightarrow> audit_env_ok env \<and> 0 \<le> sp_maximumPending sp \<and>
     int (length (db_spool db)) < 2 ^ 63 \<and>
     verify_rows env sp 0 [] (db_spool db) = Some (db_last_sequence db, db_last_mac db) \<and>
     length (db_last_mac db) \<in> {0, 32} \<and> list_all (\<lambda>r. length (row_mac r) = 32) (db_spool db) \<and>
     int (length (pending_rows db)) \<le> sp_maximumPending sp"

lemma migrated_inv: "audit_env_ok env \<Longrightarrow> 0 \<le> sp_maximumPending sp \<Longrightarrow> spool_inv env sp migrated"
  by (simp add: spool_inv_def migrated_def pending_rows_def)

lemma spool_inv_sequence:
  assumes "spool_inv env sp db"
  shows "db_last_sequence db = int (length (db_spool db))"
    and "map row_sequence (db_spool db) = map (\<lambda>i. 1 + int i) [0..<length (db_spool db)]"
    and "by_sequence (db_spool db) = db_spool db" and "by_sequence (pending_rows db) = pending_rows db"
    and "distinct (map row_sequence (db_spool db))"
proof -
  from assms have v: "verify_rows env sp 0 [] (db_spool db) = Some (db_last_sequence db, db_last_mac db)"
    and b: "0 + int (length (db_spool db)) < 2 ^ 63" by (simp_all add: spool_inv_def)
  note n = verify_rows_numbered [OF v b]
  then show "db_last_sequence db = int (length (db_spool db))"
    "map row_sequence (db_spool db) = map (\<lambda>i. 1 + int i) [0..<length (db_spool db)]" by simp_all
  from n have m: "map row_sequence (db_spool db) = map (\<lambda>i. 0 + 1 + int i) [0..<length (db_spool db)]" by simp
  show "by_sequence (db_spool db) = db_spool db" "by_sequence (pending_rows db) = pending_rows db"
    "distinct (map row_sequence (db_spool db))"
    using numbered_sorted [OF m] by (simp_all add: pending_rows_def)
qed

lemma spool_inv_Verify: "spool_inv env sp db \<Longrightarrow> Verify env sp db = None"
  using spool_inv_sequence(3) [of env sp db] by (simp add: Verify_def spool_inv_def)

lemma head_matches_inv:
  assumes "spool_inv env sp db"
  shows "head_matches db"
proof (cases "db_spool db" rule: rev_cases)
  case Nil
  then show ?thesis using spool_inv_sequence(1) [OF assms] by (simp add: head_matches_def)
next
  case (snoc rs r)
  have "db_last_sequence db = row_sequence r \<and> db_last_mac db = row_mac r"
    using assms snoc
    by (auto simp: spool_inv_def verify_rows_append Let_def split: option.splits prod.splits if_splits)
  then show ?thesis
    using spool_inv_sequence(3) [OF assms] snoc by (simp add: head_matches_def)
qed

text \<open>What an append does, on every branch.\<close>

definition appended :: "audit_env \<Rightarrow> Spool \<Rightarrow> audit_db \<Rightarrow> string \<Rightarrow> string \<Rightarrow> audit_db" where
  "appended env sp db encoded stored =
     (let mac = authenticate env sp (db_last_sequence db + 1) (db_last_mac db) encoded in
      db\<lparr>db_last_sequence := db_last_sequence db + 1, db_last_mac := mac,
         db_spool := db_spool db @ [\<lparr>row_sequence = db_last_sequence db + 1, row_event = stored,
           row_previous = db_last_mac db, row_mac = mac, row_delivered = None\<rparr>]\<rparr>)"

lemma AppendTx_result:
  assumes inv: "spool_inv env sp db" and room: "int (length (db_spool db)) < 2 ^ 63 - 1"
    and m: "marshal_event e = Some s" and j: "ae_jsonb env s = Some t"
  shows "AppendTx env sp db e =
    (if validate_event e \<and> int (length (pending_rows db)) < sp_maximumPending sp
     then Inr (appended env sp db s t) else Inl ErrAudit)"
proof -
  have k: "incr64 (db_last_sequence db) = db_last_sequence db + 1"
    using room spool_inv_sequence(1) [OF inv] by (intro incr64_small) simp
  have "db_last_sequence db + 1 \<notin> row_sequence ` set (db_spool db)"
  proof -
    have "row_sequence ` set (db_spool db) = set (map row_sequence (db_spool db))" by simp
    also have "\<dots> = (\<lambda>i. 1 + int i) ` {0..<length (db_spool db)}" unfolding spool_inv_sequence(2) [OF inv] by simp
    finally show ?thesis unfolding spool_inv_sequence(1) [OF inv] by auto
  qed
  with inv k m j show ?thesis
    by (auto simp: AppendTx_def appended_def insert_row_def update_head_def Let_def spool_inv_def audit_env_ok_def authenticate_def)
qed

lemma appended_inv:
  assumes inv: "spool_inv env sp db" and room: "int (length (db_spool db)) < 2 ^ 63 - 1"
    and e: "marshal_event e = Some s" "event_utf8 e" "validate_event e"
    and j: "ae_jsonb env s = Some t" and pending: "int (length (pending_rows db)) < sp_maximumPending sp"
  shows "spool_inv env sp (appended env sp db s t)"
proof -
  have A: "audit_env_ok env" using inv by (simp add: spool_inv_def)
  then have "unmarshal_event t = Some e"
    using e j unmarshal_marshal_event [OF e(1,2)] unfolding audit_env_ok_def by (metis option.inject)
  moreover have "incr64 (db_last_sequence db) = db_last_sequence db + 1"
    using room spool_inv_sequence(1) [OF inv] by (intro incr64_small) simp
  ultimately show ?thesis
    using inv room e(1) pending A
    by (auto simp: spool_inv_def appended_def Let_def verify_rows_append pending_rows_def audit_env_ok_def authenticate_def)
qed

lemma verify_rows_marked:
  "verify_rows env sp k p (map (\<lambda>r. if P r then r\<lparr>row_delivered := d\<rparr> else r) rs) = verify_rows env sp k p rs"
  by (induction rs arbitrary: k p) (auto simp: Let_def split: option.splits)

lemma MarkDelivered_inv:
  assumes "spool_inv env sp db" and "MarkDelivered db sequence mac t = Inr db'"
  shows "spool_inv env sp db'"
proof -
  let ?mark = "\<lambda>r. if marks sequence mac r then r\<lparr>row_delivered := Some t\<rparr> else r"
  have db': "db' = db\<lparr>db_spool := map ?mark (db_spool db)\<rparr>"
    using assms(2) by (auto simp: MarkDelivered_def split: if_splits)
  have "length (filter (\<lambda>r. row_delivered r = None) (map ?mark rs)) \<le> length (filter (\<lambda>r. row_delivered r = None) rs)" for rs
    by (induction rs) auto
  from this [of "db_spool db"] have "length (pending_rows db') \<le> length (pending_rows db)"
    by (simp add: pending_rows_def db')
  moreover have "list_all (\<lambda>r. length (row_mac r) = 32) (map ?mark rs) = list_all (\<lambda>r. length (row_mac r) = 32) rs" for rs
    by (induction rs) auto
  ultimately show ?thesis
    using assms(1) verify_rows_marked [of env sp 0 "[]" "marks sequence mac" "Some t" "db_spool db"]
    by (auto simp: spool_inv_def db')
qed

section \<open>Runs of the spool\<close>

datatype spool_op = SpoolAppend Event | SpoolMark int bytes time

fun spool_step :: "audit_env \<Rightarrow> Spool \<Rightarrow> audit_db \<Rightarrow> spool_op \<Rightarrow> audit_db" where
  "spool_step env sp db (SpoolAppend e) = (case AppendTx env sp db e of Inl _ \<Rightarrow> db | Inr db' \<Rightarrow> db')"
| "spool_step env sp db (SpoolMark sequence mac t) = (case MarkDelivered db sequence mac t of Inl _ \<Rightarrow> db | Inr db' \<Rightarrow> db')"

fun spool_ok :: "audit_db \<Rightarrow> spool_op \<Rightarrow> bool" where
  "spool_ok db (SpoolAppend e) \<longleftrightarrow> event_utf8 e \<and> int (length (db_spool db)) < 2 ^ 63 - 1"
| "spool_ok db (SpoolMark _ _ _) \<longleftrightarrow> True"

definition row_le :: "spool_row \<Rightarrow> spool_row \<Rightarrow> bool" where
  "row_le r r' \<longleftrightarrow> r' = r\<lparr>row_delivered := row_delivered r'\<rparr> \<and>
     (row_delivered r \<noteq> None \<longrightarrow> row_delivered r' = row_delivered r)"

definition spool_le :: "audit_db \<Rightarrow> audit_db \<Rightarrow> bool" where
  "spool_le db db' \<longleftrightarrow> length (db_spool db) \<le> length (db_spool db') \<and>
     (\<forall>i < length (db_spool db). row_le (db_spool db ! i) (db_spool db' ! i))"

lemma row_le_refl: "row_le r r"
  by (simp add: row_le_def)

lemma row_le_trans: "row_le r s \<Longrightarrow> row_le s t \<Longrightarrow> row_le r t"
proof -
  assume a: "row_le r s" "row_le s t"
  then have "s = r\<lparr>row_delivered := row_delivered s\<rparr>" "t = s\<lparr>row_delivered := row_delivered t\<rparr>" by (simp_all add: row_le_def)
  then have "t = r\<lparr>row_delivered := row_delivered t\<rparr>" by (metis spool_row.fold_congs(5) spool_row.surjective spool_row.update_convs(5))
  with a show ?thesis by (auto simp: row_le_def)
qed

lemma spool_le_refl: "spool_le db db"
  by (simp add: spool_le_def row_le_refl)

lemma spool_le_trans: "spool_le a b \<Longrightarrow> spool_le b c \<Longrightarrow> spool_le a c"
  by (auto simp: spool_le_def intro: row_le_trans)

lemma AppendTx_Inr:
  assumes "AppendTx env sp db e = Inr db'" and "spool_inv env sp db" and "int (length (db_spool db)) < 2 ^ 63 - 1"
  obtains s t where "validate_event e" "int (length (pending_rows db)) < sp_maximumPending sp" "marshal_event e = Some s"
    "ae_jsonb env s = Some t" "db' = appended env sp db s t"
proof -
  from assms(1) obtain s t where s: "marshal_event e = Some s" "ae_jsonb env s = Some t"
    by (auto simp: AppendTx_def insert_row_def Let_def split: if_splits option.splits)
  with AppendTx_result [OF assms(2,3) s] assms(1) show ?thesis
    by (intro that [OF _ _ s]) (auto split: if_splits)
qed

lemma MarkDelivered_le: "MarkDelivered db sequence mac t = Inr db' \<Longrightarrow> spool_le db db'"
  by (auto simp: MarkDelivered_def spool_le_def row_le_def marks_def split: if_splits)

interpretation spool: monotone_system "spool_step env sp" spool_ok "spool_inv env sp" spool_le
proof
  fix db op
  assume inv: "spool_inv env sp db" and ok: "spool_ok db op"
  have "spool_inv env sp (spool_step env sp db op) \<and> spool_le db (spool_step env sp db op)"
  proof (cases op)
    case (SpoolAppend e)
    show ?thesis
    proof (cases "AppendTx env sp db e")
      case (Inr db')
      have room: "int (length (db_spool db)) < 2 ^ 63 - 1" and u: "event_utf8 e" using ok SpoolAppend by simp_all
      from Inr inv room obtain s t where s: "validate_event e" "int (length (pending_rows db)) < sp_maximumPending sp"
        "marshal_event e = Some s" "ae_jsonb env s = Some t" and db': "db' = appended env sp db s t"
        by (rule AppendTx_Inr)
      have "spool_inv env sp db'" unfolding db' by (rule appended_inv [OF inv room s(3) u s(1,4,2)])
      moreover have "spool_le db db'"
        by (auto simp: db' spool_le_def appended_def Let_def nth_append row_le_refl)
      ultimately show ?thesis using SpoolAppend Inr by simp
    qed (use SpoolAppend inv in \<open>simp add: spool_le_refl\<close>)
  next
    case (SpoolMark sequence mac t)
    then show ?thesis
      using inv MarkDelivered_inv [OF inv] MarkDelivered_le [of db sequence mac t]
      by (auto split: sum.splits simp: spool_le_refl)
  qed
  then show "spool_inv env sp (spool_step env sp db op)" "spool_le db (spool_step env sp db op)" by simp_all
qed (rule spool_le_refl, rule spool_le_trans)

section \<open>Properties of the spool\<close>

text \<open>
  C33. An audit event survives its encoding: for every event whose strings are UTF-8, what
  \<open>json.Marshal\<close> writes is read back by \<open>json.Unmarshal\<close> as the same event, timestamp and zone
  included, so that the canonical encoding computed when the chain is verified is the encoding
  that was authenticated.
\<close>

theorem event_roundtrip:
  assumes "marshal_event e = Some s" and "event_utf8 e"
  shows "unmarshal_event s = Some e \<and> Option.bind (unmarshal_event s) marshal_event = Some s"
  using unmarshal_marshal_event [OF assms] assms(1) by simp


text \<open>
  C31. The spool is append-only: along every run, a row once written keeps its position, number,
  event, link and authentication code for ever; the only thing that changes is that its delivery
  time is set, and it is set at most once.
\<close>

theorem spool_append_only:
  assumes "spool_inv env sp db" and "run_ok (spool_step env sp) spool_ok db ops" and "i < length (db_spool db)"
    and "db' = foldl (spool_step env sp) db ops"
  shows "i < length (db_spool db') \<and> db_spool db' ! i = (db_spool db ! i)\<lparr>row_delivered := row_delivered (db_spool db' ! i)\<rparr> \<and>
    (row_delivered (db_spool db ! i) \<noteq> None \<longrightarrow> row_delivered (db_spool db' ! i) = row_delivered (db_spool db ! i))"
  using spool.run_le [OF assms(1,2)] assms(3,4) by (auto simp: spool_le_def row_le_def)

text \<open>
  C32. Appending is bounded and all or nothing: on a sound spool, a valid event is appended exactly
  when fewer than the maximum are pending, and then it becomes the last row, numbered next and
  linked to the previous code; otherwise the call reports an error, which aborts the caller's
  transaction.
\<close>

theorem append_bounded:
  assumes inv: "spool_inv env sp db" and room: "int (length (db_spool db)) < 2 ^ 63 - 1"
    and e: "validate_event e" "event_utf8 e" "marshal_event e = Some s"
  shows "(int (length (pending_rows db)) < sp_maximumPending sp \<longrightarrow>
      (\<exists>db' r. AppendTx env sp db e = Inr db' \<and> db_spool db' = db_spool db @ [r] \<and>
         row_sequence r = db_last_sequence db + 1 \<and> row_previous r = db_last_mac db \<and> row_delivered r = None \<and>
         unmarshal_event (row_event r) = Some e \<and> db_last_mac db' = row_mac r)) \<and>
    (sp_maximumPending sp \<le> int (length (pending_rows db)) \<longrightarrow> AppendTx env sp db e = Inl ErrAudit)"
proof -
  have "audit_env_ok env" using inv by (simp add: spool_inv_def)
  then obtain t where t: "ae_jsonb env s = Some t" "unmarshal_event t = Some e"
    using e unmarshal_marshal_event [OF e(3,2)] unfolding audit_env_ok_def by metis
  show ?thesis
    using AppendTx_result [OF inv room e(3) t(1)] e(1) t(2) by (auto simp: appended_def Let_def)
qed

section \<open>Tampering\<close>

definition canonical :: "spool_row \<Rightarrow> string option" where
  "canonical r = Option.bind (unmarshal_event (row_event r)) marshal_event"

definition auth_message :: "spool_row \<Rightarrow> bytes" where
  "auth_message r = be64 (row_sequence r) @ row_previous r @ bytes_of (the (canonical r))"

text \<open>Two rows that authenticate different contents with the same code.\<close>

definition mac_collision :: "spool_row \<Rightarrow> spool_row \<Rightarrow> bool" where
  "mac_collision r s \<longleftrightarrow> row_mac r = row_mac s \<and> auth_message r \<noteq> auth_message s"

definition same_row :: "spool_row \<Rightarrow> spool_row \<Rightarrow> bool" where
  "same_row r s \<longleftrightarrow> row_sequence r = row_sequence s \<and> row_previous r = row_previous s \<and> row_mac r = row_mac s \<and>
     canonical r = canonical s"

lemma verify_rows_snoc:
  assumes "verify_rows env sp 0 [] (rs @ [r]) = Some (k, q)" and "int (length rs) + 1 < 2 ^ 63"
  shows "q = row_mac r \<and> row_sequence r = int (length rs) + 1 \<and>
    verify_rows env sp 0 [] rs = Some (int (length rs), row_previous r) \<and> canonical r \<noteq> None \<and>
    row_mac r = ae_hmac env (sp_key sp) (auth_message r)"
proof -
  from assms(1) obtain k0 p0 where v: "verify_rows env sp 0 [] rs = Some (k0, p0)" and w: "verify_rows env sp k0 p0 [r] = Some (k, q)"
    by (auto simp: verify_rows_append split: option.splits)
  have "k0 = int (length rs)" using verify_rows_numbered(1) [OF v] assms(2) by simp
  moreover from this assms(2) have "incr64 k0 = int (length rs) + 1" by (simp add: incr64_small)
  ultimately show ?thesis
    using v w by (auto simp: canonical_def auth_message_def authenticate_def Let_def split: option.splits if_splits)
qed

lemma chain_unique:
  assumes "verify_rows env sp 0 [] rs = Some (k, q)" and "verify_rows env sp 0 [] ss = Some (k, q)"
    and "int (length rs) < 2 ^ 63" and "int (length ss) < 2 ^ 63" and A: "\<And>key m. length (ae_hmac env key m) = 32"
  shows "list_all2 same_row rs ss \<or> (\<exists>r \<in> set rs. \<exists>s \<in> set ss. mac_collision r s)"
proof -
  have "length rs = length ss"
    using verify_rows_numbered(1) [OF assms(1)] verify_rows_numbered(1) [OF assms(2)] assms(3,4) by simp
  then show ?thesis
    using assms(1-4)
  proof (induction rs arbitrary: ss k q rule: rev_induct)
    case (snoc r rs ss0)
    from snoc.prems(1) obtain ss s where ss0: "ss0 = ss @ [s]" and hyps: "length rs = length ss"
      by (cases ss0 rule: rev_cases) auto
    note prems = snoc.prems(2-5) [unfolded ss0]
    have l: "int (length rs) + 1 < 2 ^ 63" "int (length ss) + 1 < 2 ^ 63" using prems by simp_all
    note r = verify_rows_snoc [OF prems(1) l(1)] and s = verify_rows_snoc [OF prems(2) l(2)]
    show ?case
    proof (cases "auth_message r = auth_message s")
      case False
      with r s show ?thesis by (auto simp: mac_collision_def ss0)
    next
      case True
      have "length (row_previous r) = length (row_previous s)"
      proof (cases rs rule: rev_cases)
        case Nil
        with hyps r s show ?thesis by auto
      next
        case prev: (snoc rs' r')
        moreover from this hyps obtain ss' s' where "ss = ss' @ [s']" by (cases ss rule: rev_cases) auto
        ultimately show ?thesis
          using r s l A verify_rows_snoc [of env sp rs' r'] verify_rows_snoc [of env sp ss' s'] by auto
      qed
      with True r s hyps have e: "row_previous r = row_previous s" "bytes_of (the (canonical r)) = bytes_of (the (canonical s))"
        by (auto simp: auth_message_def)
      then have "same_row r s"
        using r s hyps by (auto simp: same_row_def)
      moreover have "list_all2 same_row rs ss \<or> (\<exists>r \<in> set rs. \<exists>s \<in> set ss. mac_collision r s)"
        by (rule snoc.IH [of ss "int (length rs)" "row_previous r"]) (use r s e(1) hyps l in auto)
      ultimately show ?thesis by (auto simp: list_all2_append ss0 hyps)
    qed
  qed simp
qed

text \<open>
  C20. Tampering is evident: two spools that both verify under the same key and have the same head
  (number and code) hold the same rows, number by number, link by link and event by event, unless
  one of them contains a row whose authentication code collides with that of a different
  message in the other. Removing, reordering, inserting or editing a row behind a head that an
  auditor knows thus needs a collision of HMAC-SHA-256.
\<close>

theorem tamper_evident:
  assumes "Verify env sp db = None" and "Verify env sp db' = None"
    and "db_last_sequence db' = db_last_sequence db" and "db_last_mac db' = db_last_mac db"
    and "int (length (db_spool db)) < 2 ^ 63" and "int (length (db_spool db')) < 2 ^ 63"
    and "\<And>key m. length (ae_hmac env key m) = 32"
  shows "list_all2 same_row (by_sequence (db_spool db)) (by_sequence (db_spool db')) \<or>
    (\<exists>r \<in> set (db_spool db). \<exists>s \<in> set (db_spool db'). mac_collision r s)"
proof -
  have v: "verify_rows env sp 0 [] (by_sequence (db_spool db)) = Some (db_last_sequence db, db_last_mac db)"
    "verify_rows env sp 0 [] (by_sequence (db_spool db')) = Some (db_last_sequence db, db_last_mac db)"
    using assms(1-4) by (auto simp: Verify_def split: option.splits if_splits)
  have l: "int (length (by_sequence (db_spool db))) < 2 ^ 63" "int (length (by_sequence (db_spool db'))) < 2 ^ 63"
    "set (by_sequence (db_spool db)) = set (db_spool db)" "set (by_sequence (db_spool db')) = set (db_spool db')"
    using assms(5,6) by (simp_all add: by_sequence_def)
  from chain_unique [OF v l(1,2) assms(7)] l(3,4) show ?thesis by simp
qed

section \<open>Batches\<close>

definition row_record :: "spool_row \<Rightarrow> audit_Record" where
  "row_record r = \<lparr>rec_Sequence = row_sequence r, rec_Event = the (unmarshal_event (row_event r)), rec_MAC = row_mac r\<rparr>"

lemma verify_rows_read:
  "verify_rows env sp k p rs = Some x \<Longrightarrow> r \<in> set rs \<Longrightarrow> read_row env sp r = Some (row_record r)"
proof (induction rs arbitrary: k p)
  case (Cons a rs)
  from Cons.prems(1) obtain k' p' where "verify_rows env sp k' p' rs = Some x" "read_row env sp a = Some (row_record a)"
    by (auto simp: read_row_def row_record_def Let_def split: option.splits if_splits)
  with Cons show ?case by auto
qed simp

lemma read_rows_map: "(\<And>r. r \<in> set rs \<Longrightarrow> read_row env sp r = Some (row_record r)) \<Longrightarrow> read_rows env sp rs = Some (map row_record rs)"
  by (induction rs) auto

lemma Pending_inv:
  assumes "spool_inv env sp db" and "1 \<le> limit" "limit \<le> 1000"
  shows "Pending env sp db limit = Inr (map row_record (take (nat limit) (pending_rows db)))"
proof -
  have "read_row env sp r = Some (row_record r)" if "r \<in> set (take (nat limit) (pending_rows db))" for r
    using verify_rows_read [of env sp 0 "[]" "db_spool db" _ r] assms(1) in_set_takeD [OF that]
    by (auto simp: spool_inv_def pending_rows_def)
  from read_rows_map [OF this] show ?thesis
    using assms head_matches_inv [OF assms(1)] spool_inv_sequence(4) [OF assms(1)] by (simp add: Pending_def)
qed

text \<open>
  C34. A delivery batch is the oldest pending records: on a sound spool, for every limit from 1 to
  1000, Pending returns the first rows not yet delivered, in sequence order and without gaps among
  the pending ones, each with the event that was appended and its code; any other limit is refused.
\<close>

theorem pending_batch:
  assumes "spool_inv env sp db"
  shows "(1 \<le> limit \<and> limit \<le> 1000 \<longrightarrow>
      Pending env sp db limit = Inr (map row_record (take (nat limit) (pending_rows db)))) \<and>
    (limit < 1 \<or> 1000 < limit \<longrightarrow> Pending env sp db limit = Inl ErrAudit) \<and>
    sorted_wrt (<) (map row_sequence (pending_rows db))"
proof -
  have "sorted_wrt (<) (map row_sequence (db_spool db))"
    unfolding spool_inv_sequence(2) [OF assms] by (simp add: sorted_wrt_iff_nth_less)
  then have "sorted_wrt (<) (map row_sequence (pending_rows db))"
    by (simp add: pending_rows_def sorted_wrt_map sorted_wrt_filter)
  with Pending_inv [OF assms] show ?thesis by (auto simp: Pending_def)
qed

section \<open>An example spool\<close>

definition ex_audit_env :: audit_env where
  "ex_audit_env = \<lparr>ae_hmac = (\<lambda>key m. take 32 (rev m @ replicate 32 0)), ae_jsonb = Some\<rparr>"

definition ex_spool :: Spool where
  "ex_spool = \<lparr>sp_key = replicate 32 7, sp_maximumPending = 2\<rparr>"

definition ex_event :: Event where
  "ex_event = Completion \<lparr>ar_ID = ''r1'', ar_WorkloadIdentity = ''praetor-api'', ar_Operation = OperationCredentialRead,
     ar_HumanActor = ''u1'', ar_StartedAt = 63844761600 * second\<rparr> ResultSuccess ReasonCompleted (63844761600 * second + 20)"

lemma ex_audit_env_ok: "audit_env_ok ex_audit_env"
  by (auto simp: audit_env_ok_def ex_audit_env_def min_def)

lemma ex_event_utf8: "event_utf8 ex_event"
  by (simp add: event_utf8_def event_strings_def ex_event_def Completion_def zero_event_def OperationCredentialRead_def
      result_defs EventTypeRequestCompleted_def latency_class_def valid_utf8_ascii)

lemma ex_event_valid: "validate_event ex_event"
proof -
  have "token ReasonCompleted" "token ''fast''" "\<not> ContainsAny ''praetor-api'' [nul, CHR 0x0D, CHR 0x0A]"
    "\<not> ContainsAny ''u1'' [nul, CHR 0x0D, CHR 0x0A]" "\<not> ContainsAny ''r1'' [nul, CHR 0x0D, CHR 0x0A]"
    "\<not> ContainsAny [] [nul, CHR 0x0D, CHR 0x0A]"
    by code_simp+
  then show ?thesis
    by (simp add: validate_event_def event_strings_def ex_event_def Completion_def zero_event_def latency_class_def
        time_sub_def duration_defs known_def knownEventTypes_def KnownOperation_def knownOperations_def knownResults_def
        OperationCredentialRead_def)
qed

lemma ex_event_marshal: "\<exists>s. marshal_event ex_event = Some s"
proof -
  have "local_year (utc (63844761600 * second + 20)) = 2024" by code_simp
  then show ?thesis by (simp add: marshal_event_def marshal_time_def ex_event_def Completion_def)
qed

definition ex_db :: audit_db where
  "ex_db = foldl (spool_step ex_audit_env ex_spool) migrated [SpoolAppend ex_event]"

lemma ex_db_run: "run_ok (spool_step ex_audit_env ex_spool) spool_ok migrated [SpoolAppend ex_event]"
  by (simp add: ex_event_utf8 migrated_def)

lemma ex_migrated_inv: "spool_inv ex_audit_env ex_spool migrated"
  using migrated_inv [OF ex_audit_env_ok, of ex_spool] by (simp add: ex_spool_def)

lemma ex_db_inv: "spool_inv ex_audit_env ex_spool ex_db"
  unfolding ex_db_def by (rule spool.run_inv [OF ex_migrated_inv ex_db_run])

lemma ex_db_rows: "length (db_spool ex_db) = 1" "pending_rows ex_db = db_spool ex_db" "db_last_sequence ex_db = 1"
proof -
  obtain s where s: "marshal_event ex_event = Some s" using ex_event_marshal by blast
  have "ae_jsonb ex_audit_env s = Some s" by (simp add: ex_audit_env_def)
  from AppendTx_result [OF ex_migrated_inv _ s this]
  have "ex_db = appended ex_audit_env ex_spool migrated s s"
    using ex_event_valid by (simp add: ex_db_def migrated_def pending_rows_def ex_spool_def)
  note e = this
  show "length (db_spool ex_db) = 1" "pending_rows ex_db = db_spool ex_db" "db_last_sequence ex_db = 1"
    unfolding e by (simp_all add: appended_def Let_def migrated_def pending_rows_def)
qed

section \<open>Witnesses\<close>

theorem event_roundtrip_witness:
  "\<exists>s. marshal_event ex_event = Some s \<and> unmarshal_event s = Some ex_event"
  using ex_event_marshal event_roundtrip [OF _ ex_event_utf8] by blast


theorem spool_append_only_witness:
  "db_spool (spool_step ex_audit_env ex_spool ex_db (SpoolMark 1 (db_last_mac ex_db) 5)) ! 0 =
     (db_spool ex_db ! 0)\<lparr>row_delivered :=
        row_delivered (db_spool (spool_step ex_audit_env ex_spool ex_db (SpoolMark 1 (db_last_mac ex_db) 5)) ! 0)\<rparr>"
  using spool_append_only [OF ex_db_inv, of "[SpoolMark 1 (db_last_mac ex_db) 5]" 0] ex_db_rows by simp

theorem append_bounded_witness:
  "\<exists>db' r. AppendTx ex_audit_env ex_spool ex_db ex_event = Inr db' \<and> db_spool db' = db_spool ex_db @ [r] \<and> row_sequence r = 2 \<and>
     unmarshal_event (row_event r) = Some ex_event"
proof -
  obtain s where "marshal_event ex_event = Some s" using ex_event_marshal by blast
  from append_bounded [OF ex_db_inv _ ex_event_valid ex_event_utf8 this] ex_db_rows show ?thesis
    by (auto simp: ex_spool_def)
qed

theorem pending_batch_witness:
  "Pending ex_audit_env ex_spool ex_db 10 = Inr (map row_record (db_spool ex_db))"
  using pending_batch [OF ex_db_inv, of 10] ex_db_rows by simp

theorem tamper_evident_witness:
  "list_all2 same_row (by_sequence (db_spool ex_db)) (by_sequence (db_spool ex_db)) \<or>
     (\<exists>r \<in> set (db_spool ex_db). \<exists>s \<in> set (db_spool ex_db). mac_collision r s)"
proof (rule tamper_evident)
  show "Verify ex_audit_env ex_spool ex_db = None" "Verify ex_audit_env ex_spool ex_db = None"
    by (rule spool_inv_Verify [OF ex_db_inv])+
  show "length (ae_hmac ex_audit_env key m) = 32" for key m using ex_audit_env_ok by (simp add: audit_env_ok_def)
qed (simp_all add: ex_db_rows)

end
