(* ===== verification/Audit_Sink.thy ===== *)
theory Audit_Sink
  imports Audit_Spool
begin

text \<open>
  The remote audit sink: its append-only store (\<open>auditsink/store.go\<close> over the tables of
  \<open>auditsink/migrations/001_append_store.sql\<close>, triggers included) and its HTTP handler
  (\<open>auditsink/handler.go\<close>). The store is the list of its records in insertion order and the row
  that holds the head of the stream. The handler gets a request that \<open>net/http\<close> has parsed: the
  media type is what \<open>mime.ParseMediaType\<close> returned for the \<open>Content-Type\<close> header, the TLS state
  holds what the handshake established.
\<close>

section \<open>The store\<close>

datatype sink_error = ErrInvalid | ErrConflict | ErrStore

datatype AppendResult = Created | Replayed

record sink_row =
  sk_sequence :: int
  sk_event :: string
  sk_mac :: bytes
  sk_idempotency_key :: string
  sk_workload_identity :: string
  sk_received_at :: time

record sink_db =
  sk_last_sequence :: int
  sk_last_mac :: bytes
  sk_updated_at :: time
  sk_records :: "sink_row list"

definition sink_migrated :: "time \<Rightarrow> sink_db" where
  "sink_migrated now = \<lparr>sk_last_sequence = 0, sk_last_mac = [], sk_updated_at = now, sk_records = []\<rparr>"

definition audit_key :: "bytes \<Rightarrow> string" where
  "audit_key mac = ''audit-'' @ hex_encode mac"

definition validate_record :: "audit_Record \<Rightarrow> string \<Rightarrow> string \<Rightarrow> string option" where
  "validate_record r idempotencyKey workloadIdentity =
     (if rec_Sequence r < 1 \<or> length (rec_MAC r) \<noteq> 32 \<or> workloadIdentity \<noteq> ''praetor-secrets'' \<or>
         idempotencyKey \<noteq> audit_key (rec_MAC r) \<or> ev_SchemaVersion (rec_Event r) \<noteq> audit_SchemaVersion \<or>
         z_instant (ev_Timestamp (rec_Event r)) = zero_time \<or> TrimSpace (ev_EventType (rec_Event r)) = [] \<or>
         TrimSpace (ev_Operation (rec_Event r)) = [] \<or> TrimSpace (ev_Result (rec_Event r)) = [] \<or>
         TrimSpace (ev_ReasonCode (rec_Event r)) = []
      then None
      else case marshal_event (rec_Event r) of None \<Rightarrow> None
      | Some encoded \<Rightarrow> if 60 * 1024 < length encoded then None else Some encoded)"

definition exactReplay :: "sink_db \<Rightarrow> audit_Record \<Rightarrow> string \<Rightarrow> string \<Rightarrow> string \<Rightarrow> sink_error + AppendResult" where
  "exactReplay db r encoded idempotencyKey workloadIdentity =
     (case find (\<lambda>x. sk_sequence x = rec_Sequence r) (sk_records db) of None \<Rightarrow> Inl ErrConflict
      | Some x \<Rightarrow>
          (case unmarshal_event (sk_event x) of None \<Rightarrow> Inl ErrStore
           | Some event \<Rightarrow>
               (case marshal_event event of None \<Rightarrow> Inl ErrStore
                | Some stored \<Rightarrow>
                    if stored \<noteq> encoded \<or> sk_mac x \<noteq> rec_MAC r \<or> sk_idempotency_key x \<noteq> idempotencyKey \<or>
                       sk_workload_identity x \<noteq> workloadIdentity
                    then Inl ErrConflict else Inr Replayed)))"

text \<open>The check of the table on the form of a key: \<open>audit-\<close> and 64 lower-case hexadecimal digits.\<close>

definition key_check :: "string \<Rightarrow> bool" where
  "key_check k \<longleftrightarrow> HasPrefix k ''audit-'' \<and> length k = 70 \<and> list_all (\<lambda>c. is_digit c \<or> 97 \<le> code c \<and> code c \<le> 102) (drop 6 k)"

text \<open>\<open>INSERT INTO remote_audit_records\<close>: a refused document is an error of class 22, a violated key or check of class 23.\<close>

definition insert_record :: "audit_env \<Rightarrow> sink_db \<Rightarrow> audit_Record \<Rightarrow> string \<Rightarrow> string \<Rightarrow> string \<Rightarrow> time \<Rightarrow> sink_error + sink_db" where
  "insert_record env db r encoded idempotencyKey workloadIdentity receivedAt =
     (case ae_jsonb env encoded of None \<Rightarrow> Inl ErrStore
      | Some stored \<Rightarrow>
          if rec_Sequence r \<le> 0 \<or> length (rec_MAC r) \<noteq> 32 \<or> \<not> key_check idempotencyKey \<or>
             workloadIdentity \<noteq> ''praetor-secrets'' \<or>
             list_ex (\<lambda>x. sk_sequence x = rec_Sequence r \<or> sk_mac x = rec_MAC r \<or> sk_idempotency_key x = idempotencyKey)
               (sk_records db)
          then Inl ErrConflict
          else Inr (db\<lparr>sk_records := sk_records db @ [\<lparr>sk_sequence = rec_Sequence r, sk_event = stored, sk_mac = rec_MAC r,
                 sk_idempotency_key = idempotencyKey, sk_workload_identity = workloadIdentity,
                 sk_received_at = receivedAt\<rparr>]\<rparr>))"

text \<open>\<open>UPDATE remote_audit_stream_head\<close>, with the trigger that lets it advance by one only.\<close>

definition advance_head :: "sink_db \<Rightarrow> int \<Rightarrow> bytes \<Rightarrow> time \<Rightarrow> sink_error + sink_db" where
  "advance_head db sequence mac now =
     (if sequence \<noteq> sk_last_sequence db + 1 \<or> length mac \<noteq> 32 \<or> now < sk_updated_at db then Inl ErrStore
      else Inr (db\<lparr>sk_last_sequence := sequence, sk_last_mac := mac, sk_updated_at := now\<rparr>))"

definition Append ::
  "audit_env \<Rightarrow> sink_db \<Rightarrow> audit_Record \<Rightarrow> string \<Rightarrow> string \<Rightarrow> time \<Rightarrow> (sink_error + AppendResult) \<times> sink_db" where
  "Append env db r idempotencyKey workloadIdentity now =
     (case validate_record r idempotencyKey workloadIdentity of None \<Rightarrow> (Inl ErrInvalid, db)
      | Some encoded \<Rightarrow>
          if rec_Sequence r \<le> sk_last_sequence db
          then (exactReplay db r encoded idempotencyKey workloadIdentity, db)
          else if rec_Sequence r \<noteq> incr64 (sk_last_sequence db) then (Inl ErrConflict, db)
          else (case insert_record env db r encoded idempotencyKey workloadIdentity now of Inl e \<Rightarrow> (Inl e, db)
                | Inr db' \<Rightarrow>
                    (case advance_head db' (rec_Sequence r) (rec_MAC r) now of Inl e \<Rightarrow> (Inl e, db)
                     | Inr db'' \<Rightarrow> (Inr Created, db''))))"

section \<open>Records as JSON\<close>

definition record_fields :: "(string \<times> audit_Record setter) list" where
  "record_fields =
     [(''sequence'', set_int (\<lambda>n r. r\<lparr>rec_Sequence := n\<rparr>)),
      (''event'', set_struct True event_fields rec_Event (\<lambda>e r. r\<lparr>rec_Event := e\<rparr>)),
      (''mac'', set_bytes (\<lambda>b r. r\<lparr>rec_MAC := b\<rparr>))]"

definition zero_audit_record :: audit_Record where
  "zero_audit_record = \<lparr>rec_Sequence = 0, rec_Event = zero_event, rec_MAC = []\<rparr>"

definition marshal_record :: "audit_Record \<Rightarrow> string option" where
  "marshal_record r =
     (case marshal_event (rec_Event r) of None \<Rightarrow> None
      | Some e \<Rightarrow> Some (json_object [(''sequence'', json_int (rec_Sequence r)), (''event'', e),
           (''mac'', json_string (base64_encode (rec_MAC r)))]))"

text \<open>Decoding the request: unknown members are refused, and so is anything after the value.\<close>

definition decode_record :: "string \<Rightarrow> audit_Record option" where
  "decode_record s = decode_struct True record_fields zero_audit_record s"

section \<open>The handler\<close>

record cert_uri =
  u_Scheme :: string
  u_Host :: string
  u_EscapedPath :: string
  u_RawQuery :: string
  u_Fragment :: string

record tls_state =
  t_HandshakeComplete :: bool
  t_TLS13 :: bool
  t_VerifiedChains :: "cert_uri list list list"

record sink_request =
  sr_Method :: string
  sr_Path :: string
  sr_RawQuery :: string
  sr_TLS :: "tls_state option"
  sr_MediaType :: "string option"
  sr_Body :: string
  sr_IdempotencyKey :: string

record sink_response =
  sr_Status :: int
  sr_Code :: string

definition IngestionPath :: string where "IngestionPath = ''/internal/v1/audit/events''"

definition sink_maxRequestBytes :: nat where "sink_maxRequestBytes = 64 * 1024"

text \<open>A certificate is the list of its URI names.\<close>

definition secretsServiceIdentity :: "cert_uri list \<Rightarrow> string \<Rightarrow> bool" where
  "secretsServiceIdentity certificate trustDomain \<longleftrightarrow>
     (case certificate of
        [identity] \<Rightarrow> u_Scheme identity = ''spiffe'' \<and> u_Host identity = trustDomain \<and>
          u_EscapedPath identity = ''/workload/praetor-secrets'' \<and> u_RawQuery identity = [] \<and> u_Fragment identity = []
      | _ \<Rightarrow> False)"

text \<open>The leaf certificate of the first verified chain of a complete TLS 1.3 handshake.\<close>

definition verified_leaf :: "tls_state option \<Rightarrow> cert_uri list option" where
  "verified_leaf tls =
     (case tls of None \<Rightarrow> None
      | Some t \<Rightarrow>
          if \<not> t_HandshakeComplete t \<or> \<not> t_TLS13 t then None
          else (case t_VerifiedChains t of (leaf # _) # _ \<Rightarrow> Some leaf | _ \<Rightarrow> None))"

definition sink_authenticated :: "string \<Rightarrow> sink_request \<Rightarrow> bool" where
  "sink_authenticated trustDomain request \<longleftrightarrow>
     (case verified_leaf (sr_TLS request) of None \<Rightarrow> False
      | Some leaf \<Rightarrow> secretsServiceIdentity leaf trustDomain)"

text \<open>\<open>strings.ToLower\<close> on ASCII; a value with any other byte fails the test of its labels as well.\<close>

definition ascii_lower :: "string \<Rightarrow> string" where
  "ascii_lower s = map (\<lambda>c. if 65 \<le> code c \<and> code c \<le> 90 then char_of (code c + 32) else c) s"

definition validSinkTrustDomain :: "string \<Rightarrow> bool" where
  "validSinkTrustDomain value \<longleftrightarrow>
     value \<noteq> [] \<and> length value \<le> 253 \<and> value = ascii_lower value \<and>
     \<not> ContainsAny value (''/:@ '' @ [CHR 0x09, CHR 0x0D, CHR 0x0A]) \<and>
     list_all (\<lambda>label. label \<noteq> [] \<and> hd label \<noteq> CHR ''-'' \<and> last label \<noteq> CHR ''-'' \<and>
       list_all (\<lambda>r. 97 \<le> r \<and> r \<le> 122 \<or> 48 \<le> r \<and> r \<le> 57 \<or> r = 45) (runes label)) (Split value (CHR ''.''))"

abbreviation sink_problem :: "int \<Rightarrow> string \<Rightarrow> sink_db \<Rightarrow> sink_response \<times> sink_db" where
  "sink_problem status reason db \<equiv> (\<lparr>sr_Status = status, sr_Code = reason\<rparr>, db)"

definition sink_answer :: "sink_error + AppendResult \<Rightarrow> sink_response" where
  "sink_answer res =
     (case res of
        Inl ErrInvalid \<Rightarrow> \<lparr>sr_Status = 400, sr_Code = ''invalid_request''\<rparr>
      | Inl ErrConflict \<Rightarrow> \<lparr>sr_Status = 409, sr_Code = ''stream_conflict''\<rparr>
      | Inl ErrStore \<Rightarrow> \<lparr>sr_Status = 503, sr_Code = ''service_unavailable''\<rparr>
      | Inr Created \<Rightarrow> \<lparr>sr_Status = 201, sr_Code = ''accepted''\<rparr>
      | Inr Replayed \<Rightarrow> \<lparr>sr_Status = 200, sr_Code = ''accepted''\<rparr>)"

definition sink_ServeHTTP :: "audit_env \<Rightarrow> string \<Rightarrow> sink_db \<Rightarrow> sink_request \<Rightarrow> time \<Rightarrow> sink_response \<times> sink_db" where
  "sink_ServeHTTP env trustDomain db request now =
     (if sr_Method request \<noteq> ''POST'' \<or> sr_Path request \<noteq> IngestionPath \<or> sr_RawQuery request \<noteq> []
      then sink_problem 404 ''resource_not_found'' db
      else if \<not> sink_authenticated trustDomain request then sink_problem 401 ''workload_authentication_failed'' db
      else if sr_MediaType request \<noteq> Some ''application/json'' then sink_problem 415 ''unsupported_media_type'' db
      else if sink_maxRequestBytes < length (sr_Body request) then sink_problem 400 ''invalid_request'' db
      else case decode_record (sr_Body request) of None \<Rightarrow> sink_problem 400 ''invalid_request'' db
      | Some r \<Rightarrow>
          if length (rec_MAC r) \<noteq> 32 \<or> sr_IdempotencyKey request \<noteq> audit_key (rec_MAC r)
          then sink_problem 400 ''invalid_idempotency_key'' db
          else (case Append env db r (sr_IdempotencyKey request) ''praetor-secrets'' now of
                  (res, db') \<Rightarrow> (sink_answer res, db')))"

section \<open>What Deliver writes is what the handler reads\<close>

lemma event_reads:
  assumes "marshal_event e = Some s" and "event_utf8 e"
  obtains ms where "reads 1 s (JObject (forget_raw ms))" "object_members s = Some ms"
    "decode_members True event_fields ms zero_event = Some e"
proof -
  from assms(1) obtain ts where ts: "marshal_time (ev_Timestamp e) = Some ts"
    by (auto simp: marshal_event_def split: option.splits)
  have s: "s = json_object (map (\<lambda>(k, v, t). (k, t)) (event_members e ts))"
    using assms(1) marshal_event_members [OF ts] by simp
  have ne: "event_members e ts \<noteq> []" by (simp add: event_members_def)
  have "reads (Suc 0) s (JObject (forget_raw (event_members e ts)))"
    unfolding s by (rule reads_object [OF ne event_members_read [OF ts assms(2)]])
  moreover have "object_members s = Some (event_members e ts)"
    unfolding s by (rule json_object_members [OF ne, of 0]) (use event_members_read [OF ts assms(2)] in \<open>simp_all add: max_depth_def\<close>)
  moreover have "decode_members True event_fields (event_members e ts) zero_event = Some e"
    using ts by (simp add: event_members_def event_steps zero_event_def del: decode_members.simps(2) append_Nil2)
  ultimately show ?thesis by (intro that) simp_all
qed

lemma ParseInt64_json_nat: "n < 2 ^ 63 \<Longrightarrow> ParseInt64 (json_nat n) = Some (int n)"
proof -
  assume n: "n < 2 ^ 63"
  obtain c t where s: "json_nat n = c # t" using json_nat_head [of n] by (cases "json_nat n") auto
  have d: "list_all is_digit (c # t)" "digits_val (c # t) = n" using json_nat_digits [of n] digits_val_json_nat [of n] s by simp_all
  then have "c \<noteq> CHR ''-''" "c \<noteq> CHR ''+''" by (auto simp: is_digit_def)
  with d n s show ?thesis by (simp add: ParseInt64_def Let_def)
qed

lemma record_find:
  "find_field record_fields ''sequence'' = Some (set_int (\<lambda>n r. r\<lparr>rec_Sequence := n\<rparr>))"
  "find_field record_fields ''event'' = Some (set_struct True event_fields rec_Event (\<lambda>e r. r\<lparr>rec_Event := e\<rparr>))"
  "find_field record_fields ''mac'' = Some (set_bytes (\<lambda>b r. r\<lparr>rec_MAC := b\<rparr>))"
  by (simp_all add: find_field_def record_fields_def)

lemma decode_marshal_record:
  assumes "marshal_record r = Some s" and "event_utf8 (rec_Event r)" and "0 \<le> rec_Sequence r" "rec_Sequence r < 2 ^ 63"
  shows "decode_record s = Some r"
proof -
  from assms(1) obtain e where e: "marshal_event (rec_Event r) = Some e"
    and s: "s = json_object [(''sequence'', json_int (rec_Sequence r)), (''event'', e), (''mac'', json_string (base64_encode (rec_MAC r)))]"
    by (auto simp: marshal_record_def split: option.splits)
  obtain ms where ms: "reads 1 e (JObject (forget_raw ms))" "object_members e = Some ms"
    "decode_members True event_fields ms zero_event = Some (rec_Event r)"
    using event_reads [OF e assms(2)] by blast
  define n where "n = nat (rec_Sequence r)"
  have n: "json_int (rec_Sequence r) = json_nat n" "rec_Sequence r = int n" "n < 2 ^ 63"
    using assms(3,4) by (auto simp: json_int_def n_def)
  let ?xs = "[nat_member ''sequence'' n, (''event'', JObject (forget_raw ms), e), str_member ''mac'' (base64_encode (rec_MAC r))]"
  have "valid_utf8 ''sequence''" "valid_utf8 ''event''" "valid_utf8 ''mac''" by (rule valid_utf8_ascii, simp)+
  then have k: "valid_utf8 k \<and> reads 1 t v" if "(k, v, t) \<in> set ?xs" for k v t
    using that ms(1) base64_utf8 by (auto simp: nat_member_def str_member_def reads_nat reads_string)
  have "decode_struct True record_fields zero_audit_record (json_object (map (\<lambda>(k, v, t). (k, t)) ?xs)) =
      decode_members True record_fields ?xs zero_audit_record"
    by (rule decode_struct_object [of ?xs 1, OF _ k]) (simp_all add: max_depth_def)
  then have "decode_record s = decode_members True record_fields ?xs zero_audit_record"
    by (simp add: decode_record_def s n(1) nat_member_def str_member_def del: decode_members.simps)
  also have "\<dots> = Some r"
    using ms ParseInt64_json_nat [OF n(3)] n(2) base64_roundtrip
    by (simp add: nat_member_def str_member_def record_find set_int_def set_struct_def set_bytes_def zero_audit_record_def)
  finally show ?thesis .
qed

section \<open>The stream\<close>

definition sink_row_ok :: "sink_row \<Rightarrow> bool" where
  "sink_row_ok x \<longleftrightarrow> sk_idempotency_key x = audit_key (sk_mac x) \<and> sk_workload_identity x = ''praetor-secrets'' \<and> length (sk_mac x) = 32"

definition sink_inv :: "sink_db \<Rightarrow> bool" where
  "sink_inv db \<longleftrightarrow> sk_last_sequence db = int (length (sk_records db)) \<and>
     map sk_sequence (sk_records db) = map (\<lambda>i. 1 + int i) [0..<length (sk_records db)] \<and>
     list_all sink_row_ok (sk_records db) \<and> distinct (map sk_mac (sk_records db)) \<and>
     sk_last_mac db = (if sk_records db = [] then [] else sk_mac (last (sk_records db)))"

definition sink_le :: "sink_db \<Rightarrow> sink_db \<Rightarrow> bool" where
  "sink_le db db' \<longleftrightarrow> (\<exists>news. sk_records db' = sk_records db @ news)"

lemma Append_cases:
  assumes "Append env db r key identity now = (res, db')"
  obtains (same) "db' = db" "res \<noteq> Inr Created"
  | (created) x where "res = Inr Created" "sk_records db' = sk_records db @ [x]" "sk_sequence x = rec_Sequence r" "sk_mac x = rec_MAC r"
      "sk_last_sequence db' = rec_Sequence r" "sk_last_mac db' = rec_MAC r" "rec_Sequence r = sk_last_sequence db + 1"
      "sink_row_ok x" "rec_MAC r \<notin> sk_mac ` set (sk_records db)" "sk_updated_at db' = now"
      "Some (sk_event x) = Option.bind (marshal_event (rec_Event r)) (ae_jsonb env)"
proof (cases "res = Inr Created")
  case False
  then have "db' = db"
    using assms by (auto simp: Append_def split: option.splits if_splits sum.splits)
  with False show ?thesis by (intro same)
next
  case True
  then obtain encoded stored where v: "validate_record r key identity = Some encoded"
    and j: "ae_jsonb env encoded = Some stored" and seq: "rec_Sequence r = sk_last_sequence db + 1"
    and u: "\<And>y. y \<in> set (sk_records db) \<Longrightarrow> sk_mac y \<noteq> rec_MAC r"
    and db': "db' = db\<lparr>sk_records := sk_records db @ [\<lparr>sk_sequence = rec_Sequence r, sk_event = stored, sk_mac = rec_MAC r,
                 sk_idempotency_key = key, sk_workload_identity = identity, sk_received_at = now\<rparr>],
           sk_last_sequence := rec_Sequence r, sk_last_mac := rec_MAC r, sk_updated_at := now\<rparr>"
    using assms
    by (auto simp: Append_def insert_record_def advance_head_def exactReplay_def list_ex_iff split: option.splits if_splits sum.splits)
  have i: "identity = ''praetor-secrets''" "key = audit_key (rec_MAC r)" "length (rec_MAC r) = 32" "marshal_event (rec_Event r) = Some encoded"
    using v by (auto simp: validate_record_def split: if_splits option.splits)
  have "rec_MAC r \<notin> sk_mac ` set (sk_records db)" using u by force
  then show ?thesis
    by (intro created [OF True]) (use i seq j in \<open>auto simp: db' sink_row_ok_def\<close>)
qed

lemma Append_inv:
  assumes "sink_inv db" and "Append env db r key identity now = (res, db')"
  shows "sink_inv db' \<and> sink_le db db'"
  using assms(2)
proof (cases rule: Append_cases)
  case same
  then show ?thesis using assms(1) by (simp add: sink_le_def)
next
  case (created x)
  then show ?thesis using assms(1) by (auto simp: sink_inv_def sink_le_def)
qed

fun sink_step :: "audit_env \<Rightarrow> string \<Rightarrow> sink_db \<Rightarrow> sink_request \<times> time \<Rightarrow> sink_db" where
  "sink_step env trustDomain db (request, now) = snd (sink_ServeHTTP env trustDomain db request now)"

text \<open>Only an accepted record of an authenticated request reaches the store.\<close>

lemma sink_serve_cases:
  assumes "sink_ServeHTTP env trustDomain db request now = (resp, db')"
  obtains (same) "db' = db" "sr_Status resp \<noteq> 201"
  | (created) r where "sr_Status resp = 201" "sink_authenticated trustDomain request" "decode_record (sr_Body request) = Some r"
      "sr_IdempotencyKey request = audit_key (rec_MAC r)"
      "Append env db r (sr_IdempotencyKey request) ''praetor-secrets'' now = (Inr Created, db')"
proof (cases "\<exists>r. sink_authenticated trustDomain request \<and> decode_record (sr_Body request) = Some r \<and>
    sr_IdempotencyKey request = audit_key (rec_MAC r) \<and>
    (resp, db') = (case Append env db r (sr_IdempotencyKey request) ''praetor-secrets'' now of (res, d) \<Rightarrow> (sink_answer res, d))")
  case True
  then obtain r where r: "sink_authenticated trustDomain request" "decode_record (sr_Body request) = Some r"
      "sr_IdempotencyKey request = audit_key (rec_MAC r)"
    and e: "(resp, db') = (case Append env db r (sr_IdempotencyKey request) ''praetor-secrets'' now of (res, d) \<Rightarrow> (sink_answer res, d))"
    by blast
  obtain res where a: "Append env db r (sr_IdempotencyKey request) ''praetor-secrets'' now = (res, db')" and resp: "resp = sink_answer res"
    using e by (auto split: prod.splits)
  have st: "sr_Status resp = 201 \<longleftrightarrow> res = Inr Created"
    by (auto simp: resp sink_answer_def split: sum.splits sink_error.splits AppendResult.splits)
  show ?thesis
  proof (cases "res = Inr Created")
    case True
    with st a r show ?thesis by (intro created [of r]) auto
  next
    case False
    from a have "db' = db" using False by (cases rule: Append_cases) auto
    with st False show ?thesis by (intro same) auto
  qed
next
  case False
  with assms have "db' = db \<and> sr_Status resp \<noteq> 201"
    unfolding sink_ServeHTTP_def by (auto split: if_splits option.splits)
  then show ?thesis by (intro same) auto
qed

lemma sink_serve_inv:
  assumes "sink_inv db" and "sink_ServeHTTP env trustDomain db request now = (resp, db')"
  shows "sink_inv db' \<and> sink_le db db'"
  using assms(2)
proof (cases rule: sink_serve_cases)
  case same
  then show ?thesis using assms(1) by (simp add: sink_le_def)
next
  case (created r)
  from Append_inv [OF assms(1) created(5)] show ?thesis .
qed

interpretation sink: monotone_system "sink_step env trustDomain" "\<lambda>_ _. True" sink_inv sink_le
proof
  fix db and x :: "sink_request \<times> time"
  assume inv: "sink_inv db"
  obtain request now where x: "x = (request, now)" by (cases x)
  obtain resp db' where s: "sink_ServeHTTP env trustDomain db request now = (resp, db')" by fastforce
  from sink_serve_inv [OF inv s] s x
  show "sink_inv (sink_step env trustDomain db x)" "sink_le db (sink_step env trustDomain db x)" by simp_all
next
  show "sink_le a c" if "sink_le a b" "sink_le b c" for a b c
    using that by (auto simp: sink_le_def)
qed (simp add: sink_le_def)


text \<open>
  C30. Only the secrets service writes, and only at the end: a request changes the store of the sink
  only if it is answered 201, and then it came over a complete TLS 1.3 handshake with the verified
  identity of the secrets service, was a POST to the ingestion path with a JSON record under the
  key of its own code, and its record was appended as the next one; every record stored
  before is kept as it is.
\<close>

theorem sink_authenticated_append:
  assumes "sink_ServeHTTP env trustDomain db request now = (resp, db')" and "db' \<noteq> db \<or> sr_Status resp = 201"
  shows "sr_Status resp = 201 \<and> sink_authenticated trustDomain request \<and> sr_Method request = ''POST'' \<and>
    sr_Path request = IngestionPath \<and> (\<exists>r x. decode_record (sr_Body request) = Some r \<and> sr_IdempotencyKey request = audit_key (rec_MAC r) \<and>
      sk_records db' = sk_records db @ [x] \<and> sk_sequence x = sk_last_sequence db + 1 \<and> sk_sequence x = rec_Sequence r \<and> sk_mac x = rec_MAC r)"
  using assms(1)
proof (cases rule: sink_serve_cases)
  case same
  with assms(2) show ?thesis by simp
next
  case (created r)
  have "sr_Method request = ''POST'' \<and> sr_Path request = IngestionPath"
    using assms(1) created(1) unfolding sink_ServeHTTP_def by (auto split: if_splits)
  moreover from created(5) obtain x where "sk_records db' = sk_records db @ [x]" "sk_sequence x = rec_Sequence r" "sk_mac x = rec_MAC r"
    "rec_Sequence r = sk_last_sequence db + 1"
    by (cases rule: Append_cases) auto
  ultimately show ?thesis using created by auto
qed

end
