(* ===== verification/Audit_Delivery.thy ===== *)
theory Audit_Delivery
  imports Audit_Sink
begin

text \<open>
  Delivery of the spool to a sink (\<open>audit/delivery.go\<close>) and the recorder (\<open>audit/recorder.go\<close>). The
  interface \<open>Sink\<close> of the code is the locale \<open>audit_sink\<close>: what the worker relies on of a sink, on
  which its properties are proved once; \<open>HTTPSink\<close>, talking to the handler of the remote sink over
  a network that may lose requests and responses, is its interpretation.
\<close>

section \<open>The worker\<close>

record DeliveryWorker =
  dw_degraded :: bool
  dw_lastDelivered :: time

type_synonym ('o, 'k) deliver = "'o \<Rightarrow> 'k \<Rightarrow> audit_Record \<Rightarrow> bool \<times> 'k"

text \<open>
  The loop of \<open>deliverBatch\<close>. For each record \<open>fates\<close> says what the environment does during its
  delivery (\<open>'o\<close>) and what the clock shows after it.
\<close>

fun deliver_records ::
  "('o, 'k) deliver \<Rightarrow> (nat \<Rightarrow> 'o \<times> time) \<Rightarrow> audit_Record list \<Rightarrow> audit_db \<Rightarrow> 'k \<Rightarrow> DeliveryWorker \<Rightarrow>
   audit_error option \<times> audit_db \<times> 'k \<times> DeliveryWorker" where
  "deliver_records deliver fates [] db k w = (None, db, k, w)"
| "deliver_records deliver fates (r # rs) db k w =
     (case deliver (fst (fates 0)) k r of
        (False, k') \<Rightarrow> (Some ErrSink, db, k', w)
      | (True, k') \<Rightarrow>
          (case MarkDelivered db (rec_Sequence r) (rec_MAC r) (snd (fates 0)) of
             Inl _ \<Rightarrow> (Some ErrAudit, db, k', w)
           | Inr db' \<Rightarrow>
               deliver_records deliver (\<lambda>i. fates (Suc i)) rs db' k' (w\<lparr>dw_lastDelivered := snd (fates 0)\<rparr>)))"

definition deliverBatch ::
  "audit_env \<Rightarrow> Spool \<Rightarrow> int \<Rightarrow> ('o, 'k) deliver \<Rightarrow> (nat \<Rightarrow> 'o \<times> time) \<Rightarrow> audit_db \<Rightarrow> 'k \<Rightarrow> DeliveryWorker \<Rightarrow>
   audit_error option \<times> audit_db \<times> 'k \<times> DeliveryWorker" where
  "deliverBatch env sp batchSize deliver fates db k w =
     (case Pending env sp db batchSize of
        Inl _ \<Rightarrow> (Some ErrAudit, db, k, w)
      | Inr records \<Rightarrow> deliver_records deliver fates records db k w)"

text \<open>
  \<open>Run\<close>: verification of the whole chain, then one batch per tick until the context is canceled or
  the spool fails. A failing sink only degrades the worker.
\<close>

datatype worker_phase = Starting | Polling | Stopped "audit_error option"

definition run_start :: "audit_env \<Rightarrow> Spool \<Rightarrow> audit_db \<Rightarrow> DeliveryWorker \<Rightarrow> worker_phase \<times> DeliveryWorker" where
  "run_start env sp db w =
     (case Verify env sp db of Some _ \<Rightarrow> (Stopped (Some ErrAudit), w\<lparr>dw_degraded := True\<rparr>) | None \<Rightarrow> (Polling, w))"

definition run_tick ::
  "audit_env \<Rightarrow> Spool \<Rightarrow> int \<Rightarrow> ('o, 'k) deliver \<Rightarrow> (nat \<Rightarrow> 'o \<times> time) \<Rightarrow> audit_db \<Rightarrow> 'k \<Rightarrow> DeliveryWorker \<Rightarrow>
   worker_phase \<times> audit_db \<times> 'k \<times> DeliveryWorker" where
  "run_tick env sp batchSize deliver fates db k w =
     (case deliverBatch env sp batchSize deliver fates db k w of
        (Some ErrAudit, db', k', w') \<Rightarrow> (Stopped (Some ErrAudit), db', k', w'\<lparr>dw_degraded := True\<rparr>)
      | (Some ErrSink, db', k', w') \<Rightarrow> (Polling, db', k', w'\<lparr>dw_degraded := True\<rparr>)
      | (None, db', k', w') \<Rightarrow> (Polling, db', k', w'\<lparr>dw_degraded := False\<rparr>))"

section \<open>HTTPSink\<close>

text \<open>
  What the sink's server sees of the client's requests: the path and query of the configured
  endpoint and the state of the connection.
\<close>

record HTTPSink =
  hs_Path :: string
  hs_RawQuery :: string
  hs_TLS :: "tls_state option"

datatype exchange = RequestLost | ResponseLost | Answered

definition sink_post :: "HTTPSink \<Rightarrow> audit_Record \<Rightarrow> string \<Rightarrow> sink_request" where
  "sink_post hs r body =
     \<lparr>sr_Method = ''POST'', sr_Path = hs_Path hs, sr_RawQuery = hs_RawQuery hs, sr_TLS = hs_TLS hs,
      sr_MediaType = Some ''application/json'', sr_Body = body, sr_IdempotencyKey = audit_key (rec_MAC r)\<rparr>"

definition Deliver ::
  "audit_env \<Rightarrow> string \<Rightarrow> HTTPSink \<Rightarrow> exchange \<times> time \<Rightarrow> sink_db \<Rightarrow> audit_Record \<Rightarrow> bool \<times> sink_db" where
  "Deliver env trustDomain hs fate remote r =
     (if rec_Sequence r < 1 \<or> length (rec_MAC r) \<noteq> 32 \<or> \<not> validate_event (rec_Event r) then (False, remote)
      else case marshal_record r of None \<Rightarrow> (False, remote)
      | Some body \<Rightarrow>
          if fst fate = RequestLost then (False, remote)
          else (case sink_ServeHTTP env trustDomain remote (sink_post hs r body) (snd fate) of
                  (response, remote') \<Rightarrow>
                    (fst fate = Answered \<and> 200 \<le> sr_Status response \<and> sr_Status response < 300, remote')))"

section \<open>The recorder\<close>

record Recorder =
  re_degraded :: bool

record SecurityStatus =
  ss_AuditIntegrityHealthy :: bool
  ss_AuditDeliveryDegraded :: bool
  ss_PendingAuditEvents :: int
  ss_MaximumPendingAuditEvents :: int
  ss_LastAuditDelivery :: time

definition Record_event :: "audit_env \<Rightarrow> Spool \<Rightarrow> Recorder \<Rightarrow> audit_db \<Rightarrow> Event \<Rightarrow> audit_error option \<times> Recorder \<times> audit_db" where
  "Record_event env sp recorder db event =
     (case AppendTx env sp db event of
        Inl _ \<Rightarrow> (Some ErrAudit, recorder\<lparr>re_degraded := True\<rparr>, db)
      | Inr db' \<Rightarrow> (None, recorder, db'))"

definition recorder_Status :: "Spool \<Rightarrow> Recorder \<Rightarrow> DeliveryWorker \<Rightarrow> audit_db \<Rightarrow> SecurityStatus" where
  "recorder_Status sp recorder w db =
     (case PendingCount sp db of (pending, maximum) \<Rightarrow>
        \<lparr>ss_AuditIntegrityHealthy = (\<not> re_degraded recorder), ss_AuditDeliveryDegraded = dw_degraded w,
         ss_PendingAuditEvents = pending, ss_MaximumPendingAuditEvents = maximum,
         ss_LastAuditDelivery = dw_lastDelivered w\<rparr>)"

section \<open>The contract of a sink\<close>

text \<open>
  A record is handed over once: an acknowledged record is among those the sink stores, what it
  stores changes by appending the record at hand, as the next in sequence, or not at all.
\<close>

locale audit_sink =
  fixes deliver :: "'o \<Rightarrow> 'k \<Rightarrow> audit_Record \<Rightarrow> bool \<times> 'k"
    and stored :: "'k \<Rightarrow> audit_Record list"
    and good :: "'k \<Rightarrow> bool"
    and fit :: "audit_Record \<Rightarrow> bool"
  assumes deliver_good: "good k \<Longrightarrow> fit r \<Longrightarrow> good (snd (deliver x k r))"
    and deliver_stored: "good k \<Longrightarrow> fit r \<Longrightarrow> stored (snd (deliver x k r)) = stored k \<or>
      rec_Sequence r = int (length (stored k)) + 1 \<and> stored (snd (deliver x k r)) = stored k @ [r]"
    and deliver_acknowledged: "good k \<Longrightarrow> fit r \<Longrightarrow> fst (deliver x k r) \<Longrightarrow> r \<in> set (stored (snd (deliver x k r)))"

text \<open>
  The remote copy is a prefix of the chain, and it is at most one record ahead of the
  acknowledged rows, which come first.
\<close>

definition replica :: "audit_db \<Rightarrow> audit_Record list \<Rightarrow> nat \<Rightarrow> bool" where
  "replica db ss d \<longleftrightarrow> d \<le> length (db_spool db) \<and>
     (\<forall>i < length (db_spool db). (row_delivered (db_spool db ! i) \<noteq> None) = (i < d)) \<and>
     d \<le> length ss \<and> length ss \<le> d + 1 \<and> length ss \<le> length (db_spool db) \<and>
     ss = take (length ss) (map row_record (db_spool db))"

lemma filter_suffix:
  "d \<le> length xs \<Longrightarrow> (\<And>i. i < length xs \<Longrightarrow> P (xs ! i) = (d \<le> i)) \<Longrightarrow> filter P xs = drop d xs"
proof (induction xs arbitrary: d)
  case (Cons x xs)
  show ?case
  proof (cases d)
    case 0
    with Cons.prems have "P y" if "y \<in> set (x # xs)" for y using that by (metis in_set_conv_nth zero_le)
    then show ?thesis using 0 by (simp add: filter_id_conv)
  next
    case (Suc e)
    have "P (xs ! i) = (e \<le> i)" if "i < length xs" for i using Cons.prems(2) [of "Suc i"] that Suc by simp
    with Cons.IH [of e] Cons.prems(1) Cons.prems(2) [of 0] Suc show ?thesis by simp
  qed
qed simp

lemma replica_pending: "replica db ss d \<Longrightarrow> pending_rows db = drop d (db_spool db)"
  unfolding pending_rows_def by (rule filter_suffix) (auto simp: replica_def not_less)

text \<open>Marking the first pending row.\<close>

lemma mark_first:
  assumes inv: "spool_inv env sp db" and d: "d < length (db_spool db)" "row_delivered (db_spool db ! d) = None" and t: "t \<noteq> zero_time"
  shows "MarkDelivered db (row_sequence (db_spool db ! d)) (row_mac (db_spool db ! d)) t =
    Inr (db\<lparr>db_spool := (db_spool db)[d := (db_spool db ! d)\<lparr>row_delivered := Some t\<rparr>]\<rparr>)"
proof -
  let ?rs = "db_spool db" and ?r = "db_spool db ! d"
  have dist: "distinct (map row_sequence ?rs)" by (rule spool_inv_sequence(5) [OF inv])
  have m: "marks (row_sequence ?r) (row_mac ?r) (?rs ! i) \<longleftrightarrow> i = d" if "i < length ?rs" for i
    using dist d that unfolding marks_def by (auto simp: distinct_conv_nth)
  have "{i. i < length ?rs \<and> marks (row_sequence ?r) (row_mac ?r) (?rs ! i)} = {d}" using m d(1) by auto
  then have "length (filter (marks (row_sequence ?r) (row_mac ?r)) ?rs) = 1" by (simp add: length_filter_conv_card)
  moreover have "map (\<lambda>r. if marks (row_sequence ?r) (row_mac ?r) r then r\<lparr>row_delivered := Some t\<rparr> else r) ?rs =
      ?rs[d := ?r\<lparr>row_delivered := Some t\<rparr>]"
    using m by (intro nth_equalityI) (auto simp: nth_list_update)
  moreover have "1 \<le> row_sequence ?r"
  proof -
    have "row_sequence ?r = map row_sequence ?rs ! d" using d(1) by simp
    also have "\<dots> = 1 + int d" unfolding spool_inv_sequence(2) [OF inv] using d(1) by simp
    finally show ?thesis by simp
  qed
  moreover have "length (row_mac ?r) = 32" using inv d(1) by (simp add: spool_inv_def list_all_length)
  ultimately show ?thesis using t by (simp add: MarkDelivered_def)
qed

lemma row_record_mark [simp]: "row_record (r\<lparr>row_delivered := x\<rparr>) = row_record r"
  by (simp add: row_record_def)

lemma replica_marked:
  assumes "replica db ss d" and "d < length ss"
  shows "replica (db\<lparr>db_spool := (db_spool db)[d := (db_spool db ! d)\<lparr>row_delivered := Some t\<rparr>]\<rparr>) ss (Suc d)"
proof -
  have "map row_record ((db_spool db)[d := (db_spool db ! d)\<lparr>row_delivered := Some t\<rparr>]) = map row_record (db_spool db)"
    using assms by (intro nth_equalityI) (auto simp: replica_def nth_list_update)
  with assms show ?thesis by (auto simp: replica_def nth_list_update less_Suc_eq)
qed

lemma row_sequence_nth:
  assumes "spool_inv env sp db" and "i < length (db_spool db)"
  shows "row_sequence (db_spool db ! i) = int i + 1"
proof -
  have "row_sequence (db_spool db ! i) = map row_sequence (db_spool db) ! i" using assms(2) by simp
  also have "\<dots> = int i + 1" unfolding spool_inv_sequence(2) [OF assms(1)] using assms(2) by simp
  finally show ?thesis .
qed

context audit_sink
begin

definition delivery_inv :: "audit_env \<Rightarrow> Spool \<Rightarrow> audit_db \<Rightarrow> 'k \<Rightarrow> nat \<Rightarrow> bool" where
  "delivery_inv env sp db k d \<longleftrightarrow> spool_inv env sp db \<and> good k \<and> replica db (stored k) d \<and>
     list_all fit (map row_record (db_spool db))"

lemma deliver_first:
  assumes inv: "delivery_inv env sp db k d" and d: "d < length (db_spool db)"
  shows "delivery_inv env sp db (snd (deliver x k (row_record (db_spool db ! d)))) d \<and>
    (fst (deliver x k (row_record (db_spool db ! d))) \<longrightarrow> d < length (stored (snd (deliver x k (row_record (db_spool db ! d))))))"
proof -
  let ?r = "row_record (db_spool db ! d)" and ?k = "snd (deliver x k (row_record (db_spool db ! d)))"
  have sp: "spool_inv env sp db" and g: "good k" and f: "fit ?r" and rep: "replica db (stored k) d"
    using inv d by (auto simp: delivery_inv_def list_all_length)
  have seq: "rec_Sequence ?r = int d + 1" using row_sequence_nth [OF sp d] by (simp add: row_record_def)
  have "stored ?k = stored k \<or> length (stored k) = d \<and> stored ?k = stored k @ [?r]"
    using deliver_stored [OF g f, of x] seq by auto
  then have rep': "replica db (stored ?k) d"
  proof
    assume a: "length (stored k) = d \<and> stored ?k = stored k @ [?r]"
    with rep d have "stored ?k = take (d + 1) (map row_record (db_spool db))"
      by (auto simp: replica_def take_Suc_conv_app_nth)
    with rep d show ?thesis by (auto simp: replica_def)
  qed (use rep in simp)
  have "d < length (stored ?k)" if "fst (deliver x k ?r)"
  proof -
    have "?r \<in> set (stored ?k)" by (rule deliver_acknowledged [OF g f that])
    then obtain i where i: "i < length (stored ?k)" "stored ?k ! i = ?r" by (auto simp: in_set_conv_nth)
    have s: "stored ?k = take (length (stored ?k)) (map row_record (db_spool db))" and l: "length (stored ?k) \<le> length (db_spool db)"
      using rep' by (auto simp: replica_def)
    have "stored ?k ! i = row_record (db_spool db ! i)"
      by (subst s) (use i(1) l in simp)
    then have "row_sequence (db_spool db ! i) = int d + 1" using i(2) seq by (simp add: row_record_def)
    with row_sequence_nth [OF sp, of i] i l have "i = d" by simp
    with i show ?thesis by simp
  qed
  with inv rep' deliver_good [OF g f, of x] show ?thesis by (auto simp: delivery_inv_def)
qed

lemma deliver_marked:
  assumes inv: "delivery_inv env sp db k d" and d: "d < length (stored k)" and t: "t \<noteq> zero_time"
  obtains db' where "MarkDelivered db (row_sequence (db_spool db ! d)) (row_mac (db_spool db ! d)) t = Inr db'"
    "delivery_inv env sp db' k (Suc d)" "map row_record (db_spool db') = map row_record (db_spool db)"
proof -
  have sp: "spool_inv env sp db" and rep: "replica db (stored k) d" using inv by (simp_all add: delivery_inv_def)
  have l1: "d < length (db_spool db)" using rep d by (auto simp: replica_def)
  moreover have "row_delivered (db_spool db ! d) = None" using rep l1 unfolding replica_def by (metis less_irrefl)
  ultimately have l: "d < length (db_spool db)" "row_delivered (db_spool db ! d) = None" by simp_all
  let ?db = "db\<lparr>db_spool := (db_spool db)[d := (db_spool db ! d)\<lparr>row_delivered := Some t\<rparr>]\<rparr>"
  have m: "MarkDelivered db (row_sequence (db_spool db ! d)) (row_mac (db_spool db ! d)) t = Inr ?db"
    by (rule mark_first [OF sp l t])
  have rec: "map row_record (db_spool ?db) = map row_record (db_spool db)"
    using l by (intro nth_equalityI) (auto simp: nth_list_update)
  with MarkDelivered_inv [OF sp m] replica_marked [OF rep d] inv have "delivery_inv env sp ?db k (Suc d)"
    unfolding delivery_inv_def rec by simp
  from that [OF m this rec] show ?thesis .
qed

text \<open>Whatever happens during a batch, the remote copy stays a prefix of the chain.\<close>

lemma deliver_records_inv:
  assumes "delivery_inv env sp db k d" and "rs = take m (drop d (map row_record (db_spool db)))"
    and "deliver_records deliver fates rs db k w = (e, db', k', w')"
  shows "\<exists>d'. d \<le> d' \<and> delivery_inv env sp db' k' d' \<and> map row_record (db_spool db') = map row_record (db_spool db) \<and>
    (e = None \<longrightarrow> d' = d + length rs)"
  using assms
proof (induction rs arbitrary: fates db k w d m)
  case Nil
  then show ?case by auto
next
  case (Cons r rs)
  have "take m (drop d (map row_record (db_spool db))) \<noteq> []" using Cons.prems(2) by (metis list.distinct(1))
  then have d: "d < length (db_spool db)" and m: "m \<noteq> 0" by auto
  have r: "r = row_record (db_spool db ! d)" and rs: "rs = take (m - 1) (drop (Suc d) (map row_record (db_spool db)))"
    using Cons.prems(2) d m by (auto simp: Cons_nth_drop_Suc [symmetric] drop_map take_Cons')
  let ?t = "snd (fates 0)"
  obtain b k1 where dl: "deliver (fst (fates 0)) k r = (b, k1)" by fastforce
  have f: "delivery_inv env sp db k1 d" "b \<Longrightarrow> d < length (stored k1)"
    using deliver_first [OF Cons.prems(1) d, of "fst (fates 0)"] dl r by auto
  show ?case
  proof (cases "b \<and> ?t \<noteq> zero_time")
    case False
    with Cons.prems(3) dl f(1) show ?thesis
      by (intro exI [of _ d]) (cases b; auto simp: MarkDelivered_def)
  next
    case True
    then obtain db1 where m1: "MarkDelivered db (rec_Sequence r) (rec_MAC r) ?t = Inr db1" "delivery_inv env sp db1 k1 (Suc d)"
      "map row_record (db_spool db1) = map row_record (db_spool db)"
      using deliver_marked [OF f(1), of ?t] f(2) r by (auto simp: row_record_def)
    have "deliver_records deliver (\<lambda>i. fates (Suc i)) rs db1 k1 (w\<lparr>dw_lastDelivered := ?t\<rparr>) = (e, db', k', w')"
      using Cons.prems(3) dl m1(1) True by simp
    moreover have "rs = take (m - 1) (drop (Suc d) (map row_record (db_spool db1)))" using rs m1(3) by simp
    ultimately obtain d' where "Suc d \<le> d'" "delivery_inv env sp db' k' d'"
      "map row_record (db_spool db') = map row_record (db_spool db1)" "e = None \<longrightarrow> d' = Suc d + length rs"
      using Cons.IH [OF m1(2)] by blast
    with m1(3) show ?thesis by (intro exI [of _ d']) auto
  qed
qed

lemma deliverBatch_inv:
  assumes "delivery_inv env sp db k d" and "deliverBatch env sp batchSize deliver fates db k w = (e, db', k', w')"
  shows "\<exists>d'. d \<le> d' \<and> delivery_inv env sp db' k' d' \<and> map row_record (db_spool db') = map row_record (db_spool db)"
proof (cases "1 \<le> batchSize \<and> batchSize \<le> 1000")
  case True
  have sp: "spool_inv env sp db" and rep: "replica db (stored k) d" using assms(1) by (simp_all add: delivery_inv_def)
  have "Pending env sp db batchSize = Inr (take (nat batchSize) (drop d (map row_record (db_spool db))))"
    using Pending_inv [OF sp] True replica_pending [OF rep] by (simp add: take_map drop_map)
  with deliver_records_inv [OF assms(1) refl] assms(2) show ?thesis
    by (fastforce simp: deliverBatch_def)
next
  case False
  then have "Pending env sp db batchSize = Inl ErrAudit" by (auto simp: Pending_def)
  with assms show ?thesis by (auto simp: deliverBatch_def)
qed

lemma append_delivery_inv:
  assumes inv: "delivery_inv env sp db k d" and ok: "spool_ok db (SpoolAppend ev)"
    and fit: "\<And>r. rec_Event r = ev \<Longrightarrow> validate_event ev \<Longrightarrow> 1 \<le> rec_Sequence r \<Longrightarrow> rec_Sequence r < 2 ^ 63 \<Longrightarrow> length (rec_MAC r) = 32 \<Longrightarrow>
      marshal_event ev \<noteq> None \<Longrightarrow> fit r"
  shows "delivery_inv env sp (spool_step env sp db (SpoolAppend ev)) k d"
proof (cases "AppendTx env sp db ev")
  case (Inr db')
  have sp: "spool_inv env sp db" and rep: "replica db (stored k) d" and room: "int (length (db_spool db)) < 2 ^ 63 - 1" "event_utf8 ev"
    using inv ok by (simp_all add: delivery_inv_def)
  have sp': "spool_inv env sp db'" using spool.step_inv [OF sp ok] Inr by simp
  from Inr sp room(1) obtain s t where s: "validate_event ev" "marshal_event ev = Some s" "ae_jsonb env s = Some t"
    and db': "db' = appended env sp db s t" by (rule AppendTx_Inr)
  define r where "r = last (db_spool db')"
  have rows: "db_spool db' = db_spool db @ [r]" "row_delivered r = None" "row_event r = t" "row_sequence r = db_last_sequence db + 1"
    by (simp_all add: r_def db' appended_def Let_def)
  have "unmarshal_event t = Some ev"
    using sp s room(2) unmarshal_marshal_event [OF s(2) room(2)] unfolding spool_inv_def audit_env_ok_def by (metis option.inject)
  then have "fit (row_record r)"
    using fit [of "row_record r"] s sp' rows spool_inv_sequence(1) [OF sp] room(1)
    by (auto simp: row_record_def spool_inv_def list_all_iff)
  moreover have "replica db' (stored k) d"
    using rep rows by (auto simp: replica_def nth_append less_Suc_eq)
  ultimately show ?thesis
    using inv sp' Inr rows(1) by (auto simp: delivery_inv_def)
qed (use inv in simp)

end

section \<open>The HTTP sink fulfils the contract\<close>

definition sink_record :: "sink_row \<Rightarrow> audit_Record" where
  "sink_record x = \<lparr>rec_Sequence = sk_sequence x, rec_Event = the (unmarshal_event (sk_event x)), rec_MAC = sk_mac x\<rparr>"

definition http_stored :: "sink_db \<Rightarrow> audit_Record list" where
  "http_stored remote = map sink_record (sk_records remote)"

definition http_good :: "sink_db \<Rightarrow> bool" where
  "http_good remote \<longleftrightarrow> sink_inv remote \<and>
     list_all (\<lambda>x. \<exists>e. unmarshal_event (sk_event x) = Some e \<and> event_utf8 e) (sk_records remote)"

definition http_fit :: "audit_Record \<Rightarrow> bool" where
  "http_fit r \<longleftrightarrow> 1 \<le> rec_Sequence r \<and> rec_Sequence r < 2 ^ 63 \<and> length (rec_MAC r) = 32 \<and>
     validate_event (rec_Event r) \<and> event_utf8 (rec_Event r) \<and> marshal_event (rec_Event r) \<noteq> None"

text \<open>A request of Deliver arrives as the append of its record, or is refused before.\<close>

lemma serve_post:
  assumes "http_fit r" and "marshal_record r = Some body"
    and "sink_ServeHTTP env trustDomain remote (sink_post hs r body) now = (resp, remote')"
  shows "(remote' = remote \<and> 400 \<le> sr_Status resp) \<or>
    (\<exists>res. Append env remote r (audit_key (rec_MAC r)) ''praetor-secrets'' now = (res, remote') \<and> resp = sink_answer res)"
proof -
  have "decode_record body = Some r"
    using assms(1) by (intro decode_marshal_record [OF assms(2)]) (auto simp: http_fit_def)
  with assms(3) show ?thesis
    by (auto simp: sink_ServeHTTP_def sink_post_def split: if_splits prod.splits)
qed

lemma sink_answer_ok: "200 \<le> sr_Status (sink_answer res) \<and> sr_Status (sink_answer res) < 300 \<longleftrightarrow> res = Inr Created \<or> res = Inr Replayed"
  by (auto simp: sink_answer_def split: sum.splits sink_error.splits AppendResult.splits)

lemma created_record:
  assumes "audit_env_ok env" and "http_fit r" and "Append env remote r key identity now = (Inr Created, remote')"
  shows "\<exists>x. sk_records remote' = sk_records remote @ [x] \<and> sink_record x = r \<and> rec_Sequence r = sk_last_sequence remote + 1 \<and>
    (\<exists>e. unmarshal_event (sk_event x) = Some e \<and> event_utf8 e)"
  using assms(3)
proof (cases rule: Append_cases)
  case (created x)
  obtain s where s: "marshal_event (rec_Event r) = Some s" using assms(2) by (auto simp: http_fit_def)
  have "ae_jsonb env s = Some (sk_event x)" using created(11) s by simp
  moreover have u: "validate_event (rec_Event r)" "event_utf8 (rec_Event r)" using assms(2) by (simp_all add: http_fit_def)
  ultimately have "unmarshal_event (sk_event x) = Some (rec_Event r)"
    using assms(1) s unmarshal_marshal_event [OF s u(2)] unfolding audit_env_ok_def by (metis option.inject)
  with created u show ?thesis by (auto simp: sink_record_def)
qed simp

text \<open>An exact replay is of the record the sink has.\<close>

lemma replayed_record:
  assumes "http_good remote" and "http_fit r" and "Append env remote r key identity now = (Inr Replayed, remote')"
  shows "remote' = remote \<and> r \<in> set (http_stored remote)"
proof -
  from assms(3) have same: "remote' = remote" by (cases rule: Append_cases) auto
  from assms(3) obtain encoded x ev where v: "validate_record r key identity = Some encoded"
    and x: "find (\<lambda>x. sk_sequence x = rec_Sequence r) (sk_records remote) = Some x"
    and ev: "unmarshal_event (sk_event x) = Some ev" "marshal_event ev = Some encoded" and mac: "sk_mac x = rec_MAC r"
    by (auto simp: Append_def exactReplay_def split: option.splits if_splits sum.splits)
  have s: "marshal_event (rec_Event r) = Some encoded"
    using v by (auto simp: validate_record_def split: if_splits option.splits)
  have mem: "x \<in> set (sk_records remote)" "sk_sequence x = rec_Sequence r"
    using x by (auto simp: find_Some_iff)
  have "event_utf8 ev" using assms(1) mem(1) ev(1) by (auto simp: http_good_def list_all_iff)
  from unmarshal_marshal_event [OF ev(2) this] unmarshal_marshal_event [OF s] assms(2)
  have "ev = rec_Event r" by (simp add: http_fit_def)
  with ev mem mac have "sink_record x = r" by (simp add: sink_record_def)
  with mem(1) same show ?thesis by (auto simp: http_stored_def)
qed

lemma Deliver_cases:
  assumes A: "audit_env_ok env" and g: "http_good remote" and f: "http_fit r"
    and d: "Deliver env trustDomain hs fate remote r = (b, remote')"
  shows "http_good remote' \<and> (http_stored remote' = http_stored remote \<or>
      rec_Sequence r = int (length (http_stored remote)) + 1 \<and> http_stored remote' = http_stored remote @ [r]) \<and>
    (b \<longrightarrow> r \<in> set (http_stored remote'))"
proof (cases "remote' = remote \<and> \<not> b")
  case True
  with g show ?thesis by simp
next
  case False
  with d obtain body resp where body: "marshal_record r = Some body"
    and s: "sink_ServeHTTP env trustDomain remote (sink_post hs r body) (snd fate) = (resp, remote')"
    and b: "b \<longrightarrow> 200 \<le> sr_Status resp \<and> sr_Status resp < 300"
    by (auto simp: Deliver_def split: if_splits option.splits prod.splits)
  from serve_post [OF f body s] consider "remote' = remote" "400 \<le> sr_Status resp"
    | res where "Append env remote r (audit_key (rec_MAC r)) ''praetor-secrets'' (snd fate) = (res, remote')" "resp = sink_answer res"
    by blast
  then show ?thesis
  proof cases
    case 1
    with b False show ?thesis by simp
  next
    case (2 res)
    show ?thesis
    proof (cases "res = Inr Created")
      case True
      from created_record [OF A f 2(1) [unfolded True]] obtain x where x: "sk_records remote' = sk_records remote @ [x]" "sink_record x = r"
        "rec_Sequence r = sk_last_sequence remote + 1" "\<exists>e. unmarshal_event (sk_event x) = Some e \<and> event_utf8 e" by blast
      have "sink_inv remote'" using Append_inv 2(1) g by (auto simp: http_good_def)
      with x g show ?thesis by (auto simp: http_good_def http_stored_def sink_inv_def)
    next
      case False
      from 2(1) False have same: "remote' = remote" by (cases rule: Append_cases) auto
      with b 2(2) sink_answer_ok [of res] False have "b \<longrightarrow> res = Inr Replayed" by auto
      with replayed_record [OF g f] 2(1) same g show ?thesis by auto
    qed
  qed
qed

text \<open>The sink that \<open>Deliver\<close> talks to; if the database does not keep documents, nothing is promised.\<close>

interpretation http: audit_sink "Deliver env trustDomain hs" http_stored "\<lambda>remote. audit_env_ok env \<and> http_good remote" http_fit
proof
  fix k r x
  assume a: "audit_env_ok env \<and> http_good k" and f: "http_fit r"
  obtain b k' where d: "Deliver env trustDomain hs x k r = (b, k')" by fastforce
  note c = Deliver_cases [OF conjunct1 [OF a] conjunct2 [OF a] f d]
  show "audit_env_ok env \<and> http_good (snd (Deliver env trustDomain hs x k r))" using a c d by simp
  show "http_stored (snd (Deliver env trustDomain hs x k r)) = http_stored k \<or>
      rec_Sequence r = int (length (http_stored k)) + 1 \<and> http_stored (snd (Deliver env trustDomain hs x k r)) = http_stored k @ [r]"
    using c d by simp
  show "fst (Deliver env trustDomain hs x k r) \<Longrightarrow> r \<in> set (http_stored (snd (Deliver env trustDomain hs x k r)))"
    using c d by simp
qed

section \<open>Spool and sink together\<close>

record audit_link =
  al_env :: audit_env
  al_spool :: Spool
  al_trustDomain :: string
  al_sink :: HTTPSink
  al_batchSize :: int

datatype delivery_op = DAppend Event | DBatch "nat \<Rightarrow> (exchange \<times> time) \<times> time"

fun delivery_step :: "audit_link \<Rightarrow> audit_db \<times> sink_db \<times> DeliveryWorker \<Rightarrow> delivery_op \<Rightarrow> audit_db \<times> sink_db \<times> DeliveryWorker" where
  "delivery_step L (db, k, w) (DAppend e) = (spool_step (al_env L) (al_spool L) db (SpoolAppend e), k, w)"
| "delivery_step L (db, k, w) (DBatch fates) =
     snd (run_tick (al_env L) (al_spool L) (al_batchSize L) (Deliver (al_env L) (al_trustDomain L) (al_sink L)) fates db k w)"

fun delivery_ok :: "audit_db \<times> sink_db \<times> DeliveryWorker \<Rightarrow> delivery_op \<Rightarrow> bool" where
  "delivery_ok (db, k, w) (DAppend e) \<longleftrightarrow> spool_ok db (SpoolAppend e)"
| "delivery_ok (db, k, w) (DBatch fates) \<longleftrightarrow> True"

definition link_inv :: "audit_link \<Rightarrow> audit_db \<times> sink_db \<times> DeliveryWorker \<Rightarrow> bool" where
  "link_inv L s \<longleftrightarrow> (\<exists>d. http.delivery_inv (al_env L) (al_env L) (al_spool L) (fst s) (fst (snd s)) d)"

lemma run_tick_batch:
  "snd (run_tick env sp n deliver fates db k w) = (db', k', w') \<Longrightarrow>
   \<exists>e w1. deliverBatch env sp n deliver fates db k w = (e, db', k', w1)"
  by (auto simp: run_tick_def split: prod.splits option.splits audit_error.splits)

interpretation link: transition_system "delivery_step L" delivery_ok "link_inv L"
proof
  fix s x
  assume inv: "link_inv L s" and ok: "delivery_ok s x"
  obtain db k w where s: "s = (db, k, w)" by (cases s)
  obtain d where d: "http.delivery_inv (al_env L) (al_env L) (al_spool L) db k d" using inv s by (auto simp: link_inv_def)
  show "link_inv L (delivery_step L s x)"
  proof (cases x)
    case (DAppend e)
    have "spool_ok db (SpoolAppend e)" using ok s DAppend by simp
    then have "http.delivery_inv (al_env L) (al_env L) (al_spool L) (spool_step (al_env L) (al_spool L) db (SpoolAppend e)) k d"
      by (intro http.append_delivery_inv [OF d]) (auto simp: http_fit_def)
    then show ?thesis using s DAppend by (auto simp: link_inv_def simp del: spool_step.simps)
  next
    case (DBatch fates)
    obtain db' k' w' where r: "delivery_step L s x = (db', k', w')" by (cases "delivery_step L s x")
    then obtain e w1 where "deliverBatch (al_env L) (al_spool L) (al_batchSize L) (Deliver (al_env L) (al_trustDomain L) (al_sink L)) fates db k w =
        (e, db', k', w1)"
      using run_tick_batch s DBatch by fastforce
    from http.deliverBatch_inv [OF d this] r show ?thesis by (auto simp: link_inv_def)
  qed
qed

lemma link_inv_start:
  assumes "audit_env_ok (al_env L)" and "0 \<le> sp_maximumPending (al_spool L)"
  shows "link_inv L (migrated, sink_migrated t, w0)"
proof -
  have "replica migrated [] 0" by (simp add: replica_def migrated_def)
  moreover have "http_good (sink_migrated t)" "http_stored (sink_migrated t) = []" "db_spool migrated = []"
    by (simp_all add: http_good_def http_stored_def sink_migrated_def sink_inv_def migrated_def)
  ultimately show ?thesis
    unfolding link_inv_def http.delivery_inv_def using migrated_inv [OF assms] assms(1) by auto
qed

text \<open>
  C19. The remote copy is exact, at every moment: however appends and delivery batches interleave, and
  however often requests or responses are lost, the records the sink stores are the first ones of
  the local chain, in order, complete and unchanged; every row marked delivered is among them,
  the marked rows come first, and the sink is never more than one record ahead of the marks.
\<close>

theorem remote_copy_exact:
  assumes "audit_env_ok (al_env L)" and "0 \<le> sp_maximumPending (al_spool L)"
    and "run_ok (delivery_step L) delivery_ok (migrated, sink_migrated t, w0) ops"
    and "foldl (delivery_step L) (migrated, sink_migrated t, w0) ops = (db, remote, w)"
  shows "http_stored remote = take (length (http_stored remote)) (map row_record (db_spool db)) \<and>
    (\<exists>d. d \<le> length (http_stored remote) \<and> length (http_stored remote) \<le> d + 1 \<and>
      (\<forall>i < length (db_spool db). (row_delivered (db_spool db ! i) \<noteq> None) = (i < d)))"
proof -
  have "link_inv L (migrated, sink_migrated t, w0)" by (rule link_inv_start [OF assms(1,2)])
  from link.run_inv [OF this assms(3)] assms(4) obtain d where "replica db (http_stored remote) d"
    by (auto simp: link_inv_def http.delivery_inv_def)
  then show ?thesis by (auto simp: replica_def)
qed

end
