(* ===== verification/Envelope.thy ===== *)
theory Envelope
  imports GoJson
begin

text \<open>
  The envelope record of \<open>src/envelope/envelope.go\<close>: a payload sealed under a fresh data key,
  the data key wrapped under a named master key, both bound to a context by associated data.

  AES-GCM is a parameter, an \<open>aead\<close> record with its \<open>Seal\<close> and \<open>Open\<close>: what the code relies on
  is stated as \<open>aead_correct\<close> (the documented contract: \<open>Open\<close> inverts \<open>Seal\<close> and nothing else
  opens, the ciphertext is sixteen bytes longer than the plaintext) and, only where a theorem is
  about an adversary who edits stored records, \<open>aead_authentic\<close> for the ciphertexts at hand (a
  ciphertext opens under its key only with the nonce and the associated data it was sealed with).

  The entropy source (\<open>io.Reader\<close>) is the list of the bytes it will still deliver; a short read
  is an error, as \<open>io.ReadFull\<close> makes it.
\<close>

section \<open>Data\<close>

definition FormatVersion :: "32 word" where "FormatVersion = 1"
definition Algorithm :: string where "Algorithm = ''AES-256-GCM-DEK+AES-256-GCM-KEK''"
definition keySize :: nat where "keySize = 32"
definition recordIDSize :: nat where "recordIDSize = 16"
definition nonceSize :: nat where "nonceSize = 12"

datatype env_error =
    ErrInvalidRecord
  | ErrUnsupported
  | ErrUnknownKey
  | ErrContextMismatch
  | ErrAuthentication
  | ErrCipher string
  | ErrEntropy string

record Context =
  ctx_CredentialID :: string
  ctx_OrganizationID :: string
  ctx_SchemaVersion :: "32 word"
  ctx_CredentialVersion :: "64 word"

definition ctx_validate :: "Context \<Rightarrow> bool" where
  "ctx_validate c \<longleftrightarrow>
     \<not> (ctx_CredentialID c = [] \<or> ctx_OrganizationID c = [] \<or> ctx_SchemaVersion c = 0 \<or>
        ctx_CredentialVersion c = 0)"

definition ctx_equal :: "Context \<Rightarrow> Context \<Rightarrow> bool" where
  "ctx_equal c d \<longleftrightarrow>
     ctx_CredentialID c = ctx_CredentialID d \<and> ctx_OrganizationID c = ctx_OrganizationID d \<and>
     ctx_SchemaVersion c = ctx_SchemaVersion d \<and> ctx_CredentialVersion c = ctx_CredentialVersion d"

record MasterKey =
  mk_id :: string
  mk_key :: bytes

definition NewMasterKey :: "string \<Rightarrow> bytes \<Rightarrow> env_error + MasterKey" where
  "NewMasterKey i raw =
     (if i = [] \<or> length raw \<noteq> keySize then Inl ErrUnknownKey
      else Inr \<lparr>mk_id = i, mk_key = raw\<rparr>)"

record Record =
  rec_Version :: "32 word"
  rec_Algorithm :: string
  rec_RecordID :: string
  rec_MasterKeyID :: string
  rec_Context :: Context
  rec_PayloadNonce :: bytes
  rec_Ciphertext :: bytes
  rec_WrapNonce :: bytes
  rec_WrappedDataKey :: bytes

type_synonym keyring = "(string, MasterKey) gomap"

record aead =
  Seal :: "bytes \<Rightarrow> bytes \<Rightarrow> bytes \<Rightarrow> bytes \<Rightarrow> bytes"
  Open :: "bytes \<Rightarrow> bytes \<Rightarrow> bytes \<Rightarrow> bytes \<Rightarrow> bytes option"

section \<open>Operations\<close>

text \<open>\<open>json.Marshal\<close> of the \<open>associatedData\<close> struct: its fields in declaration order.\<close>

definition json_field :: "string \<Rightarrow> string \<Rightarrow> string" where
  "json_field name value = json_string name @ '':'' @ value"

record associatedData =
  ad_Purpose :: string
  ad_Version :: "32 word"
  ad_Algorithm :: string
  ad_RecordID :: string
  ad_MasterKeyID :: string
  ad_CredentialID :: string
  ad_OrganizationID :: string
  ad_SchemaVersion :: "32 word"
  ad_CredentialVersion :: "64 word"

definition marshal_associatedData :: "associatedData \<Rightarrow> string" where
  "marshal_associatedData d =
     ''{'' @ json_field ''purpose'' (json_string (ad_Purpose d))
     @ '','' @ json_field ''version'' (json_nat (unat (ad_Version d)))
     @ '','' @ json_field ''algorithm'' (json_string (ad_Algorithm d))
     @ '','' @ json_field ''record_id'' (json_string (ad_RecordID d))
     @ '','' @ json_field ''master_key_id'' (json_string (ad_MasterKeyID d))
     @ '','' @ json_field ''credential_id'' (json_string (ad_CredentialID d))
     @ '','' @ json_field ''organization_id'' (json_string (ad_OrganizationID d))
     @ '','' @ json_field ''schema_version'' (json_nat (unat (ad_SchemaVersion d)))
     @ '','' @ json_field ''credential_version'' (json_nat (unat (ad_CredentialVersion d)))
     @ ''}''"

definition aad :: "string \<Rightarrow> Record \<Rightarrow> Context \<Rightarrow> bytes" where
  "aad purpose r expected =
     (let masterKeyID = (if purpose = ''data-key-wrap'' then rec_MasterKeyID r else []) in
      bytes_of (marshal_associatedData
        \<lparr>ad_Purpose = purpose, ad_Version = rec_Version r, ad_Algorithm = rec_Algorithm r,
         ad_RecordID = rec_RecordID r, ad_MasterKeyID = masterKeyID,
         ad_CredentialID = ctx_CredentialID expected,
         ad_OrganizationID = ctx_OrganizationID expected,
         ad_SchemaVersion = ctx_SchemaVersion expected,
         ad_CredentialVersion = ctx_CredentialVersion expected\<rparr>))"

text \<open>\<open>aes.NewCipher\<close> accepts the three AES key lengths only.\<close>

definition newGCM :: "bytes \<Rightarrow> bool" where
  "newGCM key \<longleftrightarrow> length key = 16 \<or> length key = 24 \<or> length key = 32"

definition randomBytes :: "bytes \<Rightarrow> nat \<Rightarrow> bytes option \<times> bytes" where
  "randomBytes source n = (if length source < n then (None, []) else (Some (take n source), drop n source))"

definition Encrypt ::
  "aead \<Rightarrow> bytes \<Rightarrow> Context \<Rightarrow> MasterKey \<Rightarrow> bytes \<Rightarrow> (env_error + Record) \<times> bytes" where
  "Encrypt A plaintext context master source =
     (if \<not> ctx_validate context \<or> mk_id master = [] then (Inl ErrContextMismatch, source)
      else case randomBytes source recordIDSize of (None, s) \<Rightarrow> (Inl (ErrEntropy ''record id''), s)
      | (Some recordID, s1) \<Rightarrow>
     (case randomBytes s1 keySize of (None, s) \<Rightarrow> (Inl (ErrEntropy ''data key''), s)
      | (Some dataKey, s2) \<Rightarrow>
     (let record0 = \<lparr>rec_Version = FormatVersion, rec_Algorithm = Algorithm,
            rec_RecordID = hex_encode recordID, rec_MasterKeyID = mk_id master,
            rec_Context = context, rec_PayloadNonce = [], rec_Ciphertext = [],
            rec_WrapNonce = [], rec_WrappedDataKey = []\<rparr> in
      if \<not> newGCM dataKey then (Inl (ErrCipher ''payload cipher''), s2)
      else case randomBytes s2 nonceSize of (None, s) \<Rightarrow> (Inl (ErrEntropy ''payload nonce''), s)
      | (Some payloadNonce, s3) \<Rightarrow>
     (let record1 = record0\<lparr>rec_PayloadNonce := payloadNonce\<rparr>;
          record2 = record1\<lparr>rec_Ciphertext :=
            Seal A dataKey payloadNonce plaintext (aad ''credential-payload'' record1 context)\<rparr> in
      if \<not> newGCM (mk_key master) then (Inl (ErrCipher ''wrapping cipher''), s3)
      else case randomBytes s3 nonceSize of (None, s) \<Rightarrow> (Inl (ErrEntropy ''wrap nonce''), s)
      | (Some wrapNonce, s4) \<Rightarrow>
     (let record3 = record2\<lparr>rec_WrapNonce := wrapNonce\<rparr> in
      (Inr (record3\<lparr>rec_WrappedDataKey :=
         Seal A (mk_key master) wrapNonce dataKey (aad ''data-key-wrap'' record3 context)\<rparr>), s4))))))"

definition unwrapDataKey :: "aead \<Rightarrow> Record \<Rightarrow> Context \<Rightarrow> keyring \<Rightarrow> env_error + bytes" where
  "unwrapDataKey A r expected ring =
     (if \<not> ctx_validate expected then Inl ErrContextMismatch
      else if rec_Version r \<noteq> FormatVersion \<or> rec_Algorithm r \<noteq> Algorithm then Inl ErrUnsupported
      else if rec_RecordID r = [] \<or> rec_MasterKeyID r = [] \<or> \<not> ctx_equal (rec_Context r) expected
      then Inl ErrContextMismatch
      else case mget ring (rec_MasterKeyID r) of None \<Rightarrow> Inl ErrUnknownKey
      | Some master \<Rightarrow>
        if mk_id master \<noteq> rec_MasterKeyID r then Inl ErrUnknownKey
        else if length (rec_PayloadNonce r) = 0 \<or> length (rec_Ciphertext r) = 0 \<or>
                length (rec_WrapNonce r) = 0 \<or> length (rec_WrappedDataKey r) = 0
        then Inl ErrInvalidRecord
        else if \<not> newGCM (mk_key master) \<or> length (rec_WrapNonce r) \<noteq> nonceSize
        then Inl ErrInvalidRecord
        else (case Open A (mk_key master) (rec_WrapNonce r) (rec_WrappedDataKey r)
                     (aad ''data-key-wrap'' r expected) of
                None \<Rightarrow> Inl ErrAuthentication
              | Some dataKey \<Rightarrow>
                  if length dataKey \<noteq> keySize then Inl ErrAuthentication else Inr dataKey))"

definition decryptPayload :: "aead \<Rightarrow> Record \<Rightarrow> Context \<Rightarrow> bytes \<Rightarrow> env_error + bytes" where
  "decryptPayload A r expected dataKey =
     (if \<not> newGCM dataKey \<or> length (rec_PayloadNonce r) \<noteq> nonceSize then Inl ErrInvalidRecord
      else (case Open A dataKey (rec_PayloadNonce r) (rec_Ciphertext r)
                   (aad ''credential-payload'' r expected) of
              None \<Rightarrow> Inl ErrAuthentication
            | Some plaintext \<Rightarrow> Inr plaintext))"

definition Decrypt :: "aead \<Rightarrow> Record \<Rightarrow> Context \<Rightarrow> keyring \<Rightarrow> env_error + bytes" where
  "Decrypt A r expected ring =
     (case unwrapDataKey A r expected ring of
        Inl e \<Rightarrow> Inl e
      | Inr dataKey \<Rightarrow> decryptPayload A r expected dataKey)"

definition Rewrap ::
  "aead \<Rightarrow> Record \<Rightarrow> Context \<Rightarrow> keyring \<Rightarrow> MasterKey \<Rightarrow> bytes \<Rightarrow> (env_error + Record) \<times> bytes" where
  "Rewrap A r expected ring target source =
     (if mk_id target = [] then (Inl ErrUnknownKey, source)
      else case unwrapDataKey A r expected ring of Inl e \<Rightarrow> (Inl e, source)
      | Inr dataKey \<Rightarrow>
     (case decryptPayload A r expected dataKey of Inl e \<Rightarrow> (Inl e, source)
      | Inr plaintext \<Rightarrow>
     (let rewrapped = r\<lparr>rec_MasterKeyID := mk_id target\<rparr> in
      if \<not> newGCM (mk_key target) then (Inl ErrAuthentication, source)
      else case randomBytes source nonceSize of (None, s) \<Rightarrow> (Inl (ErrEntropy ''wrap nonce''), s)
      | (Some wrapNonce, s1) \<Rightarrow>
     (let rewrapped1 = rewrapped\<lparr>rec_WrapNonce := wrapNonce\<rparr> in
      (Inr (rewrapped1\<lparr>rec_WrappedDataKey :=
         Seal A (mk_key target) wrapNonce dataKey (aad ''data-key-wrap'' rewrapped1 expected)\<rparr>), s1)))))"

definition RotateDataKey ::
  "aead \<Rightarrow> Record \<Rightarrow> Context \<Rightarrow> keyring \<Rightarrow> MasterKey \<Rightarrow> bytes \<Rightarrow> (env_error + Record) \<times> bytes" where
  "RotateDataKey A r expected ring target source =
     (case Decrypt A r expected ring of
        Inl e \<Rightarrow> (Inl e, source)
      | Inr plaintext \<Rightarrow> Encrypt A plaintext expected target source)"

section \<open>What the primitives promise\<close>

definition aead_correct :: "aead \<Rightarrow> bool" where
  "aead_correct A \<longleftrightarrow>
     (\<forall>k n p d. Open A k n (Seal A k n p d) d = Some p) \<and>
     (\<forall>k n c d p. Open A k n c d = Some p \<longrightarrow> c = Seal A k n p d) \<and>
     (\<forall>k n p d. length (Seal A k n p d) = length p + 16)"

definition aead_authentic :: "aead \<Rightarrow> bytes \<Rightarrow> bytes \<Rightarrow> bytes \<Rightarrow> bytes \<Rightarrow> bool" where
  "aead_authentic A k n c d \<longleftrightarrow> (\<forall>n' d'. Open A k n' c d' \<noteq> None \<longrightarrow> n' = n \<and> d' = d)"

text \<open>
  An instance to evaluate the model on: no secrecy, a tag of sixteen bytes computed by a
  parameter.
\<close>

definition tag_aead :: "(bytes \<Rightarrow> bytes \<Rightarrow> bytes \<Rightarrow> bytes) \<Rightarrow> aead" where
  "tag_aead T =
     \<lparr>Seal = \<lambda>k n p d. p @ T k n d,
      Open = \<lambda>k n c d. if 16 \<le> length c \<and> drop (length c - 16) c = T k n d
        then Some (take (length c - 16) c) else None\<rparr>"

definition null_aead :: aead where
  "null_aead = tag_aead (\<lambda>k n d. replicate 16 0)"

lemma tag_aead_correct:
  assumes "\<And>k n d. length (T k n d) = 16"
  shows "aead_correct (tag_aead T)"
  using assms by (auto simp: aead_correct_def tag_aead_def split: if_splits) (metis append_take_drop_id)

text \<open>An instance that authenticates one nonce and one associated data.\<close>

definition spot_aead :: "bytes \<Rightarrow> bytes \<Rightarrow> aead" where
  "spot_aead n0 d0 = tag_aead (\<lambda>k n d. replicate 16 (if n = n0 \<and> d = d0 then 1 else 0))"

lemma spot_aead_correct [simp]: "aead_correct (spot_aead n0 d0)"
  by (simp add: spot_aead_def tag_aead_correct)

lemma spot_aead_authentic: "aead_authentic (spot_aead n d) k n (Seal (spot_aead n d) k n p d) d"
  by (auto simp: aead_authentic_def spot_aead_def tag_aead_def split: if_splits)

lemma null_aead_correct [simp]: "aead_correct null_aead"
  by (simp add: null_aead_def tag_aead_correct)

lemma ctx_equal_iff [simp]: "ctx_equal c d \<longleftrightarrow> c = d"
  by (auto simp: ctx_equal_def)

section \<open>Encryption\<close>

text \<open>The record that a successful encryption returns, in terms of the random bytes it drew.\<close>

definition envelope_record ::
  "aead \<Rightarrow> bytes \<Rightarrow> Context \<Rightarrow> MasterKey \<Rightarrow> bytes \<Rightarrow> bytes \<Rightarrow> bytes \<Rightarrow> bytes \<Rightarrow> Record" where
  "envelope_record A p c k rid dk pn wn =
     (let r0 = \<lparr>rec_Version = FormatVersion, rec_Algorithm = Algorithm, rec_RecordID = hex_encode rid,
         rec_MasterKeyID = mk_id k, rec_Context = c, rec_PayloadNonce = pn, rec_Ciphertext = [],
         rec_WrapNonce = wn, rec_WrappedDataKey = []\<rparr> in
      r0\<lparr>rec_Ciphertext := Seal A dk pn p (aad ''credential-payload'' r0 c),
         rec_WrappedDataKey := Seal A (mk_key k) wn dk (aad ''data-key-wrap'' r0 c)\<rparr>)"

lemmas size_defs = keySize_def recordIDSize_def nonceSize_def

lemma Encrypt_eq:
  assumes "ctx_validate c" and "mk_id k \<noteq> []" and "newGCM (mk_key k)" and "72 \<le> length src"
  shows "Encrypt A p c k src =
    (Inr (envelope_record A p c k (take 16 src) (take 32 (drop 16 src)) (take 12 (drop 48 src))
            (take 12 (drop 60 src))), drop 72 src)"
proof -
  have "\<not> length src < 16" "\<not> length src - 16 < 32" "\<not> length src - 48 < 12" "\<not> length src - 60 < 12"
    using assms(4) by linarith+
  with assms(1-3) show ?thesis
    by (simp add: Encrypt_def randomBytes_def size_defs newGCM_def envelope_record_def aad_def Let_def)
qed

lemma Encrypt_Inr_iff:
  "Encrypt A p c k src = (Inr r, src') \<longleftrightarrow>
     ctx_validate c \<and> mk_id k \<noteq> [] \<and> newGCM (mk_key k) \<and> 72 \<le> length src \<and> src' = drop 72 src \<and>
     r = envelope_record A p c k (take 16 src) (take 32 (drop 16 src)) (take 12 (drop 48 src))
            (take 12 (drop 60 src))"
proof (cases "ctx_validate c \<and> mk_id k \<noteq> [] \<and> newGCM (mk_key k) \<and> 72 \<le> length src")
  case True
  then show ?thesis by (auto simp: Encrypt_eq)
next
  case False
  then show ?thesis
    by (auto simp: Encrypt_def randomBytes_def size_defs Let_def newGCM_def split: if_splits)
qed

lemma envelope_record_sel:
  "rec_Version (envelope_record A p c k rid dk pn wn) = FormatVersion"
  "rec_Algorithm (envelope_record A p c k rid dk pn wn) = Algorithm"
  "rec_RecordID (envelope_record A p c k rid dk pn wn) = hex_encode rid"
  "rec_MasterKeyID (envelope_record A p c k rid dk pn wn) = mk_id k"
  "rec_Context (envelope_record A p c k rid dk pn wn) = c"
  "rec_PayloadNonce (envelope_record A p c k rid dk pn wn) = pn"
  "rec_WrapNonce (envelope_record A p c k rid dk pn wn) = wn"
  by (simp_all add: envelope_record_def Let_def)

lemma envelope_record_payload:
  "rec_Ciphertext (envelope_record A p c k rid dk pn wn) =
     Seal A dk pn p (aad ''credential-payload'' (envelope_record A p c k rid dk pn wn) c)"
  by (simp add: envelope_record_def aad_def Let_def)

lemma envelope_record_wrap:
  "rec_WrappedDataKey (envelope_record A p c k rid dk pn wn) =
     Seal A (mk_key k) wn dk (aad ''data-key-wrap'' (envelope_record A p c k rid dk pn wn) c)"
  by (simp add: envelope_record_def aad_def Let_def)


section \<open>Decryption\<close>

lemma Seal_nonempty: "aead_correct A \<Longrightarrow> Seal A k n p d \<noteq> []"
  by (metis add_is_0 aead_correct_def length_0_conv zero_neq_numeral)

lemma Open_Seal: "aead_correct A \<Longrightarrow> Open A k n (Seal A k n p d) d = Some p"
  by (simp add: aead_correct_def)

lemma Decrypt_envelope_record:
  assumes "aead_correct A" and "ctx_validate c" and "mk_id k \<noteq> []" and "newGCM (mk_key k)"
    and "rid \<noteq> []" and "length dk = 32" and "length pn = 12" and "length wn = 12"
    and "mget ring (mk_id k) = Some k"
  shows "unwrapDataKey A (envelope_record A p c k rid dk pn wn) c ring = Inr dk"
    and "Decrypt A (envelope_record A p c k rid dk pn wn) c ring = Inr p"
proof -
  let ?r = "envelope_record A p c k rid dk pn wn"
  have ne: "rec_Ciphertext ?r \<noteq> []" "rec_WrappedDataKey ?r \<noteq> []"
    using assms(1) by (simp_all add: envelope_record_payload envelope_record_wrap Seal_nonempty)
  have "Open A (mk_key k) wn (rec_WrappedDataKey ?r) (aad ''data-key-wrap'' ?r c) = Some dk"
    by (subst envelope_record_wrap) (rule Open_Seal [OF assms(1)])
  then show u: "unwrapDataKey A ?r c ring = Inr dk"
    using assms ne by (auto simp: unwrapDataKey_def envelope_record_sel size_defs)
  have "Open A dk pn (rec_Ciphertext ?r) (aad ''credential-payload'' ?r c) = Some p"
    by (subst envelope_record_payload) (rule Open_Seal [OF assms(1)])
  with u show "Decrypt A ?r c ring = Inr p"
    using assms(6,7) by (simp add: Decrypt_def decryptPayload_def envelope_record_sel newGCM_def size_defs)
qed

lemma Encrypt_Decrypt:
  assumes "aead_correct A" and "Encrypt A p c k src = (Inr r, src')" and "mget ring (mk_id k) = Some k"
  shows "Decrypt A r c ring = Inr p"
proof -
  from assms(2) have len: "72 \<le> length src" and
    "ctx_validate c \<and> mk_id k \<noteq> [] \<and> newGCM (mk_key k) \<and> r = envelope_record A p c k (take 16 src)
      (take 32 (drop 16 src)) (take 12 (drop 48 src)) (take 12 (drop 60 src))"
    by (auto simp: Encrypt_Inr_iff)
  moreover from len have "take 16 src \<noteq> []" by auto
  ultimately show ?thesis
    using assms(1,3) Decrypt_envelope_record(2) by simp
qed

lemma Decrypt_Inr:
  assumes "Decrypt A r c ring = Inr p"
  obtains k dk where "ctx_validate c" "rec_Version r = FormatVersion" "rec_Algorithm r = Algorithm"
    "rec_RecordID r \<noteq> []" "rec_MasterKeyID r \<noteq> []" "rec_Context r = c"
    "mget ring (rec_MasterKeyID r) = Some k" "mk_id k = rec_MasterKeyID r" "newGCM (mk_key k)"
    "length (rec_WrapNonce r) = nonceSize" "length (rec_PayloadNonce r) = nonceSize"
    "length dk = keySize" "rec_Ciphertext r \<noteq> []" "rec_WrappedDataKey r \<noteq> []"
    "unwrapDataKey A r c ring = Inr dk"
    "Open A (mk_key k) (rec_WrapNonce r) (rec_WrappedDataKey r) (aad ''data-key-wrap'' r c) = Some dk"
    "Open A dk (rec_PayloadNonce r) (rec_Ciphertext r) (aad ''credential-payload'' r c) = Some p"
  using assms
  by (auto simp: Decrypt_def unwrapDataKey_def decryptPayload_def
      split: sum.splits option.splits if_splits)

lemma Decrypt_context_mismatch:
  "rec_Context r \<noteq> c \<Longrightarrow> \<exists>e \<in> {ErrContextMismatch, ErrUnsupported}. Decrypt A r c ring = Inl e"
  by (simp add: Decrypt_def unwrapDataKey_def)

section \<open>Rewrapping\<close>

lemma Rewrap_Inr:
  assumes "Rewrap A r c ring target src = (Inr r', src')"
  obtains p dk wn where "Decrypt A r c ring = Inr p" "unwrapDataKey A r c ring = Inr dk"
    "mk_id target \<noteq> []" "newGCM (mk_key target)" "wn = take nonceSize src" "length wn = nonceSize"
    "src' = drop nonceSize src"
    "r' = r\<lparr>rec_MasterKeyID := mk_id target, rec_WrapNonce := wn,
       rec_WrappedDataKey := Seal A (mk_key target) wn dk
         (aad ''data-key-wrap'' (r\<lparr>rec_MasterKeyID := mk_id target\<rparr>) c)\<rparr>"
  using assms
  by (auto simp: Rewrap_def Decrypt_def randomBytes_def Let_def aad_def
      split: sum.splits option.splits if_splits)

lemma Rewrap_Decrypt:
  assumes A: "aead_correct A" and w: "Rewrap A r c ring target src = (Inr r', src')"
    and t: "mget ring' (mk_id target) = Some target"
  shows "Decrypt A r' c ring' = Decrypt A r c ring"
proof -
  from w obtain p dk wn where p: "Decrypt A r c ring = Inr p" and dk: "unwrapDataKey A r c ring = Inr dk"
    and tgt: "mk_id target \<noteq> []" "newGCM (mk_key target)" "length wn = nonceSize"
    and r': "r' = r\<lparr>rec_MasterKeyID := mk_id target, rec_WrapNonce := wn,
       rec_WrappedDataKey := Seal A (mk_key target) wn dk
         (aad ''data-key-wrap'' (r\<lparr>rec_MasterKeyID := mk_id target\<rparr>) c)\<rparr>"
    by (rule Rewrap_Inr)
  from p obtain k dk' where d: "ctx_validate c" "rec_Version r = FormatVersion" "rec_Algorithm r = Algorithm"
    "rec_RecordID r \<noteq> []" "rec_Context r = c" "length (rec_PayloadNonce r) = nonceSize"
    "length dk' = keySize" "rec_Ciphertext r \<noteq> []" "unwrapDataKey A r c ring = Inr dk'"
    "Open A dk' (rec_PayloadNonce r) (rec_Ciphertext r) (aad ''credential-payload'' r c) = Some p"
    by (rule Decrypt_Inr)
  with dk have "dk' = dk" by simp
  moreover have "aad ''data-key-wrap'' r' c = aad ''data-key-wrap'' (r\<lparr>rec_MasterKeyID := mk_id target\<rparr>) c"
    "aad ''credential-payload'' r' c = aad ''credential-payload'' r c"
    by (simp_all add: r' aad_def)
  ultimately have "unwrapDataKey A r' c ring' = Inr dk" "decryptPayload A r' c dk = Inr p"
    using d tgt t Open_Seal [OF A] Seal_nonempty [OF A]
    by (simp_all add: unwrapDataKey_def decryptPayload_def r' newGCM_def size_defs)
  with p show ?thesis by (simp add: Decrypt_def [of A r'])
qed

lemma RotateDataKey_Decrypt:
  assumes "aead_correct A" and "RotateDataKey A r c ring target src = (Inr r', src')"
    and "mget ring' (mk_id target) = Some target"
  shows "Decrypt A r' c ring' = Decrypt A r c ring"
  using assms Encrypt_Decrypt [OF assms(1) _ assms(3)]
  by (auto simp: RotateDataKey_def split: sum.splits)

lemma Rewrap_enough:
  assumes "Decrypt A r c ring = Inr p" and "mk_id target \<noteq> []" and "newGCM (mk_key target)"
    and "12 \<le> length src"
  shows "\<exists>r'. Rewrap A r c ring target src = (Inr r', drop 12 src)"
  using assms
  by (auto simp: Rewrap_def Decrypt_def randomBytes_def size_defs Let_def split: sum.splits)

section \<open>The envelope as an interface\<close>

text \<open>
  What the credential store relies on: a record is \<open>reencrypted\<close> into another one (by rewrapping
  its data key or by encrypting anew) only if it could be decrypted, and the new record decrypts
  to the same payload under every keyring that holds the target key. A master key is usable when
  it is named and has an AES length.
\<close>

definition usable :: "MasterKey \<Rightarrow> bool" where
  "usable k \<longleftrightarrow> mk_id k \<noteq> [] \<and> newGCM (mk_key k)"


type_synonym 'r reencrypted = "(env_error + 'r) \<times> bytes"

fun history ::
  "('m \<Rightarrow> 'r \<Rightarrow> keyring \<Rightarrow> MasterKey \<Rightarrow> bytes \<Rightarrow> 'r reencrypted) \<Rightarrow> 'r \<Rightarrow> keyring \<Rightarrow>
   ('m \<times> MasterKey \<times> keyring \<times> bytes) list \<Rightarrow> env_error + 'r \<times> keyring" where
  "history re r ring [] = Inr (r, ring)"
| "history re r ring ((mode, target, ring', source) # steps) =
     (case re mode r ring target source of
        (Inl e, _) \<Rightarrow> Inl e
      | (Inr r', _) \<Rightarrow> history re r' ring' steps)"

definition steps_ok :: "nat \<Rightarrow> ('m \<times> MasterKey \<times> keyring \<times> bytes) list \<Rightarrow> bool" where
  "steps_ok need = list_all (\<lambda>(mode, target, ring, source).
     usable target \<and> need \<le> length source \<and> mget ring (mk_id target) = Some target)"

locale reencryption =
  fixes good :: "'a \<Rightarrow> bool"
    and dec :: "'a \<Rightarrow> 'r \<Rightarrow> 'c \<Rightarrow> keyring \<Rightarrow> env_error + bytes"
    and re :: "'m \<Rightarrow> 'a \<Rightarrow> 'r \<Rightarrow> 'c \<Rightarrow> keyring \<Rightarrow> MasterKey \<Rightarrow> bytes \<Rightarrow> 'r reencrypted"
    and need :: nat
  assumes re_dec: "good A \<Longrightarrow> re m A r c ring target src = (Inr r', src') \<Longrightarrow>
      mget ring' (mk_id target) = Some target \<Longrightarrow> dec A r' c ring' = dec A r c ring"
    and re_needs_dec: "re m A r c ring target src = (Inr r', src') \<Longrightarrow> \<exists>p. dec A r c ring = Inr p"
    and re_enough: "dec A r c ring = Inr p \<Longrightarrow> usable target \<Longrightarrow> need \<le> length src \<Longrightarrow>
      \<exists>r' src'. re m A r c ring target src = (Inr r', src')"
begin

lemma history_enough:
  assumes "good A" and "dec A r c ring = Inr p" and "steps_ok need steps"
  shows "\<exists>r' ring'. history (\<lambda>m r. re m A r c) r ring steps = Inr (r', ring') \<and> dec A r' c ring' = Inr p"
  using assms(2-)
proof (induction "\<lambda>m r. re m A r c" r ring steps rule: history.induct)
  case (2 r ring m target ring1 src steps)
  from "2.prems" obtain r1 src1 where w: "re m A r c ring target src = (Inr r1, src1)"
    using re_enough [of A r c ring p target src m] by (auto simp: steps_ok_def)
  with "2.prems" have "dec A r1 c ring1 = Inr p"
    using re_dec [OF assms(1) w, of ring1] by (simp add: steps_ok_def)
  with 2 w show ?case by (simp add: steps_ok_def)
qed simp

end

text \<open>A rotation step either rewraps the data key or encrypts under a new one.\<close>

definition reencrypt ::
  "bool \<Rightarrow> aead \<Rightarrow> Record \<Rightarrow> Context \<Rightarrow> keyring \<Rightarrow> MasterKey \<Rightarrow> bytes \<Rightarrow> Record reencrypted" where
  "reencrypt full = (if full then RotateDataKey else Rewrap)"

interpretation reencrypt: reencryption aead_correct Decrypt reencrypt 72
proof
  show "Decrypt A r' c ring' = Decrypt A r c ring"
    if "aead_correct A" "reencrypt m A r c ring target src = (Inr r', src')"
      "mget ring' (mk_id target) = Some target" for m A r c ring target src r' src' ring'
    using that Rewrap_Decrypt RotateDataKey_Decrypt by (auto simp: reencrypt_def split: if_splits)
  show "\<exists>p. Decrypt A r c ring = Inr p" if "reencrypt m A r c ring target src = (Inr r', src')"
    for m A r c ring target src r' src'
    using that
    by (auto simp: reencrypt_def RotateDataKey_def elim: Rewrap_Inr split: if_splits sum.splits)
  show "\<exists>r' src'. reencrypt m A r c ring target src = (Inr r', src')"
    if "Decrypt A r c ring = Inr p" "usable target" "72 \<le> length src"
    for m A r c ring p target src
    using that Rewrap_enough [of A r c ring p target src]
    by (auto simp: reencrypt_def usable_def RotateDataKey_def Encrypt_eq elim: Decrypt_Inr)
qed

section \<open>Stored records cannot be transplanted\<close>

definition ad_utf8 :: "associatedData \<Rightarrow> bool" where
  "ad_utf8 d \<longleftrightarrow> valid_utf8 (ad_Purpose d) \<and> valid_utf8 (ad_Algorithm d) \<and> valid_utf8 (ad_RecordID d) \<and>
     valid_utf8 (ad_MasterKeyID d) \<and> valid_utf8 (ad_CredentialID d) \<and> valid_utf8 (ad_OrganizationID d)"

lemma marshal_associatedData_inj:
  assumes "marshal_associatedData d = marshal_associatedData e" and "ad_utf8 d" and "ad_utf8 e"
  shows "d = e"
proof -
  note m = assms(1) [unfolded marshal_associatedData_def json_field_def, simplified]
  note v = assms(2,3) [unfolded ad_utf8_def]
  from m v have "ad_Purpose d = ad_Purpose e" "ad_Version d = ad_Version e"
      "ad_Algorithm d = ad_Algorithm e" "ad_RecordID d = ad_RecordID e"
      "ad_MasterKeyID d = ad_MasterKeyID e" "ad_CredentialID d = ad_CredentialID e"
      "ad_OrganizationID d = ad_OrganizationID e" "ad_SchemaVersion d = ad_SchemaVersion e"
      "ad_CredentialVersion d = ad_CredentialVersion e"
    by (auto dest!: json_string_append_inj json_nat_append_inj simp: json_nat_inj
        intro: unsigned_word_eqI)
  then show ?thesis by simp
qed

definition rec_utf8 :: "Record \<Rightarrow> bool" where
  "rec_utf8 r \<longleftrightarrow> valid_utf8 (rec_RecordID r) \<and> valid_utf8 (rec_MasterKeyID r)"

definition ctx_utf8 :: "Context \<Rightarrow> bool" where
  "ctx_utf8 c \<longleftrightarrow> valid_utf8 (ctx_CredentialID c) \<and> valid_utf8 (ctx_OrganizationID c)"

lemma valid_utf8_consts [simp]:
  "valid_utf8 ''credential-payload''" "valid_utf8 ''data-key-wrap''" "valid_utf8 Algorithm"
  by (simp_all add: Algorithm_def valid_utf8_ascii)

lemma aad_inj:
  assumes "aad purpose r c = aad purpose r' c'" and "purpose \<in> {''credential-payload'', ''data-key-wrap''}"
    and "rec_utf8 r" "rec_utf8 r'" "ctx_utf8 c" "ctx_utf8 c'"
    and "rec_Algorithm r = Algorithm" "rec_Algorithm r' = Algorithm"
  shows "c = c' \<and> rec_RecordID r = rec_RecordID r'"
  using assms valid_utf8_consts
  by (auto simp: aad_def Let_def rec_utf8_def ctx_utf8_def ad_utf8_def
      dest!: marshal_associatedData_inj)

section \<open>Properties\<close>

text \<open>A context, a key and an entropy source to evaluate the model on.\<close>

definition ex_ctx :: "string \<Rightarrow> Context" where
  "ex_ctx org = \<lparr>ctx_CredentialID = ''cred'', ctx_OrganizationID = org, ctx_SchemaVersion = 1,
     ctx_CredentialVersion = 1\<rparr>"

definition ex_key :: "string \<Rightarrow> MasterKey" where
  "ex_key i = \<lparr>mk_id = i, mk_key = replicate 32 7\<rparr>"

definition ex_source :: bytes where
  "ex_source = map of_nat [0..<72]"

lemma ex_valid [simp]:
  "ctx_validate (ex_ctx ''org'')" "i \<noteq> [] \<Longrightarrow> usable (ex_key i)" "mk_id (ex_key i) = i"
  "72 \<le> length ex_source"
  by (simp_all add: ex_ctx_def ctx_validate_def usable_def ex_key_def newGCM_def ex_source_def)

text \<open>
  C5. Round trip: with a valid context, a usable key and 72 bytes of entropy, Encrypt returns a
  record (consuming exactly those bytes) and Decrypt gives back the plaintext under the same
  context and any keyring that holds the key.
\<close>

theorem encrypt_decrypt_roundtrip:
  assumes "aead_correct A" and "ctx_validate c" and "usable k" and "72 \<le> length src"
    and "mget ring (mk_id k) = Some k"
  shows "\<exists>r. Encrypt A p c k src = (Inr r, drop 72 src) \<and> Decrypt A r c ring = Inr p"
proof -
  have "\<exists>r. Encrypt A p c k src = (Inr r, drop 72 src)"
    using assms(2-4) by (simp add: Encrypt_eq usable_def)
  with Encrypt_Decrypt [OF assms(1) _ assms(5)] show ?thesis by blast
qed

theorem encrypt_decrypt_roundtrip_witness:
  "\<exists>r. Encrypt null_aead [1, 2] (ex_ctx ''org'') (ex_key ''k1'') ex_source = (Inr r, drop 72 ex_source) \<and>
     Decrypt null_aead r (ex_ctx ''org'') [(''k1'', ex_key ''k1'')] = Inr [1, 2]"
  by (rule encrypt_decrypt_roundtrip) simp_all



text \<open>
  C14. Isolation: whatever a stored record holds and whatever the cipher does, Decrypt, Rewrap
  and RotateDataKey refuse it for every context other than the one it names; nothing is read
  from the entropy source.
\<close>

theorem context_isolation:
  assumes "rec_Context r \<noteq> c" and "usable target"
  shows "\<exists>e \<in> {ErrContextMismatch, ErrUnsupported}.
    Decrypt A r c ring = Inl e \<and> Rewrap A r c ring target src = (Inl e, src) \<and>
    RotateDataKey A r c ring target src = (Inl e, src)"
  using assms
  by (auto simp: Decrypt_def Rewrap_def RotateDataKey_def unwrapDataKey_def usable_def)

theorem context_isolation_witness:
  "\<exists>e \<in> {ErrContextMismatch, ErrUnsupported}.
    Decrypt null_aead (envelope_record null_aead [1] (ex_ctx ''org'') (ex_key ''k1'') [1] [2] [3] [4])
      (ex_ctx ''other'') [(''k1'', ex_key ''k1'')] = Inl e \<and>
    Rewrap null_aead (envelope_record null_aead [1] (ex_ctx ''org'') (ex_key ''k1'') [1] [2] [3] [4])
      (ex_ctx ''other'') [(''k1'', ex_key ''k1'')] (ex_key ''k2'') ex_source = (Inl e, ex_source) \<and>
    RotateDataKey null_aead (envelope_record null_aead [1] (ex_ctx ''org'') (ex_key ''k1'') [1] [2] [3] [4])
      (ex_ctx ''other'') [(''k1'', ex_key ''k1'')] (ex_key ''k2'') ex_source = (Inl e, ex_source)"
  by (rule context_isolation) (simp_all add: envelope_record_sel ex_ctx_def)

text \<open>
  C7. No transplant: an adversary who can rewrite stored records takes the wrapped data key of
  an encrypted credential and puts it into a record of his choice, with the context of his
  choice written into it. Decrypt refuses that record for every context and record id other
  than the original ones, provided the cipher authenticates the wrapped key.
\<close>

theorem no_transplant:
  assumes enc: "Encrypt A p c k src = (Inr r, src')"
    and auth: "aead_authentic A (mk_key k) (rec_WrapNonce r) (rec_WrappedDataKey r) (aad ''data-key-wrap'' r c)"
    and ring: "mget ring (mk_id k) = Some k"
    and moved: "rec_WrappedDataKey r' = rec_WrappedDataKey r" "rec_MasterKeyID r' = rec_MasterKeyID r"
    and utf8: "rec_utf8 r" "rec_utf8 r'" "ctx_utf8 c" "ctx_utf8 c'"
    and other: "c' \<noteq> c \<or> rec_RecordID r' \<noteq> rec_RecordID r"
  shows "\<exists>e. Decrypt A r' c' ring = Inl e"
proof (cases "Decrypt A r' c' ring")
  case (Inr q)
  from enc have r: "rec_MasterKeyID r = mk_id k" "rec_Algorithm r = Algorithm"
    by (auto simp: Encrypt_Inr_iff envelope_record_sel)
  from Inr obtain k' dk where "mget ring (rec_MasterKeyID r') = Some k'" "rec_Algorithm r' = Algorithm"
    "Open A (mk_key k') (rec_WrapNonce r') (rec_WrappedDataKey r') (aad ''data-key-wrap'' r' c') = Some dk"
    by (rule Decrypt_Inr)
  with ring moved r auth have "aad ''data-key-wrap'' r' c' = aad ''data-key-wrap'' r c"
    by (auto simp: aead_authentic_def)
  with utf8 r \<open>rec_Algorithm r' = Algorithm\<close> have "c' = c \<and> rec_RecordID r' = rec_RecordID r"
    by (intro aad_inj [of "''data-key-wrap''"]) simp_all
  with other show ?thesis by simp
qed simp

text \<open>A record of one organization, for the witnesses.\<close>

definition ex_aead :: aead where
  "ex_aead = spot_aead (take 12 (drop 60 ex_source)) (aad ''data-key-wrap''
     (envelope_record null_aead [1, 2] (ex_ctx ''org'') (ex_key ''k1'') (take 16 ex_source) [] [] [])
     (ex_ctx ''org''))"

definition ex_record :: Record where
  "ex_record = envelope_record ex_aead [1, 2] (ex_ctx ''org'') (ex_key ''k1'') (take 16 ex_source)
     (take 32 (drop 16 ex_source)) (take 12 (drop 48 ex_source)) (take 12 (drop 60 ex_source))"

lemma ex_record_Encrypt:
  "Encrypt ex_aead [1, 2] (ex_ctx ''org'') (ex_key ''k1'') ex_source = (Inr ex_record, drop 72 ex_source)"
  using ex_valid(2) [of "''k1''"] by (simp add: Encrypt_eq ex_record_def usable_def)

lemma ex_record_authentic:
  "aead_authentic ex_aead (mk_key (ex_key ''k1'')) (rec_WrapNonce ex_record) (rec_WrappedDataKey ex_record)
     (aad ''data-key-wrap'' ex_record (ex_ctx ''org''))"
proof -
  have "aad ''data-key-wrap'' ex_record (ex_ctx ''org'') = aad ''data-key-wrap''
     (envelope_record null_aead [1, 2] (ex_ctx ''org'') (ex_key ''k1'') (take 16 ex_source) [] [] []) (ex_ctx ''org'')"
    by (simp add: aad_def ex_record_def envelope_record_sel)
  then show ?thesis
    unfolding ex_record_def envelope_record_wrap envelope_record_sel
    by (simp add: ex_aead_def spot_aead_authentic)
qed

theorem no_transplant_witness:
  "\<exists>e. Decrypt ex_aead (ex_record\<lparr>rec_Context := ex_ctx ''other''\<rparr>) (ex_ctx ''other'')
     [(''k1'', ex_key ''k1'')] = Inl e"
proof (rule no_transplant [OF ex_record_Encrypt ex_record_authentic])
  show "rec_utf8 ex_record" "rec_utf8 (ex_record\<lparr>rec_Context := ex_ctx ''other''\<rparr>)"
    by (simp_all add: rec_utf8_def ex_record_def envelope_record_sel valid_utf8_ascii)
  show "ctx_utf8 (ex_ctx ''org'')" "ctx_utf8 (ex_ctx ''other'')"
    by (simp_all add: ctx_utf8_def ex_ctx_def valid_utf8_ascii)
  show "ex_ctx ''other'' \<noteq> ex_ctx ''org'' \<or>
    rec_RecordID (ex_record\<lparr>rec_Context := ex_ctx ''other''\<rparr>) \<noteq> rec_RecordID ex_record"
    by (simp add: ex_ctx_def)
qed simp_all

text \<open>
  C13. A chain of key rotations, each a rewrap or a full re-encryption for its own target key
  under the keyring of its time, leaves the payload what it was: if the first record decrypts,
  every target is usable and every step has its entropy, the chain ends in a record that
  decrypts to the same payload under the last keyring.
\<close>

theorem rotation_history_preserves:
  assumes "aead_correct A" and "Decrypt A r c ring = Inr p" and "steps_ok 72 steps"
  shows "\<exists>r' ring'. history (\<lambda>full r. reencrypt full A r c) r ring steps = Inr (r', ring') \<and>
    Decrypt A r' c ring' = Inr p"
  using assms by (rule reencrypt.history_enough)

theorem rotation_history_preserves_witness:
  "\<exists>r' ring'. history (\<lambda>full r. reencrypt full ex_aead r (ex_ctx ''org'')) ex_record [(''k1'', ex_key ''k1'')]
      [(False, ex_key ''k2'', [(''k2'', ex_key ''k2'')], ex_source),
       (True, ex_key ''k3'', [(''k3'', ex_key ''k3'')], ex_source)] = Inr (r', ring') \<and>
    Decrypt ex_aead r' (ex_ctx ''org'') ring' = Inr [1, 2]"
proof (rule rotation_history_preserves)
  show "aead_correct ex_aead" by (simp add: ex_aead_def)
  then show "Decrypt ex_aead ex_record (ex_ctx ''org'') [(''k1'', ex_key ''k1'')] = Inr [1, 2]"
    by (rule Encrypt_Decrypt [OF _ ex_record_Encrypt]) simp
  show "steps_ok 72 [(False, ex_key ''k2'', [(''k2'', ex_key ''k2'')], ex_source),
      (True, ex_key ''k3'', [(''k3'', ex_key ''k3'')], ex_source)]"
    by (simp add: steps_ok_def)
qed

end
