(* ===== verification/MasterKeys.thy ===== *)
theory MasterKeys
  imports Envelope
begin

text \<open>
  The loader of the file-backed master keys, \<open>src/masterkey/loader.go\<close>. The file system is a
  parameter: what \<open>os.Open\<close> finds at a path, with the mode that \<open>Stat\<close> reports, the bytes that
  can be read and how a read after the last of them ends. SHA-256 is a parameter too, of which
  only the length of its result is used.
\<close>

section \<open>Files\<close>

datatype read_end = ReadEOF | ReadData | ReadFailed

record os_file =
  f_statable :: bool
  f_regular :: bool
  f_perm :: "32 word"
  f_content :: bytes
  f_read_error :: bool
  f_next_read :: read_end

type_synonym file_system = "string \<Rightarrow> os_file option"

datatype io_error = IoNone | IoEOF | IoUnexpectedEOF | IoFailed

text \<open>\<open>io.ReadFull\<close> into a buffer of \<open>n > 0\<close> bytes.\<close>

definition ReadFull :: "os_file \<Rightarrow> nat \<Rightarrow> bytes \<times> io_error" where
  "ReadFull f n =
     (let got = take n (f_content f) in
      (got, if length got = n then IoNone
            else if f_read_error f then IoFailed
            else if got = [] then IoEOF else IoUnexpectedEOF))"

section \<open>The loader\<close>

datatype key_error = ErrKeyFile | ErrKeyPermissions | ErrKeyLength | ErrDuplicateKey

record key_config =
  kc_CurrentPath :: string
  kc_PreviousPath :: string

record key_set =
  ks_Current :: MasterKey
  ks_Previous :: "MasterKey option"
  ks_keyring :: keyring

definition Keyring :: "key_set \<Rightarrow> keyring" where
  "Keyring s = fold (\<lambda>(i, k) out. mput i k out) (ks_keyring s) []"

definition key_id :: "(bytes \<Rightarrow> bytes) \<Rightarrow> bytes \<Rightarrow> string" where
  "key_id sha256 raw = ''sha256:'' @ hex_encode (take 16 (sha256 raw))"

definition loadOne :: "(bytes \<Rightarrow> bytes) \<Rightarrow> file_system \<Rightarrow> string \<Rightarrow> key_error + MasterKey" where
  "loadOne sha256 fs path =
     (if path = [] then Inl ErrKeyFile
      else case fs path of None \<Rightarrow> Inl ErrKeyFile
      | Some f \<Rightarrow>
        if \<not> f_statable f \<or> \<not> f_regular f then Inl ErrKeyFile
        else if and (f_perm f) 63 \<noteq> 0 then Inl ErrKeyPermissions
        else (case ReadFull f (keySize + 1) of (raw, err) \<Rightarrow>
          if err \<noteq> IoNone \<and> err \<noteq> IoUnexpectedEOF then Inl ErrKeyFile
          else if length raw \<noteq> keySize then Inl ErrKeyLength
          else (case f_next_read f of
                  ReadFailed \<Rightarrow> Inl ErrKeyFile
                | ReadData \<Rightarrow> Inl ErrKeyLength
                | ReadEOF \<Rightarrow>
                    (case NewMasterKey (key_id sha256 raw) raw of
                       Inl _ \<Rightarrow> Inl ErrKeyLength
                     | Inr key \<Rightarrow> Inr key))))"

definition Load :: "(bytes \<Rightarrow> bytes) \<Rightarrow> file_system \<Rightarrow> key_config \<Rightarrow> key_error + key_set" where
  "Load sha256 fs config =
     (case loadOne sha256 fs (kc_CurrentPath config) of Inl e \<Rightarrow> Inl e
      | Inr current \<Rightarrow>
        (let s = \<lparr>ks_Current = current, ks_Previous = None, ks_keyring = [(mk_id current, current)]\<rparr> in
         if kc_PreviousPath config = [] then Inr s
         else (case loadOne sha256 fs (kc_PreviousPath config) of Inl e \<Rightarrow> Inl e
           | Inr previous \<Rightarrow>
               if mk_id previous = mk_id current then Inl ErrDuplicateKey
               else Inr (s\<lparr>ks_Previous := Some previous,
                           ks_keyring := mput (mk_id previous) previous (ks_keyring s)\<rparr>))))"

section \<open>Well-formed key sets\<close>

text \<open>
  What the rest of the service relies on: the current key, the previous key if there is one, and
  a keyring that holds exactly these two under their own names.
\<close>

definition key_list :: "key_set \<Rightarrow> MasterKey list" where
  "key_list s = ks_Current s # (case ks_Previous s of None \<Rightarrow> [] | Some p \<Rightarrow> [p])"

definition keys_ok :: "key_set \<Rightarrow> bool" where
  "keys_ok s \<longleftrightarrow>
     distinct (map mk_id (key_list s)) \<and> list_all usable (key_list s) \<and>
     ks_keyring s = map (\<lambda>k. (mk_id k, k)) (key_list s)"

lemma Keyring_id: "wf_map (ks_keyring s) \<Longrightarrow> mget (Keyring s) = mget (ks_keyring s)"
proof -
  have "mget (fold (\<lambda>(i, k) out. mput i k out) m out) = mget out ++ mget m" if "wf_map m" for m out :: keyring
    using that
  proof (induction m arbitrary: out)
    case (Cons x m)
    then show ?case
      by (cases x) (auto simp: wf_map_Cons fun_eq_iff map_add_def split: option.splits)
  qed simp
  then show "wf_map (ks_keyring s) \<Longrightarrow> ?thesis" by (simp add: Keyring_def)
qed

lemma keys_ok_Keyring:
  "keys_ok s \<Longrightarrow> mget (Keyring s) i = find (\<lambda>k. mk_id k = i) (key_list s)"
  by (auto simp: keys_ok_def Keyring_id wf_map_def key_list_def split: option.splits)

lemma keys_ok_current [simp]: "keys_ok s \<Longrightarrow> mget (Keyring s) (mk_id (ks_Current s)) = Some (ks_Current s)"
  by (simp add: keys_ok_Keyring key_list_def)

lemma keys_ok_previous: "keys_ok s \<Longrightarrow> ks_Previous s = Some p \<Longrightarrow> mget (Keyring s) (mk_id p) = Some p"
  by (auto simp: keys_ok_Keyring key_list_def keys_ok_def)

lemma keys_ok_usable: "keys_ok s \<Longrightarrow> usable (ks_Current s)"
  by (simp add: keys_ok_def key_list_def)

text \<open>Exactly which files are accepted, and the key they give.\<close>

lemma loadOne_Inr_iff:
  "loadOne sha256 fs path = Inr k \<longleftrightarrow>
     path \<noteq> [] \<and> (\<exists>f. fs path = Some f \<and> f_statable f \<and> f_regular f \<and> and (f_perm f) 63 = 0 \<and>
       \<not> f_read_error f \<and> length (f_content f) = keySize \<and> f_next_read f = ReadEOF \<and>
       k = \<lparr>mk_id = key_id sha256 (f_content f), mk_key = f_content f\<rparr>)"
  by (auto simp: loadOne_def ReadFull_def NewMasterKey_def keySize_def key_id_def Let_def
      split: option.splits if_splits read_end.splits prod.splits)

lemma loadOne_usable: "loadOne sha256 fs path = Inr k \<Longrightarrow> usable k"
  by (auto simp: loadOne_Inr_iff usable_def key_id_def newGCM_def keySize_def)

lemma Load_keys_ok: "Load sha256 fs config = Inr s \<Longrightarrow> keys_ok s"
  by (auto simp: Load_def keys_ok_def key_list_def Let_def dest: loadOne_usable
      split: sum.splits if_splits)

section \<open>Properties\<close>


end
