(* ===== verification/Credential_Types.thy ===== *)
theory Credential_Types
  imports GoTime MasterKeys
begin

text \<open>
  The data of package \<open>credential\<close> (\<open>manager.go\<close>, \<open>resolution.go\<close>, \<open>rotation.go\<close>,
  \<open>recovery.go\<close>) and its validators. Sentinel errors are the constructors of \<open>cred_error\<close>; the
  fields of a Go struct carry a prefix. Digests are byte lists, SHA-256 is a parameter.
\<close>

section \<open>Errors\<close>

datatype cred_error =
    ErrInvalidInput | ErrNotFound | ErrVersionConflict | ErrCredentialNotActive
  | ErrIdempotencyConflict | ErrEncryption
  | ErrUnauthorized | ErrBindingNotFound | ErrBindingConflict | ErrBindingNotActive
  | ErrBindingExpired | ErrBindingExhausted | ErrAttemptConflict | ErrResolution
  | ErrRotationUnavailable | ErrRotationConflict | ErrRotationNotReady
  | ErrRecoveryValidation | ErrBackupConflict
  | ErrStorage

section \<open>Credentials\<close>

definition maxNameLength :: nat where "maxNameLength = 255"
definition maxCredentialType :: nat where "maxCredentialType = 128"
definition maxOrganizationID :: nat where "maxOrganizationID = 255"
definition maxInputFields :: nat where "maxInputFields = 128"
definition maxFieldNameLength :: nat where "maxFieldNameLength = 128"
definition maxPlaintextPayload :: nat where "maxPlaintextPayload = 2 ^ 20"

datatype cred_state = StateActive | StateRetired

record Metadata =
  md_ID :: string
  md_OrganizationID :: string
  md_Name :: string
  md_CredentialType :: string
  md_SchemaVersion :: "32 word"
  md_Version :: "64 word"
  md_State :: cred_state
  md_SecretFields :: "string list"
  md_CreatedAt :: time
  md_UpdatedAt :: time

type_synonym inputs = "(string, string) gomap"

record CreateRequest =
  cr_OrganizationID :: string
  cr_Name :: string
  cr_CredentialType :: string
  cr_SchemaVersion :: "32 word"
  cr_Inputs :: inputs
  cr_IdempotencyKey :: string

record ReplaceInputsRequest =
  ri_CredentialID :: string
  ri_OrganizationID :: string
  ri_ExpectedVersion :: "64 word"
  ri_Inputs :: inputs

record UpdateMetadataRequest =
  um_CredentialID :: string
  um_OrganizationID :: string
  um_ExpectedVersion :: "64 word"
  um_Name :: string

record RetireRequest =
  rt_CredentialID :: string
  rt_OrganizationID :: string
  rt_ExpectedVersion :: "64 word"

definition validName :: "string \<Rightarrow> bool" where
  "validName name \<longleftrightarrow> name \<noteq> [] \<and> length name \<le> maxNameLength \<and> TrimSpace name = name"

definition validateCreate :: "CreateRequest \<Rightarrow> bool" where
  "validateCreate r \<longleftrightarrow>
     \<not> (cr_OrganizationID r = [] \<or> length (cr_OrganizationID r) > maxOrganizationID \<or>
        \<not> validName (cr_Name r) \<or> cr_CredentialType r = [] \<or>
        length (cr_CredentialType r) > maxCredentialType \<or> cr_SchemaVersion r = 0 \<or>
        cr_IdempotencyKey r = [] \<or> length (cr_IdempotencyKey r) > 255)"

definition validateInputs :: "inputs \<Rightarrow> bool" where
  "validateInputs inputs \<longleftrightarrow>
     \<not> (length inputs = 0 \<or> length inputs > maxInputFields) \<and>
     list_all (\<lambda>(name, _). \<not> (name = [] \<or> length name > maxFieldNameLength \<or> TrimSpace name \<noteq> name)) inputs"

definition envelopeContext :: "Metadata \<Rightarrow> Context" where
  "envelopeContext m =
     \<lparr>ctx_CredentialID = md_ID m, ctx_OrganizationID = md_OrganizationID m,
      ctx_SchemaVersion = md_SchemaVersion m, ctx_CredentialVersion = md_Version m\<rparr>"

definition canonical_request :: "CreateRequest \<Rightarrow> string" where
  "canonical_request r =
     ''{'' @ json_field ''organization_id'' (json_string (cr_OrganizationID r))
     @ '','' @ json_field ''name'' (json_string (cr_Name r))
     @ '','' @ json_field ''credential_type'' (json_string (cr_CredentialType r))
     @ '','' @ json_field ''schema_version'' (json_nat (unat (cr_SchemaVersion r)))
     @ '','' @ json_field ''inputs'' (marshal_inputs (cr_Inputs r))
     @ ''}''"

definition requestDigest :: "(bytes \<Rightarrow> bytes) \<Rightarrow> CreateRequest \<Rightarrow> bytes" where
  "requestDigest sha256 r = sha256 (bytes_of (canonical_request r))"

definition uuid_string :: "bytes \<Rightarrow> string" where
  "uuid_string v =
     (let e = hex_encode v in
      take 8 e @ ''-'' @ take 4 (drop 8 e) @ ''-'' @ take 4 (drop 12 e) @ ''-'' @
      take 4 (drop 16 e) @ ''-'' @ take 12 (drop 20 e))"

definition newUUID :: "bytes \<Rightarrow> string option \<times> bytes" where
  "newUUID source =
     (case randomBytes source 16 of
        (None, s) \<Rightarrow> (None, s)
      | (Some v, s) \<Rightarrow>
          (let v1 = v[6 := or (and (v ! 6) 0x0f) 0x40];
               v2 = v1[8 := or (and (v1 ! 8) 0x3f) 0x80]
           in (Some (uuid_string v2), s)))"

section \<open>Workloads and bindings\<close>

definition RoleScheduler :: string where "RoleScheduler = ''praetor-scheduler''"
definition RoleExecutor :: string where "RoleExecutor = ''praetor-executor''"
definition RoleSecretsOperator :: string where "RoleSecretsOperator = ''praetor-secrets-operator''"
definition RoleSecretsAuditor :: string where "RoleSecretsAuditor = ''praetor-secrets-auditor''"
definition RoleAPI :: string where "RoleAPI = ''praetor-api''"

lemmas role_defs = RoleScheduler_def RoleExecutor_def RoleSecretsOperator_def RoleSecretsAuditor_def
  RoleAPI_def

record WorkloadIdentity =
  wi_Role :: string
  wi_Subject :: string

datatype binding_state =
  BindingPending | BindingActive | BindingCanceled | BindingExpired | BindingExhausted

record Binding =
  b_RunID :: string
  b_DispatchID :: string
  b_OrganizationID :: string
  b_CredentialID :: string
  b_CredentialVersion :: "64 word"
  b_ExecutorIdentity :: string
  b_State :: binding_state
  b_NotBefore :: time
  b_ExpiresAt :: time
  b_MaxResolutions :: "32 word"
  b_ResolutionCount :: "32 word"
  b_CreatedAt :: time
  b_UpdatedAt :: time
  b_CancelReason :: string

record RegisterBindingRequest =
  rb_RunID :: string
  rb_DispatchID :: string
  rb_OrganizationID :: string
  rb_CredentialID :: string
  rb_ExecutorIdentity :: string
  rb_NotBefore :: zoned
  rb_ExpiresAt :: zoned
  rb_MaxResolutions :: "32 word"
  rb_IdempotencyKey :: string

record ResolveRequest =
  rq_RunID :: string
  rq_AttemptID :: string
  rq_RequestedAt :: time

record CancelBindingRequest =
  cb_RunID :: string
  cb_DispatchID :: string
  cb_Reason :: string

record ResolvedFile =
  rf_Name :: string
  rf_Mode :: string
  rf_Content :: string

record ResolvedCredential =
  rc_RunID :: string
  rc_AttemptID :: string
  rc_ExpiresAt :: time
  rc_Environment :: inputs
  rc_Files :: "ResolvedFile list"

record InjectorResult =
  ir_Environment :: inputs
  ir_Files :: "ResolvedFile list"

record ResolutionPolicy =
  rp_MaxBindingLifetime :: duration
  rp_MaxFutureStart :: duration
  rp_MaxResolutions :: "32 word"
  rp_AttemptRetryWindow :: duration
  rp_MaxResponseBytes :: int

definition DefaultResolutionPolicy :: ResolutionPolicy where
  "DefaultResolutionPolicy =
     \<lparr>rp_MaxBindingLifetime = 24 * hour, rp_MaxFutureStart = 15 * minute, rp_MaxResolutions = 3,
      rp_AttemptRetryWindow = 5 * minute, rp_MaxResponseBytes = 2 ^ 20\<rparr>"

record bindingRegistration =
  br_request :: RegisterBindingRequest
  br_digest :: bytes
  br_now :: time

record resolutionClaim =
  rcl_runID :: string
  rcl_attemptID :: string
  rcl_executorIdentity :: string
  rcl_digest :: bytes
  rcl_now :: time
  rcl_retryWindow :: duration

record boundRecord =
  bd_record :: Record
  bd_credentialType :: string
  bd_schemaVersion :: "32 word"

definition isScheduler :: "WorkloadIdentity \<Rightarrow> bool" where
  "isScheduler i \<longleftrightarrow> wi_Role i = RoleScheduler \<and> wi_Subject i = RoleScheduler"

text \<open>\<open>unicode.IsLower\<close> and \<open>unicode.IsDigit\<close> on ASCII; beyond it, the Unicode tables are a parameter.\<close>

definition lower_or_digit :: "(nat \<Rightarrow> bool) \<Rightarrow> nat \<Rightarrow> bool" where
  "lower_or_digit uni r =
     (if r < 0x80 then 97 \<le> r \<and> r \<le> 122 \<or> 48 \<le> r \<and> r \<le> 57 else uni r)"

definition validReason :: "(nat \<Rightarrow> bool) \<Rightarrow> string \<Rightarrow> bool" where
  "validReason uni value \<longleftrightarrow>
     \<not> (value = [] \<or> length value > 64) \<and>
     list_all (\<lambda>r. lower_or_digit uni r \<or> r = 95 \<or> r = 45) (runes value)"

definition validExecutorIdentity :: "string \<Rightarrow> bool" where
  "validExecutorIdentity value \<longleftrightarrow>
     HasPrefix value (RoleExecutor @ '':'') \<and> length value > length RoleExecutor + 1 \<and>
     length value \<le> 255 \<and> \<not> ContainsAny value (map char_of [32, 9, 13, 10, 0 :: nat])"

text \<open>
  The loop of \<open>validUUID\<close> visits runes with their byte index. Outside the four dashes only ASCII
  passes, so the first rune of more than one byte ends it: it is the loop over the bytes.
\<close>

definition lower_hex :: "char \<Rightarrow> bool" where
  "lower_hex c \<longleftrightarrow> 48 \<le> code c \<and> code c \<le> (57 :: nat) \<or> 97 \<le> code c \<and> code c \<le> (102 :: nat)"

definition validUUID :: "string \<Rightarrow> bool" where
  "validUUID value \<longleftrightarrow>
     length value = 36 \<and> value ! 8 = CHR ''-'' \<and> value ! 13 = CHR ''-'' \<and> value ! 18 = CHR ''-'' \<and>
     value ! 23 = CHR ''-'' \<and>
     list_all (\<lambda>(i, c). i = 8 \<or> i = 13 \<or> i = 18 \<or> i = 23 \<or> lower_hex c) (enumerate 0 value)"

definition validBindingRequest :: "RegisterBindingRequest \<Rightarrow> time \<Rightarrow> ResolutionPolicy \<Rightarrow> bool" where
  "validBindingRequest r now policy \<longleftrightarrow>
     validUUID (rb_RunID r) \<and> validUUID (rb_DispatchID r) \<and> validUUID (rb_CredentialID r) \<and>
     rb_OrganizationID r \<noteq> [] \<and> validExecutorIdentity (rb_ExecutorIdentity r) \<and>
     \<not> z_instant (rb_NotBefore r) < now - minute \<and>
     \<not> z_instant (rb_NotBefore r) > now + rp_MaxFutureStart policy \<and>
     z_instant (rb_ExpiresAt r) > now \<and> z_instant (rb_ExpiresAt r) > z_instant (rb_NotBefore r) \<and>
     time_sub (z_instant (rb_ExpiresAt r)) (z_instant (rb_NotBefore r)) \<le> rp_MaxBindingLifetime policy \<and>
     rb_MaxResolutions r > 0 \<and> rb_MaxResolutions r \<le> rp_MaxResolutions policy \<and>
     rb_IdempotencyKey r \<noteq> [] \<and> length (rb_IdempotencyKey r) \<le> 255"

definition bindingDigest :: "(bytes \<Rightarrow> bytes) \<Rightarrow> RegisterBindingRequest \<Rightarrow> bytes option" where
  "bindingDigest sha256 r =
     (case (marshal_time (rb_NotBefore r), marshal_time (rb_ExpiresAt r)) of
        (Some notBefore, Some expiresAt) \<Rightarrow> Some (sha256 (bytes_of
          (''{'' @ json_field ''RunID'' (json_string (rb_RunID r))
           @ '','' @ json_field ''DispatchID'' (json_string (rb_DispatchID r))
           @ '','' @ json_field ''OrganizationID'' (json_string (rb_OrganizationID r))
           @ '','' @ json_field ''CredentialID'' (json_string (rb_CredentialID r))
           @ '','' @ json_field ''ExecutorIdentity'' (json_string (rb_ExecutorIdentity r))
           @ '','' @ json_field ''NotBefore'' notBefore
           @ '','' @ json_field ''ExpiresAt'' expiresAt
           @ '','' @ json_field ''MaxResolutions'' (json_nat (unat (rb_MaxResolutions r)))
           @ '','' @ json_field ''IdempotencyKey'' (json_string (rb_IdempotencyKey r))
           @ ''}'')))
      | _ \<Rightarrow> None)"

definition attemptDigest :: "(bytes \<Rightarrow> bytes) \<Rightarrow> ResolveRequest \<Rightarrow> bytes" where
  "attemptDigest sha256 r =
     sha256 (bytes_of (rq_RunID r @ [nul] @ rq_AttemptID r @ [nul] @ rfc3339 (utc (rq_RequestedAt r))))"

definition validEnvironmentName :: "string \<Rightarrow> bool" where
  "validEnvironmentName name \<longleftrightarrow>
     \<not> (name = [] \<or> length name > 128 \<or> code (name ! 0) < (65 :: nat) \<or> code (name ! 0) > (90 :: nat)) \<and>
     list_all (\<lambda>r. 65 \<le> r \<and> r \<le> 90 \<or> 48 \<le> r \<and> r \<le> 57 \<or> r = 95) (runes name)"

fun valid_files :: "ResolvedFile list \<Rightarrow> string list \<Rightarrow> int \<Rightarrow> int option" where
  "valid_files [] names tot = Some tot"
| "valid_files (f # fs) names tot =
     (if \<not> validEnvironmentName (rf_Name f) \<or> rf_Mode f \<noteq> ''0600'' \<or> Contains (rf_Name f) ''..'' then None
      else if rf_Name f \<in> set names then None
      else valid_files fs (rf_Name f # names)
             (tot + int (length (rf_Name f)) + int (length (rf_Content f))))"

definition validInjectorResult :: "InjectorResult \<Rightarrow> int \<Rightarrow> bool" where
  "validInjectorResult result limit \<longleftrightarrow>
     list_all (\<lambda>(name, value). validEnvironmentName name) (ir_Environment result) \<and>
     (case valid_files (ir_Files result) []
             (sum_list (map (\<lambda>(name, value). int (length name) + int (length value)) (ir_Environment result))) of
        None \<Rightarrow> False
      | Some tot \<Rightarrow> tot \<le> limit)"

section \<open>Rotation and recovery\<close>

datatype rotation_state = RotationPending | RotationRunning | RotationReady | RotationFinalized

record Rotation =
  ro_ID :: string
  ro_SourceKeyID :: string
  ro_TargetKeyID :: string
  ro_State :: rotation_state
  ro_TotalRecords :: int
  ro_ProcessedRecords :: int
  ro_CreatedAt :: time
  ro_UpdatedAt :: time
  ro_FinalizedAt :: time

record CredentialRotationRequest =
  crr_OrganizationID :: string
  crr_CredentialID :: string
  crr_Version :: "64 word"

record KeyStatus =
  kst_CurrentKeyID :: string
  kst_PreviousKeyID :: string
  kst_RecordCounts :: "(string, int) gomap"
  kst_ActiveRotation :: "Rotation option"
  kst_DatabaseReferencesCleared :: bool
  kst_RetainedBackupReferences :: "(string, int) gomap"
  kst_BackupReferencesCleared :: bool

record rotationRecord =
  rr_metadata :: Metadata
  rr_version :: "64 word"
  rr_record :: Record

record RecoveryValidation =
  rv_ValidatedRecords :: int
  rv_TotalRecords :: int
  rv_KeyCounts :: "(string, int) gomap"
  rv_MetadataSHA256 :: string
  rv_CompletedAt :: time

record BackupSet =
  bk_ID :: string
  bk_ArtifactSHA256 :: string
  bk_KeyIDs :: "string list"
  bk_CreatedAt :: zoned
  bk_RetainUntil :: zoned
  bk_ExpiredAt :: zoned

text \<open>The loop over the key ids: none empty, none too long, none seen before.\<close>

fun valid_key_ids :: "string list \<Rightarrow> string list \<Rightarrow> bool" where
  "valid_key_ids [] seen = True"
| "valid_key_ids (i # is) seen =
     (if i = [] \<or> length i > 255 \<or> i \<in> set seen then False else valid_key_ids is (i # seen))"

definition validBackup :: "BackupSet \<Rightarrow> bool" where
  "validBackup b \<longleftrightarrow>
     \<not> (bk_ID b = [] \<or> length (bk_ID b) > 255 \<or> ContainsAny (bk_ID b) (map char_of [0, 13, 10 :: nat]) \<or>
        length (bk_ArtifactSHA256 b) \<noteq> 64 \<or> z_instant (bk_CreatedAt b) = zero_time \<or>
        z_instant (bk_RetainUntil b) < z_instant (bk_CreatedAt b) \<or> length (bk_KeyIDs b) = 0 \<or> length (bk_KeyIDs b) > 2) \<and>
     hex_decode (bk_ArtifactSHA256 b) \<noteq> None \<and> valid_key_ids (bk_KeyIDs b) []"

section \<open>Facts about the validators\<close>

lemma validEnvironmentName_bytes:
  "validEnvironmentName name \<longleftrightarrow>
     name \<noteq> [] \<and> length name \<le> 128 \<and> 65 \<le> code (name ! 0) \<and> code (name ! 0) \<le> (90 :: nat) \<and>
     list_all (\<lambda>c. 65 \<le> code c \<and> code c \<le> (90 :: nat) \<or> 48 \<le> code c \<and> code c \<le> (57 :: nat) \<or> code c = (95 :: nat)) name"
  unfolding validEnvironmentName_def by (subst runes_ascii) auto

lemma validEnvironmentName_no_dots: "validEnvironmentName name \<Longrightarrow> \<not> Contains name ''..''"
proof -
  have "list_all (\<lambda>c. c \<noteq> CHR ''.'') s \<Longrightarrow> \<not> Contains s ''..''" for s
    by (induction s) (auto simp: HasPrefix_def)
  moreover assume "validEnvironmentName name"
  ultimately show ?thesis
    by (force simp: validEnvironmentName_bytes list_all_iff)
qed

lemma valid_files_Some:
  "valid_files fs names tot = Some t \<longleftrightarrow>
     list_all (\<lambda>f. validEnvironmentName (rf_Name f) \<and> rf_Mode f = ''0600'') fs \<and>
     distinct (map rf_Name fs) \<and> set (map rf_Name fs) \<inter> set names = {} \<and>
     t = tot + (\<Sum>f\<leftarrow>fs. int (length (rf_Name f)) + int (length (rf_Content f)))"
  by (induction fs names tot rule: valid_files.induct)
    (auto simp: validEnvironmentName_no_dots split: if_splits)

lemma valid_files_eq:
  "valid_files fs [] tot =
     (if list_all (\<lambda>f. validEnvironmentName (rf_Name f) \<and> rf_Mode f = ''0600'') fs \<and> distinct (map rf_Name fs)
      then Some (tot + (\<Sum>f\<leftarrow>fs. int (length (rf_Name f)) + int (length (rf_Content f)))) else None)"
  by (simp add: valid_files_Some) (auto simp: valid_files_Some simp flip: not_Some_eq)

lemma validInjectorResult_iff:
  "validInjectorResult r limit \<longleftrightarrow>
     list_all (\<lambda>(name, value). validEnvironmentName name) (ir_Environment r) \<and>
     list_all (\<lambda>f. validEnvironmentName (rf_Name f) \<and> rf_Mode f = ''0600'') (ir_Files r) \<and>
     distinct (map rf_Name (ir_Files r)) \<and>
     (\<Sum>(name, value)\<leftarrow>ir_Environment r. int (length name) + int (length value)) +
     (\<Sum>f\<leftarrow>ir_Files r. int (length (rf_Name f)) + int (length (rf_Content f))) \<le> limit"
  by (auto simp: validInjectorResult_def valid_files_eq)

lemma valid_key_ids_iff:
  "valid_key_ids is seen \<longleftrightarrow>
     list_all (\<lambda>i. i \<noteq> [] \<and> length i \<le> 255) is \<and> distinct is \<and> set is \<inter> set seen = {}"
  by (induction "is" seen rule: valid_key_ids.induct) auto

lemma envelopeContext_inj:
  "envelopeContext m = envelopeContext n \<longleftrightarrow>
     md_ID m = md_ID n \<and> md_OrganizationID m = md_OrganizationID n \<and>
     md_SchemaVersion m = md_SchemaVersion n \<and> md_Version m = md_Version n"
  by (simp add: envelopeContext_def)

lemma lower_hex_digit: "n < 16 \<Longrightarrow> lower_hex (hex_digit n)"
  by (auto simp: lower_hex_def hex_digit_def)

lemma hex_encode_lower: "list_all lower_hex (hex_encode b)"
proof (induction b)
  case (Cons a b)
  have "unat a div 16 < 16" using byte_less_256 [of a] by linarith
  with Cons show ?case by (simp add: hex_encode_def hex_byte_def lower_hex_digit)
qed (simp add: hex_encode_def)

lemma validUUID_parts:
  assumes "list_all lower_hex (a @ b @ c @ d @ e)"
    and "length a = 8" "length b = 4" "length c = 4" "length d = 4" "length e = 12"
  shows "validUUID (a @ ''-'' @ b @ ''-'' @ c @ ''-'' @ d @ ''-'' @ e)"
proof -
  have "lower_hex x" if "x \<in> set a \<union> set b \<union> set c \<union> set d \<union> set e" for x
    using that assms(1) by (auto simp: list_all_iff)
  with assms(2-) show ?thesis
    by (auto simp: validUUID_def nth_append nth_Cons' list_all_iff in_set_enumerate_eq split: if_splits)
qed

lemma newUUID_length: "16 \<le> length source \<Longrightarrow> \<exists>u. newUUID source = (Some u, drop 16 source)"
  by (simp add: newUUID_def randomBytes_def Let_def)

lemma uuid_string_valid:
  assumes "length v = 16"
  shows "validUUID (uuid_string v)"
proof -
  have "list_all lower_hex (take 8 e @ take 4 (drop 8 e) @ take 4 (drop 12 e) @
      take 4 (drop 16 e) @ take 12 (drop 20 e))" if "e = hex_encode v" for e
    using hex_encode_lower [of v] that by (auto simp: list_all_iff dest: in_set_takeD in_set_dropD)
  with assms show ?thesis
    unfolding uuid_string_def Let_def by (intro validUUID_parts) auto
qed

lemma newUUID_valid: "newUUID source = (Some u, source') \<Longrightarrow> validUUID u"
  by (auto simp: newUUID_def randomBytes_def Let_def uuid_string_valid split: if_splits)

end
