(* ===== verification/Builtin.thy ===== *)
theory Builtin
  imports Credential_Types
begin

text \<open>
  The reviewed registry of \<open>src/builtin/registry.go\<close>: the schema of the one shipped credential
  type and its injector. The contract that \<open>credential.Manager\<close> has with any registry
  (\<open>SchemaRegistry\<close> and \<open>InjectorRegistry\<close> of \<open>src/credential\<close>) is the locale \<open>registry\<close>, and
  the shipped registry is shown to fulfil it.
\<close>

section \<open>The registry\<close>

type_synonym schemas = "string \<Rightarrow> 32 word \<Rightarrow> inputs \<Rightarrow> string list option"
type_synonym injector = "string \<Rightarrow> 32 word \<Rightarrow> inputs \<Rightarrow> InjectorResult option"

text \<open>\<open>m[k]\<close> on a map of strings: the empty string for a missing key.\<close>

definition mstr :: "inputs \<Rightarrow> string \<Rightarrow> string" where
  "mstr m k = (case mget m k of None \<Rightarrow> [] | Some v \<Rightarrow> v)"

definition allowed :: "(string, bool) gomap" where
  "allowed = [(''username'', False), (''password'', True), (''ssh_private_key'', True),
     (''become_method'', False), (''become_password'', True)]"

definition Validate :: schemas where
  "Validate credentialType schemaVersion inputs =
     (if credentialType \<noteq> ''machine'' \<or> schemaVersion \<noteq> 1 then None
      else if list_ex (\<lambda>(name, value). mget allowed name = None \<or> value = []) inputs then None
      else if mstr inputs ''username'' = [] \<or>
              (mstr inputs ''password'' = [] \<and> mstr inputs ''ssh_private_key'' = []) then None
      else Some (sort (map fst (filter (\<lambda>(name, secret). secret \<and> mstr inputs name \<noteq> []) allowed))))"

definition secret_file :: "string \<Rightarrow> string \<Rightarrow> ResolvedFile list" where
  "secret_file name value =
     (if value \<noteq> [] then [\<lparr>rf_Name = name, rf_Mode = ''0600'', rf_Content = value\<rparr>] else [])"

definition Render :: injector where
  "Render credentialType schemaVersion inputs =
     (case Validate credentialType schemaVersion inputs of None \<Rightarrow> None
      | Some _ \<Rightarrow>
        (let env0 = [(''ANSIBLE_REMOTE_USER'', mstr inputs ''username'')];
             method = mstr inputs ''become_method'';
             env1 = (if method \<noteq> [] then mput ''ANSIBLE_BECOME_METHOD'' method env0 else env0)
         in Some \<lparr>ir_Environment = env1,
              ir_Files = secret_file ''ANSIBLE_PRIVATE_KEY_FILE'' (mstr inputs ''ssh_private_key'')
                @ secret_file ''ANSIBLE_PASSWORD_FILE'' (mstr inputs ''password'')
                @ secret_file ''ANSIBLE_BECOME_PASSWORD_FILE'' (mstr inputs ''become_password'')\<rparr>))"

section \<open>The contract of a registry\<close>

definition input_size :: "inputs \<Rightarrow> int" where
  "input_size m = (\<Sum>(k, v)\<leftarrow>m. int (length v))"

text \<open>
  Validation yields distinct, populated, non-empty field names in sorted order; neither function
  depends on the iteration order of the map; what validates can be rendered, and what is rendered
  is an acceptable injector result whose size exceeds that of the inputs by at most \<open>overhead\<close>.
\<close>

locale registry =
  fixes validate :: schemas
    and render :: injector
    and overhead :: int
  assumes fields: "wf_map m \<Longrightarrow> validate t v m = Some fs \<Longrightarrow>
      distinct fs \<and> sorted fs \<and> [] \<notin> set fs \<and> set fs \<subseteq> dom (mget m)"
    and validate_order: "wf_map m \<Longrightarrow> wf_map n \<Longrightarrow> mget m = mget n \<Longrightarrow> validate t v m = validate t v n"
    and render_order: "wf_map m \<Longrightarrow> wf_map n \<Longrightarrow> mget m = mget n \<Longrightarrow> render t v m = render t v n"
    and render_defined: "validate t v m = Some fs \<Longrightarrow> \<exists>r. render t v m = Some r"
    and render_valid: "wf_map m \<Longrightarrow> render t v m = Some r \<Longrightarrow>
      wf_map (ir_Environment r) \<and> validInjectorResult r (input_size m + overhead)"
begin

lemma render_after_reencode:
  assumes "wf_map m" and "validate t v m = Some fs"
    and "list_all (\<lambda>(k, w). valid_utf8 k \<and> valid_utf8 w) m"
  shows "\<exists>n r. unmarshal_inputs (marshal_inputs m) = Some n \<and> render t v n = Some r \<and>
    render t v m = Some r \<and> validInjectorResult r (input_size m + overhead)"
proof -
  let ?n = "sort_key fst m"
  have n: "unmarshal_inputs (marshal_inputs m) = Some ?n"
    using assms(1,3) by (intro unmarshal_marshal) (auto simp: list_all_iff)
  have "wf_map ?n" "mget ?n = mget m"
    using assms(1) by (simp_all add: wf_map_def distinct_sort_key sort_key_map_of)
  moreover obtain r where "render t v m = Some r"
    using render_defined [OF assms(2)] by blast
  ultimately show ?thesis
    using n assms(1) render_order render_valid by metis
qed

end

section \<open>The shipped registry fulfils it\<close>

lemma list_ex_mget: "wf_map m \<Longrightarrow> list_ex P m \<longleftrightarrow> (\<exists>k v. mget m k = Some v \<and> P (k, v))"
  unfolding list_ex_iff using in_set_mget by fastforce

lemma Validate_order:
  "wf_map m \<Longrightarrow> wf_map n \<Longrightarrow> mget m = mget n \<Longrightarrow> Validate t v m = Validate t v n"
  by (simp only: Validate_def list_ex_mget mstr_def)

lemma mstr_Some: "mstr m k \<noteq> [] \<Longrightarrow> mget m k = Some (mstr m k)"
  by (auto simp: mstr_def split: option.splits)

lemma Validate_fields:
  assumes "Validate t v m = Some fs"
  shows "distinct fs" "sorted fs" "[] \<notin> set fs" "set fs \<subseteq> dom (mget m)"
proof -
  have fs: "fs = sort (map fst (filter (\<lambda>(name, secret). secret \<and> mstr m name \<noteq> []) allowed))"
    using assms by (auto simp: Validate_def split: if_splits)
  show "distinct fs"
    unfolding fs distinct_sort by (rule distinct_map_filter) (simp add: allowed_def)
  show "sorted fs" by (simp add: fs)
  show "[] \<notin> set fs" by (auto simp: fs allowed_def)
  show "set fs \<subseteq> dom (mget m)" by (auto simp: fs dest: mstr_Some)
qed

lemma validEnvironmentName_consts [simp]:
  "validEnvironmentName ''ANSIBLE_REMOTE_USER''" "validEnvironmentName ''ANSIBLE_BECOME_METHOD''"
  "validEnvironmentName ''ANSIBLE_PRIVATE_KEY_FILE''" "validEnvironmentName ''ANSIBLE_PASSWORD_FILE''"
  "validEnvironmentName ''ANSIBLE_BECOME_PASSWORD_FILE''"
  by (simp_all add: validEnvironmentName_bytes)

lemma sum_list_filter_le:
  "\<forall>x \<in> set xs. 0 \<le> (f x :: int) \<Longrightarrow> sum_list (map f (filter P xs)) \<le> sum_list (map f xs)"
  by (induction xs) auto

lemma input_size_mstr:
  assumes "wf_map m" and "distinct ks"
  shows "(\<Sum>k\<leftarrow>ks. int (length (mstr m k))) \<le> input_size m"
proof -
  have "(\<Sum>k\<leftarrow>ks. int (length (mstr m k))) = (\<Sum>k\<in>set ks. int (length (mstr m k)))"
    using assms(2) by (simp add: sum_list_distinct_conv_sum_set)
  also have "\<dots> = (\<Sum>k\<in>set ks \<inter> fst ` set m. int (length (mstr m k)))"
    by (intro sum.mono_neutral_right) (force simp: mstr_def dest: mget_in_set split: option.splits)+
  also have "\<dots> \<le> (\<Sum>k\<in>fst ` set m. int (length (mstr m k)))"
    by (intro sum_mono2) auto
  also have "\<dots> = (\<Sum>(k, v)\<leftarrow>m. int (length v))"
    using assms(1)
  proof (induction m)
    case (Cons x m)
    obtain k v where x: "x = (k, v)" by (cases x)
    with Cons have "k \<notin> fst ` set m" by (auto simp: wf_map_def)
    moreover from this have "(\<Sum>j\<in>fst ` set m. int (length (mstr (x # m) j))) =
        (\<Sum>j\<in>fst ` set m. int (length (mstr m j)))"
      by (intro sum.cong) (auto simp: mstr_def x)
    ultimately show ?case
      using Cons by (simp add: x wf_map_Cons) (simp add: mstr_def)
  qed simp
  finally show ?thesis by (simp add: input_size_def)
qed

lemma secret_file_simps [simp]:
  "list_all P (secret_file n w) \<longleftrightarrow> w = [] \<or> P \<lparr>rf_Name = n, rf_Mode = ''0600'', rf_Content = w\<rparr>"
  "map rf_Name (secret_file n w) = (if w = [] then [] else [n])"
  "rf_Name ` set (secret_file n w) = (if w = [] then {} else {n})"
  "map (\<lambda>f. int (length (rf_Name f)) + int (length (rf_Content f))) (secret_file n w) =
     (if w = [] then [] else [int (length n) + int (length w)])"
  by (simp_all add: secret_file_def)

lemma Render_valid:
  assumes "wf_map m" and "Render t v m = Some r"
  shows "wf_map (ir_Environment r) \<and> validInjectorResult r (input_size m + 128)"
proof -
  have "(\<Sum>k\<leftarrow>[''username'', ''become_method'', ''ssh_private_key'', ''password'', ''become_password''].
      int (length (mstr m k))) \<le> input_size m"
    using assms(1) by (rule input_size_mstr) simp
  with assms(2) show ?thesis
    by (auto simp: Render_def validInjectorResult_iff Let_def wf_map_def
        split: option.splits if_splits)
qed

interpretation builtin: registry Validate Render 128
proof
  show "distinct fs \<and> sorted fs \<and> [] \<notin> set fs \<and> set fs \<subseteq> dom (mget m)"
    if "wf_map m" "Validate t v m = Some fs" for m t v fs
    using Validate_fields [OF that(2)] by blast
  show "Validate t v m = Validate t v n" if "wf_map m" "wf_map n" "mget m = mget n" for m n t v
    using that by (rule Validate_order)
  show "Render t v m = Render t v n" if "wf_map m" "wf_map n" "mget m = mget n" for m n t v
    using Validate_order [OF that, of t v] that(3) by (simp only: Render_def mstr_def)
  show "\<exists>r. Render t v m = Some r" if "Validate t v m = Some fs" for t v m fs
    using that by (simp add: Render_def Let_def)
  show "wf_map (ir_Environment r) \<and> validInjectorResult r (input_size m + 128)"
    if "wf_map m" "Render t v m = Some r" for m t v r
    using that by (rule Render_valid)
qed

end
