(* ===== verification/Memory_Backend.thy ===== *)
theory Memory_Backend
  imports Credential_Types
begin

text \<open>
  The in-memory implementation of the \<open>backend\<close> interface: \<open>src/credential/backend.go\<close>,
  \<open>backend_resolution.go\<close>, \<open>backend_recovery.go\<close>. The mutex makes every method one step on the
  state; a method returns its result, an error or a value, beside the new state. A callback that
  the manager passes (\<open>transform\<close>, \<open>validate\<close>) is an argument; \<open>transform\<close> threads the state of
  the entropy source it draws from. Pointers into the maps are modelled by writing the changed
  value back under its key.
\<close>

section \<open>State\<close>

record idempotencyEntry =
  ie_digest :: bytes
  ie_response :: Metadata

record memoryCredential =
  mc_metadata :: Metadata
  mc_records :: "(64 word, Record) gomap"

record memoryBinding =
  mb_binding :: Binding
  mb_idempotencyKey :: string
  mb_digest :: bytes

record memoryAttempt =
  ma_runID :: string
  ma_executorIdentity :: string
  ma_digest :: bytes
  ma_expiresAt :: time

record memoryBackend =
  credentials :: "(string, memoryCredential) gomap"
  idempotency :: "(string, idempotencyEntry) gomap"
  bindings :: "(string, memoryBinding) gomap"
  attempts :: "(string, memoryAttempt) gomap"
  rotations :: "(string, Rotation) gomap"
  backups :: "(string, BackupSet) gomap"

type_synonym 'a result = "(cred_error + 'a) \<times> memoryBackend"

definition newMemoryBackend :: memoryBackend where
  "newMemoryBackend =
     \<lparr>credentials = [], idempotency = [], bindings = [], attempts = [], rotations = [], backups = []\<rparr>"

text \<open>The zero value of \<open>envelope.Record\<close>, which indexing a map yields for a missing key.\<close>

definition zero_record :: Record where
  "zero_record =
     \<lparr>rec_Version = 0, rec_Algorithm = [], rec_RecordID = [], rec_MasterKeyID = [],
      rec_Context = \<lparr>ctx_CredentialID = [], ctx_OrganizationID = [], ctx_SchemaVersion = 0,
        ctx_CredentialVersion = 0\<rparr>,
      rec_PayloadNonce = [], rec_Ciphertext = [], rec_WrapNonce = [], rec_WrappedDataKey = []\<rparr>"

section \<open>Credentials\<close>

definition Create_be :: "memoryBackend \<Rightarrow> string \<Rightarrow> bytes \<Rightarrow> Metadata \<Rightarrow> Record \<Rightarrow> Metadata result" where
  "Create_be b idempotencyID digest metadata r =
     (case mget (idempotency b) idempotencyID of
        Some existing \<Rightarrow>
          if ie_digest existing \<noteq> digest then (Inl ErrIdempotencyConflict, b)
          else (Inr (ie_response existing), b)
      | None \<Rightarrow>
          (Inr metadata,
           b\<lparr>credentials := mput (md_ID metadata)
               \<lparr>mc_metadata = metadata, mc_records = [(md_Version metadata, r)]\<rparr> (credentials b),
             idempotency := mput idempotencyID
               \<lparr>ie_digest = digest, ie_response = metadata\<rparr> (idempotency b)\<rparr>))"

definition Get_be :: "memoryBackend \<Rightarrow> string \<Rightarrow> string \<Rightarrow> cred_error + Metadata \<times> Record" where
  "Get_be b organizationID credentialID =
     (case mget (credentials b) credentialID of
        None \<Rightarrow> Inl ErrNotFound
      | Some stored \<Rightarrow>
          if md_OrganizationID (mc_metadata stored) \<noteq> organizationID then Inl ErrNotFound
          else Inr (mc_metadata stored,
            case mget (mc_records stored) (md_Version (mc_metadata stored)) of
              None \<Rightarrow> zero_record | Some r \<Rightarrow> r))"

definition Update_be ::
  "memoryBackend \<Rightarrow> string \<Rightarrow> string \<Rightarrow> 64 word \<Rightarrow> Metadata \<Rightarrow> Record \<Rightarrow> Metadata result" where
  "Update_be b organizationID credentialID expectedVersion metadata r =
     (case mget (credentials b) credentialID of
        None \<Rightarrow> (Inl ErrNotFound, b)
      | Some stored \<Rightarrow>
          if md_OrganizationID (mc_metadata stored) \<noteq> organizationID then (Inl ErrNotFound, b)
          else if md_Version (mc_metadata stored) \<noteq> expectedVersion then (Inl ErrVersionConflict, b)
          else (Inr metadata,
            b\<lparr>credentials := mput credentialID
                \<lparr>mc_metadata = metadata, mc_records = mput (md_Version metadata) r (mc_records stored)\<rparr>
                (credentials b)\<rparr>))"

section \<open>Bindings\<close>

text \<open>The loop over the existing bindings, in the order of the map: the first verdict ends it.\<close>

fun scan_bindings ::
  "memoryBinding list \<Rightarrow> bindingRegistration \<Rightarrow> (cred_error + Binding) option" where
  "scan_bindings [] reg = None"
| "scan_bindings (e # es) reg =
     (let request = br_request reg in
      if b_OrganizationID (mb_binding e) = rb_OrganizationID request \<and>
         mb_idempotencyKey e = rb_IdempotencyKey request
      then (if mb_digest e \<noteq> br_digest reg then Some (Inl ErrBindingConflict)
            else Some (Inr (mb_binding e)))
      else if b_RunID (mb_binding e) = rb_RunID request \<or> b_DispatchID (mb_binding e) = rb_DispatchID request
      then Some (Inl ErrBindingConflict)
      else scan_bindings es reg)"

definition new_binding :: "bindingRegistration \<Rightarrow> Metadata \<Rightarrow> Binding" where
  "new_binding reg metadata =
     (let request = br_request reg in
      \<lparr>b_RunID = rb_RunID request, b_DispatchID = rb_DispatchID request,
       b_OrganizationID = rb_OrganizationID request, b_CredentialID = rb_CredentialID request,
       b_CredentialVersion = md_Version metadata, b_ExecutorIdentity = rb_ExecutorIdentity request,
       b_State = (if \<not> br_now reg < z_instant (rb_NotBefore request) then BindingActive else BindingPending),
       b_NotBefore = z_instant (rb_NotBefore request), b_ExpiresAt = z_instant (rb_ExpiresAt request),
       b_MaxResolutions = rb_MaxResolutions request, b_ResolutionCount = 0,
       b_CreatedAt = br_now reg, b_UpdatedAt = br_now reg, b_CancelReason = []\<rparr>)"

definition RegisterBinding_be :: "memoryBackend \<Rightarrow> bindingRegistration \<Rightarrow> Binding result" where
  "RegisterBinding_be b reg =
     (case scan_bindings (map snd (bindings b)) reg of
        Some r \<Rightarrow> (r, b)
      | None \<Rightarrow>
        (let request = br_request reg in
         case mget (credentials b) (rb_CredentialID request) of
           None \<Rightarrow> (Inl ErrNotFound, b)
         | Some credential \<Rightarrow>
             if md_OrganizationID (mc_metadata credential) \<noteq> rb_OrganizationID request \<or>
                md_State (mc_metadata credential) \<noteq> StateActive
             then (Inl ErrNotFound, b)
             else (let binding = new_binding reg (mc_metadata credential) in
               (Inr binding,
                b\<lparr>bindings := mput (rb_RunID request)
                    \<lparr>mb_binding = binding, mb_idempotencyKey = rb_IdempotencyKey request,
                     mb_digest = br_digest reg\<rparr> (bindings b)\<rparr>))))"

definition GetBinding_be :: "memoryBackend \<Rightarrow> string \<Rightarrow> cred_error + Binding" where
  "GetBinding_be b runID =
     (case mget (bindings b) runID of
        None \<Rightarrow> Inl ErrBindingNotFound
      | Some stored \<Rightarrow> Inr (mb_binding stored))"

definition put_binding :: "memoryBackend \<Rightarrow> string \<Rightarrow> memoryBinding \<Rightarrow> Binding \<Rightarrow> memoryBackend" where
  "put_binding b runID stored binding =
     b\<lparr>bindings := mput runID (stored\<lparr>mb_binding := binding\<rparr>) (bindings b)\<rparr>"

definition CancelBinding_be ::
  "memoryBackend \<Rightarrow> string \<Rightarrow> string \<Rightarrow> string \<Rightarrow> time \<Rightarrow> Binding result" where
  "CancelBinding_be b runID dispatchID reason now =
     (case mget (bindings b) runID of
        None \<Rightarrow> (Inl ErrBindingNotFound, b)
      | Some stored \<Rightarrow>
          let binding = mb_binding stored in
          if b_DispatchID binding \<noteq> dispatchID then (Inl ErrBindingConflict, b)
          else if b_State binding = BindingCanceled \<or> b_State binding = BindingExpired \<or>
                  b_State binding = BindingExhausted
          then (Inr binding, b)
          else (let next = binding\<lparr>b_State := BindingCanceled, b_CancelReason := reason, b_UpdatedAt := now\<rparr>
                in (Inr next, put_binding b runID stored next)))"

definition boundVersion :: "memoryBackend \<Rightarrow> Binding \<Rightarrow> cred_error + boundRecord" where
  "boundVersion b binding =
     (case mget (credentials b) (b_CredentialID binding) of
        None \<Rightarrow> Inl ErrResolution
      | Some credential \<Rightarrow>
          (case mget (mc_records credential) (b_CredentialVersion binding) of
             None \<Rightarrow> Inl ErrResolution
           | Some r \<Rightarrow> Inr \<lparr>bd_record = r, bd_credentialType = md_CredentialType (mc_metadata credential),
                 bd_schemaVersion = md_SchemaVersion (mc_metadata credential)\<rparr>))"

text \<open>The second half of a claim: replay a known attempt, or count a new one.\<close>

definition claim_attempt ::
  "memoryBackend \<Rightarrow> resolutionClaim \<Rightarrow> memoryBinding \<Rightarrow> 'r \<Rightarrow> (Binding \<times> time \<times> 'r) result" where
  "claim_attempt b claim stored rendered =
     (let binding = mb_binding stored; now = rcl_now claim in
      case mget (attempts b) (rcl_attemptID claim) of
        Some attempt \<Rightarrow>
          if ma_runID attempt \<noteq> rcl_runID claim \<or> ma_executorIdentity attempt \<noteq> rcl_executorIdentity claim \<or>
             ma_digest attempt \<noteq> rcl_digest claim
          then (Inl ErrAttemptConflict, b)
          else if \<not> now < ma_expiresAt attempt then (Inl ErrAttemptConflict, b)
          else (Inr (binding, ma_expiresAt attempt, rendered), b)
      | None \<Rightarrow>
          if b_ResolutionCount binding \<ge> b_MaxResolutions binding \<or> b_State binding = BindingExhausted
          then (Inl ErrBindingExhausted,
                put_binding b (rcl_runID claim) stored
                  (binding\<lparr>b_State := BindingExhausted, b_UpdatedAt := now\<rparr>))
          else
            let expiry0 = now + rcl_retryWindow claim;
                attemptExpiry = (if expiry0 > b_ExpiresAt binding then b_ExpiresAt binding else expiry0);
                counted = binding\<lparr>b_ResolutionCount := b_ResolutionCount binding + 1, b_State := BindingActive\<rparr>;
                next = (if b_ResolutionCount counted = b_MaxResolutions counted
                        then counted\<lparr>b_State := BindingExhausted\<rparr> else counted)\<lparr>b_UpdatedAt := now\<rparr>;
                b1 = b\<lparr>attempts := mput (rcl_attemptID claim)
                        \<lparr>ma_runID = rcl_runID claim, ma_executorIdentity = rcl_executorIdentity claim,
                         ma_digest = rcl_digest claim, ma_expiresAt = attemptExpiry\<rparr> (attempts b)\<rparr>
            in (Inr (next, attemptExpiry, rendered), put_binding b1 (rcl_runID claim) stored next))"

text \<open>
  \<open>validate\<close> returns what the closure of the manager leaves in its captured variable; it is
  returned beside the binding and the expiry of the attempt.
\<close>

definition ClaimResolution_be ::
  "memoryBackend \<Rightarrow> resolutionClaim \<Rightarrow> (Binding \<Rightarrow> boundRecord \<Rightarrow> cred_error + 'r) \<Rightarrow>
   (Binding \<times> time \<times> 'r) result" where
  "ClaimResolution_be b claim validate =
     (case mget (bindings b) (rcl_runID claim) of
        None \<Rightarrow> (Inl ErrBindingNotFound, b)
      | Some stored \<Rightarrow>
        let binding = mb_binding stored; now = rcl_now claim in
        if b_ExecutorIdentity binding \<noteq> rcl_executorIdentity claim then (Inl ErrUnauthorized, b)
        else if b_State binding = BindingCanceled then (Inl ErrBindingNotActive, b)
        else if b_State binding = BindingExpired then (Inl ErrBindingExpired, b)
        else if \<not> now < b_ExpiresAt binding then
          (Inl ErrBindingExpired,
           if b_State binding \<noteq> BindingExhausted
           then put_binding b (rcl_runID claim) stored
                  (binding\<lparr>b_State := BindingExpired, b_UpdatedAt := now\<rparr>)
           else b)
        else if now < b_NotBefore binding then (Inl ErrBindingNotActive, b)
        else (case boundVersion b binding of Inl e \<Rightarrow> (Inl e, b)
              | Inr version \<Rightarrow>
                (case validate binding version of Inl e \<Rightarrow> (Inl e, b)
                 | Inr rendered \<Rightarrow> claim_attempt b claim stored rendered)))"

section \<open>Rotation\<close>

text \<open>Every stored record, with the key of its credential, in the order the nested loops visit them.\<close>

definition stored_items :: "memoryBackend \<Rightarrow> (string \<times> rotationRecord) list" where
  "stored_items b = concat (map (\<lambda>(i, c). map (\<lambda>(v, r).
     (i, \<lparr>rr_metadata = mc_metadata c, rr_version = v, rr_record = r\<rparr>)) (mc_records c)) (credentials b))"

definition record_key :: "string \<times> rotationRecord \<Rightarrow> string" where
  "record_key x = rec_MasterKeyID (rr_record (snd x))"

definition StartRotation_be :: "memoryBackend \<Rightarrow> Rotation \<Rightarrow> Rotation result" where
  "StartRotation_be b rotation =
     (if list_ex (\<lambda>(_, existing). ro_State existing \<noteq> RotationFinalized) (rotations b)
      then (Inl ErrRotationConflict, b)
      else
        let n = length (filter (\<lambda>x. record_key x = ro_SourceKeyID rotation) (stored_items b));
            counted = rotation\<lparr>ro_TotalRecords := ro_TotalRecords rotation + int n\<rparr>;
            stored = (if ro_TotalRecords counted = 0 then counted\<lparr>ro_State := RotationReady\<rparr> else counted)
        in (Inr stored, b\<lparr>rotations := mput (ro_ID rotation) stored (rotations b)\<rparr>))"

definition GetRotation_be :: "memoryBackend \<Rightarrow> string \<Rightarrow> cred_error + Rotation" where
  "GetRotation_be b i = (case mget (rotations b) i of None \<Rightarrow> Inl ErrNotFound | Some r \<Rightarrow> Inr r)"

type_synonym 's transform = "rotationRecord \<Rightarrow> 's \<Rightarrow> (cred_error + Record) \<times> 's"

text \<open>The loop that collects replacements, at most \<open>limit\<close> of them; the first error ends it.\<close>

fun collect ::
  "'s transform \<Rightarrow> string \<Rightarrow> int \<Rightarrow> (string \<times> rotationRecord) list \<Rightarrow> (string \<times> 64 word \<times> Record) list \<Rightarrow> 's \<Rightarrow>
   (cred_error + (string \<times> 64 word \<times> Record) list) \<times> 's" where
  "collect transform source limit [] acc s = (Inr acc, s)"
| "collect transform source limit (x # xs) acc s =
     (if int (length acc) = limit then (Inr acc, s)
      else if record_key x \<noteq> source then collect transform source limit xs acc s
      else (case transform (snd x) s of
              (Inl e, s') \<Rightarrow> (Inl e, s')
            | (Inr rotated, s') \<Rightarrow>
                collect transform source limit xs (acc @ [(fst x, rr_version (snd x), rotated)]) s'))"

definition put_record :: "string \<times> 64 word \<times> Record \<Rightarrow> memoryBackend \<Rightarrow> memoryBackend" where
  "put_record x b =
     (case x of (i, v, r) \<Rightarrow>
        (case mget (credentials b) i of
           None \<Rightarrow> b
         | Some c \<Rightarrow> b\<lparr>credentials := mput i (c\<lparr>mc_records := mput v r (mc_records c)\<rparr>) (credentials b)\<rparr>))"

definition RotateBatch_be ::
  "memoryBackend \<Rightarrow> string \<Rightarrow> int \<Rightarrow> time \<Rightarrow> 's transform \<Rightarrow> 's \<Rightarrow> Rotation result \<times> 's" where
  "RotateBatch_be b i limit now transform s =
     (case mget (rotations b) i of
        None \<Rightarrow> ((Inl ErrNotFound, b), s)
      | Some rotation \<Rightarrow>
        if ro_State rotation = RotationFinalized then ((Inr rotation, b), s)
        else (case collect transform (ro_SourceKeyID rotation) limit (stored_items b) [] s of
                (Inl e, s') \<Rightarrow> ((Inl e, b), s')
              | (Inr replacements, s') \<Rightarrow>
                  let b1 = fold put_record replacements b;
                      r1 = rotation\<lparr>ro_ProcessedRecords := ro_ProcessedRecords rotation + int (length replacements),
                             ro_State := RotationRunning\<rparr>;
                      r2 = (if ro_ProcessedRecords r1 = ro_TotalRecords r1
                            then r1\<lparr>ro_State := RotationReady\<rparr> else r1)\<lparr>ro_UpdatedAt := now\<rparr>
                  in ((Inr r2, b1\<lparr>rotations := mput i r2 (rotations b1)\<rparr>), s')))"

definition FinalizeRotation_be :: "memoryBackend \<Rightarrow> string \<Rightarrow> time \<Rightarrow> Rotation result" where
  "FinalizeRotation_be b i now =
     (case mget (rotations b) i of
        None \<Rightarrow> (Inl ErrNotFound, b)
      | Some rotation \<Rightarrow>
        if ro_State rotation = RotationFinalized then (Inr rotation, b)
        else if list_ex (\<lambda>x. record_key x = ro_SourceKeyID rotation) (stored_items b)
        then (Inl ErrRotationNotReady, b)
        else (let r1 = rotation\<lparr>ro_State := RotationFinalized, ro_FinalizedAt := now, ro_UpdatedAt := now\<rparr>
              in (Inr r1, b\<lparr>rotations := mput i r1 (rotations b)\<rparr>)))"

definition RotateCredential_be ::
  "memoryBackend \<Rightarrow> CredentialRotationRequest \<Rightarrow> 's transform \<Rightarrow> 's \<Rightarrow> unit result \<times> 's" where
  "RotateCredential_be b request transform s =
     (case mget (credentials b) (crr_CredentialID request) of
        None \<Rightarrow> ((Inl ErrNotFound, b), s)
      | Some credential \<Rightarrow>
        if md_OrganizationID (mc_metadata credential) \<noteq> crr_OrganizationID request
        then ((Inl ErrNotFound, b), s)
        else (case mget (mc_records credential) (crr_Version request) of
                None \<Rightarrow> ((Inl ErrNotFound, b), s)
              | Some r \<Rightarrow>
                (case transform \<lparr>rr_metadata = mc_metadata credential, rr_version = crr_Version request,
                        rr_record = r\<rparr> s of
                   (Inl e, s') \<Rightarrow> ((Inl e, b), s')
                 | (Inr rotated, s') \<Rightarrow>
                     ((Inr (), put_record (crr_CredentialID request, crr_Version request, rotated) b), s'))))"

definition KeyStatus_be :: "memoryBackend \<Rightarrow> string \<Rightarrow> string \<Rightarrow> KeyStatus" where
  "KeyStatus_be b current previous =
     (let counts = count_keys (map record_key (stored_items b));
          active = find (\<lambda>r. ro_State r \<noteq> RotationFinalized) (map snd (rotations b));
          retained = count_keys (concat (map bk_KeyIDs
            (filter (\<lambda>k. z_instant (bk_ExpiredAt k) = zero_time) (map snd (backups b)))))
      in \<lparr>kst_CurrentKeyID = current, kst_PreviousKeyID = previous, kst_RecordCounts = counts,
          kst_ActiveRotation = active,
          kst_DatabaseReferencesCleared = (previous \<noteq> [] \<and> mcount counts previous = 0 \<and>
            (case active of None \<Rightarrow> True | Some r \<Rightarrow> ro_State r = RotationFinalized)),
          kst_RetainedBackupReferences = retained,
          kst_BackupReferencesCleared = (previous \<noteq> [] \<and> mcount retained previous = 0)\<rparr>)"

section \<open>Recovery\<close>

text \<open>
  \<open>sort.Slice\<close> by id, then by version. The pairs are distinct, so the order is unique; it is the
  stable sort by id of the list sorted by version.
\<close>

definition sorted_items :: "memoryBackend \<Rightarrow> rotationRecord list" where
  "sorted_items b =
     sort_key (\<lambda>x. md_ID (rr_metadata x)) (sort_key rr_version (map snd (stored_items b)))"

definition recovery_line :: "rotationRecord \<Rightarrow> string" where
  "recovery_line x =
     md_OrganizationID (rr_metadata x) @ [nul] @ md_ID (rr_metadata x) @ [nul] @
     json_nat (unat (rr_version x)) @ [nul] @ json_nat (unat (md_SchemaVersion (rr_metadata x))) @ [char_of (10 :: nat)]"

fun validate_items ::
  "(rotationRecord \<Rightarrow> cred_error option) \<Rightarrow> rotationRecord list \<Rightarrow> string \<Rightarrow> int \<Rightarrow> cred_error + string \<times> int" where
  "validate_items validate [] hashed n = Inr (hashed, n)"
| "validate_items validate (x # xs) hashed n =
     (case validate x of
        Some e \<Rightarrow> Inl e
      | None \<Rightarrow> validate_items validate xs (hashed @ recovery_line x) (n + 1))"

definition ValidateRecovery_be ::
  "(bytes \<Rightarrow> bytes) \<Rightarrow> memoryBackend \<Rightarrow> int \<Rightarrow> time \<Rightarrow> (rotationRecord \<Rightarrow> cred_error option) \<Rightarrow>
   cred_error + RecoveryValidation" where
  "ValidateRecovery_be sha256 b limit now validate =
     (let items = sorted_items b;
          limit1 = (if limit > int (length items) then int (length items) else limit)
      in case validate_items validate (take (nat limit1) items) [] 0 of
           Inl e \<Rightarrow> Inl e
         | Inr (hashed, n) \<Rightarrow> Inr
             \<lparr>rv_ValidatedRecords = n, rv_TotalRecords = int (length items),
              rv_KeyCounts = count_keys (map (\<lambda>x. rec_MasterKeyID (rr_record x)) items),
              rv_MetadataSHA256 = hex_encode (sha256 (bytes_of hashed)), rv_CompletedAt = now\<rparr>)"

definition RegisterBackup_be :: "memoryBackend \<Rightarrow> BackupSet \<Rightarrow> BackupSet result" where
  "RegisterBackup_be b backup =
     (case mget (backups b) (bk_ID backup) of
        Some existing \<Rightarrow>
          if bk_ArtifactSHA256 existing \<noteq> bk_ArtifactSHA256 backup then (Inl ErrBackupConflict, b)
          else (Inr existing, b)
      | None \<Rightarrow> (Inr backup, b\<lparr>backups := mput (bk_ID backup) backup (backups b)\<rparr>))"

definition ExpireBackup_be :: "memoryBackend \<Rightarrow> string \<Rightarrow> time \<Rightarrow> BackupSet result" where
  "ExpireBackup_be b i now =
     (case mget (backups b) i of
        None \<Rightarrow> (Inl ErrNotFound, b)
      | Some backup \<Rightarrow>
          (let k = (if z_instant (bk_ExpiredAt backup) = zero_time then backup\<lparr>bk_ExpiredAt := utc now\<rparr> else backup)
           in (Inr k, b\<lparr>backups := mput i k (backups b)\<rparr>)))"

end
