(* ===== verification/Credential_Manager.thy ===== *)
theory Credential_Manager
  imports Builtin Memory_Backend
begin

text \<open>
  \<open>credential.Manager\<close> over the in-memory backend: the encrypted credential lifecycle
  (\<open>manager.go\<close>), run bindings and resolution (\<open>resolution.go\<close>), key rotation (\<open>rotation.go\<close>) and
  recovery (\<open>recovery.go\<close>). Every operation takes the reading \<open>now\<close> of its clock (each reads it
  at most once) and the bytes its entropy source will deliver, and returns its result, the new
  manager and, where it draws entropy, the bytes left. The cipher and SHA-256 are the fields of
  a \<open>crypto\<close> record.
\<close>

record crypto =
  c_aead :: aead
  c_sha256 :: "bytes \<Rightarrow> bytes"

record Manager =
  m_keys :: key_set
  m_schemas :: schemas
  m_injector :: "injector option"
  m_policy :: ResolutionPolicy
  m_backend :: memoryBackend

type_synonym 'a manager_result = "(cred_error + 'a) \<times> Manager \<times> bytes"

definition NewManager :: "key_set \<Rightarrow> schemas option \<Rightarrow> injector list \<Rightarrow> cred_error + Manager" where
  "NewManager keys schemas injectors =
     (case schemas of None \<Rightarrow> Inl ErrInvalidInput
      | Some sr \<Rightarrow>
      if mk_id (ks_Current keys) = [] \<or> length injectors > 1 then Inl ErrInvalidInput
      else Inr \<lparr>m_keys = keys, m_schemas = sr,
        m_injector = (if length injectors = 1 then Some (injectors ! 0) else None),
        m_policy = DefaultResolutionPolicy, m_backend = newMemoryBackend\<rparr>)"

section \<open>Credential lifecycle\<close>

fun check_fields :: "inputs \<Rightarrow> string list \<Rightarrow> string list \<Rightarrow> bool" where
  "check_fields inputs [] seen = True"
| "check_fields inputs (f # fs) seen =
     (if mget inputs f = None \<or> f = [] then False
      else if f \<in> set seen then False
      else check_fields inputs fs (f # seen))"

definition validateSchema :: "Manager \<Rightarrow> string \<Rightarrow> 32 word \<Rightarrow> inputs \<Rightarrow> cred_error + string list" where
  "validateSchema m credentialType schemaVersion inputs =
     (if \<not> validateInputs inputs then Inl ErrInvalidInput
      else case m_schemas m credentialType schemaVersion inputs of None \<Rightarrow> Inl ErrInvalidInput
      | Some secrets \<Rightarrow>
          if \<not> check_fields inputs secrets [] then Inl ErrInvalidInput else Inr (sort secrets))"

definition encrypt :: "crypto \<Rightarrow> Manager \<Rightarrow> Metadata \<Rightarrow> inputs \<Rightarrow> bytes \<Rightarrow> (cred_error + Record) \<times> bytes" where
  "encrypt K m metadata inputs src =
     (let plaintext = bytes_of (marshal_inputs inputs) in
      if length plaintext > maxPlaintextPayload then (Inl ErrInvalidInput, src)
      else (case Encrypt (c_aead K) plaintext (envelopeContext metadata) (ks_Current (m_keys m)) src of
              (Inl _, s) \<Rightarrow> (Inl ErrEncryption, s)
            | (Inr r, s) \<Rightarrow> (Inr r, s)))"

definition idempotencyID :: "string \<Rightarrow> string \<Rightarrow> string" where
  "idempotencyID organizationID key = organizationID @ [nul] @ key"

definition new_metadata :: "CreateRequest \<Rightarrow> string \<Rightarrow> string list \<Rightarrow> time \<Rightarrow> Metadata" where
  "new_metadata request i secretFields now =
     \<lparr>md_ID = i, md_OrganizationID = cr_OrganizationID request, md_Name = cr_Name request,
      md_CredentialType = cr_CredentialType request, md_SchemaVersion = cr_SchemaVersion request,
      md_Version = 1, md_State = StateActive, md_SecretFields = secretFields,
      md_CreatedAt = now, md_UpdatedAt = now\<rparr>"

definition CreateContext :: "crypto \<Rightarrow> Manager \<Rightarrow> CreateRequest \<Rightarrow> time \<Rightarrow> bytes \<Rightarrow> Metadata manager_result" where
  "CreateContext K m request now src =
     (if \<not> validateCreate request then (Inl ErrInvalidInput, m, src)
      else case validateSchema m (cr_CredentialType request) (cr_SchemaVersion request) (cr_Inputs request) of
        Inl e \<Rightarrow> (Inl e, m, src)
      | Inr secretFields \<Rightarrow>
     (case newUUID src of (None, s) \<Rightarrow> (Inl ErrEncryption, m, s)
      | (Some i, s) \<Rightarrow>
     (let metadata = new_metadata request i secretFields now
      in case encrypt K m metadata (cr_Inputs request) s of (Inl e, s') \<Rightarrow> (Inl e, m, s')
      | (Inr r, s') \<Rightarrow>
     (case Create_be (m_backend m)
             (idempotencyID (cr_OrganizationID request) (cr_IdempotencyKey request))
             (requestDigest (c_sha256 K) request) metadata r of
        (res, b) \<Rightarrow> (res, m\<lparr>m_backend := b\<rparr>, s')))))"

definition GetContext :: "Manager \<Rightarrow> string \<Rightarrow> string \<Rightarrow> cred_error + Metadata" where
  "GetContext m organizationID credentialID =
     (case Get_be (m_backend m) organizationID credentialID of Inl e \<Rightarrow> Inl e
      | Inr (metadata, _) \<Rightarrow> Inr metadata)"

text \<open>Encrypting the next version and storing it: the common tail of the three updates.\<close>

definition store_next ::
  "crypto \<Rightarrow> Manager \<Rightarrow> string \<Rightarrow> string \<Rightarrow> 64 word \<Rightarrow> Metadata \<Rightarrow> inputs \<Rightarrow> bytes \<Rightarrow> Metadata manager_result" where
  "store_next K m organizationID credentialID expected nextmd inputs src =
     (case encrypt K m nextmd inputs src of (Inl e, s) \<Rightarrow> (Inl e, m, s)
      | (Inr r, s) \<Rightarrow>
        (case Update_be (m_backend m) organizationID credentialID expected nextmd r of
           (res, b) \<Rightarrow> (res, m\<lparr>m_backend := b\<rparr>, s)))"

definition ReplaceInputsContext ::
  "crypto \<Rightarrow> Manager \<Rightarrow> ReplaceInputsRequest \<Rightarrow> time \<Rightarrow> bytes \<Rightarrow> Metadata manager_result" where
  "ReplaceInputsContext K m request now src =
     (if ri_CredentialID request = [] \<or> ri_OrganizationID request = [] \<or> ri_ExpectedVersion request = 0
      then (Inl ErrInvalidInput, m, src)
      else case Get_be (m_backend m) (ri_OrganizationID request) (ri_CredentialID request) of
        Inl e \<Rightarrow> (Inl e, m, src)
      | Inr (current, _) \<Rightarrow>
        if md_Version current \<noteq> ri_ExpectedVersion request then (Inl ErrVersionConflict, m, src)
        else if md_State current \<noteq> StateActive then (Inl ErrCredentialNotActive, m, src)
        else (case validateSchema m (md_CredentialType current) (md_SchemaVersion current) (ri_Inputs request) of
                Inl e \<Rightarrow> (Inl e, m, src)
              | Inr secretFields \<Rightarrow>
                  store_next K m (ri_OrganizationID request) (ri_CredentialID request) (ri_ExpectedVersion request)
                    (current\<lparr>md_Version := md_Version current + 1, md_SecretFields := secretFields,
                             md_UpdatedAt := now\<rparr>)
                    (ri_Inputs request) src))"

text \<open>Decrypting the current version into its inputs, as both callers do it.\<close>

definition open_inputs :: "crypto \<Rightarrow> Manager \<Rightarrow> Record \<Rightarrow> Context \<Rightarrow> inputs option" where
  "open_inputs K m r c =
     (case Decrypt (c_aead K) r c (Keyring (m_keys m)) of
        Inl _ \<Rightarrow> None
      | Inr plaintext \<Rightarrow> unmarshal_inputs (string_of plaintext))"

definition UpdateMetadataContext ::
  "crypto \<Rightarrow> Manager \<Rightarrow> UpdateMetadataRequest \<Rightarrow> time \<Rightarrow> bytes \<Rightarrow> Metadata manager_result" where
  "UpdateMetadataContext K m request now src =
     (if um_CredentialID request = [] \<or> um_OrganizationID request = [] \<or> um_ExpectedVersion request = 0 \<or>
         \<not> validName (um_Name request)
      then (Inl ErrInvalidInput, m, src)
      else case Get_be (m_backend m) (um_OrganizationID request) (um_CredentialID request) of
        Inl e \<Rightarrow> (Inl e, m, src)
      | Inr (current, currentRecord) \<Rightarrow>
        if md_Version current \<noteq> um_ExpectedVersion request then (Inl ErrVersionConflict, m, src)
        else if md_State current \<noteq> StateActive then (Inl ErrCredentialNotActive, m, src)
        else if md_Name current = um_Name request then (Inr current, m, src)
        else (case open_inputs K m currentRecord (envelopeContext current) of
                None \<Rightarrow> (Inl ErrEncryption, m, src)
              | Some inputs \<Rightarrow>
                  store_next K m (um_OrganizationID request) (um_CredentialID request) (um_ExpectedVersion request)
                    (current\<lparr>md_Name := um_Name request, md_Version := md_Version current + 1,
                             md_UpdatedAt := now\<rparr>)
                    inputs src))"

definition RetireContext ::
  "crypto \<Rightarrow> Manager \<Rightarrow> RetireRequest \<Rightarrow> time \<Rightarrow> bytes \<Rightarrow> Metadata manager_result" where
  "RetireContext K m request now src =
     (if rt_CredentialID request = [] \<or> rt_OrganizationID request = [] \<or> rt_ExpectedVersion request = 0
      then (Inl ErrInvalidInput, m, src)
      else case Get_be (m_backend m) (rt_OrganizationID request) (rt_CredentialID request) of
        Inl e \<Rightarrow> (Inl e, m, src)
      | Inr (current, currentRecord) \<Rightarrow>
        if md_State current = StateRetired then (Inr current, m, src)
        else if md_State current \<noteq> StateActive then (Inl ErrCredentialNotActive, m, src)
        else if md_Version current \<noteq> rt_ExpectedVersion request then (Inl ErrVersionConflict, m, src)
        else (case open_inputs K m currentRecord (envelopeContext current) of
                None \<Rightarrow> (Inl ErrEncryption, m, src)
              | Some inputs \<Rightarrow>
                  store_next K m (rt_OrganizationID request) (rt_CredentialID request) (rt_ExpectedVersion request)
                    (current\<lparr>md_Version := md_Version current + 1, md_State := StateRetired,
                             md_UpdatedAt := now\<rparr>)
                    inputs src))"

section \<open>Bindings and resolution\<close>

definition SetResolutionPolicy :: "Manager \<Rightarrow> ResolutionPolicy \<Rightarrow> cred_error option \<times> Manager" where
  "SetResolutionPolicy m policy =
     (if rp_MaxBindingLifetime policy \<le> 0 \<or> rp_MaxFutureStart policy < 0 \<or> rp_MaxResolutions policy = 0 \<or>
         rp_AttemptRetryWindow policy \<le> 0 \<or> rp_MaxResponseBytes policy \<le> 0
      then (Some ErrInvalidInput, m)
      else (None, m\<lparr>m_policy := policy\<rparr>))"

definition RegisterBinding ::
  "crypto \<Rightarrow> Manager \<Rightarrow> WorkloadIdentity \<Rightarrow> RegisterBindingRequest \<Rightarrow> time \<Rightarrow> (cred_error + Binding) \<times> Manager" where
  "RegisterBinding K m caller request now =
     (if \<not> isScheduler caller \<or> \<not> validBindingRequest request now (m_policy m)
      then (if \<not> isScheduler caller then (Inl ErrUnauthorized, m) else (Inl ErrInvalidInput, m))
      else case bindingDigest (c_sha256 K) request of None \<Rightarrow> (Inl ErrInvalidInput, m)
      | Some digest \<Rightarrow>
        (case RegisterBinding_be (m_backend m) \<lparr>br_request = request, br_digest = digest, br_now = now\<rparr> of
           (res, b) \<Rightarrow> (res, m\<lparr>m_backend := b\<rparr>)))"

definition InspectBinding :: "Manager \<Rightarrow> WorkloadIdentity \<Rightarrow> string \<Rightarrow> cred_error + Binding" where
  "InspectBinding m caller runID =
     (if \<not> isScheduler caller then Inl ErrUnauthorized
      else if \<not> validUUID runID then Inl ErrInvalidInput
      else GetBinding_be (m_backend m) runID)"

definition CancelBinding ::
  "(nat \<Rightarrow> bool) \<Rightarrow> Manager \<Rightarrow> WorkloadIdentity \<Rightarrow> CancelBindingRequest \<Rightarrow> time \<Rightarrow> (cred_error + Binding) \<times> Manager"
  where
  "CancelBinding uni m caller request now =
     (if \<not> isScheduler caller then (Inl ErrUnauthorized, m)
      else if \<not> validUUID (cb_RunID request) \<or> \<not> validUUID (cb_DispatchID request) \<or>
              \<not> validReason uni (cb_Reason request)
      then (Inl ErrInvalidInput, m)
      else (case CancelBinding_be (m_backend m) (cb_RunID request) (cb_DispatchID request)
                   (cb_Reason request) now of
              (res, b) \<Rightarrow> (res, m\<lparr>m_backend := b\<rparr>)))"

text \<open>The closure that \<open>Resolve\<close> passes to the backend: decrypt, decode, render, check.\<close>

definition resolve_validate ::
  "crypto \<Rightarrow> Manager \<Rightarrow> injector \<Rightarrow> Binding \<Rightarrow> boundRecord \<Rightarrow> cred_error + InjectorResult" where
  "resolve_validate K m injector binding version =
     (case open_inputs K m (bd_record version)
             \<lparr>ctx_CredentialID = b_CredentialID binding, ctx_OrganizationID = b_OrganizationID binding,
              ctx_SchemaVersion = bd_schemaVersion version,
              ctx_CredentialVersion = b_CredentialVersion binding\<rparr> of
        None \<Rightarrow> Inl ErrResolution
      | Some inputs \<Rightarrow>
          (case injector (bd_credentialType version) (bd_schemaVersion version) inputs of
             None \<Rightarrow> Inl ErrResolution
           | Some result \<Rightarrow>
               if \<not> validInjectorResult result (rp_MaxResponseBytes (m_policy m)) then Inl ErrResolution
               else Inr result))"

definition hide_binding :: "cred_error \<Rightarrow> cred_error" where
  "hide_binding e =
     (if e = ErrBindingNotFound \<or> e = ErrUnauthorized \<or> e = ErrBindingExpired \<or> e = ErrBindingExhausted
      then ErrBindingNotActive else e)"

definition resolve_claim ::
  "crypto \<Rightarrow> Manager \<Rightarrow> WorkloadIdentity \<Rightarrow> ResolveRequest \<Rightarrow> time \<Rightarrow> resolutionClaim" where
  "resolve_claim K m caller request now =
     \<lparr>rcl_runID = rq_RunID request, rcl_attemptID = rq_AttemptID request,
      rcl_executorIdentity = wi_Subject caller, rcl_digest = attemptDigest (c_sha256 K) request,
      rcl_now = now, rcl_retryWindow = rp_AttemptRetryWindow (m_policy m)\<rparr>"

definition Resolve ::
  "crypto \<Rightarrow> Manager \<Rightarrow> WorkloadIdentity \<Rightarrow> ResolveRequest \<Rightarrow> time \<Rightarrow> (cred_error + ResolvedCredential) \<times> Manager"
  where
  "Resolve K m caller request now =
     (if wi_Role caller \<noteq> RoleExecutor \<or> \<not> validExecutorIdentity (wi_Subject caller)
      then (Inl ErrUnauthorized, m)
      else case m_injector m of None \<Rightarrow> (Inl ErrInvalidInput, m)
      | Some injector \<Rightarrow>
        if \<not> validUUID (rq_RunID request) \<or> \<not> validUUID (rq_AttemptID request) \<or>
           rq_RequestedAt request = zero_time
        then (Inl ErrInvalidInput, m)
        else (case ClaimResolution_be (m_backend m)
                     (resolve_claim K m caller request now) (resolve_validate K m injector) of
                (Inl e, b) \<Rightarrow> (Inl (hide_binding e), m\<lparr>m_backend := b\<rparr>)
              | (Inr (_, attemptExpiry, rendered), b) \<Rightarrow>
                  (Inr \<lparr>rc_RunID = rq_RunID request, rc_AttemptID = rq_AttemptID request,
                        rc_ExpiresAt = attemptExpiry, rc_Environment = ir_Environment rendered,
                        rc_Files = ir_Files rendered\<rparr>,
                   m\<lparr>m_backend := b\<rparr>)))"

section \<open>Key rotation\<close>

definition item_context :: "rotationRecord \<Rightarrow> Context" where
  "item_context x =
     \<lparr>ctx_CredentialID = md_ID (rr_metadata x), ctx_OrganizationID = md_OrganizationID (rr_metadata x),
      ctx_SchemaVersion = md_SchemaVersion (rr_metadata x), ctx_CredentialVersion = rr_version x\<rparr>"

definition StartMasterKeyRotation :: "Manager \<Rightarrow> time \<Rightarrow> bytes \<Rightarrow> Rotation manager_result" where
  "StartMasterKeyRotation m now src =
     (case ks_Previous (m_keys m) of None \<Rightarrow> (Inl ErrRotationUnavailable, m, src)
      | Some previous \<Rightarrow>
        if mk_id previous = [] \<or> mk_id (ks_Current (m_keys m)) = [] then (Inl ErrRotationUnavailable, m, src)
        else (case newUUID src of (None, s) \<Rightarrow> (Inl ErrRotationUnavailable, m, s)
              | (Some i, s) \<Rightarrow>
                (case StartRotation_be (m_backend m)
                        \<lparr>ro_ID = i, ro_SourceKeyID = mk_id previous,
                         ro_TargetKeyID = mk_id (ks_Current (m_keys m)), ro_State = RotationPending,
                         ro_TotalRecords = 0, ro_ProcessedRecords = 0, ro_CreatedAt = now,
                         ro_UpdatedAt = now, ro_FinalizedAt = zero_time\<rparr> of
                   (res, b) \<Rightarrow> (res, m\<lparr>m_backend := b\<rparr>, s))))"

definition KeyStatus_m :: "Manager \<Rightarrow> KeyStatus" where
  "KeyStatus_m m =
     KeyStatus_be (m_backend m) (mk_id (ks_Current (m_keys m)))
       (case ks_Previous (m_keys m) of None \<Rightarrow> [] | Some p \<Rightarrow> mk_id p)"

definition GetMasterKeyRotation :: "Manager \<Rightarrow> string \<Rightarrow> cred_error + Rotation" where
  "GetMasterKeyRotation m rotationID =
     (if rotationID = [] then Inl ErrInvalidInput else GetRotation_be (m_backend m) rotationID)"

definition rewrap_item :: "crypto \<Rightarrow> Manager \<Rightarrow> bytes transform" where
  "rewrap_item K m x s =
     (case Rewrap (c_aead K) (rr_record x) (item_context x) (Keyring (m_keys m)) (ks_Current (m_keys m)) s of
        (Inl _, s') \<Rightarrow> (Inl ErrEncryption, s')
      | (Inr r, s') \<Rightarrow> (Inr r, s'))"

definition ResumeMasterKeyRotation ::
  "crypto \<Rightarrow> Manager \<Rightarrow> string \<Rightarrow> int \<Rightarrow> time \<Rightarrow> bytes \<Rightarrow> Rotation manager_result" where
  "ResumeMasterKeyRotation K m rotationID batchSize now src =
     (if rotationID = [] \<or> batchSize < 1 \<or> batchSize > 1000 \<or> ks_Previous (m_keys m) = None
      then (Inl ErrInvalidInput, m, src)
      else (case RotateBatch_be (m_backend m) rotationID batchSize now (rewrap_item K m) src of
              ((res, b), s) \<Rightarrow> (res, m\<lparr>m_backend := b\<rparr>, s)))"

definition FinalizeMasterKeyRotation :: "Manager \<Rightarrow> string \<Rightarrow> time \<Rightarrow> (cred_error + Rotation) \<times> Manager" where
  "FinalizeMasterKeyRotation m rotationID now =
     (if rotationID = [] then (Inl ErrInvalidInput, m)
      else (case FinalizeRotation_be (m_backend m) rotationID now of (res, b) \<Rightarrow> (res, m\<lparr>m_backend := b\<rparr>)))"

definition rotate_item :: "crypto \<Rightarrow> Manager \<Rightarrow> bytes transform" where
  "rotate_item K m x s =
     (case RotateDataKey (c_aead K) (rr_record x) (item_context x) (Keyring (m_keys m)) (ks_Current (m_keys m)) s of
        (Inl _, s') \<Rightarrow> (Inl ErrEncryption, s')
      | (Inr r, s') \<Rightarrow> (Inr r, s'))"

definition RotateCredentialKey ::
  "crypto \<Rightarrow> Manager \<Rightarrow> CredentialRotationRequest \<Rightarrow> bytes \<Rightarrow> unit manager_result" where
  "RotateCredentialKey K m request src =
     (if crr_OrganizationID request = [] \<or> crr_CredentialID request = [] \<or> crr_Version request = 0
      then (Inl ErrInvalidInput, m, src)
      else (case RotateCredential_be (m_backend m) request (rotate_item K m) src of
              ((res, b), s) \<Rightarrow> (res, m\<lparr>m_backend := b\<rparr>, s)))"

section \<open>Recovery\<close>

definition recovery_validate :: "crypto \<Rightarrow> Manager \<Rightarrow> rotationRecord \<Rightarrow> cred_error option" where
  "recovery_validate K m x =
     (case Decrypt (c_aead K) (rr_record x) (item_context x) (Keyring (m_keys m)) of
        Inl _ \<Rightarrow> Some ErrRecoveryValidation
      | Inr _ \<Rightarrow> None)"

definition ValidateRecovery :: "crypto \<Rightarrow> Manager \<Rightarrow> int \<Rightarrow> time \<Rightarrow> cred_error + RecoveryValidation" where
  "ValidateRecovery K m sampleSize now =
     (if sampleSize < 1 \<or> sampleSize > 1000 then Inl ErrInvalidInput
      else ValidateRecovery_be (c_sha256 K) (m_backend m) sampleSize now (recovery_validate K m))"

definition RegisterBackup :: "Manager \<Rightarrow> BackupSet \<Rightarrow> (cred_error + BackupSet) \<times> Manager" where
  "RegisterBackup m backup =
     (if \<not> validBackup backup then (Inl ErrInvalidInput, m)
      else (case RegisterBackup_be (m_backend m) (backup\<lparr>bk_KeyIDs := sort (bk_KeyIDs backup)\<rparr>) of
              (res, b) \<Rightarrow> (res, m\<lparr>m_backend := b\<rparr>)))"

definition ExpireBackup :: "Manager \<Rightarrow> string \<Rightarrow> time \<Rightarrow> (cred_error + BackupSet) \<times> Manager" where
  "ExpireBackup m i now =
     (if i = [] then (Inl ErrInvalidInput, m)
      else (case ExpireBackup_be (m_backend m) i now of (res, b) \<Rightarrow> (res, m\<lparr>m_backend := b\<rparr>)))"

end
