(* ===== verification/Transport_Request.thy ===== *)
theory Transport_Request
  imports Audit_Delivery Credential_Manager
begin

text \<open>
  The request side of the HTTP boundary: the mapping from client certificates to workloads
  (\<open>transport/identity.go\<close>) and the strict decoding of JSON bodies (\<open>transport/json.go\<close>). A
  request is what \<open>net/http\<close> hands to the handler: the media type is the one that
  \<open>mime.ParseMediaType\<close> found (\<^const>\<open>None\<close> when it failed), the path is the escaped one, a body
  that cannot be read within the limit is \<^const>\<open>None\<close>.
\<close>

record http_request =
  hr_Method :: string
  hr_EscapedPath :: string
  hr_TLS :: "tls_state option"
  hr_MediaType :: "string option"
  hr_IdempotencyKeys :: "string list"
  hr_Organization :: string
  hr_Body :: "string option"

section \<open>Workload identities\<close>

text \<open>\<open>url.PathUnescape\<close>.\<close>

fun PathUnescape :: "string \<Rightarrow> string option" where
  "PathUnescape [] = Some []"
| "PathUnescape (c # s) =
     (if c \<noteq> CHR ''%'' then map_option ((#) c) (PathUnescape s)
      else (case s of
              a # b # r \<Rightarrow>
                (case (hex_value a, hex_value b) of
                   (Some h, Some l) \<Rightarrow> map_option ((#) (char_of (16 * h + l))) (PathUnescape r)
                 | _ \<Rightarrow> None)
            | _ \<Rightarrow> None))"

definition instance_rune :: "nat \<Rightarrow> bool" where
  "instance_rune r \<longleftrightarrow> 97 \<le> r \<and> r \<le> 122 \<or> 65 \<le> r \<and> r \<le> 90 \<or> 48 \<le> r \<and> r \<le> 57 \<or> r = 45 \<or> r = 95 \<or> r = 46"

definition validInstance :: "string \<Rightarrow> bool" where
  "validInstance value \<longleftrightarrow>
     \<not> (value = [] \<or> length value > 128) \<and> list_all instance_rune (runes value) \<and> value \<noteq> ''.'' \<and> value \<noteq> ''..''"

record SPIFFEMapper =
  sm_TrustDomain :: string

text \<open>A certificate is the list of its URI names; nothing else of it is read.\<close>

definition Identity :: "SPIFFEMapper \<Rightarrow> cert_uri list \<Rightarrow> WorkloadIdentity option" where
  "Identity mapper certificate =
     (if sm_TrustDomain mapper = [] \<or> length certificate \<noteq> 1 then None
      else let identity = certificate ! 0 in
      if u_Scheme identity \<noteq> ''spiffe'' \<or> u_Host identity \<noteq> sm_TrustDomain mapper \<or>
         u_RawQuery identity \<noteq> [] \<or> u_Fragment identity \<noteq> [] then None
      else let parts = Split (TrimPrefix (u_EscapedPath identity) ''/'') (CHR ''/'') in
      if length parts = 2 \<and> parts ! 0 = ''workload'' \<and> parts ! 1 = ''praetor-scheduler''
      then Some \<lparr>wi_Role = RoleScheduler, wi_Subject = RoleScheduler\<rparr>
      else if length parts = 2 \<and> parts ! 0 = ''workload'' \<and>
              (parts ! 1 = RoleSecretsOperator \<or> parts ! 1 = RoleSecretsAuditor \<or> parts ! 1 = RoleAPI)
      then Some \<lparr>wi_Role = parts ! 1, wi_Subject = parts ! 1\<rparr>
      else if length parts = 3 \<and> parts ! 0 = ''workload'' \<and> parts ! 1 = ''praetor-executor''
      then (case PathUnescape (parts ! 2) of None \<Rightarrow> None
            | Some inst \<Rightarrow>
                if \<not> validInstance inst then None
                else Some \<lparr>wi_Role = RoleExecutor, wi_Subject = RoleExecutor @ '':'' @ inst\<rparr>)
      else None)"

definition requestIdentity :: "SPIFFEMapper \<Rightarrow> http_request \<Rightarrow> WorkloadIdentity option" where
  "requestIdentity mapper request =
     (case verified_leaf (hr_TLS request) of None \<Rightarrow> None | Some leaf \<Rightarrow> Identity mapper leaf)"

section \<open>Request bodies\<close>

datatype decode_error = errInvalidJSON | errTooLarge

definition maxRequestBody :: nat where "maxRequestBody = 2 ^ 20"

text \<open>
  The first pass over a body reads its tokens and refuses an object with the same key twice, at
  any depth. It runs on the value the tokens make up: a body that is no single JSON value fails
  one of the two passes, with the same error.
\<close>

fun validateJSONValue :: "json \<Rightarrow> bool" and
    validate_object :: "string list \<Rightarrow> (string \<times> json) list \<Rightarrow> bool" and
    validate_array :: "json list \<Rightarrow> bool" where
  "validateJSONValue (JObject kvs) \<longleftrightarrow> validate_object [] kvs"
| "validateJSONValue (JArray vs) \<longleftrightarrow> validate_array vs"
| "validateJSONValue _ \<longleftrightarrow> True"
| "validate_object seen [] \<longleftrightarrow> True"
| "validate_object seen ((k, v) # kvs) \<longleftrightarrow>
     (if k \<in> set seen then False else if \<not> validateJSONValue v then False else validate_object (k # seen) kvs)"
| "validate_array [] \<longleftrightarrow> True"
| "validate_array (v # vs) \<longleftrightarrow> (if \<not> validateJSONValue v then False else validate_array vs)"

definition decodeJSON :: "(string \<times> 'a setter) list \<Rightarrow> 'a \<Rightarrow> http_request \<Rightarrow> decode_error + 'a" where
  "decodeJSON fs zero request =
     (if hr_MediaType request \<noteq> Some ''application/json'' then Inl errInvalidJSON
      else case hr_Body request of None \<Rightarrow> Inl errInvalidJSON
      | Some body \<Rightarrow>
          if length body = 0 then Inl errInvalidJSON
          else if length body > maxRequestBody then Inl errTooLarge
          else (case parse_json body of None \<Rightarrow> Inl errInvalidJSON
                | Some v \<Rightarrow>
                    if \<not> validateJSONValue v then Inl errInvalidJSON
                    else (case decode_struct True fs zero body of None \<Rightarrow> Inl errInvalidJSON
                          | Some x \<Rightarrow> Inr x)))"

section \<open>Identities, characterised\<close>

lemma validInstance_chars:
  "validInstance value \<Longrightarrow> list_all (\<lambda>c. instance_rune (code c)) value"
  unfolding validInstance_def by (subst (asm) runes_ascii) (auto simp: instance_rune_def list_all_iff)

end
