(* ===== verification/Credential_Json.thy ===== *)
theory Credential_Json
  imports Credential_Types GoStruct
begin

text \<open>
  JSON encodings from the struct tags of packages \<open>credential\<close> and \<open>envelope\<close>: the values the
  service answers with, and the two documents the PostgreSQL backend stores and reads back, the
  metadata of a creation and the envelope of a version. An encoding is \<^const>\<open>None\<close> when
  \<open>Time.MarshalJSON\<close> fails (a year outside 0 to 9999).
\<close>

section \<open>Encodings\<close>

definition json_bool :: "bool \<Rightarrow> string" where
  "json_bool b = (if b then ''true'' else ''false'')"

fun json_elements :: "string list \<Rightarrow> string" where
  "json_elements [] = []"
| "json_elements [t] = t"
| "json_elements (t # ts) = t @ '','' @ json_elements ts"

definition json_array :: "string list \<Rightarrow> string" where
  "json_array ts = ''['' @ json_elements ts @ '']''"

text \<open>A \<open>map[string]int64\<close>, keys in order; a list of strings, where none is the nil slice.\<close>

definition json_counts :: "(string, int) gomap \<Rightarrow> string" where
  "json_counts m = json_object (map (\<lambda>(k, n). (k, json_int n)) (sort_key fst m))"

definition json_strings :: "string list \<Rightarrow> string" where
  "json_strings ss = (if ss = [] then ''null'' else json_array (map json_string ss))"

definition state_string :: "cred_state \<Rightarrow> string" where
  "state_string s = (case s of StateActive \<Rightarrow> ''active'' | StateRetired \<Rightarrow> ''retired'')"

definition binding_state_string :: "binding_state \<Rightarrow> string" where
  "binding_state_string s =
     (case s of BindingPending \<Rightarrow> ''pending'' | BindingActive \<Rightarrow> ''active'' | BindingCanceled \<Rightarrow> ''canceled''
      | BindingExpired \<Rightarrow> ''expired'' | BindingExhausted \<Rightarrow> ''exhausted'')"

definition rotation_state_string :: "rotation_state \<Rightarrow> string" where
  "rotation_state_string s =
     (case s of RotationPending \<Rightarrow> ''pending'' | RotationRunning \<Rightarrow> ''running'' | RotationReady \<Rightarrow> ''ready''
      | RotationFinalized \<Rightarrow> ''finalized'')"

definition marshal_metadata :: "Metadata \<Rightarrow> string option" where
  "marshal_metadata m = do {
     created \<leftarrow> marshal_time (utc (md_CreatedAt m));
     updated \<leftarrow> marshal_time (utc (md_UpdatedAt m));
     Some (json_object
       [(''id'', json_string (md_ID m)), (''organization_id'', json_string (md_OrganizationID m)),
        (''name'', json_string (md_Name m)), (''credential_type'', json_string (md_CredentialType m)),
        (''schema_version'', json_nat (unat (md_SchemaVersion m))), (''version'', json_nat (unat (md_Version m))),
        (''state'', json_string (state_string (md_State m))), (''secret_fields'', json_strings (md_SecretFields m)),
        (''created_at'', created), (''updated_at'', updated)])}"

definition marshal_binding :: "Binding \<Rightarrow> string option" where
  "marshal_binding b = do {
     notBefore \<leftarrow> marshal_time (utc (b_NotBefore b));
     expires \<leftarrow> marshal_time (utc (b_ExpiresAt b));
     created \<leftarrow> marshal_time (utc (b_CreatedAt b));
     updated \<leftarrow> marshal_time (utc (b_UpdatedAt b));
     Some (json_object
       ([(''run_id'', json_string (b_RunID b)), (''dispatch_id'', json_string (b_DispatchID b)),
         (''organization_id'', json_string (b_OrganizationID b)), (''credential_id'', json_string (b_CredentialID b)),
         (''credential_version'', json_nat (unat (b_CredentialVersion b))),
         (''executor_identity'', json_string (b_ExecutorIdentity b)),
         (''state'', json_string (binding_state_string (b_State b))),
         (''not_before'', notBefore), (''expires_at'', expires),
         (''max_resolutions'', json_nat (unat (b_MaxResolutions b))),
         (''resolution_count'', json_nat (unat (b_ResolutionCount b))),
         (''created_at'', created), (''updated_at'', updated)] @ opt_string ''cancel_reason'' (b_CancelReason b)))}"

definition marshal_file :: "ResolvedFile \<Rightarrow> string" where
  "marshal_file f = json_object
     [(''name'', json_string (rf_Name f)), (''mode'', json_string (rf_Mode f)), (''content'', json_string (rf_Content f))]"

definition marshal_resolved :: "ResolvedCredential \<Rightarrow> string option" where
  "marshal_resolved r = do {
     expires \<leftarrow> marshal_time (utc (rc_ExpiresAt r));
     Some (json_object
       ([(''run_id'', json_string (rc_RunID r)), (''attempt_id'', json_string (rc_AttemptID r)), (''expires_at'', expires)]
        @ (if rc_Environment r = [] then [] else [(''environment'', marshal_inputs (rc_Environment r))])
        @ (if rc_Files r = [] then [] else [(''files'', json_array (map marshal_file (rc_Files r)))])))}"

definition marshal_rotation :: "Rotation \<Rightarrow> string option" where
  "marshal_rotation r = do {
     created \<leftarrow> marshal_time (utc (ro_CreatedAt r));
     updated \<leftarrow> marshal_time (utc (ro_UpdatedAt r));
     finalized \<leftarrow> marshal_time (utc (ro_FinalizedAt r));
     Some (json_object
       [(''id'', json_string (ro_ID r)), (''source_key_id'', json_string (ro_SourceKeyID r)),
        (''target_key_id'', json_string (ro_TargetKeyID r)), (''state'', json_string (rotation_state_string (ro_State r))),
        (''total_records'', json_int (ro_TotalRecords r)), (''processed_records'', json_int (ro_ProcessedRecords r)),
        (''created_at'', created), (''updated_at'', updated), (''finalized_at'', finalized)])}"

definition marshal_key_status :: "KeyStatus \<Rightarrow> string option" where
  "marshal_key_status k = do {
     active \<leftarrow> (case kst_ActiveRotation k of None \<Rightarrow> Some []
               | Some r \<Rightarrow> map_option (\<lambda>t. [(''active_rotation'', t)]) (marshal_rotation r));
     Some (json_object
       ([(''current_key_id'', json_string (kst_CurrentKeyID k))] @ opt_string ''previous_key_id'' (kst_PreviousKeyID k)
        @ [(''record_counts'', json_counts (kst_RecordCounts k))] @ active
        @ [(''database_references_cleared'', json_bool (kst_DatabaseReferencesCleared k)),
           (''retained_backup_references'', json_counts (kst_RetainedBackupReferences k)),
           (''backup_references_cleared'', json_bool (kst_BackupReferencesCleared k))]))}"

definition marshal_recovery :: "RecoveryValidation \<Rightarrow> string option" where
  "marshal_recovery v = do {
     completed \<leftarrow> marshal_time (utc (rv_CompletedAt v));
     Some (json_object
       [(''validated_records'', json_int (rv_ValidatedRecords v)), (''total_records'', json_int (rv_TotalRecords v)),
        (''key_counts'', json_counts (rv_KeyCounts v)), (''metadata_sha256'', json_string (rv_MetadataSHA256 v)),
        (''completed_at'', completed)])}"

definition marshal_backup :: "BackupSet \<Rightarrow> string option" where
  "marshal_backup b = do {
     created \<leftarrow> marshal_time (bk_CreatedAt b);
     retain \<leftarrow> marshal_time (bk_RetainUntil b);
     expired \<leftarrow> marshal_time (bk_ExpiredAt b);
     Some (json_object
       [(''id'', json_string (bk_ID b)), (''artifact_sha256'', json_string (bk_ArtifactSHA256 b)),
        (''key_ids'', json_strings (bk_KeyIDs b)), (''created_at'', created), (''retain_until'', retain),
        (''expired_at'', expired)])}"

section \<open>Stored documents\<close>

text \<open>
  \<open>json.Marshal\<close> and \<open>json.Unmarshal\<close> of \<open>Metadata\<close> and of \<open>envelope.Record\<close>, as \<open>encodeStorage\<close>
  writes them and the queries read them. A nil \<open>[]byte\<close> is \<open>null\<close>. \<open>State\<close> is a string type: a
  text outside its two constants, which nothing stores, is refused here.
\<close>

definition set_state :: "(cred_state \<Rightarrow> 'a \<Rightarrow> 'a) \<Rightarrow> 'a setter" where
  "set_state put v raw x =
     (case v of JNull \<Rightarrow> Some x
      | JString s \<Rightarrow> if s = ''active'' then Some (put StateActive x) else if s = ''retired'' then Some (put StateRetired x) else None
      | _ \<Rightarrow> None)"

definition zero_metadata :: Metadata where
  "zero_metadata = \<lparr>md_ID = [], md_OrganizationID = [], md_Name = [], md_CredentialType = [], md_SchemaVersion = 0,
     md_Version = 0, md_State = StateActive, md_SecretFields = [], md_CreatedAt = zero_time, md_UpdatedAt = zero_time\<rparr>"

definition metadata_fields :: "(string \<times> Metadata setter) list" where
  "metadata_fields =
     [(''id'', set_string (\<lambda>s m. m\<lparr>md_ID := s\<rparr>)),
      (''organization_id'', set_string (\<lambda>s m. m\<lparr>md_OrganizationID := s\<rparr>)),
      (''name'', set_string (\<lambda>s m. m\<lparr>md_Name := s\<rparr>)),
      (''credential_type'', set_string (\<lambda>s m. m\<lparr>md_CredentialType := s\<rparr>)),
      (''schema_version'', set_uint (\<lambda>w m. m\<lparr>md_SchemaVersion := w\<rparr>)),
      (''version'', set_uint (\<lambda>w m. m\<lparr>md_Version := w\<rparr>)),
      (''state'', set_state (\<lambda>s m. m\<lparr>md_State := s\<rparr>)),
      (''secret_fields'', set_strings md_SecretFields (\<lambda>l m. m\<lparr>md_SecretFields := l\<rparr>)),
      (''created_at'', set_time (\<lambda>t m. m\<lparr>md_CreatedAt := z_instant t\<rparr>)),
      (''updated_at'', set_time (\<lambda>t m. m\<lparr>md_UpdatedAt := z_instant t\<rparr>))]"

definition unmarshal_metadata :: "string \<Rightarrow> Metadata option" where
  "unmarshal_metadata s = decode_struct False metadata_fields zero_metadata s"

definition json_bytes :: "bytes \<Rightarrow> string" where
  "json_bytes b = (if b = [] then ''null'' else json_string (base64_encode b))"

definition marshal_context :: "Context \<Rightarrow> string" where
  "marshal_context c = json_object
     [(''credential_id'', json_string (ctx_CredentialID c)), (''organization_id'', json_string (ctx_OrganizationID c)),
      (''schema_version'', json_nat (unat (ctx_SchemaVersion c))),
      (''credential_version'', json_nat (unat (ctx_CredentialVersion c)))]"

definition marshal_envelope :: "Record \<Rightarrow> string" where
  "marshal_envelope r = json_object
     [(''version'', json_nat (unat (rec_Version r))), (''algorithm'', json_string (rec_Algorithm r)),
      (''record_id'', json_string (rec_RecordID r)), (''master_key_id'', json_string (rec_MasterKeyID r)),
      (''context'', marshal_context (rec_Context r)), (''payload_nonce'', json_bytes (rec_PayloadNonce r)),
      (''ciphertext'', json_bytes (rec_Ciphertext r)), (''wrap_nonce'', json_bytes (rec_WrapNonce r)),
      (''wrapped_data_key'', json_bytes (rec_WrappedDataKey r))]"

definition context_fields :: "(string \<times> Context setter) list" where
  "context_fields =
     [(''credential_id'', set_string (\<lambda>s c. c\<lparr>ctx_CredentialID := s\<rparr>)),
      (''organization_id'', set_string (\<lambda>s c. c\<lparr>ctx_OrganizationID := s\<rparr>)),
      (''schema_version'', set_uint (\<lambda>w c. c\<lparr>ctx_SchemaVersion := w\<rparr>)),
      (''credential_version'', set_uint (\<lambda>w c. c\<lparr>ctx_CredentialVersion := w\<rparr>))]"

definition zero_envelope :: Record where
  "zero_envelope = \<lparr>rec_Version = 0, rec_Algorithm = [], rec_RecordID = [], rec_MasterKeyID = [],
     rec_Context = \<lparr>ctx_CredentialID = [], ctx_OrganizationID = [], ctx_SchemaVersion = 0, ctx_CredentialVersion = 0\<rparr>,
     rec_PayloadNonce = [], rec_Ciphertext = [], rec_WrapNonce = [], rec_WrappedDataKey = []\<rparr>"

definition envelope_fields :: "(string \<times> Record setter) list" where
  "envelope_fields =
     [(''version'', set_uint (\<lambda>w r. r\<lparr>rec_Version := w\<rparr>)),
      (''algorithm'', set_string (\<lambda>s r. r\<lparr>rec_Algorithm := s\<rparr>)),
      (''record_id'', set_string (\<lambda>s r. r\<lparr>rec_RecordID := s\<rparr>)),
      (''master_key_id'', set_string (\<lambda>s r. r\<lparr>rec_MasterKeyID := s\<rparr>)),
      (''context'', set_struct False context_fields rec_Context (\<lambda>c r. r\<lparr>rec_Context := c\<rparr>)),
      (''payload_nonce'', set_bytes (\<lambda>b r. r\<lparr>rec_PayloadNonce := b\<rparr>)),
      (''ciphertext'', set_bytes (\<lambda>b r. r\<lparr>rec_Ciphertext := b\<rparr>)),
      (''wrap_nonce'', set_bytes (\<lambda>b r. r\<lparr>rec_WrapNonce := b\<rparr>)),
      (''wrapped_data_key'', set_bytes (\<lambda>b r. r\<lparr>rec_WrappedDataKey := b\<rparr>))]"

definition unmarshal_envelope :: "string \<Rightarrow> Record option" where
  "unmarshal_envelope s = decode_struct False envelope_fields zero_envelope s"

section \<open>Round trips\<close>

lemma json_elements_Cons: "json_elements (t # ts) = t @ (if ts = [] then [] else '','' @ json_elements ts)"
  by (cases ts) simp_all

lemma pelems_json_elements:
  assumes "ss \<noteq> []" and "list_all valid_utf8 ss" and "2 * length ss \<le> n"
  shows "pelems n d (json_elements (map json_string ss) @ CHR '']'' # rest) = Some (map JString ss, rest)"
  using assms
proof (induction ss arbitrary: n)
  case (Cons s ss)
  from Cons.prems(3) obtain m where n: "n = Suc (Suc m)" by (cases n; cases "n - 1") auto
  have c: "skip_ws (CHR '']'' # x) = CHR '']'' # x" "skip_ws (CHR '','' # x) = CHR '','' # x" for x
    by (simp_all add: skip_ws_def json_space_def)
  have s: "pvalue (Suc m) d (json_string s @ x) = Some (JString s, x)" for x
    using Cons.prems(2) by (simp add: pvalue_json_string del: pvalue.simps)
  have "ss \<noteq> [] \<Longrightarrow> pelems (Suc m) d (json_elements (map json_string ss) @ CHR '']'' # rest) = Some (map JString ss, rest)"
    by (intro Cons.IH) (use Cons.prems n in auto)
  then show ?case
    by (cases "ss = []") (simp_all add: n json_elements_Cons s c del: pvalue.simps pelems.simps(2) add: pelems.simps(2) [of "Suc m"])
qed simp

lemma reads_null: "reads h ''null'' JNull"
  by (auto simp: reads_def literal_def HasPrefix_def skip_ws_def json_space_def)

lemma length_json_elements: "2 * length ss \<le> length (json_elements (map json_string ss))"
  by (induction ss) (auto simp: json_elements_Cons json_string_def)

definition strings_value :: "string list \<Rightarrow> json" where
  "strings_value ss = (if ss = [] then JNull else JArray (map JString ss))"

lemma reads_strings:
  assumes "list_all valid_utf8 ss"
  shows "reads (Suc h) (json_strings ss) (strings_value ss)"
proof (cases "ss = []")
  case False
  then obtain u where u: "json_elements (map json_string ss) = quote # u"
    by (cases "map json_string ss" rule: json_elements.cases) (auto simp: json_string_def)
  have "\<not> HasPrefix (skip_ws (json_elements (map json_string ss) @ x)) '']''" for x
    by (simp add: u HasPrefix_def)
  moreover have "skip_ws (CHR ''['' # x) = CHR ''['' # x" "\<not> json_space (CHR ''['')" for x by (simp_all add: skip_ws_def json_space_def)
  ultimately show ?thesis
    using False pelems_json_elements [OF False assms] length_json_elements [of ss]
    by (auto simp: reads_def json_strings_def json_array_def strings_value_def)
qed (simp add: json_strings_def strings_value_def reads_null)

lemma fill_strings_map: "fill_strings olds (map JString ss) = Some ss"
  by (induction ss arbitrary: olds) auto

lemma decode_strings_member:
  "find_field fs k = Some (set_strings get put) \<Longrightarrow>
   decode_members strict fs ((k, strings_value ss, t) # ms) x = decode_members strict fs ms (put ss x)"
  by (simp add: set_strings_def strings_value_def fill_strings_map)

definition bytes_value :: "bytes \<Rightarrow> json" where
  "bytes_value b = (if b = [] then JNull else JString (base64_encode b))"

lemma reads_bytes: "reads h (json_bytes b) (bytes_value b)"
  by (simp add: json_bytes_def bytes_value_def reads_null reads_string base64_utf8)

lemma decode_bytes_member:
  "find_field fs k = Some (set_bytes put) \<Longrightarrow>
   decode_members strict fs ((k, bytes_value b, t) # ms) x = decode_members strict fs ms (put b x)"
  by (simp add: set_bytes_def bytes_value_def base64_roundtrip)

definition metadata_utf8 :: "Metadata \<Rightarrow> bool" where
  "metadata_utf8 m \<longleftrightarrow> valid_utf8 (md_ID m) \<and> valid_utf8 (md_OrganizationID m) \<and> valid_utf8 (md_Name m) \<and>
     valid_utf8 (md_CredentialType m) \<and> list_all valid_utf8 (md_SecretFields m)"

definition metadata_members :: "Metadata \<Rightarrow> string \<Rightarrow> string \<Rightarrow> (string \<times> json \<times> string) list" where
  "metadata_members m created updated =
     [str_member ''id'' (md_ID m), str_member ''organization_id'' (md_OrganizationID m), str_member ''name'' (md_Name m),
      str_member ''credential_type'' (md_CredentialType m), nat_member ''schema_version'' (unat (md_SchemaVersion m)),
      nat_member ''version'' (unat (md_Version m)), str_member ''state'' (state_string (md_State m)),
      (''secret_fields'', strings_value (md_SecretFields m), json_strings (md_SecretFields m)),
      (''created_at'', JString (rfc3339 (utc (md_CreatedAt m))), created),
      (''updated_at'', JString (rfc3339 (utc (md_UpdatedAt m))), updated)]"

lemma metadata_find:
  "find_field metadata_fields ''id'' = Some (set_string (\<lambda>s m. m\<lparr>md_ID := s\<rparr>))"
  "find_field metadata_fields ''organization_id'' = Some (set_string (\<lambda>s m. m\<lparr>md_OrganizationID := s\<rparr>))"
  "find_field metadata_fields ''name'' = Some (set_string (\<lambda>s m. m\<lparr>md_Name := s\<rparr>))"
  "find_field metadata_fields ''credential_type'' = Some (set_string (\<lambda>s m. m\<lparr>md_CredentialType := s\<rparr>))"
  "find_field metadata_fields ''schema_version'' = Some (set_uint (\<lambda>w m. m\<lparr>md_SchemaVersion := w\<rparr>))"
  "find_field metadata_fields ''version'' = Some (set_uint (\<lambda>w m. m\<lparr>md_Version := w\<rparr>))"
  "find_field metadata_fields ''state'' = Some (set_state (\<lambda>s m. m\<lparr>md_State := s\<rparr>))"
  "find_field metadata_fields ''secret_fields'' = Some (set_strings md_SecretFields (\<lambda>l m. m\<lparr>md_SecretFields := l\<rparr>))"
  "find_field metadata_fields ''created_at'' = Some (set_time (\<lambda>t m. m\<lparr>md_CreatedAt := z_instant t\<rparr>))"
  "find_field metadata_fields ''updated_at'' = Some (set_time (\<lambda>t m. m\<lparr>md_UpdatedAt := z_instant t\<rparr>))"
  by (simp_all add: find_field_def metadata_fields_def)

lemma decode_state_member:
  "find_field fs k = Some (set_state put) \<Longrightarrow>
   decode_members strict fs (str_member k (state_string s) # ms) x = decode_members strict fs ms (put s x)"
  by (cases s) (simp_all add: str_member_def set_state_def state_string_def)

lemmas metadata_steps = metadata_find(1-4) [THEN decode_str_member] metadata_find(5,6) [THEN decode_nat_member]
  metadata_find(7) [THEN decode_state_member] metadata_find(8) [THEN decode_strings_member]
  metadata_find(9,10) [THEN decode_time_member]

lemma unmarshal_marshal_metadata:
  assumes "marshal_metadata m = Some s" and "metadata_utf8 m"
  shows "unmarshal_metadata s = Some m"
proof -
  from assms(1) obtain c u where c: "marshal_time (utc (md_CreatedAt m)) = Some c" and u: "marshal_time (utc (md_UpdatedAt m)) = Some u"
    by (auto simp: marshal_metadata_def bind_eq_Some_conv)
  let ?ms = "metadata_members m c u"
  have s: "s = json_object (map (\<lambda>(k, v, t). (k, t)) ?ms)"
    using assms(1) c u by (simp add: marshal_metadata_def metadata_members_def del: case_prod_conv)
  have n: "valid_utf8 ''id''" "valid_utf8 ''organization_id''" "valid_utf8 ''name''" "valid_utf8 ''credential_type''"
    "valid_utf8 ''schema_version''" "valid_utf8 ''version''" "valid_utf8 ''state''" "valid_utf8 ''secret_fields''"
    "valid_utf8 ''created_at''" "valid_utf8 ''updated_at''" "valid_utf8 ''active''" "valid_utf8 ''retired''"
    by (rule valid_utf8_ascii, simp)+
  have st: "valid_utf8 (state_string (md_State m))" using n by (cases "md_State m") (simp_all add: state_string_def)
  have r: "valid_utf8 k \<and> reads 1 t v" if "(k, v, t) \<in> set ?ms" for k v t
    using that assms(2) n st marshal_time_text(1,2) [OF c] marshal_time_text(1,2) [OF u]
    by (auto simp: metadata_members_def str_member_def nat_member_def metadata_utf8_def reads_nat reads_string reads_strings)
  have "unmarshal_metadata s = decode_members False metadata_fields ?ms zero_metadata"
    unfolding unmarshal_metadata_def s
    by (rule decode_struct_object [of ?ms 1, OF _ r]) (simp_all add: metadata_members_def max_depth_def)
  also have "\<dots> = Some m"
    using c u by (simp add: metadata_members_def metadata_steps zero_metadata_def del: decode_members.simps(2))
  finally show ?thesis .
qed

definition envelope_utf8 :: "Record \<Rightarrow> bool" where
  "envelope_utf8 r \<longleftrightarrow> valid_utf8 (rec_Algorithm r) \<and> valid_utf8 (rec_RecordID r) \<and> valid_utf8 (rec_MasterKeyID r) \<and>
     valid_utf8 (ctx_CredentialID (rec_Context r)) \<and> valid_utf8 (ctx_OrganizationID (rec_Context r))"

definition context_members :: "Context \<Rightarrow> (string \<times> json \<times> string) list" where
  "context_members c =
     [str_member ''credential_id'' (ctx_CredentialID c), str_member ''organization_id'' (ctx_OrganizationID c),
      nat_member ''schema_version'' (unat (ctx_SchemaVersion c)), nat_member ''credential_version'' (unat (ctx_CredentialVersion c))]"

definition envelope_members :: "Record \<Rightarrow> (string \<times> json \<times> string) list" where
  "envelope_members r =
     [nat_member ''version'' (unat (rec_Version r)), str_member ''algorithm'' (rec_Algorithm r),
      str_member ''record_id'' (rec_RecordID r), str_member ''master_key_id'' (rec_MasterKeyID r),
      (''context'', JObject (forget_raw (context_members (rec_Context r))), marshal_context (rec_Context r)),
      (''payload_nonce'', bytes_value (rec_PayloadNonce r), json_bytes (rec_PayloadNonce r)),
      (''ciphertext'', bytes_value (rec_Ciphertext r), json_bytes (rec_Ciphertext r)),
      (''wrap_nonce'', bytes_value (rec_WrapNonce r), json_bytes (rec_WrapNonce r)),
      (''wrapped_data_key'', bytes_value (rec_WrappedDataKey r), json_bytes (rec_WrappedDataKey r))]"

lemma envelope_find:
  "find_field envelope_fields ''version'' = Some (set_uint (\<lambda>w r. r\<lparr>rec_Version := w\<rparr>))"
  "find_field envelope_fields ''algorithm'' = Some (set_string (\<lambda>s r. r\<lparr>rec_Algorithm := s\<rparr>))"
  "find_field envelope_fields ''record_id'' = Some (set_string (\<lambda>s r. r\<lparr>rec_RecordID := s\<rparr>))"
  "find_field envelope_fields ''master_key_id'' = Some (set_string (\<lambda>s r. r\<lparr>rec_MasterKeyID := s\<rparr>))"
  "find_field envelope_fields ''context'' = Some (set_struct False context_fields rec_Context (\<lambda>c r. r\<lparr>rec_Context := c\<rparr>))"
  "find_field envelope_fields ''payload_nonce'' = Some (set_bytes (\<lambda>b r. r\<lparr>rec_PayloadNonce := b\<rparr>))"
  "find_field envelope_fields ''ciphertext'' = Some (set_bytes (\<lambda>b r. r\<lparr>rec_Ciphertext := b\<rparr>))"
  "find_field envelope_fields ''wrap_nonce'' = Some (set_bytes (\<lambda>b r. r\<lparr>rec_WrapNonce := b\<rparr>))"
  "find_field envelope_fields ''wrapped_data_key'' = Some (set_bytes (\<lambda>b r. r\<lparr>rec_WrappedDataKey := b\<rparr>))"
  "find_field context_fields ''credential_id'' = Some (set_string (\<lambda>s c. c\<lparr>ctx_CredentialID := s\<rparr>))"
  "find_field context_fields ''organization_id'' = Some (set_string (\<lambda>s c. c\<lparr>ctx_OrganizationID := s\<rparr>))"
  "find_field context_fields ''schema_version'' = Some (set_uint (\<lambda>w c. c\<lparr>ctx_SchemaVersion := w\<rparr>))"
  "find_field context_fields ''credential_version'' = Some (set_uint (\<lambda>w c. c\<lparr>ctx_CredentialVersion := w\<rparr>))"
  by (simp_all add: find_field_def envelope_fields_def context_fields_def)

lemmas envelope_steps = envelope_find(1,12,13) [THEN decode_nat_member] envelope_find(2-4,10,11) [THEN decode_str_member]
  envelope_find(6-9) [THEN decode_bytes_member]

lemma decode_context: "decode_members False context_fields (context_members c) d = Some c"
  by (simp add: context_members_def envelope_steps del: decode_members.simps(2))

lemma unmarshal_marshal_envelope:
  assumes "envelope_utf8 r"
  shows "unmarshal_envelope (marshal_envelope r) = Some r"
proof -
  let ?c = "rec_Context r"
  have n: "valid_utf8 ''version''" "valid_utf8 ''algorithm''" "valid_utf8 ''record_id''" "valid_utf8 ''master_key_id''"
    "valid_utf8 ''context''" "valid_utf8 ''payload_nonce''" "valid_utf8 ''ciphertext''" "valid_utf8 ''wrap_nonce''"
    "valid_utf8 ''wrapped_data_key''" "valid_utf8 ''credential_id''" "valid_utf8 ''organization_id''"
    "valid_utf8 ''schema_version''" "valid_utf8 ''credential_version''"
    by (rule valid_utf8_ascii, simp)+
  have t: "marshal_context ?c = json_object (map (\<lambda>(k, v, t). (k, t)) (context_members ?c))"
    by (simp add: marshal_context_def context_members_def del: case_prod_conv)
  have c: "valid_utf8 k \<and> reads 0 x v" if "(k, v, x) \<in> set (context_members ?c)" for k v x
    using that assms n by (auto simp: context_members_def str_member_def nat_member_def envelope_utf8_def reads_nat reads_string)
  have ne: "context_members ?c \<noteq> []" by (simp add: context_members_def)
  have o: "object_members (marshal_context ?c) = Some (context_members ?c)"
    unfolding t by (rule json_object_members [OF ne c]) (simp_all add: max_depth_def)
  have "reads (Suc 0) (marshal_context ?c) (JObject (forget_raw (context_members ?c)))"
    unfolding t by (rule reads_object [OF ne c])
  then have m: "valid_utf8 k \<and> reads 1 x v" if "(k, v, x) \<in> set (envelope_members r)" for k v x
    using that assms n
    by (auto simp: envelope_members_def str_member_def nat_member_def envelope_utf8_def reads_nat reads_string reads_bytes)
  have "marshal_envelope r = json_object (map (\<lambda>(k, v, t). (k, t)) (envelope_members r))"
    by (simp add: marshal_envelope_def envelope_members_def del: case_prod_conv)
  then have "unmarshal_envelope (marshal_envelope r) = decode_members False envelope_fields (envelope_members r) zero_envelope"
    unfolding unmarshal_envelope_def
    by (simp only:) (rule decode_struct_object [of _ 1, OF _ m], simp_all add: envelope_members_def max_depth_def)
  also have "\<dots> = Some r"
  proof -
    have "decode_members False envelope_fields ((''context'', JObject (forget_raw (context_members ?c)), marshal_context ?c) # ms) x =
        decode_members False envelope_fields ms (x\<lparr>rec_Context := ?c\<rparr>)" for ms x
      by (simp add: envelope_find set_struct_def o decode_context)
    then show ?thesis
      by (simp add: envelope_members_def envelope_steps zero_envelope_def del: decode_members.simps(2))
  qed
  finally show ?thesis .
qed

end
