(* ===== verification/Transport_Bodies.thy ===== *)
theory Transport_Bodies
  imports Transport_Request Credential_Json
begin

text \<open>
  The JSON documents of the HTTP boundary: the request bodies of \<open>transport/server.go\<close> and
  \<open>transport/rotation.go\<close> as records with the table of their fields, and the encoding of the
  security status. The encodings of the credential manager's answers are in \<open>Credential_Json\<close>.
\<close>

section \<open>Request bodies\<close>

record actorBody =
  ab_UserID :: string
  ab_Username :: string
  ab_AuthorizationDecisionID :: string

definition zero_actor :: actorBody where
  "zero_actor = \<lparr>ab_UserID = [], ab_Username = [], ab_AuthorizationDecisionID = []\<rparr>"

definition actor_fields :: "(string \<times> actorBody setter) list" where
  "actor_fields =
     [(''user_id'', set_string (\<lambda>s a. a\<lparr>ab_UserID := s\<rparr>)),
      (''username'', set_string (\<lambda>s a. a\<lparr>ab_Username := s\<rparr>)),
      (''authorization_decision_id'', set_string (\<lambda>s a. a\<lparr>ab_AuthorizationDecisionID := s\<rparr>))]"

definition validActor :: "actorBody \<Rightarrow> bool" where
  "validActor actor \<longleftrightarrow>
     (let combined = length (ab_UserID actor) + (if ab_Username actor \<noteq> [] then 1 + length (ab_Username actor) else 0) in
      ab_UserID actor \<noteq> [] \<and> combined \<le> 255 \<and>
      \<not> ContainsAny (ab_UserID actor @ ab_Username actor @ ab_AuthorizationDecisionID actor) [nul, CHR 0x0D, CHR 0x0A] \<and>
      length (ab_AuthorizationDecisionID actor) \<le> 255)"

definition human_actor :: "actorBody \<Rightarrow> string" where
  "human_actor actor =
     (if ab_Username actor \<noteq> [] then ab_UserID actor @ '':'' @ ab_Username actor else ab_UserID actor)"

definition actorContext :: "audit_Request \<Rightarrow> actorBody \<Rightarrow> audit_Request" where
  "actorContext ctx actor = ctx\<lparr>ar_HumanActor := human_actor actor\<rparr>"

record createCredentialBody =
  cc_OrganizationID :: string
  cc_Name :: string
  cc_CredentialType :: string
  cc_SchemaVersion :: "32 word"
  cc_Inputs :: inputs
  cc_Actor :: actorBody

definition zero_create :: createCredentialBody where
  "zero_create = \<lparr>cc_OrganizationID = [], cc_Name = [], cc_CredentialType = [], cc_SchemaVersion = 0, cc_Inputs = [],
     cc_Actor = zero_actor\<rparr>"

definition create_fields :: "(string \<times> createCredentialBody setter) list" where
  "create_fields =
     [(''organization_id'', set_string (\<lambda>s b. b\<lparr>cc_OrganizationID := s\<rparr>)),
      (''name'', set_string (\<lambda>s b. b\<lparr>cc_Name := s\<rparr>)),
      (''credential_type'', set_string (\<lambda>s b. b\<lparr>cc_CredentialType := s\<rparr>)),
      (''schema_version'', set_uint (\<lambda>w b. b\<lparr>cc_SchemaVersion := w\<rparr>)),
      (''inputs'', set_map cc_Inputs (\<lambda>m b. b\<lparr>cc_Inputs := m\<rparr>)),
      (''actor'', set_struct True actor_fields cc_Actor (\<lambda>a b. b\<lparr>cc_Actor := a\<rparr>))]"

record replaceCredentialBody =
  rpb_ExpectedVersion :: "64 word"
  rpb_Inputs :: inputs
  rpb_Actor :: actorBody

definition zero_replace :: replaceCredentialBody where
  "zero_replace = \<lparr>rpb_ExpectedVersion = 0, rpb_Inputs = [], rpb_Actor = zero_actor\<rparr>"

definition replace_fields :: "(string \<times> replaceCredentialBody setter) list" where
  "replace_fields =
     [(''expected_version'', set_uint (\<lambda>w b. b\<lparr>rpb_ExpectedVersion := w\<rparr>)),
      (''inputs'', set_map rpb_Inputs (\<lambda>m b. b\<lparr>rpb_Inputs := m\<rparr>)),
      (''actor'', set_struct True actor_fields rpb_Actor (\<lambda>a b. b\<lparr>rpb_Actor := a\<rparr>))]"

record updateCredentialBody =
  up_ExpectedVersion :: "64 word"
  up_Name :: string
  up_Actor :: actorBody

definition zero_update :: updateCredentialBody where
  "zero_update = \<lparr>up_ExpectedVersion = 0, up_Name = [], up_Actor = zero_actor\<rparr>"

definition update_fields :: "(string \<times> updateCredentialBody setter) list" where
  "update_fields =
     [(''expected_version'', set_uint (\<lambda>w b. b\<lparr>up_ExpectedVersion := w\<rparr>)),
      (''name'', set_string (\<lambda>s b. b\<lparr>up_Name := s\<rparr>)),
      (''actor'', set_struct True actor_fields up_Actor (\<lambda>a b. b\<lparr>up_Actor := a\<rparr>))]"

record retireCredentialBody =
  rtb_ExpectedVersion :: "64 word"
  rtb_Actor :: actorBody

definition zero_retire :: retireCredentialBody where
  "zero_retire = \<lparr>rtb_ExpectedVersion = 0, rtb_Actor = zero_actor\<rparr>"

definition retire_fields :: "(string \<times> retireCredentialBody setter) list" where
  "retire_fields =
     [(''expected_version'', set_uint (\<lambda>w b. b\<lparr>rtb_ExpectedVersion := w\<rparr>)),
      (''actor'', set_struct True actor_fields rtb_Actor (\<lambda>a b. b\<lparr>rtb_Actor := a\<rparr>))]"

record registerBindingBody =
  bb_RunID :: string
  bb_DispatchID :: string
  bb_OrganizationID :: string
  bb_CredentialID :: string
  bb_ExecutorIdentity :: string
  bb_NotBefore :: zoned
  bb_ExpiresAt :: zoned
  bb_MaxResolutions :: "32 word"

definition zero_register :: registerBindingBody where
  "zero_register = \<lparr>bb_RunID = [], bb_DispatchID = [], bb_OrganizationID = [], bb_CredentialID = [],
     bb_ExecutorIdentity = [], bb_NotBefore = utc zero_time, bb_ExpiresAt = utc zero_time, bb_MaxResolutions = 0\<rparr>"

definition register_fields :: "(string \<times> registerBindingBody setter) list" where
  "register_fields =
     [(''run_id'', set_string (\<lambda>s b. b\<lparr>bb_RunID := s\<rparr>)),
      (''dispatch_id'', set_string (\<lambda>s b. b\<lparr>bb_DispatchID := s\<rparr>)),
      (''organization_id'', set_string (\<lambda>s b. b\<lparr>bb_OrganizationID := s\<rparr>)),
      (''credential_id'', set_string (\<lambda>s b. b\<lparr>bb_CredentialID := s\<rparr>)),
      (''executor_identity'', set_string (\<lambda>s b. b\<lparr>bb_ExecutorIdentity := s\<rparr>)),
      (''not_before'', set_time (\<lambda>t b. b\<lparr>bb_NotBefore := t\<rparr>)),
      (''expires_at'', set_time (\<lambda>t b. b\<lparr>bb_ExpiresAt := t\<rparr>)),
      (''max_resolutions'', set_uint (\<lambda>w b. b\<lparr>bb_MaxResolutions := w\<rparr>))]"

record cancelBindingBody =
  cn_DispatchID :: string
  cn_Reason :: string

definition zero_cancel :: cancelBindingBody where
  "zero_cancel = \<lparr>cn_DispatchID = [], cn_Reason = []\<rparr>"

definition cancel_fields :: "(string \<times> cancelBindingBody setter) list" where
  "cancel_fields =
     [(''dispatch_id'', set_string (\<lambda>s b. b\<lparr>cn_DispatchID := s\<rparr>)),
      (''reason'', set_string (\<lambda>s b. b\<lparr>cn_Reason := s\<rparr>))]"

record resolveBody =
  rs_AttemptID :: string
  rs_RequestedAt :: zoned

definition zero_resolve :: resolveBody where
  "zero_resolve = \<lparr>rs_AttemptID = [], rs_RequestedAt = utc zero_time\<rparr>"

definition resolve_fields :: "(string \<times> resolveBody setter) list" where
  "resolve_fields =
     [(''attempt_id'', set_string (\<lambda>s b. b\<lparr>rs_AttemptID := s\<rparr>)),
      (''requested_at'', set_time (\<lambda>t b. b\<lparr>rs_RequestedAt := t\<rparr>))]"

text \<open>The three bodies with one member each, as the value of that member.\<close>

definition resume_fields :: "(string \<times> int setter) list" where
  "resume_fields = [(''batch_size'', set_int (\<lambda>n _. n))]"

definition rotate_credential_fields :: "(string \<times> string setter) list" where
  "rotate_credential_fields = [(''organization_id'', set_string (\<lambda>s _. s))]"

definition recovery_fields :: "(string \<times> int setter) list" where
  "recovery_fields = [(''sample_size'', set_int (\<lambda>n _. n))]"

definition zero_backup :: BackupSet where
  "zero_backup = \<lparr>bk_ID = [], bk_ArtifactSHA256 = [], bk_KeyIDs = [], bk_CreatedAt = utc zero_time,
     bk_RetainUntil = utc zero_time, bk_ExpiredAt = utc zero_time\<rparr>"

definition backup_fields :: "(string \<times> BackupSet setter) list" where
  "backup_fields =
     [(''id'', set_string (\<lambda>s b. b\<lparr>bk_ID := s\<rparr>)),
      (''artifact_sha256'', set_string (\<lambda>s b. b\<lparr>bk_ArtifactSHA256 := s\<rparr>)),
      (''key_ids'', set_strings bk_KeyIDs (\<lambda>l b. b\<lparr>bk_KeyIDs := l\<rparr>)),
      (''created_at'', set_time (\<lambda>t b. b\<lparr>bk_CreatedAt := t\<rparr>)),
      (''retain_until'', set_time (\<lambda>t b. b\<lparr>bk_RetainUntil := t\<rparr>)),
      (''expired_at'', set_time (\<lambda>t b. b\<lparr>bk_ExpiredAt := t\<rparr>))]"

section \<open>The answer of the security status\<close>

definition marshal_security :: "SecurityStatus \<Rightarrow> string option" where
  "marshal_security s = do {
     last \<leftarrow> marshal_time (utc (ss_LastAuditDelivery s));
     Some (json_object
       [(''audit_integrity_healthy'', json_bool (ss_AuditIntegrityHealthy s)),
        (''audit_delivery_degraded'', json_bool (ss_AuditDeliveryDegraded s)),
        (''pending_audit_events'', json_int (ss_PendingAuditEvents s)),
        (''maximum_pending_audit_events'', json_int (ss_MaximumPendingAuditEvents s)),
        (''last_audit_delivery'', last)])}"

end
