(* ===== verification/Transport_Server.thy ===== *)
theory Transport_Server
  imports Transport_Bodies
begin

text \<open>
  The HTTP server (\<open>transport/server.go\<close>, \<open>transport/rotation.go\<close>): routing, authorization by
  role, decoding, the call to the credential service, the answer and the completion audit event.
  The interfaces \<open>CredentialService\<close> and \<open>AuditRecorder\<close> are records of operations over a state
  \<open>'s\<close>; a context is the audit request it carries. The response writer is a record that the
  handlers update; its header map is keyed by canonical names.
\<close>

section \<open>Interfaces\<close>

record 's CredentialService =
  sv_CreateContext :: "audit_Request \<Rightarrow> CreateRequest \<Rightarrow> 's \<Rightarrow> (cred_error + Metadata) \<times> 's"
  sv_GetContext :: "audit_Request \<Rightarrow> string \<Rightarrow> string \<Rightarrow> 's \<Rightarrow> (cred_error + Metadata) \<times> 's"
  sv_ReplaceInputsContext :: "audit_Request \<Rightarrow> ReplaceInputsRequest \<Rightarrow> 's \<Rightarrow> (cred_error + Metadata) \<times> 's"
  sv_UpdateMetadataContext :: "audit_Request \<Rightarrow> UpdateMetadataRequest \<Rightarrow> 's \<Rightarrow> (cred_error + Metadata) \<times> 's"
  sv_RetireContext :: "audit_Request \<Rightarrow> RetireRequest \<Rightarrow> 's \<Rightarrow> (cred_error + Metadata) \<times> 's"
  sv_RegisterBinding ::
    "audit_Request \<Rightarrow> WorkloadIdentity \<Rightarrow> RegisterBindingRequest \<Rightarrow> 's \<Rightarrow> (cred_error + Binding) \<times> 's"
  sv_InspectBinding :: "audit_Request \<Rightarrow> WorkloadIdentity \<Rightarrow> string \<Rightarrow> 's \<Rightarrow> (cred_error + Binding) \<times> 's"
  sv_CancelBinding ::
    "audit_Request \<Rightarrow> WorkloadIdentity \<Rightarrow> CancelBindingRequest \<Rightarrow> 's \<Rightarrow> (cred_error + Binding) \<times> 's"
  sv_Resolve ::
    "audit_Request \<Rightarrow> WorkloadIdentity \<Rightarrow> ResolveRequest \<Rightarrow> 's \<Rightarrow> (cred_error + ResolvedCredential) \<times> 's"
  sv_StartMasterKeyRotation :: "audit_Request \<Rightarrow> 's \<Rightarrow> (cred_error + Rotation) \<times> 's"
  sv_GetMasterKeyRotation :: "audit_Request \<Rightarrow> string \<Rightarrow> 's \<Rightarrow> (cred_error + Rotation) \<times> 's"
  sv_ResumeMasterKeyRotation :: "audit_Request \<Rightarrow> string \<Rightarrow> int \<Rightarrow> 's \<Rightarrow> (cred_error + Rotation) \<times> 's"
  sv_FinalizeMasterKeyRotation :: "audit_Request \<Rightarrow> string \<Rightarrow> 's \<Rightarrow> (cred_error + Rotation) \<times> 's"
  sv_RotateCredentialKey :: "audit_Request \<Rightarrow> CredentialRotationRequest \<Rightarrow> 's \<Rightarrow> (cred_error + unit) \<times> 's"
  sv_KeyStatus :: "audit_Request \<Rightarrow> 's \<Rightarrow> (cred_error + KeyStatus) \<times> 's"
  sv_ValidateRecovery :: "audit_Request \<Rightarrow> int \<Rightarrow> 's \<Rightarrow> (cred_error + RecoveryValidation) \<times> 's"
  sv_RegisterBackup :: "audit_Request \<Rightarrow> BackupSet \<Rightarrow> 's \<Rightarrow> (cred_error + BackupSet) \<times> 's"
  sv_ExpireBackup :: "audit_Request \<Rightarrow> string \<Rightarrow> 's \<Rightarrow> (cred_error + BackupSet) \<times> 's"

text \<open>The result of \<open>Record\<close> is dropped by its caller.\<close>

record 's AuditRecorder =
  au_Record :: "Event \<Rightarrow> 's \<Rightarrow> 's"
  au_Status :: "'s \<Rightarrow> (audit_error + SecurityStatus) \<times> 's"

record 's Server =
  srv_service :: "'s CredentialService"
  srv_mapper :: SPIFFEMapper
  srv_auditor :: "'s AuditRecorder option"

definition NewServer :: "'s CredentialService option \<Rightarrow> SPIFFEMapper \<Rightarrow> 's AuditRecorder list \<Rightarrow> cred_error + 's Server" where
  "NewServer service mapper auditors =
     (case service of None \<Rightarrow> Inl ErrInvalidInput
      | Some svc \<Rightarrow>
          if sm_TrustDomain mapper = [] \<or> length auditors > 1 then Inl ErrInvalidInput
          else Inr \<lparr>srv_service = svc, srv_mapper = mapper,
                    srv_auditor = (if length auditors = 1 then Some (auditors ! 0) else None)\<rparr>)"

section \<open>Answers\<close>

record observedWriter =
  ow_Header :: "(string, string) gomap"
  ow_status :: int
  ow_requestID :: string
  ow_reason :: string
  ow_body :: string

definition set_header :: "string \<Rightarrow> string \<Rightarrow> observedWriter \<Rightarrow> observedWriter" where
  "set_header name value w = w\<lparr>ow_Header := mput name value (ow_Header w)\<rparr>"

definition WriteHeader :: "int \<Rightarrow> observedWriter \<Rightarrow> observedWriter" where
  "WriteHeader status w = w\<lparr>ow_status := status\<rparr>"

definition newRequestID :: "bytes \<Rightarrow> string" where
  "newRequestID source =
     (case randomBytes source 16 of (None, _) \<Rightarrow> ''request-unavailable'' | (Some value, _) \<Rightarrow> hex_encode value)"

definition secureHeaders :: "observedWriter \<Rightarrow> observedWriter" where
  "secureHeaders w =
     set_header ''X-Content-Type-Options'' ''nosniff'' (set_header ''Pragma'' ''no-cache'' (set_header ''Cache-Control'' ''no-store'' w))"

text \<open>\<open>json.Encoder.Encode\<close> ends the document with a line feed.\<close>

definition encode_body :: "string \<Rightarrow> observedWriter \<Rightarrow> observedWriter" where
  "encode_body t w = w\<lparr>ow_body := ow_body w @ t @ [CHR 0x0A]\<rparr>"

definition writeProblem :: "int \<Rightarrow> string \<Rightarrow> observedWriter \<Rightarrow> observedWriter" where
  "writeProblem status reason w =
     encode_body (json_object [(''code'', json_string reason), (''status'', json_int status),
         (''request_id'', json_string (ow_requestID w))])
       (WriteHeader status (set_header ''Content-Type'' ''application/problem+json'' (w\<lparr>ow_reason := reason\<rparr>)))"

definition writeJSON :: "int \<Rightarrow> string option \<Rightarrow> observedWriter \<Rightarrow> observedWriter" where
  "writeJSON status encoded w =
     (let w' = WriteHeader status (set_header ''Content-Type'' ''application/json'' w) in
      case encoded of None \<Rightarrow> w' | Some t \<Rightarrow> encode_body t w')"

definition writeDecodeProblem :: "decode_error \<Rightarrow> observedWriter \<Rightarrow> observedWriter" where
  "writeDecodeProblem e w =
     (case e of errTooLarge \<Rightarrow> writeProblem 413 ''request_too_large'' w
      | errInvalidJSON \<Rightarrow> writeProblem 400 ''invalid_request'' w)"

definition service_problem :: "cred_error \<Rightarrow> int \<times> string" where
  "service_problem e =
     (case e of
        ErrInvalidInput \<Rightarrow> (400, ''invalid_request'')
      | ErrUnauthorized \<Rightarrow> (403, ''operation_not_permitted'')
      | ErrBindingNotActive \<Rightarrow> (403, ''run_binding_not_active'')
      | ErrNotFound \<Rightarrow> (404, ''resource_not_found'')
      | ErrBindingNotFound \<Rightarrow> (404, ''resource_not_found'')
      | ErrBindingConflict \<Rightarrow> (409, ''run_binding_conflict'')
      | ErrIdempotencyConflict \<Rightarrow> (409, ''idempotency_conflict'')
      | ErrVersionConflict \<Rightarrow> (409, ''version_conflict'')
      | ErrCredentialNotActive \<Rightarrow> (409, ''credential_not_active'')
      | ErrAttemptConflict \<Rightarrow> (409, ''attempt_conflict'')
      | ErrRotationConflict \<Rightarrow> (409, ''rotation_conflict'')
      | ErrRotationNotReady \<Rightarrow> (409, ''rotation_not_ready'')
      | ErrRotationUnavailable \<Rightarrow> (503, ''rotation_unavailable'')
      | ErrBackupConflict \<Rightarrow> (409, ''backup_conflict'')
      | ErrRecoveryValidation \<Rightarrow> (409, ''recovery_validation_failed'')
      | ErrStorage \<Rightarrow> (503, ''service_unavailable'')
      | _ \<Rightarrow> (500, ''secure_operation_failed''))"

definition writeServiceProblem :: "cred_error \<Rightarrow> observedWriter \<Rightarrow> observedWriter" where
  "writeServiceProblem e w = (case service_problem e of (status, reason) \<Rightarrow> writeProblem status reason w)"

type_synonym 's handled = "observedWriter \<times> 's"

text \<open>The common tail of the handlers: a problem for an error, else the given answer.\<close>

definition answer :: "('a \<Rightarrow> observedWriter \<Rightarrow> observedWriter) \<Rightarrow> observedWriter \<Rightarrow> (cred_error + 'a) \<times> 's \<Rightarrow> 's handled" where
  "answer ok w res =
     (case res of (Inl e, s) \<Rightarrow> (writeServiceProblem e w, s) | (Inr x, s) \<Rightarrow> (ok x w, s))"

abbreviation problem :: "int \<Rightarrow> string \<Rightarrow> observedWriter \<Rightarrow> 's \<Rightarrow> 's handled" where
  "problem status reason w s \<equiv> (writeProblem status reason w, s)"

section \<open>Credential routes\<close>

definition createCredential ::
  "'s Server \<Rightarrow> audit_Request \<Rightarrow> http_request \<Rightarrow> WorkloadIdentity \<Rightarrow> observedWriter \<Rightarrow> 's \<Rightarrow> 's handled" where
  "createCredential server ctx request identity w s =
     (if wi_Role identity \<noteq> RoleAPI then problem 403 ''operation_not_permitted'' w s
      else case decodeJSON create_fields zero_create request of Inl _ \<Rightarrow> problem 400 ''invalid_request'' w s
      | Inr body \<Rightarrow>
      if \<not> validActor (cc_Actor body) then problem 400 ''invalid_request'' w s
      else if length (hr_IdempotencyKeys request) \<noteq> 1 \<or> hr_IdempotencyKeys request ! 0 = []
      then problem 400 ''invalid_request'' w s
      else answer (\<lambda>result w. writeJSON 201 (marshal_metadata result)
               (set_header ''Location'' (''/internal/v1/credentials/'' @ md_ID result) w)) w
             (sv_CreateContext (srv_service server) (actorContext ctx (cc_Actor body))
               \<lparr>cr_OrganizationID = cc_OrganizationID body, cr_Name = cc_Name body,
                cr_CredentialType = cc_CredentialType body, cr_SchemaVersion = cc_SchemaVersion body,
                cr_Inputs = cc_Inputs body, cr_IdempotencyKey = hr_IdempotencyKeys request ! 0\<rparr> s))"

abbreviation json_ok :: "('a \<Rightarrow> string option) \<Rightarrow> 'a \<Rightarrow> observedWriter \<Rightarrow> observedWriter" where
  "json_ok enc \<equiv> (\<lambda>result. writeJSON 200 (enc result))"

definition credentialRoute ::
  "'s Server \<Rightarrow> audit_Request \<Rightarrow> http_request \<Rightarrow> WorkloadIdentity \<Rightarrow> string \<Rightarrow> observedWriter \<Rightarrow> 's \<Rightarrow> 's handled" where
  "credentialRoute server ctx request identity path w s =
     (if wi_Role identity \<noteq> RoleAPI then problem 403 ''operation_not_permitted'' w s
      else let relative = TrimPrefix path ''/internal/v1/credentials/'';
               inputsRoute = HasSuffix relative ''/inputs'';
               retireRoute = HasSuffix relative ''/retire'';
               credentialID = TrimSuffix (TrimSuffix relative ''/inputs'') ''/retire'' in
      if credentialID = [] \<or> Contains credentialID ''/'' then problem 404 ''resource_not_found'' w s
      else let organizationID = TrimSpace (hr_Organization request) in
      if organizationID = [] \<or> length organizationID > 255 then problem 400 ''invalid_request'' w s
      else if hr_Method request = ''GET'' \<and> \<not> inputsRoute \<and> \<not> retireRoute
      then answer (json_ok marshal_metadata) w (sv_GetContext (srv_service server) ctx organizationID credentialID s)
      else if hr_Method request = ''PUT'' \<and> inputsRoute
      then (case decodeJSON replace_fields zero_replace request of Inl _ \<Rightarrow> problem 400 ''invalid_request'' w s
            | Inr body \<Rightarrow>
                if \<not> validActor (rpb_Actor body) then problem 400 ''invalid_request'' w s
                else answer (json_ok marshal_metadata) w
                  (sv_ReplaceInputsContext (srv_service server) (actorContext ctx (rpb_Actor body))
                    \<lparr>ri_CredentialID = credentialID, ri_OrganizationID = organizationID,
                     ri_ExpectedVersion = rpb_ExpectedVersion body, ri_Inputs = rpb_Inputs body\<rparr> s))
      else if hr_Method request = ''PATCH'' \<and> \<not> inputsRoute \<and> \<not> retireRoute
      then (case decodeJSON update_fields zero_update request of Inl _ \<Rightarrow> problem 400 ''invalid_request'' w s
            | Inr body \<Rightarrow>
                if \<not> validActor (up_Actor body) then problem 400 ''invalid_request'' w s
                else answer (json_ok marshal_metadata) w
                  (sv_UpdateMetadataContext (srv_service server) (actorContext ctx (up_Actor body))
                    \<lparr>um_CredentialID = credentialID, um_OrganizationID = organizationID,
                     um_ExpectedVersion = up_ExpectedVersion body, um_Name = up_Name body\<rparr> s))
      else if hr_Method request = ''POST'' \<and> retireRoute
      then (case decodeJSON retire_fields zero_retire request of Inl _ \<Rightarrow> problem 400 ''invalid_request'' w s
            | Inr body \<Rightarrow>
                if \<not> validActor (rtb_Actor body) then problem 400 ''invalid_request'' w s
                else answer (json_ok marshal_metadata) w
                  (sv_RetireContext (srv_service server) (actorContext ctx (rtb_Actor body))
                    \<lparr>rt_CredentialID = credentialID, rt_OrganizationID = organizationID,
                     rt_ExpectedVersion = rtb_ExpectedVersion body\<rparr> s))
      else problem 404 ''resource_not_found'' w s)"

definition securityStatus :: "'s Server \<Rightarrow> WorkloadIdentity \<Rightarrow> observedWriter \<Rightarrow> 's \<Rightarrow> 's handled" where
  "securityStatus server identity w s =
     (if wi_Role identity \<noteq> RoleSecretsOperator \<and> wi_Role identity \<noteq> RoleSecretsAuditor
      then problem 403 ''operation_not_permitted'' w s
      else case srv_auditor server of None \<Rightarrow> problem 503 ''service_unavailable'' w s
      | Some auditor \<Rightarrow>
          (case au_Status auditor s of
             (Inl _, s') \<Rightarrow> problem 503 ''service_unavailable'' w s'
           | (Inr status, s') \<Rightarrow> (writeJSON 200 (marshal_security status) w, s')))"

section \<open>Binding routes\<close>

definition registerBinding ::
  "'s Server \<Rightarrow> audit_Request \<Rightarrow> http_request \<Rightarrow> WorkloadIdentity \<Rightarrow> observedWriter \<Rightarrow> 's \<Rightarrow> 's handled" where
  "registerBinding server ctx request identity w s =
     (if wi_Role identity \<noteq> RoleScheduler then problem 403 ''operation_not_permitted'' w s
      else case decodeJSON register_fields zero_register request of Inl e \<Rightarrow> (writeDecodeProblem e w, s)
      | Inr body \<Rightarrow>
      if length (hr_IdempotencyKeys request) \<noteq> 1 \<or> hr_IdempotencyKeys request ! 0 = []
      then problem 400 ''invalid_request'' w s
      else answer (\<lambda>result w. writeJSON 201 (marshal_binding result)
               (set_header ''Location'' (''/internal/v1/run-bindings/'' @ b_RunID result) w)) w
             (sv_RegisterBinding (srv_service server) ctx identity
               \<lparr>rb_RunID = bb_RunID body, rb_DispatchID = bb_DispatchID body, rb_OrganizationID = bb_OrganizationID body,
                rb_CredentialID = bb_CredentialID body, rb_ExecutorIdentity = bb_ExecutorIdentity body,
                rb_NotBefore = bb_NotBefore body, rb_ExpiresAt = bb_ExpiresAt body,
                rb_MaxResolutions = bb_MaxResolutions body, rb_IdempotencyKey = hr_IdempotencyKeys request ! 0\<rparr> s))"

definition inspectBinding ::
  "'s Server \<Rightarrow> audit_Request \<Rightarrow> WorkloadIdentity \<Rightarrow> string \<Rightarrow> observedWriter \<Rightarrow> 's \<Rightarrow> 's handled" where
  "inspectBinding server ctx identity runID w s =
     (if wi_Role identity \<noteq> RoleScheduler then problem 403 ''operation_not_permitted'' w s
      else answer (json_ok marshal_binding) w (sv_InspectBinding (srv_service server) ctx identity runID s))"

definition cancelBinding ::
  "'s Server \<Rightarrow> audit_Request \<Rightarrow> http_request \<Rightarrow> WorkloadIdentity \<Rightarrow> string \<Rightarrow> observedWriter \<Rightarrow> 's \<Rightarrow> 's handled" where
  "cancelBinding server ctx request identity runID w s =
     (if wi_Role identity \<noteq> RoleScheduler then problem 403 ''operation_not_permitted'' w s
      else case decodeJSON cancel_fields zero_cancel request of Inl e \<Rightarrow> (writeDecodeProblem e w, s)
      | Inr body \<Rightarrow>
          answer (json_ok marshal_binding) w (sv_CancelBinding (srv_service server) ctx identity
            \<lparr>cb_RunID = runID, cb_DispatchID = cn_DispatchID body, cb_Reason = cn_Reason body\<rparr> s))"

definition resolve ::
  "'s Server \<Rightarrow> audit_Request \<Rightarrow> http_request \<Rightarrow> WorkloadIdentity \<Rightarrow> string \<Rightarrow> observedWriter \<Rightarrow> 's \<Rightarrow> 's handled" where
  "resolve server ctx request identity runID w s =
     (if wi_Role identity \<noteq> RoleExecutor then problem 403 ''operation_not_permitted'' w s
      else case decodeJSON resolve_fields zero_resolve request of Inl e \<Rightarrow> (writeDecodeProblem e w, s)
      | Inr body \<Rightarrow>
          answer (\<lambda>result w. writeJSON 200 (marshal_resolved result)
              (set_header ''Connection'' ''close'' (set_header ''Content-Encoding'' ''identity'' w))) w
            (sv_Resolve (srv_service server) ctx identity
              \<lparr>rq_RunID = runID, rq_AttemptID = rs_AttemptID body, rq_RequestedAt = z_instant (rs_RequestedAt body)\<rparr> s))"

section \<open>Operator routes\<close>

definition rotationRoute :: "'s Server \<Rightarrow> audit_Request \<Rightarrow> http_request \<Rightarrow> string \<Rightarrow> observedWriter \<Rightarrow> 's \<Rightarrow> 's handled" where
  "rotationRoute server ctx request path w s =
     (let parts = Split (TrimPrefix path ''/internal/v1/operations/rotations/'') (CHR ''/'') in
      if length parts = 0 \<or> parts ! 0 = [] then problem 404 ''resource_not_found'' w s
      else let rotationID = parts ! 0 in
      if hr_Method request = ''GET'' \<and> length parts = 1
      then answer (json_ok marshal_rotation) w (sv_GetMasterKeyRotation (srv_service server) ctx rotationID s)
      else if hr_Method request = ''POST'' \<and> length parts = 2 \<and> parts ! 1 = ''resume''
      then (case decodeJSON resume_fields 0 request of Inl e \<Rightarrow> (writeDecodeProblem e w, s)
            | Inr batchSize \<Rightarrow>
                if batchSize < 1 \<or> batchSize > 1000 then problem 400 ''invalid_request'' w s
                else answer (json_ok marshal_rotation) w
                  (sv_ResumeMasterKeyRotation (srv_service server) ctx rotationID batchSize s))
      else if hr_Method request = ''POST'' \<and> length parts = 2 \<and> parts ! 1 = ''finalize''
      then answer (json_ok marshal_rotation) w (sv_FinalizeMasterKeyRotation (srv_service server) ctx rotationID s)
      else problem 404 ''resource_not_found'' w s)"

definition rotateCredential :: "'s Server \<Rightarrow> audit_Request \<Rightarrow> http_request \<Rightarrow> string \<Rightarrow> observedWriter \<Rightarrow> 's \<Rightarrow> 's handled" where
  "rotateCredential server ctx request path w s =
     (let remainder = TrimSuffix (TrimPrefix path ''/internal/v1/operations/credentials/'') ''/rotate'';
          parts = Split (TrimChar remainder (CHR ''/'')) (CHR ''/'') in
      if length parts \<noteq> 3 \<or> parts ! 1 \<noteq> ''versions'' then problem 404 ''resource_not_found'' w s
      else case ParseUint 64 (parts ! 2) of None \<Rightarrow> problem 400 ''invalid_request'' w s
      | Some version \<Rightarrow>
      if version = 0 then problem 400 ''invalid_request'' w s
      else case decodeJSON rotate_credential_fields [] request of Inl e \<Rightarrow> (writeDecodeProblem e w, s)
      | Inr organizationID \<Rightarrow>
          answer (\<lambda>_. WriteHeader 204) w (sv_RotateCredentialKey (srv_service server) ctx
            \<lparr>crr_OrganizationID = organizationID, crr_CredentialID = parts ! 0, crr_Version = of_nat version\<rparr> s))"

definition operationRoute ::
  "'s Server \<Rightarrow> audit_Request \<Rightarrow> http_request \<Rightarrow> WorkloadIdentity \<Rightarrow> string \<Rightarrow> observedWriter \<Rightarrow> 's \<Rightarrow> 's handled" where
  "operationRoute server ctx request identity path w s =
     (if wi_Role identity \<noteq> RoleSecretsOperator then problem 403 ''operation_not_permitted'' w s
      else if hr_Method request = ''POST'' \<and> path = ''/internal/v1/operations/recovery-validations''
      then (case decodeJSON recovery_fields 0 request of Inl e \<Rightarrow> (writeDecodeProblem e w, s)
            | Inr sampleSize \<Rightarrow>
                if sampleSize < 1 \<or> sampleSize > 1000 then problem 400 ''invalid_request'' w s
                else answer (json_ok marshal_recovery) w (sv_ValidateRecovery (srv_service server) ctx sampleSize s))
      else if hr_Method request = ''POST'' \<and> path = ''/internal/v1/operations/backups''
      then (case decodeJSON backup_fields zero_backup request of Inl e \<Rightarrow> (writeDecodeProblem e w, s)
            | Inr body \<Rightarrow>
                answer (\<lambda>result. writeJSON 201 (marshal_backup result)) w (sv_RegisterBackup (srv_service server) ctx body s))
      else if hr_Method request = ''POST'' \<and> HasPrefix path ''/internal/v1/operations/backups/'' \<and> HasSuffix path ''/expire''
      then (let i = TrimSuffix (TrimPrefix path ''/internal/v1/operations/backups/'') ''/expire'' in
            if i = [] \<or> Contains i ''/'' then problem 404 ''resource_not_found'' w s
            else answer (json_ok marshal_backup) w (sv_ExpireBackup (srv_service server) ctx i s))
      else if hr_Method request = ''GET'' \<and> path = ''/internal/v1/operations/key-status''
      then answer (json_ok marshal_key_status) w (sv_KeyStatus (srv_service server) ctx s)
      else if hr_Method request = ''POST'' \<and> path = ''/internal/v1/operations/rotations''
      then answer (\<lambda>rotation w. writeJSON 201 (marshal_rotation rotation)
               (set_header ''Location'' (''/internal/v1/operations/rotations/'' @ ro_ID rotation) w)) w
             (sv_StartMasterKeyRotation (srv_service server) ctx s)
      else if HasPrefix path ''/internal/v1/operations/rotations/'' then rotationRoute server ctx request path w s
      else if hr_Method request = ''POST'' \<and> HasPrefix path ''/internal/v1/operations/credentials/'' \<and>
              HasSuffix path ''/rotate''
      then rotateCredential server ctx request path w s
      else problem 404 ''resource_not_found'' w s)"

section \<open>The request\<close>

definition requestOperation :: "string \<Rightarrow> string \<Rightarrow> string" where
  "requestOperation method path =
     (if method = ''POST'' \<and> path = ''/internal/v1/run-bindings'' then OperationRunBindingRegistered
      else if method = ''GET'' \<and> path = ''/internal/v1/security-status'' then OperationSecurityStatusRead
      else if method = ''GET'' \<and> path = ''/internal/v1/operations/key-status'' then OperationKeyStatusRead
      else if method = ''POST'' \<and> path = ''/internal/v1/operations/recovery-validations''
      then OperationRecoveryValidationFinished
      else if method = ''POST'' \<and> path = ''/internal/v1/operations/backups'' then OperationBackupRegistered
      else if method = ''POST'' \<and> HasSuffix path ''/expire'' then OperationBackupExpired
      else if method = ''POST'' \<and> path = ''/internal/v1/operations/rotations'' then OperationMasterKeyRotationStarted
      else if method = ''GET'' \<and> HasPrefix path ''/internal/v1/operations/rotations/''
      then OperationMasterKeyRotationInspected
      else if method = ''POST'' \<and> HasSuffix path ''/resume'' then OperationMasterKeyRotationResumed
      else if method = ''POST'' \<and> HasSuffix path ''/finalize'' then OperationMasterKeyRotationFinalized
      else if method = ''POST'' \<and> HasPrefix path ''/internal/v1/operations/credentials/'' \<and> HasSuffix path ''/rotate''
      then OperationCredentialKeyRotated
      else if method = ''POST'' \<and> path = ''/internal/v1/credentials'' then OperationCredentialCreated
      else if method = ''GET'' \<and> HasPrefix path ''/internal/v1/credentials/'' then OperationCredentialRead
      else if method = ''PUT'' \<and> HasSuffix path ''/inputs'' then OperationCredentialInputsReplaced
      else if method = ''PATCH'' \<and> HasPrefix path ''/internal/v1/credentials/'' then OperationCredentialMetadataUpdated
      else if method = ''POST'' \<and> HasSuffix path ''/retire'' then OperationCredentialRetired
      else if method = ''GET'' \<and> HasPrefix path ''/internal/v1/run-bindings/'' then OperationRunBindingInspected
      else if method = ''POST'' \<and> HasSuffix path ''/cancel'' then OperationRunBindingCanceled
      else if method = ''POST'' \<and> HasSuffix path ''/credential:resolve'' then OperationCredentialResolved
      else OperationUnknownRoute)"

definition transactionallyAudited :: "string \<Rightarrow> bool" where
  "transactionallyAudited operation \<longleftrightarrow>
     operation = OperationRunBindingRegistered \<or> operation = OperationRunBindingCanceled \<or>
     operation = OperationCredentialResolved \<or> operation = OperationCredentialCreated \<or>
     operation = OperationCredentialInputsReplaced \<or> operation = OperationCredentialMetadataUpdated \<or>
     operation = OperationCredentialRetired \<or> operation = OperationMasterKeyRotationStarted \<or>
     operation = OperationMasterKeyRotationResumed \<or> operation = OperationMasterKeyRotationFinalized \<or>
     operation = OperationCredentialKeyRotated \<or> operation = OperationRecoveryValidationFinished \<or>
     operation = OperationBackupRegistered \<or> operation = OperationBackupExpired"

definition requestRunID :: "string \<Rightarrow> string" where
  "requestRunID path =
     (let trimmed =
        (if HasPrefix path ''/internal/v1/run-bindings/''
         then TrimSuffix (TrimPrefix path ''/internal/v1/run-bindings/'') ''/cancel''
         else if HasPrefix path ''/internal/v1/runs/''
         then TrimSuffix (TrimPrefix path ''/internal/v1/runs/'') ''/credential:resolve''
         else []) in
      if Contains trimmed ''/'' \<or> length trimmed \<noteq> 36 then [] else trimmed)"

definition requestRotationID :: "string \<Rightarrow> string" where
  "requestRotationID path =
     (if \<not> HasPrefix path ''/internal/v1/operations/rotations/'' then []
      else let value = TrimSuffix (TrimSuffix (TrimPrefix path ''/internal/v1/operations/rotations/'') ''/resume'') ''/finalize'' in
      if Contains value ''/'' \<or> length value \<noteq> 36 then [] else value)"

text \<open>The switch over method and path.\<close>

definition serve_route ::
  "'s Server \<Rightarrow> audit_Request \<Rightarrow> http_request \<Rightarrow> WorkloadIdentity \<Rightarrow> observedWriter \<Rightarrow> 's \<Rightarrow> 's handled" where
  "serve_route server ctx request identity w s =
     (let path = hr_EscapedPath request; method = hr_Method request in
      if method = ''GET'' \<and> path = ''/internal/v1/security-status'' then securityStatus server identity w s
      else if HasPrefix path ''/internal/v1/operations/'' then operationRoute server ctx request identity path w s
      else if method = ''POST'' \<and> path = ''/internal/v1/credentials'' then createCredential server ctx request identity w s
      else if HasPrefix path ''/internal/v1/credentials/'' then credentialRoute server ctx request identity path w s
      else if method = ''POST'' \<and> path = ''/internal/v1/run-bindings'' then registerBinding server ctx request identity w s
      else if method = ''GET'' \<and> HasPrefix path ''/internal/v1/run-bindings/''
      then (let runID = TrimPrefix path ''/internal/v1/run-bindings/'' in
            if Contains runID ''/'' \<or> runID = [] then problem 404 ''resource_not_found'' w s
            else inspectBinding server ctx identity runID w s)
      else if method = ''POST'' \<and> HasPrefix path ''/internal/v1/run-bindings/'' \<and> HasSuffix path ''/cancel''
      then (let runID = TrimSuffix (TrimPrefix path ''/internal/v1/run-bindings/'') ''/cancel'' in
            if Contains runID ''/'' \<or> runID = [] then problem 404 ''resource_not_found'' w s
            else cancelBinding server ctx request identity runID w s)
      else if method = ''POST'' \<and> HasPrefix path ''/internal/v1/runs/'' \<and> HasSuffix path ''/credential:resolve''
      then (let runID = TrimSuffix (TrimPrefix path ''/internal/v1/runs/'') ''/credential:resolve'' in
            if Contains runID ''/'' \<or> runID = [] then problem 404 ''resource_not_found'' w s
            else resolve server ctx request identity runID w s)
      else problem 404 ''resource_not_found'' w s)"

text \<open>The deferred call: the completion event of everything the service did not audit itself.\<close>

definition completion_event :: "audit_Request \<Rightarrow> http_request \<Rightarrow> observedWriter \<Rightarrow> time \<Rightarrow> Event" where
  "completion_event ctx request w finished =
     (case StableResult (ow_status w) of (result, fallback) \<Rightarrow>
        let reason = (if ow_reason w \<noteq> [] then ow_reason w else fallback) in
        (Completion ctx result reason finished)
          \<lparr>ev_RunID := requestRunID (hr_EscapedPath request), ev_RotationID := requestRotationID (hr_EscapedPath request)\<rparr>)"

definition observe :: "'s Server \<Rightarrow> audit_Request \<Rightarrow> http_request \<Rightarrow> time \<Rightarrow> 's handled \<Rightarrow> 's handled" where
  "observe server ctx request finished served =
     (case served of (w, s) \<Rightarrow>
        case srv_auditor server of None \<Rightarrow> (w, s)
        | Some auditor \<Rightarrow>
            if 200 \<le> ow_status w \<and> ow_status w < 300 \<and> transactionallyAudited (ar_Operation ctx) then (w, s)
            else (w, au_Record auditor (completion_event ctx request w finished) s))"

text \<open>What a request draws from the outside: random bytes for its id and two readings of the clock.\<close>

record serving =
  se_random :: bytes
  se_started :: time
  se_finished :: time

definition new_writer :: "serving \<Rightarrow> observedWriter" where
  "new_writer e =
     (let requestID = newRequestID (se_random e) in
      set_header ''X-Request-Id'' requestID
        (secureHeaders \<lparr>ow_Header = [], ow_status = 200, ow_requestID = requestID, ow_reason = [], ow_body = []\<rparr>))"

definition request_context :: "'s Server \<Rightarrow> serving \<Rightarrow> http_request \<Rightarrow> audit_Request" where
  "request_context server e request =
     \<lparr>ar_ID = newRequestID (se_random e),
      ar_WorkloadIdentity = (case requestIdentity (srv_mapper server) request of None \<Rightarrow> [] | Some i \<Rightarrow> wi_Subject i),
      ar_Operation = requestOperation (hr_Method request) (hr_EscapedPath request),
      ar_HumanActor = [], ar_StartedAt = se_started e\<rparr>"

definition ServeHTTP :: "'s Server \<Rightarrow> serving \<Rightarrow> http_request \<Rightarrow> 's \<Rightarrow> 's handled" where
  "ServeHTTP server e request s =
     (let w = new_writer e; ctx = request_context server e request in
      observe server ctx request (se_finished e)
        (case requestIdentity (srv_mapper server) request of
           None \<Rightarrow> problem 401 ''workload_authentication_failed'' w s
         | Some identity \<Rightarrow> serve_route server ctx request identity w s))"

end
