(* ===== verification/Json_Utf8.thy ===== *)
theory Json_Utf8
  imports GoStruct
begin

text \<open>
  The JSON decoder replaces every invalid byte sequence, so all strings it delivers are valid
  UTF-8, whatever bytes a client sends; and a rule for what a decoded struct satisfies.
\<close>


section \<open>Decoded strings are valid UTF-8\<close>

lemma encode3_bytes:
  assumes "0x800 \<le> r" and "r < 0x10000" and "\<not> surrogate r"
  shows "cont (if 0xE0 + r div 4096 = 0xE0 then 0xA0 else 0x80) (if 0xE0 + r div 4096 = 0xED then 0x9F else 0xBF) (0x80 + r div 64 mod 64)"
    and "cont 0xE0 0xEF (0xE0 + r div 4096)"
proof -
  define q a b where "q = r div 64" and "a = q div 64" and "b = q mod 64"
  have q: "0x20 \<le> q" "q < 0x400" using assms(1,2) unfolding q_def by linarith+
  have ab: "q = a * 64 + b" "b < 64" unfolding a_def b_def by simp_all
  have a: "r div 4096 = a" unfolding a_def q_def by (simp add: div_mult2_eq [symmetric])
  have s: "\<not> (0x360 \<le> q \<and> q < 0x380)" using assms(3) unfolding surrogate_def q_def by linarith
  show "cont 0xE0 0xEF (0xE0 + r div 4096)" using a ab q by (auto simp: cont_def)
  show "cont (if 0xE0 + r div 4096 = 0xE0 then 0xA0 else 0x80) (if 0xE0 + r div 4096 = 0xED then 0x9F else 0xBF) (0x80 + r div 64 mod 64)"
    using a ab q s unfolding q_def [symmetric] b_def [symmetric] by (auto simp: cont_def)
qed

lemma encode4_bytes:
  assumes "0x10000 \<le> r" and "r \<le> 0x10FFFF"
  shows "cont (if 0xF0 + r div 262144 = 0xF0 then 0x90 else 0x80) (if 0xF0 + r div 262144 = 0xF4 then 0x8F else 0xBF)
      (0x80 + r div 4096 mod 64)"
    and "cont 0xF0 0xF4 (0xF0 + r div 262144)"
proof -
  define q a b where "q = r div 4096" and "a = q div 64" and "b = q mod 64"
  have q: "0x10 \<le> q" "q < 0x110" using assms unfolding q_def by linarith+
  have ab: "q = a * 64 + b" "b < 64" unfolding a_def b_def by simp_all
  have a: "r div 262144 = a" unfolding a_def q_def by (simp add: div_mult2_eq [symmetric])
  show "cont 0xF0 0xF4 (0xF0 + r div 262144)" using a ab q by (auto simp: cont_def)
  show "cont (if 0xF0 + r div 262144 = 0xF0 then 0x90 else 0x80) (if 0xF0 + r div 262144 = 0xF4 then 0x8F else 0xBF)
      (0x80 + r div 4096 mod 64)"
    using a ab q unfolding q_def [symmetric] b_def [symmetric] by (auto simp: cont_def)
qed

lemma cont_low [simp]: "cont 0x80 0xBF (0x80 + n mod 64)"
  using mod_less_divisor [of 64 n] by (simp add: cont_def)

lemma decode_encode_rune:
  "snd (decode_rune (encode_rune r @ x)) = length (encode_rune r) \<and> (r < 0x80 \<or> 2 \<le> length (encode_rune r))"
proof -
  consider "r < 0x80" | "0x80 \<le> r" "r < 0x800" | "surrogate r \<or> 0x10FFFF < r" "0x800 \<le> r"
    | "\<not> surrogate r" "0x800 \<le> r" "r < 0x10000" | "\<not> surrogate r" "0x10000 \<le> r" "r \<le> 0x10FFFF"
    by linarith
  then show ?thesis
  proof cases
    case 2
    then have "cont 0xC2 0xDF (0xC0 + r div 64)" unfolding cont_def by linarith
    with 2 show ?thesis by (simp add: encode_rune_def)
  next
    case 3 then show ?thesis by (simp add: encode_rune_def cont_def)
  next
    case 4
    have "\<not> cont 0xC2 0xDF (0xE0 + r div 4096)" by (simp add: cont_def)
    with 4 encode3_bytes [of r] show ?thesis by (simp add: encode_rune_def)
  next
    case 5
    have "\<not> cont 0xC2 0xDF (0xF0 + r div 262144)" "\<not> cont 0xE0 0xEF (0xF0 + r div 262144)" by (simp_all add: cont_def)
    with 5 encode4_bytes [of r] show ?thesis by (simp add: encode_rune_def)
  qed (simp add: encode_rune_def)
qed

lemma encode_rune_bytes: "list_all (\<lambda>b. b < 256) (encode_rune r)"
proof -
  have l: "0x80 + n mod 64 < (256 :: nat)" for n
    using mod_less_divisor [of 64 n] by linarith
  have h: "r < 0x800 \<Longrightarrow> 0xC0 + r div 64 < 256" "r < 0x10000 \<Longrightarrow> 0xE0 + r div 4096 < 256"
      "r \<le> 0x10FFFF \<Longrightarrow> 0xF0 + r div 262144 < 256"
    by linarith+
  show ?thesis
    unfolding encode_rune_def by (auto simp: l h)
qed

lemma valid_utf8_rune_string:
  assumes "valid_utf8 x"
  shows "valid_utf8 (rune_string r @ x)"
proof -
  define e where "e = encode_rune r"
  define t where "t = rune_string r"
  have c: "map code t = e"
    using encode_rune_bytes [of r] unfolding t_def e_def rune_string_def by (simp add: list_all_iff map_idI)
  then have l: "length t = length e" by (metis length_map)
  have len: "0 < length e" "length e \<le> 4" unfolding e_def by (simp_all add: encode_rune_def)
  have "map code (take 4 (t @ x)) = e @ map code (take (4 - length e) x)"
    using c l len by (simp add: take_append take_map)
  then have r: "rune_at (t @ x) = decode_rune (e @ map code (take (4 - length e) x))"
    by (simp only: rune_at_def)
  have w: "snd (rune_at (t @ x)) = length e"
    using decode_encode_rune r unfolding e_def by simp
  have "r < 0x80 \<Longrightarrow> fst (rune_at (t @ x)) = r" using r unfolding e_def encode_rune_def by simp
  moreover have "r < 0x80 \<or> 2 \<le> length e" using decode_encode_rune unfolding e_def by blast
  ultimately have "\<not> bad_rune (rune_at (t @ x))"
    using w by (auto simp: bad_rune_def rune_error_def prod_eq_iff)
  moreover have "t @ x \<noteq> []" using l len by auto
  ultimately have "valid_utf8 (t @ x)"
    using w assms len l by (simp add: valid_utf8.simps [of "t @ x"] max_def Suc_le_eq)
  then show ?thesis unfolding t_def .
qed

lemma valid_utf8_take_rune:
  assumes "rune_at s = (r, w)" and "\<not> bad_rune (r, w)" and "s = c # t" and "\<not> code c < 0x80" and "valid_utf8 x"
  shows "valid_utf8 (take w s @ x)"
proof -
  note p = rune_at_prefix [OF assms(1-4), of x]
  then have "take w s @ x \<noteq> []" using assms(3) by auto
  with p assms(2,5) show ?thesis
    by (simp add: valid_utf8.simps [of "take w s @ x"])
qed

lemma valid_utf8_Cons: "code c < 0x80 \<Longrightarrow> valid_utf8 x \<Longrightarrow> valid_utf8 (c # x)"
  using valid_utf8_rune_string [of x "code c"] by (simp add: rune_string_def encode_rune_def)

lemma prepend_Some: "prepend p r = Some (t, q) \<longleftrightarrow> (\<exists>x. r = Some (x, q) \<and> t = p @ x)"
  by (auto simp: prepend_def)

lemma simple_escape_ascii: "simple_escape e = Some d \<Longrightarrow> code d < 0x80"
  by (auto simp: simple_escape_def split: if_splits)

lemma unquote_utf8: "unquote s = Some (t, q) \<Longrightarrow> valid_utf8 t"
proof (induction s arbitrary: t q rule: unquote.induct)
  case (1 s)
  show ?case
  proof (cases s)
    case (Cons c u)
    consider "c = quote" | "c \<noteq> quote" "c = backslash" | "c \<noteq> quote" "c \<noteq> backslash" "code c < 0x80"
      | "c \<noteq> quote" "c \<noteq> backslash" "\<not> code c < 0x80" by blast
    then show ?thesis
    proof cases
      case 1 with "1.prems" Cons show ?thesis by (simp add: unquote.simps [of "quote # u"])
    next
      case 2
      with "1.prems" "1.IH"(1-3) Cons show ?thesis
        by (auto simp: unquote.simps [of "backslash # u"] prepend_Some intro!: valid_utf8_rune_string valid_utf8_Cons
            dest: simple_escape_ascii split: list.splits option.splits if_splits)
    next
      case 3
      with "1.prems" "1.IH"(4) Cons show ?thesis
        by (auto simp: unquote.simps [of "c # u"] prepend_Some intro!: valid_utf8_Cons split: if_splits)
    next
      case 4
      obtain r w where rw: "rune_at s = (r, w)" by (cases "rune_at s")
      from "1.prems" Cons 4 rw obtain x where x: "unquote (drop (max 1 w) s) = Some (x, q)"
          and t: "t = (if bad_rune (r, w) then rune_string rune_error else take (max 1 w) s) @ x"
        by (auto simp: unquote.simps [of "c # u"] prepend_Some Let_def split: if_splits)
      have v: "valid_utf8 x" using "1.IH"(5) Cons 4 rw x by auto
      show ?thesis
      proof (cases "bad_rune (r, w)")
        case False
        have "max 1 w = w" using rune_at_prefix [OF rw False Cons 4(3), of x] by simp
        with False t show ?thesis using valid_utf8_take_rune [OF rw False Cons 4(3) v] by simp
      qed (use t v valid_utf8_rune_string in simp)
    qed
  qed (use "1.prems" in \<open>simp add: unquote.simps\<close>)
qed

text \<open>Every string of a value, keys included.\<close>

fun json_utf8 :: "json \<Rightarrow> bool" and
    elems_utf8 :: "json list \<Rightarrow> bool" and
    members_utf8 :: "(string \<times> json) list \<Rightarrow> bool" where
  "json_utf8 (JString s) \<longleftrightarrow> valid_utf8 s"
| "json_utf8 (JArray vs) \<longleftrightarrow> elems_utf8 vs"
| "json_utf8 (JObject kvs) \<longleftrightarrow> members_utf8 kvs"
| "json_utf8 _ \<longleftrightarrow> True"
| "elems_utf8 [] \<longleftrightarrow> True"
| "elems_utf8 (v # vs) \<longleftrightarrow> json_utf8 v \<and> elems_utf8 vs"
| "members_utf8 [] \<longleftrightarrow> True"
| "members_utf8 ((k, v) # kvs) \<longleftrightarrow> valid_utf8 k \<and> json_utf8 v \<and> members_utf8 kvs"

lemma parser_utf8:
  "\<And>v r. pvalue n d s = Some (v, r) \<Longrightarrow> json_utf8 v"
  "\<And>vs r. pelems n d s = Some (vs, r) \<Longrightarrow> elems_utf8 vs"
  "\<And>kvs r. pmembers n d s = Some (kvs, r) \<Longrightarrow> members_utf8 kvs"
proof (induction n d s and n d s and n d s rule: pvalue_pelems_pmembers.induct)
  case (2 n d s)
  from "2.prems" "2.IH" show ?case
    by (auto simp: literal_def split: list.splits if_splits dest: unquote_utf8)
next
  case (4 n d s)
  from "4.prems" "4.IH" show ?case
    by (auto split: list.splits option.splits if_splits)
next
  case (6 n d s)
  from "6.prems" "6.IH" show ?case
    by (auto split: list.splits option.splits if_splits) (metis unquote_utf8)+
qed simp_all

lemma parse_json_utf8: "parse_json s = Some v \<Longrightarrow> json_utf8 v"
  by (auto simp: parse_json_def simp del: pvalue.simps split: option.splits if_splits dest: parser_utf8(1))

lemma members_utf8_iff: "members_utf8 kvs \<longleftrightarrow> list_all (\<lambda>(k, v). valid_utf8 k \<and> json_utf8 v) kvs"
  by (induction kvs) auto

lemma store_members_utf8:
  assumes "store_members kvs m = Some m'" and "members_utf8 kvs" and "list_all (\<lambda>(k, x). valid_utf8 k \<and> valid_utf8 x) m" and "wf_map m"
  shows "list_all (\<lambda>(k, x). valid_utf8 k \<and> valid_utf8 x) m' \<and> wf_map m'"
  using assms
proof (induction kvs arbitrary: m)
  case (Cons kv kvs)
  obtain k v where kv: "kv = (k, v)" by (cases kv)
  have "list_all (\<lambda>(k, x). valid_utf8 k \<and> valid_utf8 x) (mput k x m)" if "valid_utf8 k" "valid_utf8 x" for x
    using that Cons.prems(3) set_mputD [OF Cons.prems(4), of _ _ k x] by (fastforce simp: list_all_iff)
  with Cons kv show ?case
    by (auto split: json.splits)
qed simp

lemma object_members_utf8:
  assumes "object_members s = Some ms"
  shows "list_all (\<lambda>(k, v, _). valid_utf8 k \<and> json_utf8 v) ms"
proof -
  have "parse_json s = Some (JObject (forget_raw ms))" using assms object_members_parse by blast
  from parse_json_utf8 [OF this] have "list_all (\<lambda>(k, v). valid_utf8 k \<and> json_utf8 v) (forget_raw ms)"
    by (simp add: members_utf8_iff)
  then show ?thesis by (simp add: forget_raw_def list_all_iff split_beta)
qed

lemma decode_members_invariant:
  assumes "decode_members strict fs ms x = Some y" and "P x"
    and "list_all (\<lambda>(k, v, _). valid_utf8 k \<and> json_utf8 v) ms"
    and "\<And>n f v raw x y. (n, f) \<in> set fs \<Longrightarrow> json_utf8 v \<Longrightarrow> P x \<Longrightarrow> f v raw x = Some y \<Longrightarrow> P y"
  shows "P y"
  using assms(1-3)
proof (induction ms arbitrary: x)
  case (Cons m ms)
  obtain k v raw where m: "m = (k, v, raw)" by (cases m) auto
  have field: "\<exists>n. (n, f) \<in> set fs" if "find_field fs k = Some f" for f
    using that by (auto simp: find_field_def find_Some_iff split: option.splits) (metis nth_mem)+
  show ?case
  proof (cases "find_field fs k")
    case None
    with Cons m show ?thesis by (auto split: if_splits)
  next
    case (Some f)
    with Cons.prems m obtain z where z: "f v raw x = Some z" "decode_members strict fs ms z = Some y"
      by (auto split: option.splits)
    obtain n where "(n, f) \<in> set fs" using field [OF Some] by blast
    then have "P z" using assms(4) z(1) Cons.prems m by auto
    then show ?thesis using Cons.IH [OF z(2)] Cons.prems by simp
  qed
qed simp

lemma decode_struct_invariant:
  assumes "decode_struct strict fs zero s = Some y" and "P zero"
    and "\<And>n f v raw x y. (n, f) \<in> set fs \<Longrightarrow> json_utf8 v \<Longrightarrow> P x \<Longrightarrow> f v raw x = Some y \<Longrightarrow> P y"
  shows "P y"
proof (cases "object_members s")
  case None
  with assms(1,2) show ?thesis by (auto simp: decode_struct_def split: option.splits json.splits)
next
  case (Some ms)
  from assms(1) have "y = zero \<or> decode_members strict fs ms zero = Some y"
    using Some by (auto simp: decode_struct_def split: option.splits json.splits)
  then show ?thesis
    using assms(2) decode_members_invariant [of strict fs ms zero y P] object_members_utf8 [OF Some] assms(3) by blast
qed
end
