(* ===== verification/Store_Spec.thy ===== *)
theory Store_Spec
  imports Credential_Manager
begin

text \<open>
  An abstract specification of what the manager may do to its store: the relation \<open>effect\<close> lists
  the elementary changes (a credential created or given its next version, a stored record
  rewrapped for the current key, a binding registered, moved to another state or counted, a
  rotation started, advanced or finalized, a backup recorded or expired, the policy replaced)
  with the guards under which they are allowed. \<open>store_inv\<close> is the invariant of the store and
  \<open>store_le\<close> the order in which it may only grow; both are shown for every effect.
  Theory \<open>Manager_Runs\<close> shows that each operation of the code amounts to a sequence of effects.
\<close>

section \<open>Views of the store\<close>

definition rec_at :: "memoryBackend \<Rightarrow> string \<Rightarrow> 64 word \<Rightarrow> Record option" where
  "rec_at b i v = (case mget (credentials b) i of None \<Rightarrow> None | Some c \<Rightarrow> mget (mc_records c) v)"

definition keyrefs :: "memoryBackend \<Rightarrow> string \<Rightarrow> (string \<times> 64 word) set" where
  "keyrefs b k = {(i, v). \<exists>r. rec_at b i v = Some r \<and> rec_MasterKeyID r = k}"

definition attempts_of :: "memoryBackend \<Rightarrow> string \<Rightarrow> string set" where
  "attempts_of b run = {a. \<exists>x. mget (attempts b) a = Some x \<and> ma_runID x = run}"

definition version_context :: "Metadata \<Rightarrow> 64 word \<Rightarrow> Context" where
  "version_context md v = envelopeContext (md\<lparr>md_Version := v\<rparr>)"

definition inputs_utf8 :: "inputs \<Rightarrow> bool" where
  "inputs_utf8 m \<longleftrightarrow> wf_map m \<and> list_all (\<lambda>(k, v). valid_utf8 k \<and> valid_utf8 v) m"

text \<open>
  A record of version \<open>v\<close> of a credential opens, with the keys at hand, to the JSON encoding of
  inputs that pass the schema.
\<close>

definition opens :: "crypto \<Rightarrow> Manager \<Rightarrow> Metadata \<Rightarrow> 64 word \<Rightarrow> Record \<Rightarrow> bool" where
  "opens K m md v r \<longleftrightarrow>
     (\<exists>inputs. inputs_utf8 inputs \<and>
        is_ok (validateSchema m (md_CredentialType md) (md_SchemaVersion md) inputs) \<and>
        Decrypt (c_aead K) r (version_context md v) (Keyring (m_keys m)) = Inr (bytes_of (marshal_inputs inputs)))"

definition sealed :: "crypto \<Rightarrow> Manager \<Rightarrow> Metadata \<Rightarrow> Record \<Rightarrow> bool" where
  "sealed K m md r \<longleftrightarrow>
     opens K m md (md_Version md) r \<and> rec_MasterKeyID r = mk_id (ks_Current (m_keys m))"

definition same_identity :: "Metadata \<Rightarrow> Metadata \<Rightarrow> bool" where
  "same_identity md md' \<longleftrightarrow>
     md_ID md' = md_ID md \<and> md_OrganizationID md' = md_OrganizationID md \<and>
     md_CredentialType md' = md_CredentialType md \<and> md_SchemaVersion md' = md_SchemaVersion md \<and>
     md_CreatedAt md' = md_CreatedAt md"

definition same_binding :: "Binding \<Rightarrow> Binding \<Rightarrow> bool" where
  "same_binding x y \<longleftrightarrow>
     b_RunID y = b_RunID x \<and> b_DispatchID y = b_DispatchID x \<and> b_OrganizationID y = b_OrganizationID x \<and>
     b_CredentialID y = b_CredentialID x \<and> b_CredentialVersion y = b_CredentialVersion x \<and>
     b_ExecutorIdentity y = b_ExecutorIdentity x \<and> b_NotBefore y = b_NotBefore x \<and>
     b_ExpiresAt y = b_ExpiresAt x \<and> b_MaxResolutions y = b_MaxResolutions x \<and> b_CreatedAt y = b_CreatedAt x"

definition terminal :: "binding_state \<Rightarrow> bool" where
  "terminal s \<longleftrightarrow> s = BindingCanceled \<or> s = BindingExpired \<or> s = BindingExhausted"

section \<open>Effects\<close>

inductive effect :: "crypto \<Rightarrow> Manager \<Rightarrow> Manager \<Rightarrow> bool" for K where
  created: "b = m_backend m \<Longrightarrow> md_Version md = 1 \<Longrightarrow> md_OrganizationID md \<noteq> [] \<Longrightarrow> md_SchemaVersion md \<noteq> 0 \<Longrightarrow>
    md_ID md \<noteq> [] \<Longrightarrow> mget (credentials b) (md_ID md) = None \<Longrightarrow> mget (idempotency b) k = None \<Longrightarrow> sealed K m md r \<Longrightarrow>
    effect K m (m\<lparr>m_backend := b\<lparr>
      credentials := mput (md_ID md) \<lparr>mc_metadata = md, mc_records = [(md_Version md, r)]\<rparr> (credentials b),
      idempotency := mput k \<lparr>ie_digest = d, ie_response = md\<rparr> (idempotency b)\<rparr>\<rparr>)"
| versioned: "b = m_backend m \<Longrightarrow> mget (credentials b) i = Some c \<Longrightarrow> md_State (mc_metadata c) = StateActive \<Longrightarrow>
    same_identity (mc_metadata c) md \<Longrightarrow> md_Version md = md_Version (mc_metadata c) + 1 \<Longrightarrow> md_Version md \<noteq> 0 \<Longrightarrow>
    sealed K m md r \<Longrightarrow>
    effect K m (m\<lparr>m_backend := b\<lparr>credentials := mput i
      \<lparr>mc_metadata = md, mc_records = mput (md_Version md) r (mc_records c)\<rparr> (credentials b)\<rparr>\<rparr>)"
| rekeyed: "b = m_backend m \<Longrightarrow> mget (credentials b) i = Some c \<Longrightarrow> mget (mc_records c) v = Some r \<Longrightarrow>
    Decrypt (c_aead K) r' (version_context (mc_metadata c) v) (Keyring (m_keys m)) =
      Decrypt (c_aead K) r (version_context (mc_metadata c) v) (Keyring (m_keys m)) \<Longrightarrow>
    rec_MasterKeyID r' = mk_id (ks_Current (m_keys m)) \<Longrightarrow>
    effect K m (m\<lparr>m_backend := put_record (i, v, r') b\<rparr>)"
| registered: "b = m_backend m \<Longrightarrow> mget (bindings b) (b_RunID x) = None \<Longrightarrow>
    mget (credentials b) (b_CredentialID x) = Some c \<Longrightarrow>
    b_OrganizationID x = md_OrganizationID (mc_metadata c) \<Longrightarrow> b_CredentialVersion x = md_Version (mc_metadata c) \<Longrightarrow>
    0 < b_MaxResolutions x \<Longrightarrow> b_ResolutionCount x = 0 \<Longrightarrow> b_State x \<in> {BindingPending, BindingActive} \<Longrightarrow>
    effect K m (m\<lparr>m_backend := b\<lparr>bindings := mput (b_RunID x)
      \<lparr>mb_binding = x, mb_idempotencyKey = k, mb_digest = d\<rparr> (bindings b)\<rparr>\<rparr>)"
| closed: "b = m_backend m \<Longrightarrow> mget (bindings b) run = Some mb \<Longrightarrow> same_binding (mb_binding mb) x \<Longrightarrow>
    b_ResolutionCount x = b_ResolutionCount (mb_binding mb) \<Longrightarrow>
    \<not> terminal (b_State (mb_binding mb)) \<and> b_State x \<in> {BindingCanceled, BindingExpired} \<or>
      b_State (mb_binding mb) = BindingExhausted \<and> b_State x = BindingExhausted \<Longrightarrow>
    effect K m (m\<lparr>m_backend := put_binding b run mb x\<rparr>)"
| claimed: "b = m_backend m \<Longrightarrow> mget (bindings b) run = Some mb \<Longrightarrow> same_binding (mb_binding mb) x \<Longrightarrow>
    \<not> terminal (b_State (mb_binding mb)) \<Longrightarrow> mget (attempts b) a = None \<Longrightarrow>
    b_ResolutionCount (mb_binding mb) < b_MaxResolutions (mb_binding mb) \<Longrightarrow>
    b_ResolutionCount x = b_ResolutionCount (mb_binding mb) + 1 \<Longrightarrow>
    b_State x = (if b_ResolutionCount x = b_MaxResolutions x then BindingExhausted else BindingActive) \<Longrightarrow>
    ma_runID y = run \<Longrightarrow> ma_executorIdentity y = b_ExecutorIdentity x \<Longrightarrow>
    effect K m (m\<lparr>m_backend := put_binding (b\<lparr>attempts := mput a y (attempts b)\<rparr>) run mb x\<rparr>)"
| rotation_started: "b = m_backend m \<Longrightarrow> list_all (\<lambda>(_, r). ro_State r = RotationFinalized) (rotations b) \<Longrightarrow>
    ks_Previous (m_keys m) = Some p \<Longrightarrow> ro_SourceKeyID r = mk_id p \<Longrightarrow> mget (rotations b) (ro_ID r) = None \<Longrightarrow>
    ro_ProcessedRecords r = 0 \<Longrightarrow> ro_TotalRecords r = int (card (keyrefs b (mk_id p))) \<Longrightarrow>
    ro_State r = (if ro_TotalRecords r = 0 then RotationReady else RotationPending) \<Longrightarrow>
    effect K m (m\<lparr>m_backend := b\<lparr>rotations := mput (ro_ID r) r (rotations b)\<rparr>\<rparr>)"
| rotation_advanced: "b = m_backend m \<Longrightarrow> mget (rotations b) i = Some r \<Longrightarrow> ro_State r \<noteq> RotationFinalized \<Longrightarrow>
    ro_SourceKeyID r' = ro_SourceKeyID r \<Longrightarrow> ro_TotalRecords r' = ro_TotalRecords r \<Longrightarrow>
    ro_ProcessedRecords r \<le> ro_ProcessedRecords r' \<Longrightarrow>
    ro_ProcessedRecords r' + int (card (keyrefs b (ro_SourceKeyID r))) \<le> ro_TotalRecords r \<Longrightarrow>
    ro_State r' = (if ro_ProcessedRecords r' = ro_TotalRecords r' then RotationReady else RotationRunning) \<Longrightarrow>
    effect K m (m\<lparr>m_backend := b\<lparr>rotations := mput i r' (rotations b)\<rparr>\<rparr>)"
| rotation_finalized: "b = m_backend m \<Longrightarrow> mget (rotations b) i = Some r \<Longrightarrow> ro_State r \<noteq> RotationFinalized \<Longrightarrow>
    keyrefs b (ro_SourceKeyID r) = {} \<Longrightarrow> ro_State r' = RotationFinalized \<Longrightarrow>
    effect K m (m\<lparr>m_backend := b\<lparr>rotations := mput i r' (rotations b)\<rparr>\<rparr>)"
| backed_up: "b = m_backend m \<Longrightarrow> mget (backups b) (bk_ID k) = None \<Longrightarrow> validBackup k \<Longrightarrow>
    effect K m (m\<lparr>m_backend := b\<lparr>backups := mput (bk_ID k) k (backups b)\<rparr>\<rparr>)"
| expired: "b = m_backend m \<Longrightarrow> mget (backups b) i = Some k \<Longrightarrow>
    t = bk_ExpiredAt k \<or> z_instant (bk_ExpiredAt k) = zero_time \<Longrightarrow>
    effect K m (m\<lparr>m_backend := b\<lparr>backups := mput i (k\<lparr>bk_ExpiredAt := t\<rparr>) (backups b)\<rparr>\<rparr>)"
| policy_set: "effect K m (m\<lparr>m_policy := p\<rparr>)"

section \<open>The invariant\<close>

definition credential_inv :: "crypto \<Rightarrow> Manager \<Rightarrow> string \<Rightarrow> memoryCredential \<Rightarrow> bool" where
  "credential_inv K m i c \<longleftrightarrow>
     i \<noteq> [] \<and> md_ID (mc_metadata c) = i \<and> md_OrganizationID (mc_metadata c) \<noteq> [] \<and>
     md_SchemaVersion (mc_metadata c) \<noteq> 0 \<and> wf_map (mc_records c) \<and> 1 \<le> md_Version (mc_metadata c) \<and>
     (\<forall>v. (mget (mc_records c) v \<noteq> None) = (1 \<le> v \<and> v \<le> md_Version (mc_metadata c))) \<and>
     (\<forall>v r. mget (mc_records c) v = Some r \<longrightarrow> opens K m (mc_metadata c) v r)"

definition binding_inv :: "memoryBackend \<Rightarrow> string \<Rightarrow> memoryBinding \<Rightarrow> bool" where
  "binding_inv b run mb \<longleftrightarrow>
     (let x = mb_binding mb in
      b_RunID x = run \<and> 0 < b_MaxResolutions x \<and> b_ResolutionCount x \<le> b_MaxResolutions x \<and>
      (b_ResolutionCount x = b_MaxResolutions x) = (b_State x = BindingExhausted) \<and>
      unat (b_ResolutionCount x) = card (attempts_of b run) \<and>
      (\<exists>c. mget (credentials b) (b_CredentialID x) = Some c \<and>
         b_OrganizationID x = md_OrganizationID (mc_metadata c) \<and>
         1 \<le> b_CredentialVersion x \<and> b_CredentialVersion x \<le> md_Version (mc_metadata c)))"

definition rotation_inv :: "Manager \<Rightarrow> Rotation \<Rightarrow> bool" where
  "rotation_inv m r \<longleftrightarrow>
     (ro_State r \<noteq> RotationFinalized \<longrightarrow>
        (\<exists>p. ks_Previous (m_keys m) = Some p \<and> ro_SourceKeyID r = mk_id p) \<and>
        0 \<le> ro_ProcessedRecords r \<and>
        ro_ProcessedRecords r + int (card (keyrefs (m_backend m) (ro_SourceKeyID r))) \<le> ro_TotalRecords r \<and>
        (ro_State r = RotationReady) = (ro_ProcessedRecords r = ro_TotalRecords r))"

definition inv_maps :: "memoryBackend \<Rightarrow> bool" where
  "inv_maps b \<longleftrightarrow> wf_map (credentials b) \<and> wf_map (idempotency b) \<and> wf_map (bindings b) \<and>
     wf_map (attempts b) \<and> wf_map (rotations b) \<and> wf_map (backups b)"

definition inv_credentials :: "crypto \<Rightarrow> Manager \<Rightarrow> bool" where
  "inv_credentials K m \<longleftrightarrow>
     (\<forall>i c. mget (credentials (m_backend m)) i = Some c \<longrightarrow> credential_inv K m i c)"

definition inv_bindings :: "memoryBackend \<Rightarrow> bool" where
  "inv_bindings b \<longleftrightarrow>
     (\<forall>run mb. mget (bindings b) run = Some mb \<longrightarrow> binding_inv b run mb) \<and>
     (\<forall>a y. mget (attempts b) a = Some y \<longrightarrow> (\<exists>mb. mget (bindings b) (ma_runID y) = Some mb \<and>
        ma_executorIdentity y = b_ExecutorIdentity (mb_binding mb)))"

definition inv_rotations :: "Manager \<Rightarrow> bool" where
  "inv_rotations m \<longleftrightarrow>
     (\<forall>i r. mget (rotations (m_backend m)) i = Some r \<longrightarrow> rotation_inv m r) \<and>
     (\<forall>i j r s. mget (rotations (m_backend m)) i = Some r \<and> mget (rotations (m_backend m)) j = Some s \<and>
        ro_State r \<noteq> RotationFinalized \<and> ro_State s \<noteq> RotationFinalized \<longrightarrow> i = j)"

definition inv_backups :: "memoryBackend \<Rightarrow> bool" where
  "inv_backups b \<longleftrightarrow> (\<forall>i k. mget (backups b) i = Some k \<longrightarrow> bk_ID k = i \<and> validBackup k)"

definition store_inv :: "crypto \<Rightarrow> Manager \<Rightarrow> bool" where
  "store_inv K m \<longleftrightarrow> keys_ok (m_keys m) \<and> inv_maps (m_backend m) \<and> inv_credentials K m \<and>
     inv_bindings (m_backend m) \<and> inv_rotations m \<and> inv_backups (m_backend m)"

section \<open>The order\<close>

definition credential_le :: "crypto \<Rightarrow> Manager \<Rightarrow> memoryCredential \<Rightarrow> memoryCredential \<Rightarrow> bool" where
  "credential_le K m c c' \<longleftrightarrow>
     same_identity (mc_metadata c) (mc_metadata c') \<and> md_Version (mc_metadata c) \<le> md_Version (mc_metadata c') \<and>
     (md_State (mc_metadata c) = StateRetired \<longrightarrow> mc_metadata c' = mc_metadata c) \<and>
     (\<forall>v r. mget (mc_records c) v = Some r \<longrightarrow> (\<exists>r'. mget (mc_records c') v = Some r' \<and>
        Decrypt (c_aead K) r' (version_context (mc_metadata c) v) (Keyring (m_keys m)) =
        Decrypt (c_aead K) r (version_context (mc_metadata c) v) (Keyring (m_keys m))))"

definition binding_le :: "memoryBinding \<Rightarrow> memoryBinding \<Rightarrow> bool" where
  "binding_le x y \<longleftrightarrow>
     same_binding (mb_binding x) (mb_binding y) \<and> mb_idempotencyKey y = mb_idempotencyKey x \<and>
     mb_digest y = mb_digest x \<and> b_ResolutionCount (mb_binding x) \<le> b_ResolutionCount (mb_binding y) \<and>
     (terminal (b_State (mb_binding x)) \<longrightarrow> b_State (mb_binding y) = b_State (mb_binding x) \<and>
        b_ResolutionCount (mb_binding y) = b_ResolutionCount (mb_binding x))"

definition backup_le :: "BackupSet \<Rightarrow> BackupSet \<Rightarrow> bool" where
  "backup_le x y \<longleftrightarrow> bk_ID y = bk_ID x \<and> bk_ArtifactSHA256 y = bk_ArtifactSHA256 x \<and>
     bk_KeyIDs y = bk_KeyIDs x \<and> bk_CreatedAt y = bk_CreatedAt x \<and> bk_RetainUntil y = bk_RetainUntil x \<and>
     (z_instant (bk_ExpiredAt x) \<noteq> zero_time \<longrightarrow> bk_ExpiredAt y = bk_ExpiredAt x)"

definition map_le_by :: "('v \<Rightarrow> 'v \<Rightarrow> bool) \<Rightarrow> ('k, 'v) gomap \<Rightarrow> ('k, 'v) gomap \<Rightarrow> bool" where
  "map_le_by le m n \<longleftrightarrow> (\<forall>k x. mget m k = Some x \<longrightarrow> (\<exists>y. mget n k = Some y \<and> le x y))"

definition store_le :: "crypto \<Rightarrow> Manager \<Rightarrow> Manager \<Rightarrow> bool" where
  "store_le K m n \<longleftrightarrow>
     (let b = m_backend m; d = m_backend n in
      m_keys n = m_keys m \<and> m_schemas n = m_schemas m \<and> m_injector n = m_injector m \<and>
      map_le_by (credential_le K m) (credentials b) (credentials d) \<and>
      map_le_by (=) (idempotency b) (idempotency d) \<and>
      map_le_by binding_le (bindings b) (bindings d) \<and>
      map_le_by (=) (attempts b) (attempts d) \<and>
      map_le_by (\<lambda>r s. ro_State r = RotationFinalized \<longrightarrow> s = r) (rotations b) (rotations d) \<and>
      map_le_by backup_le (backups b) (backups d))"

section \<open>Effects respect the order\<close>

lemma same_identity_refl [simp]: "same_identity md md"
  by (simp add: same_identity_def)

lemma same_binding_refl [simp]: "same_binding x x"
  by (simp add: same_binding_def)

lemma credential_le_refl [simp]: "credential_le K m c c"
  by (simp add: credential_le_def)

lemma binding_le_refl [simp]: "binding_le x x"
  by (simp add: binding_le_def)

lemma backup_le_refl [simp]: "backup_le x x"
  by (simp add: backup_le_def)

lemma map_le_by_refl [simp]: "(\<And>x. le x x) \<Longrightarrow> map_le_by le m m"
  by (auto simp: map_le_by_def)

lemma map_le_by_mput:
  "(\<And>x. le x x) \<Longrightarrow> (\<And>y. mget m k = Some y \<Longrightarrow> le y x) \<Longrightarrow> map_le_by le m (mput k x m)"
  by (auto simp: map_le_by_def)

lemma map_le_by_trans:
  assumes "map_le_by le m n" and "map_le_by le' n p" and "\<And>x y z. le x y \<Longrightarrow> le' y z \<Longrightarrow> le'' x z"
  shows "map_le_by le'' m p"
  using assms unfolding map_le_by_def by meson

lemma version_context_identity:
  "same_identity md md' \<Longrightarrow> version_context md' v = version_context md v"
  by (simp add: same_identity_def version_context_def envelopeContext_def)

lemma credential_le_trans:
  assumes "credential_le K m c d" and "credential_le K n d e" and "m_keys n = m_keys m"
  shows "credential_le K m c e"
proof -
  have s: "same_identity (mc_metadata c) (mc_metadata d)" "same_identity (mc_metadata d) (mc_metadata e)"
    using assms(1,2) by (auto simp: credential_le_def)
  have "\<exists>r''. mget (mc_records e) v = Some r'' \<and>
      Decrypt (c_aead K) r'' (version_context (mc_metadata c) v) (Keyring (m_keys m)) =
      Decrypt (c_aead K) r (version_context (mc_metadata c) v) (Keyring (m_keys m))"
    if "mget (mc_records c) v = Some r" for v r
    using that assms version_context_identity [OF s(1)] unfolding credential_le_def by metis
  moreover have "same_identity (mc_metadata c) (mc_metadata e)"
    using s by (simp add: same_identity_def)
  ultimately show ?thesis
    using assms(1,2) by (auto simp: credential_le_def)
qed

lemma binding_le_trans: "binding_le x y \<Longrightarrow> binding_le y z \<Longrightarrow> binding_le x z"
  by (auto simp: binding_le_def same_binding_def)

lemma backup_le_trans: "backup_le x y \<Longrightarrow> backup_le y z \<Longrightarrow> backup_le x z"
  by (auto simp: backup_le_def)

lemma store_le_refl: "store_le K m m"
  by (simp add: store_le_def Let_def)

lemma store_le_trans:
  assumes "store_le K m n" and "store_le K n p"
  shows "store_le K m p"
proof -
  have k: "m_keys n = m_keys m" using assms(1) by (simp add: store_le_def Let_def)
  note u = assms [unfolded store_le_def Let_def]
  have "map_le_by (credential_le K m) (credentials (m_backend m)) (credentials (m_backend p))"
    by (rule map_le_by_trans [where le = "credential_le K m" and le' = "credential_le K n"])
      (use u credential_le_trans [OF _ _ k] in auto)
  moreover have "map_le_by binding_le (bindings (m_backend m)) (bindings (m_backend p))"
    by (rule map_le_by_trans [where le = binding_le and le' = binding_le]) (use u binding_le_trans in auto)
  moreover have "map_le_by backup_le (backups (m_backend m)) (backups (m_backend p))"
    by (rule map_le_by_trans [where le = backup_le and le' = backup_le]) (use u backup_le_trans in auto)
  moreover have "map_le_by (\<lambda>r s. ro_State r = RotationFinalized \<longrightarrow> s = r) (rotations (m_backend m)) (rotations (m_backend p))"
    using u unfolding map_le_by_def by metis
  moreover have "map_le_by (=) (idempotency (m_backend m)) (idempotency (m_backend p))"
    "map_le_by (=) (attempts (m_backend m)) (attempts (m_backend p))"
    using u unfolding map_le_by_def by metis+
  ultimately show ?thesis
    using u by (simp add: store_le_def Let_def)
qed

lemma credential_versions:
  assumes "credential_inv K m i c" and "mget (mc_records c) v = Some r"
  shows "v \<le> md_Version (mc_metadata c)"
  using assms by (auto simp: credential_inv_def)

lemma put_record_fields [simp]:
  "idempotency (put_record x b) = idempotency b" "bindings (put_record x b) = bindings b"
  "attempts (put_record x b) = attempts b" "rotations (put_record x b) = rotations b"
  "backups (put_record x b) = backups b"
  by (auto simp: put_record_def split: prod.splits option.splits)

lemma put_record_eq:
  "mget (credentials b) i = Some c \<Longrightarrow> put_record (i, v, r) b =
     b\<lparr>credentials := mput i (c\<lparr>mc_records := mput v r (mc_records c)\<rparr>) (credentials b)\<rparr>"
  by (simp add: put_record_def)

lemma put_binding_fields [simp]:
  "credentials (put_binding b run mb x) = credentials b" "idempotency (put_binding b run mb x) = idempotency b"
  "attempts (put_binding b run mb x) = attempts b" "rotations (put_binding b run mb x) = rotations b"
  "backups (put_binding b run mb x) = backups b"
  "bindings (put_binding b run mb x) = mput run (mb\<lparr>mb_binding := x\<rparr>) (bindings b)"
  by (simp_all add: put_binding_def)

lemma effect_keys: "effect K m n \<Longrightarrow> m_keys n = m_keys m \<and> m_schemas n = m_schemas m \<and> m_injector n = m_injector m"
  by (induction rule: effect.induct) auto

lemma effect_le:
  assumes "effect K m n" and inv: "store_inv K m"
  shows "store_le K m n"
  using assms(1)
proof cases
  case (created b md k r d)
  then show ?thesis
    by (auto simp: store_le_def Let_def intro!: map_le_by_mput)
next
  case (versioned b i c md r)
  have ci: "credential_inv K m i c"
    using inv versioned by (auto simp: store_inv_def inv_credentials_def)
  have v: "md_Version (mc_metadata c) < md_Version md"
    using versioned word_succ_gt by metis
  have "v \<noteq> md_Version md" if "mget (mc_records c) v = Some r'" for v r'
    using credential_versions [OF ci that] v by auto
  with versioned v have "credential_le K m c
      \<lparr>mc_metadata = md, mc_records = mput (md_Version md) r (mc_records c)\<rparr>"
    by (auto simp: credential_le_def)
  with versioned show ?thesis
    by (auto simp: store_le_def Let_def intro!: map_le_by_mput)
next
  case (rekeyed b i c v r r')
  then have "credential_le K m c (c\<lparr>mc_records := mput v r' (mc_records c)\<rparr>)"
    by (auto simp: credential_le_def)
  with rekeyed show ?thesis
    by (auto simp: store_le_def Let_def put_record_eq intro!: map_le_by_mput)
next
  case (closed b run mb x)
  then have "binding_le mb (mb\<lparr>mb_binding := x\<rparr>)"
    by (auto simp: binding_le_def terminal_def)
  with closed show ?thesis
    by (auto simp: store_le_def Let_def intro!: map_le_by_mput)
next
  case (claimed b run mb x a y)
  then have "b_ResolutionCount (mb_binding mb) \<le> b_ResolutionCount x"
    using word_less_succ(3) by (metis less_imp_le)
  with claimed have "binding_le mb (mb\<lparr>mb_binding := x\<rparr>)"
    by (auto simp: binding_le_def)
  with claimed show ?thesis
    by (auto simp: store_le_def Let_def intro!: map_le_by_mput)
qed (auto simp: store_le_def Let_def backup_le_def intro!: map_le_by_mput)

section \<open>Effects keep the invariant\<close>

lemma validateSchema_cong: "m_schemas n = m_schemas m \<Longrightarrow> validateSchema n = validateSchema m"
  by (intro ext) (simp only: validateSchema_def)

lemma opens_cong:
  "m_keys n = m_keys m \<Longrightarrow> m_schemas n = m_schemas m \<Longrightarrow> opens K n = opens K m"
  using validateSchema_cong [of n m] by (intro ext) (simp add: opens_def)

lemma credential_inv_cong:
  "m_keys n = m_keys m \<Longrightarrow> m_schemas n = m_schemas m \<Longrightarrow> credential_inv K n = credential_inv K m"
  using opens_cong [of n m K] by (intro ext) (simp add: credential_inv_def)

lemma opens_identity: "same_identity md md' \<Longrightarrow> opens K m md' v r = opens K m md v r"
  by (simp add: opens_def version_context_identity) (simp add: same_identity_def)

lemma inv_credentials_same:
  "inv_credentials K m \<Longrightarrow> m_keys n = m_keys m \<Longrightarrow> m_schemas n = m_schemas m \<Longrightarrow>
   credentials (m_backend n) = credentials (m_backend m) \<Longrightarrow> inv_credentials K n"
  by (simp add: inv_credentials_def credential_inv_cong [of n m])

lemma inv_credentials_put:
  "inv_credentials K m \<Longrightarrow> m_keys n = m_keys m \<Longrightarrow> m_schemas n = m_schemas m \<Longrightarrow>
   credentials (m_backend n) = mput i c (credentials (m_backend m)) \<Longrightarrow> credential_inv K m i c \<Longrightarrow>
   inv_credentials K n"
  by (simp add: inv_credentials_def credential_inv_cong [of n m])

definition credentials_grow :: "(string, memoryCredential) gomap \<Rightarrow> (string, memoryCredential) gomap \<Rightarrow> bool" where
  "credentials_grow = map_le_by (\<lambda>c c'. md_OrganizationID (mc_metadata c') = md_OrganizationID (mc_metadata c) \<and>
     md_Version (mc_metadata c) \<le> md_Version (mc_metadata c'))"

lemma credentials_grow_refl [simp]: "credentials_grow cs cs"
  by (simp add: credentials_grow_def)

lemma store_le_grow: "store_le K m n \<Longrightarrow> credentials_grow (credentials (m_backend m)) (credentials (m_backend n))"
  unfolding store_le_def Let_def credentials_grow_def map_le_by_def credential_le_def same_identity_def
  by metis

lemma attempts_of_cong: "attempts d = attempts b \<Longrightarrow> attempts_of d = attempts_of b"
  by (intro ext) (simp only: attempts_of_def)

lemma binding_inv_mono:
  assumes "binding_inv b run mb" and "attempts_of d run = attempts_of b run"
    and "credentials_grow (credentials b) (credentials d)"
  shows "binding_inv d run mb"
proof -
  from assms(1) obtain c where "mget (credentials b) (b_CredentialID (mb_binding mb)) = Some c"
    "b_OrganizationID (mb_binding mb) = md_OrganizationID (mc_metadata c)"
    "b_CredentialVersion (mb_binding mb) \<le> md_Version (mc_metadata c)"
    by (auto simp: binding_inv_def Let_def)
  moreover from this(1) assms(3) obtain c' where "mget (credentials d) (b_CredentialID (mb_binding mb)) = Some c'"
    "md_OrganizationID (mc_metadata c') = md_OrganizationID (mc_metadata c)"
    "md_Version (mc_metadata c) \<le> md_Version (mc_metadata c')"
    unfolding credentials_grow_def map_le_by_def by blast
  ultimately have "\<exists>c'. mget (credentials d) (b_CredentialID (mb_binding mb)) = Some c' \<and>
    b_OrganizationID (mb_binding mb) = md_OrganizationID (mc_metadata c') \<and>
    b_CredentialVersion (mb_binding mb) \<le> md_Version (mc_metadata c')"
    by auto
  with assms(1,2) show ?thesis
    by (auto simp: binding_inv_def Let_def)
qed

lemma inv_bindings_mono:
  assumes "inv_bindings b" and "bindings d = bindings b" and "attempts d = attempts b"
    and "credentials_grow (credentials b) (credentials d)"
  shows "inv_bindings d"
  using assms(1) binding_inv_mono [OF _ fun_cong [OF attempts_of_cong [OF assms(3)]] assms(4)]
  unfolding inv_bindings_def assms(2,3) by blast

lemma inv_bindings_put:
  assumes "inv_bindings b" and "credentials d = credentials b" and "attempts d = attempts b"
    and "bindings d = mput run mb (bindings b)" and "binding_inv b run mb"
    and "\<And>old. mget (bindings b) run = Some old \<Longrightarrow> b_ExecutorIdentity (mb_binding mb) = b_ExecutorIdentity (mb_binding old)"
  shows "inv_bindings d"
proof -
  have "binding_inv d r x" if "binding_inv b r x" for r x
    using binding_inv_mono [OF that fun_cong [OF attempts_of_cong [OF assms(3)]]] by (simp add: assms(2))
  with assms show ?thesis
    unfolding inv_bindings_def by (auto split: if_splits) metis+
qed

lemma finite_keyrefs [simp]: "finite (keyrefs b k)"
proof (rule finite_subset)
  show "keyrefs b k \<subseteq> (\<Union>(i, c) \<in> set (credentials b). {i} \<times> fst ` set (mc_records c))"
    by (force simp: keyrefs_def rec_at_def split: option.splits dest: mget_in_set)
qed auto

lemma keyrefs_shrink:
  assumes "\<And>i v r. rec_at d i v = Some r \<Longrightarrow> rec_at b i v = Some r \<or> rec_MasterKeyID r = k0" and "k \<noteq> k0"
  shows "keyrefs d k \<subseteq> keyrefs b k"
  using assms by (force simp: keyrefs_def)

lemma rec_at_put: "credentials d = mput i c (credentials b) \<Longrightarrow>
   rec_at d j v = (if j = i then mget (mc_records c) v else rec_at b j v)"
  by (simp add: rec_at_def)

lemma rec_at_same: "credentials d = credentials b \<Longrightarrow> rec_at d = rec_at b"
  by (intro ext) (simp only: rec_at_def)

lemma keyrefs_same: "credentials d = credentials b \<Longrightarrow> keyrefs d = keyrefs b"
  using rec_at_same [of d b] by (intro ext) (simp add: keyrefs_def)

lemma previous_differs: "keys_ok s \<Longrightarrow> ks_Previous s = Some p \<Longrightarrow> mk_id p \<noteq> mk_id (ks_Current s)"
  by (auto simp: keys_ok_def key_list_def)

lemma rotation_inv_mono:
  assumes "rotation_inv m r" and "m_keys n = m_keys m"
    and "\<And>p. ks_Previous (m_keys m) = Some p \<Longrightarrow> keyrefs (m_backend n) (mk_id p) \<subseteq> keyrefs (m_backend m) (mk_id p)"
  shows "rotation_inv n r"
proof (cases "ro_State r = RotationFinalized")
  case False
  with assms obtain p where "ks_Previous (m_keys m) = Some p" "ro_SourceKeyID r = mk_id p"
    by (auto simp: rotation_inv_def)
  with assms(3) have "card (keyrefs (m_backend n) (ro_SourceKeyID r)) \<le> card (keyrefs (m_backend m) (ro_SourceKeyID r))"
    by (simp add: card_mono)
  with assms(1,2) False show ?thesis
    by (auto simp: rotation_inv_def)
qed (simp add: rotation_inv_def)

lemma inv_rotations_mono:
  assumes "inv_rotations m" and "m_keys n = m_keys m" and "rotations (m_backend n) = rotations (m_backend m)"
    and "\<And>p. ks_Previous (m_keys m) = Some p \<Longrightarrow> keyrefs (m_backend n) (mk_id p) \<subseteq> keyrefs (m_backend m) (mk_id p)"
  shows "inv_rotations n"
  using assms(1,3) rotation_inv_mono [OF _ assms(2,4)] by (simp add: inv_rotations_def)

lemma inv_rotations_put:
  assumes "inv_rotations m" and "m_keys n = m_keys m" and "credentials (m_backend n) = credentials (m_backend m)"
    and "rotations (m_backend n) = mput i r (rotations (m_backend m))" and "rotation_inv m r"
    and "ro_State r \<noteq> RotationFinalized \<Longrightarrow> (\<forall>j s. mget (rotations (m_backend m)) j = Some s \<and> j \<noteq> i \<longrightarrow> ro_State s = RotationFinalized)"
  shows "inv_rotations n"
proof -
  have "rotation_inv n s" if "rotation_inv m s" for s
    using that by (rule rotation_inv_mono) (simp_all add: assms(2) keyrefs_same [OF assms(3)])
  with assms show ?thesis
    unfolding inv_rotations_def by (auto split: if_splits)
qed

lemma version_context_self: "version_context md (md_Version md) = envelopeContext md"
  by (simp add: version_context_def)

lemma credential_inv_created:
  "md_Version md = 1 \<Longrightarrow> md_OrganizationID md \<noteq> [] \<Longrightarrow> md_SchemaVersion md \<noteq> 0 \<Longrightarrow> md_ID md \<noteq> [] \<Longrightarrow>
   sealed K m md r \<Longrightarrow> credential_inv K m (md_ID md) \<lparr>mc_metadata = md, mc_records = [(md_Version md, r)]\<rparr>"
  by (auto simp: credential_inv_def sealed_def wf_map_def)

lemma credential_inv_versioned:
  assumes c: "credential_inv K m i c" and s: "same_identity (mc_metadata c) md"
    and v: "md_Version md = md_Version (mc_metadata c) + 1" "md_Version md \<noteq> 0" and r: "sealed K m md r"
  shows "credential_inv K m i \<lparr>mc_metadata = md, mc_records = mput (md_Version md) r (mc_records c)\<rparr>"
proof -
  let ?w = "md_Version (mc_metadata c)"
  have u: "unat (md_Version md) = Suc (unat ?w)"
    using v by (metis add.commute unatSuc)
  then have "(x \<le> md_Version md) = (x \<le> ?w \<or> x = md_Version md)" for x
    by (simp add: word_le_nat_alt le_Suc_eq) (metis word_unat_eq_iff u)
  moreover have "1 \<le> md_Version md" "1 \<le> ?w"
    using u c by (auto simp: word_le_nat_alt credential_inv_def)
  moreover have "opens K m md x y" if "mget (mc_records c) x = Some y" for x y
    using that c opens_identity [OF s] by (simp add: credential_inv_def)
  ultimately show ?thesis
    using c s r by (auto simp: credential_inv_def sealed_def same_identity_def)
qed

lemma credential_inv_rekeyed:
  assumes "credential_inv K m i c" and "mget (mc_records c) v = Some r"
    and "Decrypt (c_aead K) r' (version_context (mc_metadata c) v) (Keyring (m_keys m)) =
      Decrypt (c_aead K) r (version_context (mc_metadata c) v) (Keyring (m_keys m))"
  shows "credential_inv K m i (c\<lparr>mc_records := mput v r' (mc_records c)\<rparr>)"
proof -
  have "opens K m (mc_metadata c) v r'"
    using assms by (auto simp: credential_inv_def opens_def)
  moreover have "1 \<le> v \<and> v \<le> md_Version (mc_metadata c)"
    using assms(1,2) unfolding credential_inv_def by (metis option.distinct(1))
  ultimately show ?thesis
    using assms(1) by (simp add: credential_inv_def)
qed

lemma effect_credentials:
  assumes "effect K m n" and inv: "store_inv K m"
  shows "inv_credentials K n"
proof -
  have ic: "inv_credentials K m" using inv by (simp add: store_inv_def)
  from assms(1) show ?thesis
  proof cases
    case (created b md k r d)
    then show ?thesis
      by (intro inv_credentials_put [OF ic _ _ _ credential_inv_created]) auto
  next
    case (versioned b i c md r)
    then have "credential_inv K m i c" using ic by (simp add: inv_credentials_def)
    with versioned show ?thesis
      by (intro inv_credentials_put [OF ic _ _ _ credential_inv_versioned]) auto
  next
    case (rekeyed b i c v r r')
    then have "credential_inv K m i c" using ic by (simp add: inv_credentials_def)
    with rekeyed have "credential_inv K m i (c\<lparr>mc_records := mput v r' (mc_records c)\<rparr>)"
      by (intro credential_inv_rekeyed) auto
    with rekeyed show ?thesis
      by (intro inv_credentials_put [OF ic]) (auto simp: put_record_eq)
  qed (rule inv_credentials_same [OF ic]; simp)+
qed

lemma effect_credential_refs:
  assumes "effect K m n" and inv: "store_inv K m" and p: "ks_Previous (m_keys m) = Some p"
  shows "keyrefs (m_backend n) (mk_id p) \<subseteq> keyrefs (m_backend m) (mk_id p)"
proof -
  have ne: "mk_id p \<noteq> mk_id (ks_Current (m_keys m))"
    using inv p previous_differs by (auto simp: store_inv_def)
  have "rec_at (m_backend m) i v = Some r \<or> rec_MasterKeyID r = mk_id (ks_Current (m_keys m))"
    if "rec_at (m_backend n) i v = Some r" for i v r
    using assms(1) that
    by cases (auto simp: rec_at_def put_record_eq sealed_def split: option.splits if_splits)
  then show ?thesis using ne by (rule keyrefs_shrink)
qed

lemma binding_inv_registered:
  assumes "inv_bindings b" and "mget (bindings b) (b_RunID x) = None"
    and "mget (credentials b) (b_CredentialID x) = Some c" and "b_OrganizationID x = md_OrganizationID (mc_metadata c)"
    and "b_CredentialVersion x = md_Version (mc_metadata c)" and "1 \<le> md_Version (mc_metadata c)"
    and "0 < b_MaxResolutions x" and "b_ResolutionCount x = 0" and "b_State x \<in> {BindingPending, BindingActive}"
  shows "binding_inv b (b_RunID x) \<lparr>mb_binding = x, mb_idempotencyKey = k, mb_digest = d\<rparr>"
proof -
  have "attempts_of b (b_RunID x) = {}"
    using assms(1,2) by (force simp: attempts_of_def inv_bindings_def)
  with assms show ?thesis
    by (auto simp: binding_inv_def Let_def)
qed

lemma binding_inv_closed:
  assumes "binding_inv b run mb" and "same_binding (mb_binding mb) x"
    and "b_ResolutionCount x = b_ResolutionCount (mb_binding mb)"
    and "\<not> terminal (b_State (mb_binding mb)) \<and> b_State x \<in> {BindingCanceled, BindingExpired} \<or>
      b_State (mb_binding mb) = BindingExhausted \<and> b_State x = BindingExhausted"
  shows "binding_inv b run (mb\<lparr>mb_binding := x\<rparr>)"
  using assms by (auto simp: binding_inv_def Let_def same_binding_def terminal_def)

lemma finite_attempts_of [simp]: "finite (attempts_of b run)"
proof (rule finite_subset)
  show "attempts_of b run \<subseteq> fst ` set (attempts b)"
    by (force simp: attempts_of_def dest: mget_in_set)
qed simp

lemma inv_bindings_claimed:
  assumes ib: "inv_bindings b" and mb: "mget (bindings b) run = Some mb" and same: "same_binding (mb_binding mb) x"
    and nt: "\<not> terminal (b_State (mb_binding mb))" and a: "mget (attempts b) a = None"
    and lt: "b_ResolutionCount (mb_binding mb) < b_MaxResolutions (mb_binding mb)"
    and cnt: "b_ResolutionCount x = b_ResolutionCount (mb_binding mb) + 1"
    and st: "b_State x = (if b_ResolutionCount x = b_MaxResolutions x then BindingExhausted else BindingActive)"
    and y: "ma_runID y = run" "ma_executorIdentity y = b_ExecutorIdentity x"
  shows "inv_bindings (put_binding (b\<lparr>attempts := mput a y (attempts b)\<rparr>) run mb x)"
    (is "inv_bindings ?d")
proof -
  have at: "attempts_of ?d r = (if r = run then insert a (attempts_of b r) else attempts_of b r)" for r
    using a y(1) by (auto simp: attempts_of_def)
  have bi: "binding_inv b run mb" using ib mb by (simp add: inv_bindings_def)
  have "a \<notin> attempts_of b run" using a by (simp add: attempts_of_def)
  moreover note word_less_succ [OF lt]
  ultimately have new: "binding_inv ?d run (mb\<lparr>mb_binding := x\<rparr>)"
    using bi same cnt st at by (auto simp: binding_inv_def Let_def same_binding_def)
  have old: "binding_inv ?d r m" if "mget (bindings b) r = Some m" "r \<noteq> run" for r m
    by (rule binding_inv_mono [of b]) (use ib that at in \<open>simp_all add: inv_bindings_def\<close>)
  show ?thesis
    unfolding inv_bindings_def
  proof (intro conjI allI impI)
    fix r m assume "mget (bindings ?d) r = Some m"
    with new old show "binding_inv ?d r m" by (auto split: if_splits)
  next
    fix a' y' assume "mget (attempts ?d) a' = Some y'"
    with ib y same mb show "\<exists>m. mget (bindings ?d) (ma_runID y') = Some m \<and>
        ma_executorIdentity y' = b_ExecutorIdentity (mb_binding m)"
      by (auto simp: inv_bindings_def same_binding_def split: if_splits) (metis option.inject)
  qed
qed

lemma effect_bindings:
  assumes "effect K m n" and inv: "store_inv K m"
  shows "inv_bindings (m_backend n)"
proof -
  have ib: "inv_bindings (m_backend m)" using inv by (simp add: store_inv_def)
  have grow: "credentials_grow (credentials (m_backend m)) (credentials (m_backend n))"
    using effect_le [OF assms] by (rule store_le_grow)
  from assms(1) show ?thesis
  proof cases
    case (registered b x c k d)
    then have "1 \<le> md_Version (mc_metadata c)"
      using inv by (auto simp: store_inv_def inv_credentials_def credential_inv_def)
    with registered ib have "binding_inv b (b_RunID x) \<lparr>mb_binding = x, mb_idempotencyKey = k, mb_digest = d\<rparr>"
      by (intro binding_inv_registered) auto
    with registered ib show ?thesis
      by (auto intro: inv_bindings_put [of b])
  next
    case (closed b run mb x)
    then have "binding_inv b run (mb\<lparr>mb_binding := x\<rparr>)"
      using ib by (intro binding_inv_closed) (auto simp: inv_bindings_def)
    with closed ib show ?thesis
      by (auto intro: inv_bindings_put [of b] simp: same_binding_def)
  next
    case (claimed b run mb x a y)
    with ib show ?thesis by (auto intro: inv_bindings_claimed)
  qed (rule inv_bindings_mono [OF ib _ _ grow]; simp)+
qed

lemma effect_rotations:
  assumes "effect K m n" and inv: "store_inv K m"
  shows "inv_rotations n"
proof -
  have ir: "inv_rotations m" using inv by (simp add: store_inv_def)
  have k: "m_keys n = m_keys m" using effect_keys [OF assms(1)] by simp
  from assms(1) show ?thesis
  proof cases
    case (rotation_started b p r)
    then have "rotation_inv m r" by (auto simp: rotation_inv_def split: if_splits)
    moreover have "ro_State s = RotationFinalized" if "mget (rotations b) j = Some s" for j s
      using that rotation_started(3) by (force simp: list_all_iff dest: mget_in_set)
    ultimately show ?thesis
      using rotation_started by (intro inv_rotations_put [OF ir k]) auto
  next
    case (rotation_advanced b i r r')
    moreover from this have "rotation_inv m r" using ir by (simp add: inv_rotations_def)
    ultimately have "rotation_inv m r'" by (auto simp: rotation_inv_def split: if_splits)
    moreover have "\<forall>j s. mget (rotations (m_backend m)) j = Some s \<and> j \<noteq> i \<longrightarrow> ro_State s = RotationFinalized"
      using ir rotation_advanced(2-4) unfolding inv_rotations_def by blast
    ultimately show ?thesis
      using rotation_advanced by (intro inv_rotations_put [OF ir k]) simp_all
  next
    case (rotation_finalized b i r r')
    then show ?thesis
      by (intro inv_rotations_put [OF ir k]) (auto simp: rotation_inv_def)
  qed (rule inv_rotations_mono [OF ir k _ effect_credential_refs [OF assms]]; simp)+
qed

lemma effect_maps: "effect K m n \<Longrightarrow> inv_maps (m_backend m) \<Longrightarrow> inv_maps (m_backend n)"
  by (induction rule: effect.induct) (auto simp: inv_maps_def put_record_eq)

lemma validBackup_expire [simp]: "validBackup (k\<lparr>bk_ExpiredAt := t\<rparr>) = validBackup k"
  by (simp add: validBackup_def)

lemma effect_backups: "effect K m n \<Longrightarrow> inv_backups (m_backend m) \<Longrightarrow> inv_backups (m_backend n)"
  by (induction rule: effect.induct) (auto simp: inv_backups_def split: if_splits)

theorem effect_inv: "effect K m n \<Longrightarrow> store_inv K m \<Longrightarrow> store_inv K n"
  using effect_credentials effect_bindings effect_rotations effect_maps effect_backups effect_keys
  by (simp add: store_inv_def)

lemma effects_inv_le:
  "(effect K)\<^sup>*\<^sup>* m n \<Longrightarrow> store_inv K m \<Longrightarrow> store_inv K n \<and> store_le K m n"
proof (induction rule: rtranclp_induct)
  case base
  then show ?case by (simp add: store_le_refl)
next
  case (step n p)
  then show ?case
    using effect_inv effect_le store_le_trans by blast
qed

end
