(* ===== verification/Transport_Routes.thy ===== *)
theory Transport_Routes
  imports Transport_Server Json_Utf8 Store_Spec
begin

text \<open>
  What a request may do, as a specification: the operations of the audit vocabulary, the roles
  permitted to each and the call of the service each stands for. Every handler either refuses,
  leaving the state as it is, or makes exactly the call that the audited operation names.
\<close>


section \<open>The calls a request can lead to\<close>

text \<open>
  The specification of the boundary: which call of the service an operation name of the audit
  vocabulary stands for, and the roles that may make it. A call is seen as the error it ends
  with, if any, and the state it leaves.
\<close>

definition outcome :: "('e + 'a) \<times> 's \<Rightarrow> 'e option \<times> 's" where
  "outcome r = (case r of (Inl e, s) \<Rightarrow> (Some e, s) | (Inr _, s) \<Rightarrow> (None, s))"

definition permitted :: "string \<Rightarrow> string list" where
  "permitted operation =
     (if operation = OperationSecurityStatusRead then [RoleSecretsOperator, RoleSecretsAuditor]
      else if operation \<in> {OperationKeyStatusRead, OperationRecoveryValidationFinished, OperationBackupRegistered,
          OperationBackupExpired, OperationMasterKeyRotationStarted, OperationMasterKeyRotationInspected,
          OperationMasterKeyRotationResumed, OperationMasterKeyRotationFinalized, OperationCredentialKeyRotated}
      then [RoleSecretsOperator]
      else if operation \<in> {OperationCredentialCreated, OperationCredentialRead, OperationCredentialInputsReplaced,
          OperationCredentialMetadataUpdated, OperationCredentialRetired}
      then [RoleAPI]
      else if operation \<in> {OperationRunBindingRegistered, OperationRunBindingInspected, OperationRunBindingCanceled}
      then [RoleScheduler]
      else if operation = OperationCredentialResolved then [RoleExecutor]
      else [])"

inductive call :: "'s CredentialService \<Rightarrow> WorkloadIdentity \<Rightarrow> string \<Rightarrow> ('s \<Rightarrow> cred_error option \<times> 's) \<Rightarrow> bool"
  for svc :: "'s CredentialService" and identity :: WorkloadIdentity where
  create: "inputs_utf8 (cr_Inputs r) \<Longrightarrow>
    call svc identity OperationCredentialCreated (\<lambda>s. outcome (sv_CreateContext svc ctx r s))"
| get: "call svc identity OperationCredentialRead (\<lambda>s. outcome (sv_GetContext svc ctx org i s))"
| replace: "inputs_utf8 (ri_Inputs r') \<Longrightarrow>
    call svc identity OperationCredentialInputsReplaced (\<lambda>s. outcome (sv_ReplaceInputsContext svc ctx r' s))"
| update: "call svc identity OperationCredentialMetadataUpdated (\<lambda>s. outcome (sv_UpdateMetadataContext svc ctx u s))"
| retire: "call svc identity OperationCredentialRetired (\<lambda>s. outcome (sv_RetireContext svc ctx t s))"
| register: "call svc identity OperationRunBindingRegistered (\<lambda>s. outcome (sv_RegisterBinding svc ctx identity b s))"
| inspect: "call svc identity OperationRunBindingInspected (\<lambda>s. outcome (sv_InspectBinding svc ctx identity run s))"
| cancel: "call svc identity OperationRunBindingCanceled (\<lambda>s. outcome (sv_CancelBinding svc ctx identity c s))"
| resolve: "call svc identity OperationCredentialResolved (\<lambda>s. outcome (sv_Resolve svc ctx identity q s))"
| start: "call svc identity OperationMasterKeyRotationStarted (\<lambda>s. outcome (sv_StartMasterKeyRotation svc ctx s))"
| rotation: "call svc identity OperationMasterKeyRotationInspected (\<lambda>s. outcome (sv_GetMasterKeyRotation svc ctx i s))"
| resume: "1 \<le> n \<Longrightarrow> n \<le> 1000 \<Longrightarrow>
    call svc identity OperationMasterKeyRotationResumed (\<lambda>s. outcome (sv_ResumeMasterKeyRotation svc ctx i n s))"
| finalize: "call svc identity OperationMasterKeyRotationFinalized (\<lambda>s. outcome (sv_FinalizeMasterKeyRotation svc ctx i s))"
| rotate: "call svc identity OperationCredentialKeyRotated (\<lambda>s. outcome (sv_RotateCredentialKey svc ctx k s))"
| status: "call svc identity OperationKeyStatusRead (\<lambda>s. outcome (sv_KeyStatus svc ctx s))"
| recovery: "1 \<le> n \<Longrightarrow> n \<le> 1000 \<Longrightarrow>
    call svc identity OperationRecoveryValidationFinished (\<lambda>s. outcome (sv_ValidateRecovery svc ctx n s))"
| backup: "call svc identity OperationBackupRegistered (\<lambda>s. outcome (sv_RegisterBackup svc ctx copy s))"
| expire: "call svc identity OperationBackupExpired (\<lambda>s. outcome (sv_ExpireBackup svc ctx i s))"

section \<open>Operation names\<close>

lemmas operation_defs =
  OperationUnknownRoute_def OperationSecurityStatusRead_def OperationKeyStatusRead_def OperationCredentialCreated_def
  OperationCredentialRead_def OperationCredentialInputsReplaced_def OperationCredentialMetadataUpdated_def
  OperationCredentialRetired_def OperationRunBindingRegistered_def OperationRunBindingInspected_def
  OperationRunBindingCanceled_def OperationCredentialResolved_def OperationMasterKeyRotationStarted_def
  OperationMasterKeyRotationInspected_def OperationMasterKeyRotationResumed_def OperationCredentialKeyRotated_def
  OperationMasterKeyRotationFinalized_def OperationRecoveryValidationFinished_def OperationBackupRegistered_def
  OperationBackupExpired_def

text \<open>No path ends with two of the suffixes that name an operation.\<close>

lemma HasPrefix_simps [simp]: "HasPrefix s []" "HasPrefix [] (d # p) = False" "HasPrefix (c # s) (d # p) \<longleftrightarrow> c = d \<and> HasPrefix s p"
  by (auto simp: HasPrefix_def)

lemma HasSuffix_rev: "HasSuffix s p \<longleftrightarrow> HasPrefix (rev s) (rev p)"
  by (auto simp: HasSuffix_iff HasPrefix_iff) (metis rev_append rev_rev_ident)

lemma HasPrefix_Cons_iff: "HasPrefix s (d # p) \<longleftrightarrow> (\<exists>r. s = d # r \<and> HasPrefix r p)"
  by (cases s) auto

lemma suffix_clash:
  "HasSuffix p ''/resume'' \<Longrightarrow> \<not> HasSuffix p ''/expire''"
  "HasSuffix p ''/finalize'' \<Longrightarrow> \<not> HasSuffix p ''/expire'' \<and> \<not> HasSuffix p ''/resume''"
  "HasSuffix p ''/rotate'' \<Longrightarrow> \<not> HasSuffix p ''/expire'' \<and> \<not> HasSuffix p ''/resume'' \<and> \<not> HasSuffix p ''/finalize''"
  "HasSuffix p ''/retire'' \<Longrightarrow> \<not> HasSuffix p ''/expire'' \<and> \<not> HasSuffix p ''/resume'' \<and> \<not> HasSuffix p ''/finalize'' \<and>
     \<not> HasSuffix p ''/rotate''"
  "HasSuffix p ''/cancel'' \<Longrightarrow> \<not> HasSuffix p ''/expire'' \<and> \<not> HasSuffix p ''/resume'' \<and> \<not> HasSuffix p ''/finalize'' \<and>
     \<not> HasSuffix p ''/rotate'' \<and> \<not> HasSuffix p ''/retire''"
  "HasSuffix p ''/credential:resolve'' \<Longrightarrow> \<not> HasSuffix p ''/expire'' \<and> \<not> HasSuffix p ''/resume'' \<and>
     \<not> HasSuffix p ''/finalize'' \<and> \<not> HasSuffix p ''/rotate'' \<and> \<not> HasSuffix p ''/retire'' \<and> \<not> HasSuffix p ''/cancel''"
  by (auto simp: HasSuffix_rev HasPrefix_Cons_iff)

lemma operation_names:
  "requestOperation ''GET'' (''/internal/v1/credentials/'' @ x) = OperationCredentialRead"
  "requestOperation ''PATCH'' (''/internal/v1/credentials/'' @ x) = OperationCredentialMetadataUpdated"
  "requestOperation ''GET'' (''/internal/v1/run-bindings/'' @ x) = OperationRunBindingInspected"
  "requestOperation ''GET'' (''/internal/v1/operations/rotations/'' @ x) = OperationMasterKeyRotationInspected"
  "HasSuffix p ''/inputs'' \<Longrightarrow> requestOperation ''PUT'' p = OperationCredentialInputsReplaced"
  "HasSuffix p ''/retire'' \<Longrightarrow> p = ''/internal/v1/credentials/'' @ x \<Longrightarrow> requestOperation ''POST'' p = OperationCredentialRetired"
  "HasSuffix p ''/cancel'' \<Longrightarrow> p = ''/internal/v1/run-bindings/'' @ x \<Longrightarrow> requestOperation ''POST'' p = OperationRunBindingCanceled"
  "HasSuffix p ''/credential:resolve'' \<Longrightarrow> p = ''/internal/v1/runs/'' @ x \<Longrightarrow> requestOperation ''POST'' p = OperationCredentialResolved"
  "HasSuffix p ''/expire'' \<Longrightarrow> p = ''/internal/v1/operations/backups/'' @ x \<Longrightarrow> requestOperation ''POST'' p = OperationBackupExpired"
  "HasSuffix p ''/resume'' \<Longrightarrow> p = ''/internal/v1/operations/rotations/'' @ x \<Longrightarrow> requestOperation ''POST'' p = OperationMasterKeyRotationResumed"
  "HasSuffix p ''/finalize'' \<Longrightarrow> p = ''/internal/v1/operations/rotations/'' @ x \<Longrightarrow> requestOperation ''POST'' p = OperationMasterKeyRotationFinalized"
  "HasSuffix p ''/rotate'' \<Longrightarrow> p = ''/internal/v1/operations/credentials/'' @ x \<Longrightarrow> requestOperation ''POST'' p = OperationCredentialKeyRotated"
  using suffix_clash [of p] by (simp_all add: requestOperation_def)


section \<open>Every handler refuses or makes one call\<close>

definition refusals :: "(int \<times> string) list" where
  "refusals = [(400, ''invalid_request''), (403, ''operation_not_permitted''), (404, ''resource_not_found''),
     (413, ''request_too_large''), (503, ''service_unavailable'')]"

definition refused :: "observedWriter \<Rightarrow> 's \<Rightarrow> 's handled \<Rightarrow> bool" where
  "refused w s h \<longleftrightarrow> (\<exists>status reason. (status, reason) \<in> set refusals \<and> h = (writeProblem status reason w, s))"

definition called :: "'s Server \<Rightarrow> http_request \<Rightarrow> WorkloadIdentity \<Rightarrow> observedWriter \<Rightarrow> 's \<Rightarrow> 's handled \<Rightarrow> bool" where
  "called server request i w s h \<longleftrightarrow>
     (let operation = requestOperation (hr_Method request) (hr_EscapedPath request) in
      wi_Role i \<in> set (permitted operation) \<and>
      (\<exists>f. call (srv_service server) i operation f \<and> snd h = snd (f s) \<and>
         (case fst (f s) of Some e \<Rightarrow> fst h = writeServiceProblem e w
          | None \<Rightarrow> ow_status (fst h) \<in> {200, 201, 204} \<and> ow_reason (fst h) = ow_reason w)))"

lemma writer_simps [simp]:
  "ow_status (writeProblem status reason w) = status" "ow_reason (writeProblem status reason w) = reason"
  "ow_status (writeJSON status enc w) = status" "ow_reason (writeJSON status enc w) = ow_reason w"
  "ow_status (WriteHeader status w) = status" "ow_reason (WriteHeader status w) = ow_reason w"
  "ow_reason (set_header k v w) = ow_reason w" "ow_status (set_header k v w) = ow_status w"
  "ow_requestID (set_header k v w) = ow_requestID w"
  by (auto simp: writeProblem_def writeJSON_def WriteHeader_def set_header_def encode_body_def Let_def split: option.splits)

lemma refusedI: "(status, reason) \<in> set refusals \<Longrightarrow> refused w s (problem status reason w s)"
  by (auto simp: refused_def)

lemma refused_problems [simp]:
  "refused w s (problem 400 ''invalid_request'' w s)" "refused w s (problem 403 ''operation_not_permitted'' w s)"
  "refused w s (problem 404 ''resource_not_found'' w s)" "refused w s (problem 413 ''request_too_large'' w s)"
  "refused w s (problem 503 ''service_unavailable'' w s)"
  by (rule refusedI, simp add: refusals_def)+

lemma refused_decode [simp]: "refused w s (writeDecodeProblem e w, s)"
  by (cases e) (simp_all add: writeDecodeProblem_def)

lemma called_answer:
  assumes "call (srv_service server) i operation (\<lambda>s. outcome (g s))"
    and "requestOperation (hr_Method request) (hr_EscapedPath request) = operation" and "wi_Role i \<in> set (permitted operation)"
    and "\<And>x. ow_status (ok x w) \<in> {200, 201, 204} \<and> ow_reason (ok x w) = ow_reason w"
  shows "called server request i w s (answer ok w (g s))"
proof -
  have "snd (answer ok w (g s)) = snd (outcome (g s)) \<and>
      (case fst (outcome (g s)) of Some e \<Rightarrow> fst (answer ok w (g s)) = writeServiceProblem e w
       | None \<Rightarrow> ow_status (fst (answer ok w (g s))) \<in> {200, 201, 204} \<and> ow_reason (fst (answer ok w (g s))) = ow_reason w)"
    using assms(4) by (auto simp: answer_def outcome_def split: sum.splits prod.splits)
  then show ?thesis
    unfolding called_def Let_def assms(2) using assms(1,3) by blast
qed

lemma decodeJSON_struct: "decodeJSON fs zero request = Inr x \<Longrightarrow> \<exists>body. decode_struct True fs zero body = Some x"
  by (auto simp: decodeJSON_def split: option.splits if_splits)

lemma set_map_utf8:
  assumes "set_map get put v raw x = Some y" and "json_utf8 v" and "inputs_utf8 (get x)" and "\<And>m. get (put m x) = m"
  shows "inputs_utf8 (get y)"
  using assms store_members_utf8 [of _ "get x"]
  by (auto simp: set_map_def inputs_utf8_def wf_map_def split: json.splits)

lemma set_string_keeps: "set_string put v raw x = Some y \<Longrightarrow> (\<And>s. g (put s x) = g x) \<Longrightarrow> g y = g x"
  by (auto simp: set_string_def split: json.splits)

lemma set_uint_keeps: "set_uint put v raw x = Some y \<Longrightarrow> (\<And>n. g (put n x) = g x) \<Longrightarrow> g y = g x"
  by (auto simp: set_uint_def split: json.splits)

lemma set_struct_keeps: "set_struct strict fs get put v raw x = Some y \<Longrightarrow> (\<And>a. g (put a x) = g x) \<Longrightarrow> g y = g x"
  by (auto simp: set_struct_def split: json.splits option.splits)

lemma create_body_utf8:
  assumes "decodeJSON create_fields zero_create request = Inr body"
  shows "inputs_utf8 (cc_Inputs body)"
proof -
  obtain t where "decode_struct True create_fields zero_create t = Some body"
    using decodeJSON_struct [OF assms] by blast
  then show ?thesis
  proof (rule decode_struct_invariant [where P = "\<lambda>b. inputs_utf8 (cc_Inputs b)"])
    fix n f v raw x y
    assume "(n, f) \<in> set create_fields" "json_utf8 v" "inputs_utf8 (cc_Inputs x)" "f v raw x = Some y"
    then show "inputs_utf8 (cc_Inputs y)"
      by (auto simp: create_fields_def intro: set_map_utf8
          dest: set_string_keeps [where g = cc_Inputs] set_uint_keeps [where g = cc_Inputs] set_struct_keeps [where g = cc_Inputs])
  qed (simp add: zero_create_def inputs_utf8_def)
qed

lemma replace_body_utf8:
  assumes "decodeJSON replace_fields zero_replace request = Inr body"
  shows "inputs_utf8 (rpb_Inputs body)"
proof -
  obtain t where "decode_struct True replace_fields zero_replace t = Some body"
    using decodeJSON_struct [OF assms] by blast
  then show ?thesis
  proof (rule decode_struct_invariant [where P = "\<lambda>b. inputs_utf8 (rpb_Inputs b)"])
    fix n f v raw x y
    assume "(n, f) \<in> set replace_fields" "json_utf8 v" "inputs_utf8 (rpb_Inputs x)" "f v raw x = Some y"
    then show "inputs_utf8 (rpb_Inputs y)"
      by (auto simp: replace_fields_def intro: set_map_utf8
          dest: set_uint_keeps [where g = rpb_Inputs] set_struct_keeps [where g = rpb_Inputs])
  qed (simp add: zero_replace_def inputs_utf8_def)
qed

lemma create_served:
  assumes "hr_Method request = ''POST''" and "hr_EscapedPath request = ''/internal/v1/credentials''"
  shows "refused w s (createCredential server ctx request i w s) \<or> called server request i w s (createCredential server ctx request i w s)"
proof -
  have op: "requestOperation (hr_Method request) (hr_EscapedPath request) = OperationCredentialCreated"
    using assms by (simp add: requestOperation_def HasSuffix_def)
  show ?thesis
    unfolding createCredential_def
    by (auto split: sum.splits intro!: called_answer [OF call.create op] dest: create_body_utf8
        simp: permitted_def operation_defs)
qed


definition handled_ok :: "'s Server \<Rightarrow> http_request \<Rightarrow> WorkloadIdentity \<Rightarrow> observedWriter \<Rightarrow> 's \<Rightarrow> 's handled \<Rightarrow> bool" where
  "handled_ok server request i w s h \<longleftrightarrow> refused w s h \<or> called server request i w s h"

lemma handled_refused:
  "handled_ok server request i w s (problem 400 ''invalid_request'' w s)"
  "handled_ok server request i w s (problem 403 ''operation_not_permitted'' w s)"
  "handled_ok server request i w s (problem 404 ''resource_not_found'' w s)"
  "handled_ok server request i w s (problem 503 ''service_unavailable'' w s)"
  "handled_ok server request i w s (writeDecodeProblem e w, s)"
  by (simp_all add: handled_ok_def)

lemma handled_if:
  "(b \<Longrightarrow> handled_ok server request i w s x) \<Longrightarrow> (\<not> b \<Longrightarrow> handled_ok server request i w s y) \<Longrightarrow>
   handled_ok server request i w s (if b then x else y)"
  by simp

lemma handled_decode:
  "(\<And>e. r = Inl e \<Longrightarrow> handled_ok server request i w s (f e)) \<Longrightarrow> (\<And>x. r = Inr x \<Longrightarrow> handled_ok server request i w s (g x)) \<Longrightarrow>
   handled_ok server request i w s (case r of Inl e \<Rightarrow> f e | Inr x \<Rightarrow> g x)"
  by (cases r) auto

lemma handled_answer:
  assumes "call (srv_service server) i operation (\<lambda>s. outcome (g s))"
    and "requestOperation (hr_Method request) (hr_EscapedPath request) = operation" and "wi_Role i \<in> set (permitted operation)"
    and "\<And>x. ow_status (ok x w) \<in> {200, 201, 204} \<and> ow_reason (ok x w) = ow_reason w"
  shows "handled_ok server request i w s (answer ok w (g s))"
  unfolding handled_ok_def by (rule disjI2, rule called_answer) (rule assms)+

lemmas handled_rules = handled_if handled_decode handled_refused

lemma permitted_simps [simp]:
  "set (permitted OperationCredentialCreated) = {RoleAPI}" "set (permitted OperationCredentialRead) = {RoleAPI}"
  "set (permitted OperationCredentialInputsReplaced) = {RoleAPI}" "set (permitted OperationCredentialMetadataUpdated) = {RoleAPI}"
  "set (permitted OperationCredentialRetired) = {RoleAPI}" "set (permitted OperationRunBindingRegistered) = {RoleScheduler}"
  "set (permitted OperationRunBindingInspected) = {RoleScheduler}" "set (permitted OperationRunBindingCanceled) = {RoleScheduler}"
  "set (permitted OperationCredentialResolved) = {RoleExecutor}" "set (permitted OperationKeyStatusRead) = {RoleSecretsOperator}"
  "set (permitted OperationRecoveryValidationFinished) = {RoleSecretsOperator}" "set (permitted OperationBackupRegistered) = {RoleSecretsOperator}"
  "set (permitted OperationBackupExpired) = {RoleSecretsOperator}" "set (permitted OperationMasterKeyRotationStarted) = {RoleSecretsOperator}"
  "set (permitted OperationMasterKeyRotationInspected) = {RoleSecretsOperator}"
  "set (permitted OperationMasterKeyRotationResumed) = {RoleSecretsOperator}"
  "set (permitted OperationMasterKeyRotationFinalized) = {RoleSecretsOperator}"
  "set (permitted OperationCredentialKeyRotated) = {RoleSecretsOperator}"
  "set (permitted OperationSecurityStatusRead) = {RoleSecretsOperator, RoleSecretsAuditor}"
  by (simp_all add: permitted_def operation_defs)

lemma TrimPrefix_HasSuffix: "HasSuffix (TrimPrefix s p) t \<Longrightarrow> HasSuffix s t"
  by (auto simp: TrimPrefix_def HasSuffix_iff HasPrefix_iff split: if_splits)

lemma credential_route_served:
  assumes "HasPrefix (hr_EscapedPath request) ''/internal/v1/credentials/''"
  shows "handled_ok server request i w s (credentialRoute server ctx request i (hr_EscapedPath request) w s)"
proof -
  obtain x where p: "hr_EscapedPath request = ''/internal/v1/credentials/'' @ x" using assms HasPrefix_iff by blast
  let ?op = "requestOperation (hr_Method request) (hr_EscapedPath request)"
  let ?rel = "TrimPrefix (hr_EscapedPath request) ''/internal/v1/credentials/''"
  have op: "hr_Method request = ''GET'' \<Longrightarrow> ?op = OperationCredentialRead"
      "hr_Method request = ''PATCH'' \<Longrightarrow> ?op = OperationCredentialMetadataUpdated"
      "hr_Method request = ''PUT'' \<Longrightarrow> HasSuffix ?rel ''/inputs'' \<Longrightarrow> ?op = OperationCredentialInputsReplaced"
      "hr_Method request = ''POST'' \<Longrightarrow> HasSuffix ?rel ''/retire'' \<Longrightarrow> ?op = OperationCredentialRetired"
    using operation_names(1,2) [of x] operation_names(5) [of "hr_EscapedPath request"]
      operation_names(6) [of "hr_EscapedPath request" x] TrimPrefix_HasSuffix p by auto
  show ?thesis
    unfolding credentialRoute_def Let_def
    by (intro handled_rules handled_answer [OF call.get op(1)] handled_answer [OF call.update op(2)]
        handled_answer [OF call.replace op(3)] handled_answer [OF call.retire op(4)]) (simp_all add: replace_body_utf8)
qed

lemma binding_routes_served:
  "hr_Method request = ''POST'' \<Longrightarrow> hr_EscapedPath request = ''/internal/v1/run-bindings'' \<Longrightarrow>
     handled_ok server request i w s (registerBinding server ctx request i w s)"
  "hr_Method request = ''GET'' \<Longrightarrow> HasPrefix (hr_EscapedPath request) ''/internal/v1/run-bindings/'' \<Longrightarrow>
     handled_ok server request i w s (inspectBinding server ctx i run w s)"
  "hr_Method request = ''POST'' \<Longrightarrow> HasPrefix (hr_EscapedPath request) ''/internal/v1/run-bindings/'' \<Longrightarrow>
     HasSuffix (hr_EscapedPath request) ''/cancel'' \<Longrightarrow> handled_ok server request i w s (cancelBinding server ctx request i run w s)"
  "hr_Method request = ''POST'' \<Longrightarrow> HasPrefix (hr_EscapedPath request) ''/internal/v1/runs/'' \<Longrightarrow>
     HasSuffix (hr_EscapedPath request) ''/credential:resolve'' \<Longrightarrow> handled_ok server request i w s (resolve server ctx request i run w s)"
proof -
  let ?op = "requestOperation (hr_Method request) (hr_EscapedPath request)"
  have op: "hr_Method request = ''POST'' \<Longrightarrow> hr_EscapedPath request = ''/internal/v1/run-bindings'' \<Longrightarrow> ?op = OperationRunBindingRegistered"
    "hr_Method request = ''GET'' \<Longrightarrow> HasPrefix (hr_EscapedPath request) ''/internal/v1/run-bindings/'' \<Longrightarrow> ?op = OperationRunBindingInspected"
    "hr_Method request = ''POST'' \<Longrightarrow> HasPrefix (hr_EscapedPath request) ''/internal/v1/run-bindings/'' \<Longrightarrow>
       HasSuffix (hr_EscapedPath request) ''/cancel'' \<Longrightarrow> ?op = OperationRunBindingCanceled"
    "hr_Method request = ''POST'' \<Longrightarrow> HasPrefix (hr_EscapedPath request) ''/internal/v1/runs/'' \<Longrightarrow>
       HasSuffix (hr_EscapedPath request) ''/credential:resolve'' \<Longrightarrow> ?op = OperationCredentialResolved"
    using operation_names(3,7,8) HasPrefix_iff by (simp add: requestOperation_def, metis, metis, metis)
  show "hr_Method request = ''POST'' \<Longrightarrow> hr_EscapedPath request = ''/internal/v1/run-bindings'' \<Longrightarrow>
     handled_ok server request i w s (registerBinding server ctx request i w s)"
    unfolding registerBinding_def by (intro handled_rules handled_answer [OF call.register op(1)]) simp_all
  show "hr_Method request = ''GET'' \<Longrightarrow> HasPrefix (hr_EscapedPath request) ''/internal/v1/run-bindings/'' \<Longrightarrow>
     handled_ok server request i w s (inspectBinding server ctx i run w s)"
    unfolding inspectBinding_def by (intro handled_rules handled_answer [OF call.inspect op(2)]) simp_all
  show "hr_Method request = ''POST'' \<Longrightarrow> HasPrefix (hr_EscapedPath request) ''/internal/v1/run-bindings/'' \<Longrightarrow>
     HasSuffix (hr_EscapedPath request) ''/cancel'' \<Longrightarrow> handled_ok server request i w s (cancelBinding server ctx request i run w s)"
    unfolding cancelBinding_def by (intro handled_rules handled_answer [OF call.cancel op(3)]) simp_all
  show "hr_Method request = ''POST'' \<Longrightarrow> HasPrefix (hr_EscapedPath request) ''/internal/v1/runs/'' \<Longrightarrow>
     HasSuffix (hr_EscapedPath request) ''/credential:resolve'' \<Longrightarrow> handled_ok server request i w s (resolve server ctx request i run w s)"
    unfolding resolve_def by (intro handled_rules handled_answer [OF call.resolve op(4)]) simp_all
qed

lemma Split_one: "length (Split s sep) = 1 \<Longrightarrow> s = Split s sep ! 0"
proof (induction s)
  case (Cons d s)
  then show ?case by (cases "Split s sep") (auto split: if_splits)
qed simp

lemma Split_two: "length (Split s sep) = 2 \<Longrightarrow> HasSuffix s (sep # Split s sep ! 1)"
proof (induction s)
  case (Cons d s)
  show ?case
  proof (cases "d = sep")
    case True
    with Cons.prems Split_one [of s sep] show ?thesis by (auto simp: HasSuffix_iff intro: exI [of _ "[]"])
  next
    case False
    with Cons obtain p q where pq: "Split s sep = [p, q]"
      by (cases "Split s sep") (auto simp: length_Suc_conv)
    with Cons.IH obtain r where "s = r @ sep # q" by (auto simp: HasSuffix_iff)
    then have "d # s = (d # r) @ sep # q" by simp
    with False pq show ?thesis unfolding HasSuffix_iff by (intro exI [of _ "d # r"]) simp
  qed
qed simp

lemma rotation_route_served:
  assumes "HasPrefix (hr_EscapedPath request) ''/internal/v1/operations/rotations/''" and "wi_Role i = RoleSecretsOperator"
  shows "handled_ok server request i w s (rotationRoute server ctx request (hr_EscapedPath request) w s)"
proof -
  obtain x where p: "hr_EscapedPath request = ''/internal/v1/operations/rotations/'' @ x" using assms(1) HasPrefix_iff by blast
  let ?op = "requestOperation (hr_Method request) (hr_EscapedPath request)"
  let ?parts = "Split (TrimPrefix (hr_EscapedPath request) ''/internal/v1/operations/rotations/'') (CHR ''/'')"
  have suffix: "HasSuffix (hr_EscapedPath request) (CHR ''/'' # ?parts ! 1)" if "length ?parts = 2"
    using TrimPrefix_HasSuffix [OF Split_two [OF that]] .
  have op: "hr_Method request = ''GET'' \<Longrightarrow> ?op = OperationMasterKeyRotationInspected"
      "hr_Method request = ''POST'' \<Longrightarrow> length ?parts = 2 \<Longrightarrow> ?parts ! 1 = ''resume'' \<Longrightarrow> ?op = OperationMasterKeyRotationResumed"
      "hr_Method request = ''POST'' \<Longrightarrow> length ?parts = 2 \<Longrightarrow> ?parts ! 1 = ''finalize'' \<Longrightarrow> ?op = OperationMasterKeyRotationFinalized"
    using operation_names(4) [of x] operation_names(10,11) [of "hr_EscapedPath request" x] suffix p by auto
  show ?thesis
    unfolding rotationRoute_def Let_def
    by (intro handled_rules handled_answer [OF call.rotation op(1)] handled_answer [OF call.resume op(2)]
        handled_answer [OF call.finalize op(3)]) (simp_all add: assms(2))
qed

lemma handled_option:
  "(r = None \<Longrightarrow> handled_ok server request i w s f) \<Longrightarrow> (\<And>x. r = Some x \<Longrightarrow> handled_ok server request i w s (g x)) \<Longrightarrow>
   handled_ok server request i w s (case r of None \<Rightarrow> f | Some x \<Rightarrow> g x)"
  by (cases r) auto

lemma rotate_credential_served:
  assumes "HasPrefix (hr_EscapedPath request) ''/internal/v1/operations/credentials/''" and "hr_Method request = ''POST''"
    and "HasSuffix (hr_EscapedPath request) ''/rotate''" and "wi_Role i = RoleSecretsOperator"
  shows "handled_ok server request i w s (rotateCredential server ctx request (hr_EscapedPath request) w s)"
proof -
  obtain x where p: "hr_EscapedPath request = ''/internal/v1/operations/credentials/'' @ x" using assms(1) HasPrefix_iff by blast
  have op: "requestOperation (hr_Method request) (hr_EscapedPath request) = OperationCredentialKeyRotated"
    using operation_names(12) [OF assms(3) p] assms(2) by simp
  show ?thesis
    unfolding rotateCredential_def Let_def
    by (intro handled_rules handled_option handled_answer [OF call.rotate op]) (simp_all add: assms(4))
qed

lemma operation_route_served:
  "handled_ok server request i w s (operationRoute server ctx request i (hr_EscapedPath request) w s)"
proof (cases "wi_Role i = RoleSecretsOperator")
  case True
  let ?p = "hr_EscapedPath request"
  let ?op = "requestOperation (hr_Method request) ?p"
  have op: "hr_Method request = ''POST'' \<and> ?p = ''/internal/v1/operations/recovery-validations'' \<Longrightarrow> ?op = OperationRecoveryValidationFinished"
      "hr_Method request = ''POST'' \<and> ?p = ''/internal/v1/operations/backups'' \<Longrightarrow> ?op = OperationBackupRegistered"
      "hr_Method request = ''GET'' \<and> ?p = ''/internal/v1/operations/key-status'' \<Longrightarrow> ?op = OperationKeyStatusRead"
      "hr_Method request = ''POST'' \<and> ?p = ''/internal/v1/operations/rotations'' \<Longrightarrow> ?op = OperationMasterKeyRotationStarted"
    by (simp_all add: requestOperation_def HasSuffix_def)
  have expire: "?op = OperationBackupExpired"
    if "hr_Method request = ''POST'' \<and> HasPrefix ?p ''/internal/v1/operations/backups/'' \<and> HasSuffix ?p ''/expire''"
    using that operation_names(9) HasPrefix_iff by metis
  show ?thesis
    unfolding operationRoute_def Let_def
    by (intro handled_rules rotation_route_served rotate_credential_served
        handled_answer [OF call.recovery op(1)] handled_answer [OF call.backup op(2)] handled_answer [OF call.expire expire]
        handled_answer [OF call.status op(3)] handled_answer [OF call.start op(4)]) (simp_all add: True)
qed (simp add: operationRoute_def handled_refused)

lemma security_status_served:
  assumes "hr_Method request = ''GET''" and "hr_EscapedPath request = ''/internal/v1/security-status''"
  shows "refused w s (securityStatus server i w s) \<or>
    (\<exists>auditor. srv_auditor server = Some auditor \<and> snd (securityStatus server i w s) = snd (au_Status auditor s) \<and>
      wi_Role i \<in> set (permitted OperationSecurityStatusRead) \<and>
      requestOperation (hr_Method request) (hr_EscapedPath request) = OperationSecurityStatusRead \<and>
      (fst (securityStatus server i w s) = writeProblem 503 ''service_unavailable'' w \<or>
       (\<exists>t. fst (securityStatus server i w s) = writeJSON 200 t w)))"
  using assms by (auto simp: securityStatus_def requestOperation_def split: option.splits prod.splits sum.splits)


definition status_read :: "'s Server \<Rightarrow> http_request \<Rightarrow> WorkloadIdentity \<Rightarrow> observedWriter \<Rightarrow> 's \<Rightarrow> 's handled \<Rightarrow> bool" where
  "status_read server request i w s h \<longleftrightarrow>
     requestOperation (hr_Method request) (hr_EscapedPath request) = OperationSecurityStatusRead \<and>
     wi_Role i \<in> set (permitted OperationSecurityStatusRead) \<and>
     (\<exists>auditor. srv_auditor server = Some auditor \<and> snd h = snd (au_Status auditor s) \<and>
       (fst h = writeProblem 503 ''service_unavailable'' w \<or> (\<exists>t. fst h = writeJSON 200 t w)))"

lemma serve_route_served:
  "handled_ok server request i w s (serve_route server ctx request i w s) \<or>
   status_read server request i w s (serve_route server ctx request i w s)"
proof (cases "hr_Method request = ''GET'' \<and> hr_EscapedPath request = ''/internal/v1/security-status''")
  case True
  then show ?thesis
    using security_status_served [of request w s server i]
    by (auto simp: serve_route_def handled_ok_def status_read_def)
next
  case False
  have "handled_ok server request i w s (serve_route server ctx request i w s)"
    unfolding serve_route_def Let_def if_not_P [OF False]
    by (intro handled_rules operation_route_served credential_route_served binding_routes_served create_served [folded handled_ok_def])
      simp_all
  then show ?thesis ..
qed

end
