(* ===== verification/Audit_Liveness.thy ===== *)
theory Audit_Liveness
  imports Audit_Delivery
begin

text \<open>
  Delivery is live: no event that the spool accepts is too large or ill-formed for the sink, so
  that a worker whose network answers delivers all that is pending.
\<close>

section \<open>Delivery completes\<close>

text \<open>A sink that answers: while it is up and its clock does not go back, a record it has, or the next one under a new code, is acknowledged.\<close>

locale responsive_sink = audit_sink deliver stored good fit
  for deliver :: "'o \<Rightarrow> 'k \<Rightarrow> audit_Record \<Rightarrow> bool \<times> 'k" and stored :: "'k \<Rightarrow> audit_Record list"
    and good :: "'k \<Rightarrow> bool" and fit :: "audit_Record \<Rightarrow> bool" +
  fixes up :: "'o \<Rightarrow> bool" and at :: "'o \<Rightarrow> time" and clock :: "'k \<Rightarrow> time"
  assumes acknowledges: "good k \<Longrightarrow> fit r \<Longrightarrow> up x \<Longrightarrow> clock k \<le> at x \<Longrightarrow>
      r \<in> set (stored k) \<or> rec_Sequence r = int (length (stored k)) + 1 \<and> rec_MAC r \<notin> rec_MAC ` set (stored k) \<Longrightarrow>
      fst (deliver x k r) \<and> clock (snd (deliver x k r)) \<le> at x"
begin

lemma first_acknowledged:
  assumes inv: "delivery_inv env sp db k d" and d: "d < length (db_spool db)"
    and dist: "distinct (map row_mac (db_spool db))" and x: "up x" "clock k \<le> at x"
  shows "fst (deliver x k (row_record (db_spool db ! d))) \<and> clock (snd (deliver x k (row_record (db_spool db ! d)))) \<le> at x"
proof (rule acknowledges)
  have sp: "spool_inv env sp db" and rep: "replica db (stored k) d" using inv by (simp_all add: delivery_inv_def)
  show "good k" "fit (row_record (db_spool db ! d))" using inv d by (simp_all add: delivery_inv_def list_all_length)
  have seq: "rec_Sequence (row_record (db_spool db ! d)) = int d + 1" using row_sequence_nth [OF sp d] by (simp add: row_record_def)
  have s: "stored k = take (length (stored k)) (map row_record (db_spool db))" and l: "length (stored k) \<le> length (db_spool db)"
    and n: "length (stored k) = d \<or> length (stored k) = Suc d"
    using rep by (auto simp: replica_def)
  from n show "row_record (db_spool db ! d) \<in> set (stored k) \<or>
      rec_Sequence (row_record (db_spool db ! d)) = int (length (stored k)) + 1 \<and>
      rec_MAC (row_record (db_spool db ! d)) \<notin> rec_MAC ` set (stored k)"
  proof
    assume a: "length (stored k) = Suc d"
    then have "stored k ! d = row_record (db_spool db ! d)" by (subst s) (use d in simp)
    with a show ?thesis by (metis lessI nth_mem)
  next
    assume a: "length (stored k) = d"
    have "distinct (map row_mac (take d (db_spool db) @ db_spool db ! d # drop (Suc d) (db_spool db)))"
      using dist id_take_nth_drop [OF d] by simp
    moreover have "stored k = map row_record (take d (db_spool db))" by (subst s) (simp add: a take_map)
    ultimately have "rec_MAC (row_record (db_spool db ! d)) \<notin> rec_MAC ` set (stored k)"
      by (auto simp: row_record_def image_image)
    with a seq show ?thesis by simp
  qed
qed (fact x)+

lemma deliver_records_complete:
  assumes "delivery_inv env sp db k d" and "rs = take m (drop d (map row_record (db_spool db)))"
    and "distinct (map row_mac (db_spool db))"
    and "\<And>i. up (fst (fates i)) \<and> snd (fates i) \<noteq> zero_time" and "\<And>i j. i \<le> j \<Longrightarrow> at (fst (fates i)) \<le> at (fst (fates j))"
    and "clock k \<le> at (fst (fates 0))"
  shows "fst (deliver_records deliver fates rs db k w) = None"
  using assms
proof (induction rs arbitrary: fates db k w d m)
  case (Cons r rs)
  have "take m (drop d (map row_record (db_spool db))) \<noteq> []" using Cons.prems(2) by (metis list.distinct(1))
  then have d: "d < length (db_spool db)" and m: "m \<noteq> 0" by auto
  have r: "r = row_record (db_spool db ! d)" and rs: "rs = take (m - 1) (drop (Suc d) (map row_record (db_spool db)))"
    using Cons.prems(2) d m by (auto simp: Cons_nth_drop_Suc [symmetric] drop_map take_Cons')
  obtain b k1 where dl: "deliver (fst (fates 0)) k r = (b, k1)" by fastforce
  have b: "b" "clock k1 \<le> at (fst (fates 0))"
    using first_acknowledged [OF Cons.prems(1) d Cons.prems(3), of "fst (fates 0)"] Cons.prems(4,6) dl r by auto
  have f: "delivery_inv env sp db k1 d" "d < length (stored k1)"
    using deliver_first [OF Cons.prems(1) d, of "fst (fates 0)"] dl r b(1) by auto
  obtain db1 where m1: "MarkDelivered db (rec_Sequence r) (rec_MAC r) (snd (fates 0)) = Inr db1" "delivery_inv env sp db1 k1 (Suc d)"
      "map row_record (db_spool db1) = map row_record (db_spool db)"
    using deliver_marked [OF f(1,2), of "snd (fates 0)"] Cons.prems(4) r by (auto simp: row_record_def)
  have "map row_mac (db_spool db1) = map row_mac (db_spool db)"
    using arg_cong [OF m1(3), of "map rec_MAC"] by (simp add: row_record_def o_def)
  then have "fst (deliver_records deliver (\<lambda>i. fates (Suc i)) rs db1 k1 (w\<lparr>dw_lastDelivered := snd (fates 0)\<rparr>)) = None"
    using Cons.prems(3-6) b(2) rs m1(3)
    by (intro Cons.IH [OF m1(2), of "m - 1"]) (auto intro: order_trans)
  then show ?case using dl b m1(1) by simp
qed simp

lemma deliverBatch_complete:
  assumes inv: "delivery_inv env sp db k d" and n: "1 \<le> n" "n \<le> 1000" and "distinct (map row_mac (db_spool db))"
    and "\<And>i. up (fst (fates i)) \<and> snd (fates i) \<noteq> zero_time" and "\<And>i j. i \<le> j \<Longrightarrow> at (fst (fates i)) \<le> at (fst (fates j))"
    and "clock k \<le> at (fst (fates 0))"
  shows "\<exists>db' k' w'. deliverBatch env sp n deliver fates db k w = (None, db', k', w') \<and>
    delivery_inv env sp db' k' (min (d + nat n) (length (db_spool db))) \<and> map row_record (db_spool db') = map row_record (db_spool db)"
proof -
  have sp: "spool_inv env sp db" and rep: "replica db (stored k) d" using inv by (simp_all add: delivery_inv_def)
  let ?rs = "take (nat n) (drop d (map row_record (db_spool db)))"
  have p: "Pending env sp db n = Inr ?rs"
    using Pending_inv [OF sp n] replica_pending [OF rep] by (simp add: take_map drop_map)
  obtain e db' k' w' where r: "deliver_records deliver fates ?rs db k w = (e, db', k', w')" by (metis surj_pair)
  have "fst (deliver_records deliver fates ?rs db k w) = None"
    by (rule deliver_records_complete [OF inv refl assms(4)]) (use assms(5-7) in auto)
  then have "e = None" using r by simp
  moreover from deliver_records_inv [OF inv refl r] this
  have "delivery_inv env sp db' k' (d + length ?rs)" "map row_record (db_spool db') = map row_record (db_spool db)" by auto
  moreover have "d + length ?rs = min (d + nat n) (length (db_spool db))" using rep by (auto simp: replica_def)
  ultimately show ?thesis using p r by (simp add: deliverBatch_def)
qed

end

section \<open>The remote sink acknowledges what the spool delivers\<close>

lemma length_escape_ascii: "length (escape_ascii c) \<le> 6"
  by (simp add: escape_ascii_def)

lemma length_quote_body: "length (quote_body s) \<le> 6 * length s"
proof (induction s rule: quote_body.induct)
  case (1 s)
  show ?case
  proof (cases s)
    case (Cons c t)
    show ?thesis
    proof (cases "code c < (0x80 :: nat)")
      case True
      then show ?thesis using 1 Cons length_escape_ascii [of c] by (simp add: quote_body.simps [of "c # t"])
    next
      case False
      let ?w = "max 1 (snd (rune_at s))"
      have "length (quote_body (drop ?w s)) \<le> 6 * length (drop ?w s)" using 1 Cons False by (auto simp: Let_def)
      moreover have "min ?w (length s) \<ge> 1" using Cons by simp
      ultimately show ?thesis using Cons False by (auto simp: quote_body.simps [of "c # t"] Let_def)
    qed
  qed (simp add: quote_body.simps)
qed

lemma length_json_string: "length (json_string s) \<le> 6 * length s + 2"
  using length_quote_body [of s] by (simp add: json_string_def)

lemma length_json_fields_le: "length (json_fields kvs) \<le> (\<Sum>(k, t) \<leftarrow> kvs. 6 * length k + 4 + length t)"
proof (induction kvs rule: json_fields.induct)
  case (2 k t)
  then show ?case using length_json_string [of k] by simp
next
  case (3 k t kv kvs)
  then show ?case using length_json_string [of k] by simp
qed simp

lemma length_opt_string: "(\<Sum>(k, t) \<leftarrow> opt_string k s. 6 * length k + 4 + length t) \<le> 6 * length k + 6 + 6 * length s"
  using length_json_string [of s] by (simp add: opt_string_def)

lemma length_json_nat_word: "length (json_nat (unat (w :: 'a::len word))) \<le> LENGTH('a)"
proof (rule length_json_nat)
  have "(2 :: nat) ^ LENGTH('a) \<le> 10 ^ LENGTH('a)" by (rule power_mono) simp_all
  moreover have "unat w < 2 ^ LENGTH('a)" by (rule unsigned_less)
  ultimately show "unat w < 10 ^ LENGTH('a)" by linarith
qed simp

lemma length_opt_nat: "(\<Sum>(k, t) \<leftarrow> opt_nat k (unat (w :: 'a::len word)). 6 * length k + 4 + length t) \<le> 6 * length k + 4 + LENGTH('a)"
  using length_json_nat_word [of w] by (simp add: opt_nat_def)

lemma length_pad: "0 < w \<Longrightarrow> n < 10 ^ w \<Longrightarrow> length (pad w n) = w"
  by (rule pad_props(1))

lemma length_rfc3339:
  assumes "marshal_time t = Some s"
  shows "length s \<le> 60"
proof -
  have y: "0 \<le> local_year t" "local_year t \<le> 9999" and o: "\<bar>z_offset t\<bar> < 24 * 60" and s: "s = ''\"'' @ rfc3339 t @ ''\"''"
    using assms by (auto simp: marshal_time_def split: if_splits)
  obtain yy m d where c: "civil_date (local_nanos t div (24 * hour)) = (yy, m, d)"
    by (cases "civil_date (local_nanos t div (24 * hour))")
  define tod where "tod = local_nanos t mod (24 * hour)"
  have yy: "0 \<le> yy" "yy \<le> 9999" using y c by (simp_all add: local_year_def)
  note cd = civil_date_days [OF c yy(1)]
  have tod: "0 \<le> tod" "tod < 24 * hour" by (simp_all add: tod_def duration_defs)
  note cf = clock_fields [OF tod]
  have "nat d \<le> days_in (nat m) (nat yy)" using cd(5) by simp
  then have d: "nat d \<le> 31" by (auto simp: days_in_def split: if_splits)
  have f: "length (fraction n) \<le> 10" if "n < 10 ^ 9" for n
    using length_pad [OF _ that] length_dropWhile_le [of "\<lambda>c. c = CHR ''0''" "rev (pad 9 n)"] by (simp add: fraction_def)
  have z: "length (zone_suffix (z_offset t)) \<le> 6"
    using o by (auto simp: zone_suffix_def length_pad)
  have "rfc3339 t = pad 4 (nat yy) @ ''-'' @ pad 2 (nat m) @ ''-'' @ pad 2 (nat d) @ ''T'' @ pad 2 (nat (tod div hour)) @ '':''
      @ pad 2 (nat (tod mod hour div minute)) @ '':'' @ pad 2 (nat (tod mod minute div second))
      @ fraction (nat (tod mod second)) @ zone_suffix (z_offset t)"
    using yy by (simp add: rfc3339_def c Let_def year_string_def tod_def)
  then show ?thesis
    using s z f [OF cf(4)] yy cd(3) d cf(1-3) by (simp add: length_pad)
qed

lemma length_validated:
  assumes "validate_event e"
  shows "length (ev_EventType e) \<le> 64" "length (ev_Operation e) \<le> 64" "length (ev_Result e) \<le> 64" "length (ev_ReasonCode e) \<le> 64"
    "length (ev_LatencyClass e) \<le> 64" "list_all (\<lambda>v. length v \<le> 255) (event_strings e)"
proof -
  have "list_all (\<lambda>s. length s \<le> 64) knownEventTypes" "list_all (\<lambda>s. length s \<le> 64) knownOperations"
    "list_all (\<lambda>s. length s \<le> 64) knownResults"
    by code_simp+
  with assms show "length (ev_EventType e) \<le> 64" "length (ev_Operation e) \<le> 64" "length (ev_Result e) \<le> 64"
    by (simp_all add: validate_event_def known_def KnownOperation_def list_all_iff)
  from assms show "length (ev_ReasonCode e) \<le> 64" "length (ev_LatencyClass e) \<le> 64" "list_all (\<lambda>v. length v \<le> 255) (event_strings e)"
    by (auto simp: validate_event_def token_def list_all_iff)
qed

lemma length_marshal_event:
  assumes "validate_event e" and "marshal_event e = Some s"
  shows "length s \<le> 32000"
proof -
  from assms(2) obtain ts where ts: "marshal_time (ev_Timestamp e) = Some ts"
    by (auto simp: marshal_event_def split: option.splits)
  note v = length_validated [OF assms(1)]
  have n: "length (ev_WorkloadIdentity e) \<le> 255" "length (ev_HumanActor e) \<le> 255" "length (ev_OrganizationID e) \<le> 255"
    "length (ev_CredentialID e) \<le> 255" "length (ev_RunID e) \<le> 255" "length (ev_RotationID e) \<le> 255"
    "length (ev_ExecutorIdentity e) \<le> 255" "length (ev_KeyVersion e) \<le> 255" "length (ev_RequestID e) \<le> 255"
    using v(6) by (simp_all add: event_strings_def)
  let ?w = "\<lambda>kvs. \<Sum>(k, t) \<leftarrow> kvs. 6 * length k + 4 + length t"
  have b: "length (json_nat (unat (ev_SchemaVersion e))) \<le> 32" "length ts \<le> 60"
    using length_json_nat_word [of "ev_SchemaVersion e"] length_rfc3339 [OF ts] by simp_all
  have o: "?w (opt_string k x) \<le> 6 * length k + 1536" if "length x \<le> 255" for k x
    using length_opt_string [of k x] that by simp
  define kvs where "kvs =
      ([(''schema_version'', json_nat (unat (ev_SchemaVersion e))), (''timestamp'', ts),
        (''event_type'', json_string (ev_EventType e)), (''operation'', json_string (ev_Operation e)),
        (''result'', json_string (ev_Result e)), (''reason_code'', json_string (ev_ReasonCode e))]
       @ opt_string ''workload_identity'' (ev_WorkloadIdentity e) @ opt_string ''human_actor'' (ev_HumanActor e)
       @ opt_string ''organization_id'' (ev_OrganizationID e) @ opt_string ''credential_id'' (ev_CredentialID e)
       @ opt_string ''run_id'' (ev_RunID e) @ opt_string ''rotation_id'' (ev_RotationID e)
       @ opt_string ''executor_identity'' (ev_ExecutorIdentity e)
       @ opt_nat ''credential_version'' (unat (ev_CredentialVersion e))
       @ opt_nat ''credential_schema_version'' (unat (ev_CredentialSchema e))
       @ opt_string ''key_version'' (ev_KeyVersion e) @ opt_string ''request_id'' (ev_RequestID e)
       @ opt_string ''latency_class'' (ev_LatencyClass e))"
  have "s = json_object kvs" using assms(2) ts by (simp add: marshal_event_def kvs_def)
  then have "length s \<le> 2 + ?w kvs" using length_json_fields_le [of kvs] by (simp add: json_object_def)
  also have "\<dots> \<le> 32000"
    using b v(1-5) n length_json_string [of "ev_EventType e"] length_json_string [of "ev_Operation e"]
      length_json_string [of "ev_Result e"] length_json_string [of "ev_ReasonCode e"]
      o [OF n(1), of "''workload_identity''"] o [OF n(2), of "''human_actor''"] o [OF n(3), of "''organization_id''"]
      o [OF n(4), of "''credential_id''"] o [OF n(5), of "''run_id''"] o [OF n(6), of "''rotation_id''"]
      o [OF n(7), of "''executor_identity''"] o [OF n(8), of "''key_version''"] o [OF n(9), of "''request_id''"]
      o [of "ev_LatencyClass e" "''latency_class''"]
      length_opt_nat [of "''credential_version''" "ev_CredentialVersion e"]
      length_opt_nat [of "''credential_schema_version''" "ev_CredentialSchema e"]
    unfolding kvs_def by simp
  finally show ?thesis .
qed

definition token_char :: "char \<Rightarrow> bool" where
  "token_char c \<longleftrightarrow> 97 \<le> code c \<and> code c \<le> (122 :: nat) \<or> 48 \<le> code c \<and> code c \<le> (57 :: nat) \<or> code c = (95 :: nat) \<or> code c = (45 :: nat)"

lemma token_bytes: "token s \<longleftrightarrow> s \<noteq> [] \<and> length s \<le> 64 \<and> list_all token_char s"
  unfolding token_def token_char_def by (subst runes_ascii) auto

lemma token_graphic: "token s \<Longrightarrow> TrimSpace s = s \<and> s \<noteq> []"
proof -
  assume t: "token s"
  have "token_char c \<Longrightarrow> graphic c" for c by (auto simp: token_char_def graphic_def)
  with t have "graphic (hd s)" "graphic (last s)" "s \<noteq> []" by (simp_all add: token_bytes list_all_iff)
  then show "TrimSpace s = s \<and> s \<noteq> []" by (simp add: TrimSpace_graphic)
qed

lemma known_tokens: "list_all token knownEventTypes" "list_all token knownOperations" "list_all token knownResults"
  unfolding token_bytes by code_simp+

lemma validate_record_fit:
  assumes "http_fit r"
  obtains encoded where "marshal_event (rec_Event r) = Some encoded" "validate_record r (audit_key (rec_MAC r)) ''praetor-secrets'' = Some encoded"
proof -
  obtain s where s: "marshal_event (rec_Event r) = Some s" using assms by (auto simp: http_fit_def)
  have v: "validate_event (rec_Event r)" using assms by (simp add: http_fit_def)
  have "token (ev_EventType (rec_Event r))" "token (ev_Operation (rec_Event r))" "token (ev_Result (rec_Event r))" "token (ev_ReasonCode (rec_Event r))"
    using v known_tokens by (auto simp: validate_event_def known_def KnownOperation_def list_all_iff)
  then have "TrimSpace (ev_EventType (rec_Event r)) \<noteq> []" "TrimSpace (ev_Operation (rec_Event r)) \<noteq> []"
    "TrimSpace (ev_Result (rec_Event r)) \<noteq> []" "TrimSpace (ev_ReasonCode (rec_Event r)) \<noteq> []"
    using token_graphic by metis+
  with s v assms length_marshal_event [OF v s] show ?thesis
    by (intro that [OF s]) (auto simp: validate_record_def http_fit_def validate_event_def)
qed

lemma audit_key_check: "length mac = 32 \<Longrightarrow> key_check (audit_key mac)"
proof -
  have "list_all (\<lambda>c. is_digit c \<or> 97 \<le> code c \<and> code c \<le> (102 :: nat)) (hex_encode m)" for m
  proof (induction m)
    case (Cons b m)
    have "is_digit (hex_digit i) \<or> 97 \<le> code (hex_digit i) \<and> code (hex_digit i) \<le> (102 :: nat)" if "i < 16" for i
      using that by (auto simp: hex_digit_def is_digit_def)
    moreover have "unat b div 16 < 16" "unat b mod 16 < 16" using unsigned_less [of b, where ?'a = nat] by auto
    ultimately show ?case using Cons by (simp add: hex_encode_def hex_byte_def)
  qed (simp add: hex_encode_def)
  then show "length mac = 32 \<Longrightarrow> key_check (audit_key mac)"
    by (simp add: key_check_def audit_key_def HasPrefix_def)
qed

lemma Append_acknowledges:
  assumes A: "audit_env_ok env" and g: "http_good remote" and f: "http_fit r" and now: "sk_updated_at remote \<le> now"
    and new: "r \<in> set (http_stored remote) \<or> rec_Sequence r = int (length (http_stored remote)) + 1 \<and> rec_MAC r \<notin> rec_MAC ` set (http_stored remote)"
  shows "\<exists>res remote'. Append env remote r (audit_key (rec_MAC r)) ''praetor-secrets'' now = (res, remote') \<and>
    (res = Inr Created \<or> res = Inr Replayed) \<and> sk_updated_at remote' \<le> now"
proof -
  obtain s where s: "marshal_event (rec_Event r) = Some s" and v: "validate_record r (audit_key (rec_MAC r)) ''praetor-secrets'' = Some s"
    using validate_record_fit [OF f] by metis
  have inv: "sk_last_sequence remote = int (length (sk_records remote))"
      "map sk_sequence (sk_records remote) = map (\<lambda>i. 1 + int i) [0..<length (sk_records remote)]"
      "list_all sink_row_ok (sk_records remote)"
    using g by (simp_all add: http_good_def sink_inv_def)
  have seqs: "sk_sequence (sk_records remote ! i) = 1 + int i" if "i < length (sk_records remote)" for i
    using arg_cong [OF inv(2), of "\<lambda>l. l ! i"] that by simp
  from new show ?thesis
  proof
    assume "r \<in> set (http_stored remote)"
    then obtain i where i: "i < length (sk_records remote)" "sink_record (sk_records remote ! i) = r"
      by (auto simp: http_stored_def in_set_conv_nth)
    let ?x = "sk_records remote ! i"
    have x: "rec_Sequence r = 1 + int i" "sk_mac ?x = rec_MAC r" "the (unmarshal_event (sk_event ?x)) = rec_Event r"
      using i seqs by (auto simp: sink_record_def)
    have "\<exists>e. unmarshal_event (sk_event ?x) = Some e" using g i(1) by (auto simp: http_good_def list_all_length)
    then have u: "unmarshal_event (sk_event ?x) = Some (rec_Event r)" using x(3) by auto
    have "find (\<lambda>x. sk_sequence x = rec_Sequence r) (sk_records remote) = Some ?x"
      unfolding find_Some_iff using i(1) seqs x(1) by (intro exI [of _ i]) auto
    moreover have "sink_row_ok ?x" using inv(3) i(1) by (simp add: list_all_length)
    ultimately have "exactReplay remote r s (audit_key (rec_MAC r)) ''praetor-secrets'' = Inr Replayed"
      using u s x(2) by (simp add: exactReplay_def sink_row_ok_def)
    then show ?thesis using v x(1) inv(1) i(1) now by (simp add: Append_def)
  next
    assume n: "rec_Sequence r = int (length (http_stored remote)) + 1 \<and> rec_MAC r \<notin> rec_MAC ` set (http_stored remote)"
    have seq: "rec_Sequence r = sk_last_sequence remote + 1" using n inv(1) by (simp add: http_stored_def)
    have "rec_Sequence r < 2 ^ 63" using f by (simp add: http_fit_def)
    with seq have inc: "incr64 (sk_last_sequence remote) = rec_Sequence r" by (simp add: incr64_small)
    obtain t where t: "ae_jsonb env s = Some t" using A f s unfolding audit_env_ok_def http_fit_def by blast
    have "sk_mac x \<noteq> rec_MAC r \<and> sk_idempotency_key x \<noteq> audit_key (rec_MAC r) \<and> sk_sequence x \<noteq> rec_Sequence r"
      if x: "x \<in> set (sk_records remote)" for x
    proof -
      have "sk_mac x \<in> rec_MAC ` set (http_stored remote)" using x by (force simp: http_stored_def sink_record_def)
      then have "sk_mac x \<noteq> rec_MAC r" using n by auto
      moreover have "sk_idempotency_key x = audit_key (sk_mac x)" using inv(3) x by (auto simp: list_all_iff sink_row_ok_def)
      moreover obtain i where "i < length (sk_records remote)" "x = sk_records remote ! i" using x by (auto simp: in_set_conv_nth)
      ultimately show ?thesis
        using seqs [of i] seq inv(1) by (auto simp: audit_key_def hex_encode_inj)
    qed
    then have "\<not> list_ex (\<lambda>x. sk_sequence x = rec_Sequence r \<or> sk_mac x = rec_MAC r \<or> sk_idempotency_key x = audit_key (rec_MAC r)) (sk_records remote)"
      by (auto simp: list_ex_iff)
    moreover have "key_check (audit_key (rec_MAC r))" "1 \<le> rec_Sequence r" "length (rec_MAC r) = 32"
      using f audit_key_check by (auto simp: http_fit_def)
    ultimately show ?thesis
      using v t seq inc now by (simp add: Append_def insert_record_def advance_head_def)
  qed
qed

text \<open>The configured endpoint is the ingestion path, on a connection with the identity of the service.\<close>

definition endpoint_ready :: "string \<Rightarrow> HTTPSink \<Rightarrow> bool" where
  "endpoint_ready trustDomain hs \<longleftrightarrow> hs_Path hs = IngestionPath \<and> hs_RawQuery hs = [] \<and>
     (case verified_leaf (hs_TLS hs) of None \<Rightarrow> False | Some leaf \<Rightarrow> secretsServiceIdentity leaf trustDomain)"

lemma length_marshal_record:
  assumes "http_fit r" and "marshal_record r = Some body"
  shows "length body \<le> sink_maxRequestBytes"
proof -
  obtain e where e: "marshal_event (rec_Event r) = Some e"
    and body: "body = json_object [(''sequence'', json_int (rec_Sequence r)), (''event'', e), (''mac'', json_string (base64_encode (rec_MAC r)))]"
    using assms(2) by (auto simp: marshal_record_def split: option.splits)
  have "validate_event (rec_Event r)" using assms(1) by (simp add: http_fit_def)
  from length_marshal_event [OF this e] have "length e \<le> 32000" .
  moreover have "length (json_int (rec_Sequence r)) \<le> 63"
  proof -
    have "nat (rec_Sequence r) < 2 ^ 63" using assms(1) by (simp add: http_fit_def nat_less_iff)
    also have "(2 :: nat) ^ 63 \<le> 10 ^ 63" by (rule power_mono) simp_all
    finally have "length (json_nat (nat (rec_Sequence r))) \<le> 63" by (intro length_json_nat) simp_all
    then show ?thesis using assms(1) by (simp add: json_int_def http_fit_def)
  qed
  moreover have "length (base64_encode (rec_MAC r)) \<le> 132"
  proof -
    have "length (base64 xs) \<le> 4 * length xs + 4" for xs by (induction xs rule: base64.induct) auto
    from this [of "map unat (rec_MAC r)"] assms(1) show ?thesis by (simp add: base64_encode_def http_fit_def)
  qed
  ultimately show ?thesis
    using length_json_string [of "base64_encode (rec_MAC r)"] length_json_string [of "''sequence''"]
      length_json_string [of "''event''"] length_json_string [of "''mac''"]
    unfolding body json_object_def by (simp add: sink_maxRequestBytes_def)
qed

lemma Deliver_acknowledges:
  assumes A: "audit_env_ok env" and g: "http_good remote" and f: "http_fit r" and e: "endpoint_ready trustDomain hs"
    and x: "fst fate = Answered" "sk_updated_at remote \<le> snd fate"
    and new: "r \<in> set (http_stored remote) \<or> rec_Sequence r = int (length (http_stored remote)) + 1 \<and> rec_MAC r \<notin> rec_MAC ` set (http_stored remote)"
  shows "\<exists>remote'. Deliver env trustDomain hs fate remote r = (True, remote') \<and> sk_updated_at remote' \<le> snd fate"
proof -
  obtain s where "marshal_event (rec_Event r) = Some s" using f by (auto simp: http_fit_def)
  then obtain body where body: "marshal_record r = Some body" by (simp add: marshal_record_def)
  have dec: "decode_record body = Some r"
    using f by (intro decode_marshal_record [OF body]) (auto simp: http_fit_def)
  obtain res remote' where a: "Append env remote r (audit_key (rec_MAC r)) ''praetor-secrets'' (snd fate) = (res, remote')"
    "res = Inr Created \<or> res = Inr Replayed" "sk_updated_at remote' \<le> snd fate"
    using Append_acknowledges [OF A g f x(2) new] by blast
  have "\<not> sink_maxRequestBytes < length body" using length_marshal_record [OF f body] by simp
  with a dec e f have "sink_ServeHTTP env trustDomain remote (sink_post hs r body) (snd fate) = (sink_answer res, remote')"
    by (simp add: sink_ServeHTTP_def sink_post_def endpoint_ready_def sink_authenticated_def http_fit_def)
  with a body x f sink_answer_ok [of res] show ?thesis
    by (simp add: Deliver_def http_fit_def)
qed

interpretation http_live: responsive_sink "Deliver env trustDomain hs" http_stored "\<lambda>remote. audit_env_ok env \<and> http_good remote" http_fit
  "\<lambda>x. fst x = Answered \<and> endpoint_ready trustDomain hs" snd sk_updated_at
proof
  fix k r x
  assume "audit_env_ok env \<and> http_good k" "http_fit r" "fst x = Answered \<and> endpoint_ready trustDomain hs" "sk_updated_at k \<le> snd x"
    "r \<in> set (http_stored k) \<or> rec_Sequence r = int (length (http_stored k)) + 1 \<and> rec_MAC r \<notin> rec_MAC ` set (http_stored k)"
  then show "fst (Deliver env trustDomain hs x k r) \<and> sk_updated_at (snd (Deliver env trustDomain hs x k r)) \<le> snd x"
    using Deliver_acknowledges by fastforce
qed


section \<open>Witnesses\<close>

definition ex_leaf :: "cert_uri list" where
  "ex_leaf = [\<lparr>u_Scheme = ''spiffe'', u_Host = ''example.org'', u_EscapedPath = ''/workload/praetor-secrets'', u_RawQuery = [], u_Fragment = []\<rparr>]"

definition ex_http :: HTTPSink where
  "ex_http = \<lparr>hs_Path = IngestionPath, hs_RawQuery = [],
     hs_TLS = Some \<lparr>t_HandshakeComplete = True, t_TLS13 = True, t_VerifiedChains = [[ex_leaf]]\<rparr>\<rparr>"

definition ex_link :: audit_link where
  "ex_link = \<lparr>al_env = ex_audit_env, al_spool = ex_spool, al_trustDomain = ''example.org'', al_sink = ex_http, al_batchSize = 10\<rparr>"

definition ex_worker :: DeliveryWorker where
  "ex_worker = \<lparr>dw_degraded = True, dw_lastDelivered = zero_time\<rparr>"

definition ex_fates :: "nat \<Rightarrow> (exchange \<times> time) \<times> time" where
  "ex_fates i = ((Answered, 5), 5)"

lemma ex_ready: "endpoint_ready ''example.org'' ex_http"
  by (simp add: endpoint_ready_def ex_http_def verified_leaf_def secretsServiceIdentity_def ex_leaf_def)

lemma ex_link_run: "run_ok (delivery_step ex_link) delivery_ok (migrated, sink_migrated 0, ex_worker) [DAppend ex_event]"
  "foldl (delivery_step ex_link) (migrated, sink_migrated 0, ex_worker) [DAppend ex_event] = (ex_db, sink_migrated 0, ex_worker)"
  using ex_event_utf8 by (simp_all add: ex_link_def ex_db_def migrated_def)

lemma ex_link_env: "audit_env_ok (al_env ex_link)" "0 \<le> sp_maximumPending (al_spool ex_link)"
  using ex_audit_env_ok by (simp_all add: ex_link_def ex_spool_def)

theorem remote_copy_exact_witness:
  "\<exists>db remote w. foldl (delivery_step ex_link) (migrated, sink_migrated 0, ex_worker) [DAppend ex_event, DBatch (\<lambda>_. ((ResponseLost, 5), 5))] =
     (db, remote, w) \<and> http_stored remote = take (length (http_stored remote)) (map row_record (db_spool db))"
proof -
  obtain db remote w where r: "foldl (delivery_step ex_link) (migrated, sink_migrated 0, ex_worker) [DAppend ex_event, DBatch (\<lambda>_. ((ResponseLost, 5), 5))] =
     (db, remote, w)" by (metis surj_pair)
  have "run_ok (delivery_step ex_link) delivery_ok (migrated, sink_migrated 0, ex_worker) [DAppend ex_event, DBatch (\<lambda>_. ((ResponseLost, 5), 5))]"
    using ex_link_run(1) by simp
  from remote_copy_exact [OF ex_link_env this r] r show ?thesis by auto
qed


lemma ex_row_fit: "http_fit (row_record (hd (db_spool ex_db)))" "rec_Sequence (row_record (hd (db_spool ex_db))) = 1"
proof -
  obtain s where s: "marshal_event ex_event = Some s" using ex_event_marshal by blast
  have j: "ae_jsonb ex_audit_env s = Some s" by (simp add: ex_audit_env_def)
  from AppendTx_result [OF ex_migrated_inv _ s j]
  have e: "ex_db = appended ex_audit_env ex_spool migrated s s"
    using ex_event_valid by (simp add: ex_db_def migrated_def pending_rows_def ex_spool_def)
  have "length (row_mac (hd (db_spool ex_db))) = 32" using ex_db_inv ex_db_rows(1) by (auto simp: spool_inv_def length_Suc_conv)
  then show "http_fit (row_record (hd (db_spool ex_db)))" "rec_Sequence (row_record (hd (db_spool ex_db))) = 1"
    using unmarshal_marshal_event [OF s ex_event_utf8] ex_event_valid ex_event_utf8 s
    unfolding e by (simp_all add: http_fit_def row_record_def appended_def migrated_def Let_def)
qed

theorem sink_authenticated_append_witness:
  "\<exists>body resp db' x. sink_ServeHTTP ex_audit_env ''example.org'' (sink_migrated 0) (sink_post ex_http (row_record (hd (db_spool ex_db))) body) 5 = (resp, db') \<and>
     sr_Status resp = 201 \<and> sink_authenticated ''example.org'' (sink_post ex_http (row_record (hd (db_spool ex_db))) body) \<and>
     sk_records db' = [x] \<and> sk_sequence x = 1"
proof -
  let ?r = "row_record (hd (db_spool ex_db))"
  have g: "http_good (sink_migrated 0)" "http_stored (sink_migrated 0) = []"
    by (simp_all add: http_good_def sink_inv_def sink_migrated_def http_stored_def)
  obtain s where "marshal_event (rec_Event ?r) = Some s" using ex_row_fit(1) by (auto simp: http_fit_def)
  then obtain body where body: "marshal_record ?r = Some body" by (simp add: marshal_record_def)
  obtain remote' where d: "Deliver ex_audit_env ''example.org'' ex_http (Answered, 5) (sink_migrated 0) ?r = (True, remote')"
    using Deliver_acknowledges [OF ex_audit_env_ok g(1) ex_row_fit(1) ex_ready, of "(Answered, 5)"] ex_row_fit(2) g(2)
    by (auto simp: sink_migrated_def)
  obtain resp db' where s: "sink_ServeHTTP ex_audit_env ''example.org'' (sink_migrated 0) (sink_post ex_http ?r body) 5 = (resp, db')" by fastforce
  have "db' \<noteq> sink_migrated 0"
    using Deliver_cases [OF ex_audit_env_ok g(1) ex_row_fit(1) d] d s body g(2) by (auto simp: Deliver_def split: if_splits)
  with sink_authenticated_append [OF s] s show ?thesis
    by (auto simp: sink_migrated_def)
qed

end
