(* ===== verification/Transport_Properties.thy ===== *)
theory Transport_Properties
  imports Transport_Routes Audit_Liveness
begin

text \<open>
  What holds of the HTTP boundary over any credential service: who may do what, that a success
  is the answer of the named call, and that the audit can record every completion.
\<close>


section \<open>Authorization\<close>

abbreviation operation_of :: "http_request \<Rightarrow> string" where
  "operation_of request \<equiv> requestOperation (hr_Method request) (hr_EscapedPath request)"

definition recorded :: "'s Server \<Rightarrow> Event \<Rightarrow> 's \<Rightarrow> 's" where
  "recorded server event s = (case srv_auditor server of None \<Rightarrow> s | Some auditor \<Rightarrow> au_Record auditor event s)"

definition authorized :: "'s Server \<Rightarrow> http_request \<Rightarrow> bool" where
  "authorized server request \<longleftrightarrow>
     (case requestIdentity (srv_mapper server) request of None \<Rightarrow> False
      | Some i \<Rightarrow> wi_Role i \<in> set (permitted (operation_of request)))"

lemma context_operation [simp]: "ar_Operation (request_context server e request) = operation_of request"
  by (simp add: request_context_def)

lemma observe_problem:
  assumes "\<not> (200 \<le> status \<and> status < 300)"
  shows "observe server ctx request finished (problem status reason w s) =
    (writeProblem status reason w, recorded server (completion_event ctx request (writeProblem status reason w) finished) s)"
  using assms by (auto simp: observe_def recorded_def split: option.splits)

lemma observe_fst [simp]: "fst (observe server ctx request finished h) = fst h"
  by (cases h) (auto simp: observe_def split: option.splits)

lemma refusals_status: "(status, reason) \<in> set refusals \<Longrightarrow> \<not> (200 \<le> status \<and> status < 300)"
  by (auto simp: refusals_def)

text \<open>
  C35. Role separation: a request without a verified workload identity, or whose role is not
  permitted the operation that its method and path name, reaches no operation of the service. It
  is answered with a problem of the 4xx or 503 kind, and the state changes by the completion
  event of the audit only.
\<close>

theorem role_separation:
  assumes "\<not> authorized server request"
  shows "\<exists>(status, reason) \<in> set ((401, ''workload_authentication_failed'') # refusals).
    ServeHTTP server e request s =
      (writeProblem status reason (new_writer e),
       recorded server (completion_event (request_context server e request) request
         (writeProblem status reason (new_writer e)) (se_finished e)) s)"
proof (cases "requestIdentity (srv_mapper server) request")
  case None
  then show ?thesis
    by (simp add: ServeHTTP_def Let_def observe_problem)
next
  case (Some i)
  let ?ctx = "request_context server e request"
  have role: "wi_Role i \<notin> set (permitted (operation_of request))" using assms Some by (simp add: authorized_def)
  then have "refused (new_writer e) s (serve_route server ?ctx request i (new_writer e) s)"
    using serve_route_served [of server request i "new_writer e" s ?ctx]
    by (auto simp: handled_ok_def called_def status_read_def Let_def)
  then obtain status reason where r: "(status, reason) \<in> set refusals"
      "serve_route server ?ctx request i (new_writer e) s = problem status reason (new_writer e) s"
    by (auto simp: refused_def)
  then have "ServeHTTP server e request s = observe server ?ctx request (se_finished e) (problem status reason (new_writer e) s)"
    using Some by (simp add: ServeHTTP_def Let_def)
  with r(1) refusals_status [OF r(1)] show ?thesis
    by (intro bexI [of _ "(status, reason)"]) (simp_all add: observe_problem)
qed



section \<open>The audit accepts every completion event\<close>

definition plain :: "string \<Rightarrow> bool" where
  "plain s \<longleftrightarrow> list_all graphic s \<and> length s \<le> 255"

lemma graphic_ascii: "graphic c \<Longrightarrow> code c < (0x80 :: nat) \<and> c \<notin> {nul, CHR 0x0D, CHR 0x0A}"
  by (auto simp: graphic_def nul_def)

lemma plain_event_string:
  assumes "plain s"
  shows "length s \<le> 255 \<and> \<not> ContainsAny s [nul, CHR 0x0D, CHR 0x0A] \<and> valid_utf8 s"
proof -
  have g: "code c < (0x80 :: nat) \<and> c \<notin> {nul, CHR 0x0D, CHR 0x0A}" if "c \<in> set s" for c
    using assms graphic_ascii that by (auto simp: plain_def list_all_iff)
  then have "valid_utf8 s" by (intro valid_utf8_ascii) (simp add: list_all_iff)
  moreover have "\<not> ContainsAny s [nul, CHR 0x0D, CHR 0x0A]"
    using g unfolding ContainsAny_def list_ex_iff by (metis list.set(1) list.set(2))
  ultimately show ?thesis using assms by (simp add: plain_def)
qed

lemma plain_Nil [simp]: "plain []"
  by (simp add: plain_def)

lemma hex_encode_plain: "length b \<le> 100 \<Longrightarrow> plain (hex_encode b)"
proof -
  have "graphic c" if "lower_hex c" for c using that by (auto simp: lower_hex_def graphic_def)
  then show "length b \<le> 100 \<Longrightarrow> plain (hex_encode b)"
    using hex_encode_lower [of b] by (auto simp: plain_def list_all_iff)
qed

lemma newRequestID_plain: "plain (newRequestID src)"
proof -
  have "plain ''request-unavailable''" by (simp add: plain_def graphic_def)
  then show ?thesis using hex_encode_plain [of "take 16 src"] by (simp add: newRequestID_def randomBytes_def)
qed

lemma Identity_subject_plain: "Identity mapper certificate = Some i \<Longrightarrow> plain (wi_Subject i)"
proof -
  have inst: "plain (RoleExecutor @ '':'' @ v)" if "validInstance v" for v
  proof -
    have "graphic c" if "instance_rune (code c)" for c using that by (auto simp: instance_rune_def graphic_def)
    then show ?thesis
      using validInstance_chars [OF \<open>validInstance v\<close>] that
      by (auto simp: plain_def list_all_iff validInstance_def role_defs graphic_def)
  qed
  have roles: "plain RoleScheduler" "plain RoleSecretsOperator" "plain RoleSecretsAuditor" "plain RoleAPI"
    by (simp_all add: plain_def graphic_def role_defs)
  assume "Identity mapper certificate = Some i"
  then show ?thesis
    using inst roles unfolding Identity_def Let_def by (auto split: if_splits option.splits simp del: append.simps)
qed

lemma path_ids_plain:
  assumes "list_all graphic path"
  shows "plain (requestRunID path)" "plain (requestRotationID path)"
proof -
  have trim: "list_all graphic (TrimSuffix s t)" "list_all graphic (TrimPrefix s t)" if "list_all graphic s" for s t
    using that by (auto simp: TrimSuffix_def TrimPrefix_def list_all_iff dest: in_set_takeD in_set_dropD)
  show "plain (requestRunID path)"
    using assms trim unfolding requestRunID_def Let_def plain_def by (auto split: if_splits)
  show "plain (requestRotationID path)"
    using assms trim unfolding requestRotationID_def Let_def plain_def by (auto split: if_splits)
qed

lemma refusal_tokens: "list_all (token \<circ> snd) ((401, ''workload_authentication_failed'') # refusals)"
  unfolding token_bytes o_def by code_simp

lemma service_problem_token: "token (snd (service_problem e))"
  by (cases e) (simp_all add: service_problem_def token_bytes token_char_def)

lemma requestOperation_known: "KnownOperation (requestOperation method path)"
  unfolding KnownOperation_def requestOperation_def knownOperations_def by (auto split: if_splits)

lemma served_reason:
  fixes s :: 's
  shows "ow_reason (fst (ServeHTTP server e request s)) = [] \<or> token (ow_reason (fst (ServeHTTP server e request s)))"
proof (cases "requestIdentity (srv_mapper server) request")
  case None
  then show ?thesis using refusal_tokens by (simp add: ServeHTTP_def Let_def)
next
  case (Some i)
  let ?w = "new_writer e"
  let ?h = "serve_route server (request_context server e request) request i ?w s"
  have [simp]: "ow_reason ?w = []" by (simp add: new_writer_def secureHeaders_def Let_def)
  have h: "fst (ServeHTTP server e request s) = fst ?h" using Some by (simp add: ServeHTTP_def Let_def)
  consider "refused ?w s ?h" | "called server request i ?w s ?h" | "status_read server request i ?w s ?h"
    using serve_route_served [of server request i ?w s] unfolding handled_ok_def by blast
  then show ?thesis
  proof cases
    case 1
    then show ?thesis using refusal_tokens unfolding h refused_def list_all_iff by fastforce
  next
    case 2
    then obtain f :: "'s \<Rightarrow> cred_error option \<times> 's" where "case fst (f s) of Some e' \<Rightarrow> fst ?h = writeServiceProblem e' ?w
        | None \<Rightarrow> ow_status (fst ?h) \<in> {200, 201, 204} \<and> ow_reason (fst ?h) = ow_reason ?w"
      by (auto simp: called_def Let_def)
    moreover have "token (ow_reason (writeServiceProblem e' ?w))" for e'
      using service_problem_token [of e'] by (simp add: writeServiceProblem_def split_beta)
    ultimately show ?thesis unfolding h by (cases "fst (f s)") auto
  next
    case 3
    then show ?thesis using refusal_tokens unfolding h status_read_def by (auto simp: refusals_def)
  qed
qed

lemma stable_tokens: "token (snd (StableResult status)) \<and> known (fst (StableResult status)) knownResults"
  by (simp add: StableResult_def token_bytes token_char_def known_def knownResults_def ReasonCompleted_def
      ReasonOperationNotPermitted_def ReasonInvalidRequest_def ReasonSecureOperationFailed_def)

lemma completion_valid:
  assumes "list_all graphic (hr_EscapedPath request)" and "se_finished e \<noteq> zero_time"
  shows "validate_event (completion_event (request_context server e request) request (fst (ServeHTTP server e request s)) (se_finished e)) \<and>
    event_utf8 (completion_event (request_context server e request) request (fst (ServeHTTP server e request s)) (se_finished e))"
proof -
  let ?w = "fst (ServeHTTP server e request s)"
  let ?ctx = "request_context server e request"
  let ?ev = "completion_event ?ctx request ?w (se_finished e)"
  have "plain (ar_WorkloadIdentity ?ctx)"
    by (auto simp: request_context_def requestIdentity_def intro: Identity_subject_plain split: option.splits)
  then have "list_all plain (event_strings ?ev)"
    using path_ids_plain [OF assms(1)] newRequestID_plain
    by (simp add: completion_event_def Completion_def event_strings_def zero_event_def Let_def split_beta request_context_def)
  then have strings: "list_all (\<lambda>v. length v \<le> 255 \<and> \<not> ContainsAny v [nul, CHR 0x0D, CHR 0x0A] \<and> valid_utf8 v) (event_strings ?ev)"
    using plain_event_string unfolding list_all_iff by blast
  have tokens: "token (ev_ReasonCode ?ev)" "token (ev_LatencyClass ?ev)" "known (ev_Result ?ev) knownResults"
    using served_reason [of server e request s] stable_tokens [of "ow_status ?w"]
    by (auto simp: completion_event_def Completion_def Let_def split_beta latency_class_def token_bytes token_char_def)
  have fixed: "ev_SchemaVersion ?ev = audit_SchemaVersion" "ev_Timestamp ?ev = utc (se_finished e)"
      "known (ev_EventType ?ev) knownEventTypes" "KnownOperation (ev_Operation ?ev)"
    using requestOperation_known
    by (simp_all add: completion_event_def Completion_def Let_def split_beta known_def knownEventTypes_def request_context_def)
  have utf8: "valid_utf8 t" if "token t" for t
    using that by (intro valid_utf8_ascii) (auto simp: token_bytes token_char_def list_all_iff)
  have "validate_event ?ev"
    using strings tokens fixed assms(2) by (simp add: validate_event_def list_all_iff)
  moreover have "valid_utf8 (ev_EventType ?ev)" "valid_utf8 (ev_Operation ?ev)" "valid_utf8 (ev_Result ?ev)"
    using fixed(3,4) tokens(3) known_tokens utf8 by (auto simp: known_def KnownOperation_def list_all_iff)
  ultimately show ?thesis
    using strings tokens(1,2) utf8 by (simp add: event_utf8_def list_all_iff)
qed

end
