(* ===== verification/Manager_Runs.thy ===== *)
theory Manager_Runs
  imports Store_Spec
begin

text \<open>
  Every operation of \<open>credential.Manager\<close> refines the abstract specification of \<open>Store_Spec\<close>: what
  it does to the store is a sequence of effects. The system of all operations, with their
  arguments, clock readings and entropy, is a \<open>monotone_system\<close>, so the invariant and the order
  hold along every run.
\<close>

section \<open>The lifecycle operations are effects\<close>

lemma marshal_inputs_sort: "marshal_inputs (sort_key fst m) = marshal_inputs m"
  by (simp add: marshal_inputs_def sort_key_id_if_sorted)

definition encodes_valid :: "Manager \<Rightarrow> Metadata \<Rightarrow> inputs \<Rightarrow> bool" where
  "encodes_valid m md inputs \<longleftrightarrow>
     (\<exists>i. inputs_utf8 i \<and> is_ok (validateSchema m (md_CredentialType md) (md_SchemaVersion md) i) \<and>
        marshal_inputs i = marshal_inputs inputs)"

lemma encrypt_sealed:
  assumes "encrypt K m md inputs src = (Inr r, s)" and "aead_correct (c_aead K)" and "keys_ok (m_keys m)"
    and "encodes_valid m md inputs"
  shows "sealed K m md r" "md_ID md \<noteq> []" "md_OrganizationID md \<noteq> []" "md_SchemaVersion md \<noteq> 0" "md_Version md \<noteq> 0"
proof -
  from assms(1) have e: "Encrypt (c_aead K) (bytes_of (marshal_inputs inputs)) (envelopeContext md)
      (ks_Current (m_keys m)) src = (Inr r, s)"
    by (auto simp: encrypt_def Let_def split: if_splits prod.splits sum.splits)
  have "Decrypt (c_aead K) r (envelopeContext md) (Keyring (m_keys m)) = Inr (bytes_of (marshal_inputs inputs))"
    using assms(2,3) e by (intro Encrypt_Decrypt) auto
  moreover have "rec_MasterKeyID r = mk_id (ks_Current (m_keys m))" "ctx_validate (envelopeContext md)"
    using e by (auto simp: Encrypt_Inr_iff envelope_record_sel)
  ultimately show "sealed K m md r" "md_ID md \<noteq> []" "md_OrganizationID md \<noteq> []" "md_SchemaVersion md \<noteq> 0"
      "md_Version md \<noteq> 0"
    using assms(4)
    by (auto simp: sealed_def opens_def version_context_self encodes_valid_def ctx_validate_def envelopeContext_def)
qed

definition fresh_id :: "(string, 'b) gomap \<Rightarrow> bytes \<Rightarrow> bool" where
  "fresh_id m src \<longleftrightarrow> (case newUUID src of (Some i, _) \<Rightarrow> mget m i = None | (None, _) \<Rightarrow> True)"

lemma create_effect:
  assumes "CreateContext K m request now src = (res, n, src')" and "aead_correct (c_aead K)" and "store_inv K m"
    and "inputs_utf8 (cr_Inputs request)" and "fresh_id (credentials (m_backend m)) src"
  shows "n = m \<or> effect K m n"
proof -
  have k: "keys_ok (m_keys m)" using assms(3) by (simp add: store_inv_def)
  show ?thesis
  proof (cases "n = m")
    case False
    with assms(1) obtain fs i s r where
      v: "validateSchema m (cr_CredentialType request) (cr_SchemaVersion request) (cr_Inputs request) = Inr fs"
      and i: "newUUID src = (Some i, s)"
      and e: "encrypt K m (new_metadata request i fs now) (cr_Inputs request) s = (Inr r, src')"
      and c: "(res, m_backend n) = Create_be (m_backend m)
             (idempotencyID (cr_OrganizationID request) (cr_IdempotencyKey request))
             (requestDigest (c_sha256 K) request) (new_metadata request i fs now) r" and n: "n = m\<lparr>m_backend := m_backend n\<rparr>"
      by (auto simp: CreateContext_def Let_def split: if_splits sum.splits prod.splits option.splits)
    have "encodes_valid m (new_metadata request i fs now) (cr_Inputs request)"
      using v assms(4) by (auto simp: encodes_valid_def new_metadata_def)
    note s = encrypt_sealed [OF e assms(2) k this]
    from assms(5) i have "mget (credentials (m_backend m)) i = None" by (simp add: fresh_id_def)
    then have f: "mget (credentials (m_backend m)) (md_ID (new_metadata request i fs now)) = None"
      by (simp add: new_metadata_def)
    have "mget (idempotency (m_backend m)) (idempotencyID (cr_OrganizationID request) (cr_IdempotencyKey request)) = None"
      using c n False by (auto simp: Create_be_def split: option.splits if_splits)
    with s f c n show ?thesis
      using effect.created [OF refl _ s(3,4,2) f] by (simp add: Create_be_def) (simp add: new_metadata_def)
  qed simp
qed

lemma Get_be_Inr:
  assumes "Get_be b org i = Inr (md, r)"
  obtains c where "mget (credentials b) i = Some c" "mc_metadata c = md" "md_OrganizationID md = org"
    "r = (case mget (mc_records c) (md_Version md) of None \<Rightarrow> zero_record | Some r \<Rightarrow> r)"
  using assms by (auto simp: Get_be_def split: option.splits if_splits)

lemma store_next_effect:
  assumes st: "store_next K m org i v next inputs src = (res, n, src')" and A: "aead_correct (c_aead K)"
    and inv: "store_inv K m" and g: "Get_be (m_backend m) org i = Inr (current, r0)"
    and act: "md_State current = StateActive" and same: "same_identity current next"
    and ver: "md_Version next = md_Version current + 1" and inp: "encodes_valid m next inputs"
  shows "n = m \<or> effect K m n"
proof (cases "n = m")
  case False
  with st obtain r where e: "encrypt K m next inputs src = (Inr r, src')"
    and u: "(res, m_backend n) = Update_be (m_backend m) org i v next r" and n: "n = m\<lparr>m_backend := m_backend n\<rparr>"
    by (auto simp: store_next_def split: prod.splits sum.splits)
  have "keys_ok (m_keys m)" using inv by (simp add: store_inv_def)
  note s = encrypt_sealed [OF e A this inp]
  from g obtain c where "mget (credentials (m_backend m)) i = Some c" "mc_metadata c = current"
    by (rule Get_be_Inr)
  then have c: "mget (credentials (m_backend m)) i = Some c" "md_State (mc_metadata c) = StateActive"
    "same_identity (mc_metadata c) next" "md_Version next = md_Version (mc_metadata c) + 1"
    using act same ver by simp_all
  from u n False c(1) have "n = m\<lparr>m_backend := (m_backend m)\<lparr>credentials := mput i
      \<lparr>mc_metadata = next, mc_records = mput (md_Version next) r (mc_records c)\<rparr> (credentials (m_backend m))\<rparr>\<rparr>"
    by (auto simp: Update_be_def split: if_splits)
  then show ?thesis
    using effect.versioned [OF refl c s(5,1)] by simp
qed simp

text \<open>The current record always opens, to inputs whose encoding is the stored one.\<close>

lemma open_current:
  assumes inv: "store_inv K m" and g: "Get_be (m_backend m) org i = Inr (current, r)"
  shows "\<exists>inputs. open_inputs K m r (envelopeContext current) = Some inputs \<and> encodes_valid m current inputs"
proof -
  from g obtain c where c: "mget (credentials (m_backend m)) i = Some c" "mc_metadata c = current"
    and r: "r = (case mget (mc_records c) (md_Version current) of None \<Rightarrow> zero_record | Some r \<Rightarrow> r)"
    by (rule Get_be_Inr)
  have ci: "credential_inv K m i c"
    using inv c(1) by (simp add: store_inv_def inv_credentials_def)
  then have "mget (mc_records c) (md_Version current) \<noteq> None"
    using c(2) by (auto simp: credential_inv_def)
  then have "mget (mc_records c) (md_Version current) = Some r"
    using r by auto
  with ci c(2) have "opens K m current (md_Version current) r"
    by (auto simp: credential_inv_def)
  then obtain inputs where i: "inputs_utf8 inputs"
      "is_ok (validateSchema m (md_CredentialType current) (md_SchemaVersion current) inputs)"
    and d: "Decrypt (c_aead K) r (envelopeContext current) (Keyring (m_keys m)) = Inr (bytes_of (marshal_inputs inputs))"
    by (auto simp: opens_def version_context_self)
  from i(1) have "unmarshal_inputs (marshal_inputs inputs) = Some (sort_key fst inputs)"
    by (intro unmarshal_marshal) (auto simp: inputs_utf8_def list_all_iff)
  with d have "open_inputs K m r (envelopeContext current) = Some (sort_key fst inputs)"
    by (simp add: open_inputs_def)
  moreover have "encodes_valid m current (sort_key fst inputs)"
    using i by (auto simp: encodes_valid_def marshal_inputs_sort)
  ultimately show ?thesis by blast
qed

lemma encodes_valid_identity: "same_identity md md' \<Longrightarrow> encodes_valid m md' = encodes_valid m md"
  by (intro ext) (simp add: encodes_valid_def same_identity_def)

lemma replace_effect:
  assumes "ReplaceInputsContext K m request now src = (res, n, src')" and "aead_correct (c_aead K)"
    and "store_inv K m" and "inputs_utf8 (ri_Inputs request)"
  shows "n = m \<or> effect K m n"
proof (cases "n = m")
  case False
  with assms(1) obtain current r0 fs where g: "Get_be (m_backend m) (ri_OrganizationID request) (ri_CredentialID request) = Inr (current, r0)"
    and a: "md_State current = StateActive"
    and v: "validateSchema m (md_CredentialType current) (md_SchemaVersion current) (ri_Inputs request) = Inr fs"
    and s: "store_next K m (ri_OrganizationID request) (ri_CredentialID request) (ri_ExpectedVersion request)
      (current\<lparr>md_Version := md_Version current + 1, md_SecretFields := fs, md_UpdatedAt := now\<rparr>)
      (ri_Inputs request) src = (res, n, src')"
    by (auto simp: ReplaceInputsContext_def split: if_splits sum.splits)
  show ?thesis
    using v assms(4)
    by (intro store_next_effect [OF s assms(2,3) g a]) (auto simp: same_identity_def encodes_valid_def)
qed simp

lemma update_effect:
  assumes "UpdateMetadataContext K m request now src = (res, n, src')" and "aead_correct (c_aead K)"
    and "store_inv K m"
  shows "n = m \<or> effect K m n"
proof (cases "n = m")
  case False
  with assms(1) obtain current r0 inputs where g: "Get_be (m_backend m) (um_OrganizationID request) (um_CredentialID request) = Inr (current, r0)"
    and a: "md_State current = StateActive"
    and o: "open_inputs K m r0 (envelopeContext current) = Some inputs"
    and s: "store_next K m (um_OrganizationID request) (um_CredentialID request) (um_ExpectedVersion request)
      (current\<lparr>md_Name := um_Name request, md_Version := md_Version current + 1, md_UpdatedAt := now\<rparr>)
      inputs src = (res, n, src')"
    by (auto simp: UpdateMetadataContext_def split: if_splits sum.splits option.splits)
  show ?thesis
    using open_current [OF assms(3) g] o
    by (intro store_next_effect [OF s assms(2,3) g a]) (auto simp: same_identity_def encodes_valid_def)
qed simp

lemma retire_effect:
  assumes "RetireContext K m request now src = (res, n, src')" and "aead_correct (c_aead K)"
    and "store_inv K m"
  shows "n = m \<or> effect K m n"
proof (cases "n = m")
  case False
  with assms(1) obtain current r0 inputs where g: "Get_be (m_backend m) (rt_OrganizationID request) (rt_CredentialID request) = Inr (current, r0)"
    and a: "md_State current = StateActive"
    and o: "open_inputs K m r0 (envelopeContext current) = Some inputs"
    and s: "store_next K m (rt_OrganizationID request) (rt_CredentialID request) (rt_ExpectedVersion request)
      (current\<lparr>md_Version := md_Version current + 1, md_State := StateRetired, md_UpdatedAt := now\<rparr>)
      inputs src = (res, n, src')"
    by (auto simp: RetireContext_def split: if_splits sum.splits option.splits)
  show ?thesis
    using open_current [OF assms(3) g] o
    by (intro store_next_effect [OF s assms(2,3) g a]) (auto simp: same_identity_def encodes_valid_def)
qed simp

section \<open>Bindings\<close>

lemma scan_bindings_None:
  "scan_bindings es reg = None \<longleftrightarrow>
     list_all (\<lambda>e. \<not> (b_OrganizationID (mb_binding e) = rb_OrganizationID (br_request reg) \<and>
         mb_idempotencyKey e = rb_IdempotencyKey (br_request reg)) \<and>
       b_RunID (mb_binding e) \<noteq> rb_RunID (br_request reg) \<and>
       b_DispatchID (mb_binding e) \<noteq> rb_DispatchID (br_request reg)) es"
  by (induction es) (auto simp: Let_def)

lemma binding_at: "store_inv K m \<Longrightarrow> mget (bindings (m_backend m)) run = Some mb \<Longrightarrow> binding_inv (m_backend m) run mb"
  by (simp add: store_inv_def inv_bindings_def)

lemma binding_at_run: "store_inv K m \<Longrightarrow> mget (bindings (m_backend m)) run = Some mb \<Longrightarrow> b_RunID (mb_binding mb) = run"
  using binding_at [of K m run mb] by (simp add: binding_inv_def Let_def)

lemma register_effect:
  assumes "RegisterBinding K m caller request now = (res, n)" and inv: "store_inv K m"
  shows "n = m \<or> effect K m n"
proof (cases "n = m")
  case False
  with assms(1) obtain d where v: "validBindingRequest request now (m_policy m)"
    and r: "RegisterBinding_be (m_backend m) \<lparr>br_request = request, br_digest = d, br_now = now\<rparr> = (res, m_backend n)"
      (is "RegisterBinding_be _ ?reg = _") and n: "n = m\<lparr>m_backend := m_backend n\<rparr>"
    by (auto simp: RegisterBinding_def split: if_splits option.splits prod.splits)
  from n False have ne: "m_backend n \<noteq> m_backend m" by auto
  from r ne obtain c where s: "scan_bindings (map snd (bindings (m_backend m))) ?reg = None"
    and c: "mget (credentials (m_backend m)) (rb_CredentialID request) = Some c"
      "md_OrganizationID (mc_metadata c) = rb_OrganizationID request"
    and b: "m_backend n = (m_backend m)\<lparr>bindings := mput (rb_RunID request)
        \<lparr>mb_binding = new_binding ?reg (mc_metadata c), mb_idempotencyKey = rb_IdempotencyKey request, mb_digest = d\<rparr>
        (bindings (m_backend m))\<rparr>"
    by (auto simp: RegisterBinding_be_def Let_def split: option.splits if_splits)
  have f: "mget (bindings (m_backend m)) (rb_RunID request) = None"
  proof (rule ccontr)
    assume "mget (bindings (m_backend m)) (rb_RunID request) \<noteq> None"
    then obtain mb where mb: "mget (bindings (m_backend m)) (rb_RunID request) = Some mb" by auto
    then have "mb \<in> set (map snd (bindings (m_backend m)))" by (force dest: mget_in_set)
    moreover have "b_RunID (mb_binding mb) = rb_RunID request" using inv mb by (rule binding_at_run)
    ultimately show False using s by (auto simp: scan_bindings_None list_all_iff)
  qed
  have "effect K m (m\<lparr>m_backend := (m_backend m)\<lparr>bindings := mput (b_RunID (new_binding ?reg (mc_metadata c)))
        \<lparr>mb_binding = new_binding ?reg (mc_metadata c), mb_idempotencyKey = rb_IdempotencyKey request, mb_digest = d\<rparr>
        (bindings (m_backend m))\<rparr>\<rparr>)"
    using c f v
    by (intro effect.registered [where c = c]) (auto simp: new_binding_def Let_def validBindingRequest_def)
  with n b show ?thesis by (simp add: new_binding_def Let_def)
qed simp

lemma cancel_effect:
  assumes "CancelBinding uni m caller request now = (res, n)"
  shows "n = m \<or> effect K m n"
  using assms
  by (auto simp: CancelBinding_def CancelBinding_be_def Let_def same_binding_def terminal_def
      split: if_splits option.splits prod.splits intro!: effect.closed)

text \<open>What a claim does to the store, on each of its paths.\<close>

lemma claim_cases:
  assumes "ClaimResolution_be b claim validate = (res, d)"
  obtains (same) "d = b"
  | (lapsed) mb where "mget (bindings b) (rcl_runID claim) = Some mb" "\<not> terminal (b_State (mb_binding mb))"
      "d = put_binding b (rcl_runID claim) mb ((mb_binding mb)\<lparr>b_State := BindingExpired, b_UpdatedAt := rcl_now claim\<rparr>)"
      "res = Inl ErrBindingExpired"
  | (exhausted) mb where "mget (bindings b) (rcl_runID claim) = Some mb"
      "b_ResolutionCount (mb_binding mb) \<ge> b_MaxResolutions (mb_binding mb) \<or> b_State (mb_binding mb) = BindingExhausted"
      "d = put_binding b (rcl_runID claim) mb ((mb_binding mb)\<lparr>b_State := BindingExhausted, b_UpdatedAt := rcl_now claim\<rparr>)"
      "res = Inl ErrBindingExhausted"
  | (counted) mb x y out where "mget (bindings b) (rcl_runID claim) = Some mb" "\<not> terminal (b_State (mb_binding mb))"
      "mget (attempts b) (rcl_attemptID claim) = None"
      "b_ResolutionCount (mb_binding mb) < b_MaxResolutions (mb_binding mb)"
      "x = (mb_binding mb)\<lparr>b_ResolutionCount := b_ResolutionCount (mb_binding mb) + 1,
         b_State := (if b_ResolutionCount (mb_binding mb) + 1 = b_MaxResolutions (mb_binding mb) then BindingExhausted else BindingActive),
         b_UpdatedAt := rcl_now claim\<rparr>"
      "y = \<lparr>ma_runID = rcl_runID claim, ma_executorIdentity = rcl_executorIdentity claim, ma_digest = rcl_digest claim,
         ma_expiresAt = min (rcl_now claim + rcl_retryWindow claim) (b_ExpiresAt (mb_binding mb))\<rparr>"
      "rcl_executorIdentity claim = b_ExecutorIdentity (mb_binding mb)"
      "d = put_binding (b\<lparr>attempts := mput (rcl_attemptID claim) y (attempts b)\<rparr>) (rcl_runID claim) mb x"
      "res = Inr (x, ma_expiresAt y, out)"
proof (cases "d = b")
  case True
  then show ?thesis by (rule same)
next
  case False
  from assms False obtain mb where mb: "mget (bindings b) (rcl_runID claim) = Some mb"
    by (auto simp: ClaimResolution_be_def split: option.splits)
  let ?x = "mb_binding mb"
  note a = assms [unfolded ClaimResolution_be_def mb option.case Let_def]
  have e: "rcl_executorIdentity claim = b_ExecutorIdentity ?x"
    and nc: "b_State ?x \<noteq> BindingCanceled" and nx: "b_State ?x \<noteq> BindingExpired"
    using a False by (simp_all split: if_splits)
  show ?thesis
  proof (cases "rcl_now claim < b_ExpiresAt ?x")
    case expired: False
    then have "b_State ?x \<noteq> BindingExhausted" using a e nc nx False by (auto split: if_splits)
    with a e nc nx expired show ?thesis
      by (intro lapsed [OF mb]) (simp_all add: terminal_def)
  next
    case live: True
    from a e nc nx live False obtain out where a: "claim_attempt b claim mb out = (res, d)"
      by (auto split: if_splits sum.splits)
    have f: "mget (attempts b) (rcl_attemptID claim) = None"
      using a False by (auto simp: claim_attempt_def Let_def split: option.splits if_splits)
    note a = a [unfolded claim_attempt_def Let_def f option.case]
    show ?thesis
    proof (cases "b_ResolutionCount ?x \<ge> b_MaxResolutions ?x \<or> b_State ?x = BindingExhausted")
      case True
      with a f show ?thesis by (intro exhausted [OF mb]) auto
    next
      case room: False
      then have lt: "b_ResolutionCount ?x < b_MaxResolutions ?x" "\<not> terminal (b_State ?x)"
        using nc nx by (auto simp: terminal_def)
      show ?thesis
        by (rule counted [OF mb lt(2) f lt(1) refl refl e, where out = out])
          (use a f room e in \<open>auto simp: min_def not_le\<close>)
    qed
  qed
qed

lemma resolve_effect:
  assumes "Resolve K m caller request now = (res, n)" and inv: "store_inv K m"
  shows "n = m \<or> effect K m n"
proof (cases "n = m")
  case False
  with assms(1) obtain injector claim res' d where
    c: "ClaimResolution_be (m_backend m) claim (resolve_validate K m injector) = (res', d)"
    and n: "n = m\<lparr>m_backend := d\<rparr>"
    by (auto simp: Resolve_def split: if_splits option.splits prod.splits sum.splits)
  from c show ?thesis
  proof (cases rule: claim_cases)
    case same
    with n show ?thesis by simp
  next
    case (lapsed mb)
    with n show ?thesis
      by (auto intro!: effect.closed simp: same_binding_def)
  next
    case (exhausted mb)
    have "b_State (mb_binding mb) = BindingExhausted"
      using exhausted(2) binding_at [OF inv exhausted(1)] by (auto simp: binding_inv_def Let_def)
    with n exhausted show ?thesis
      by (auto intro!: effect.closed simp: same_binding_def)
  next
    case (counted mb x y out)
    have "effect K m (m\<lparr>m_backend := put_binding ((m_backend m)\<lparr>attempts := mput (rcl_attemptID claim) y
        (attempts (m_backend m))\<rparr>) (rcl_runID claim) mb x\<rparr>)"
      using counted by (intro effect.claimed) (auto simp: same_binding_def)
    with n counted show ?thesis by simp
  qed
qed simp

section \<open>Rotation\<close>

definition wf_store :: "memoryBackend \<Rightarrow> bool" where
  "wf_store b \<longleftrightarrow> wf_map (credentials b) \<and> (\<forall>i c. mget (credentials b) i = Some c \<longrightarrow> wf_map (mc_records c))"

lemma store_inv_wf: "store_inv K m \<Longrightarrow> wf_store (m_backend m)"
  by (auto simp: store_inv_def wf_store_def inv_maps_def inv_credentials_def credential_inv_def)

definition position :: "string \<times> rotationRecord \<Rightarrow> string \<times> 64 word" where
  "position x = (fst x, rr_version (snd x))"

lemma in_stored_items:
  assumes "wf_store b"
  shows "x \<in> set (stored_items b) \<longleftrightarrow> (\<exists>c. mget (credentials b) (fst x) = Some c \<and>
    rr_metadata (snd x) = mc_metadata c \<and> mget (mc_records c) (rr_version (snd x)) = Some (rr_record (snd x)))"
proof -
  have "x \<in> set (stored_items b) \<longleftrightarrow> (\<exists>y \<in> set (credentials b). \<exists>z \<in> set (mc_records (snd y)).
      x = (fst y, \<lparr>rr_metadata = mc_metadata (snd y), rr_version = fst z, rr_record = snd z\<rparr>))"
    by (auto simp: stored_items_def split_beta image_iff)
  also have "\<dots> \<longleftrightarrow> (\<exists>i c v r. (i, c) \<in> set (credentials b) \<and> (v, r) \<in> set (mc_records c) \<and>
      x = (i, \<lparr>rr_metadata = mc_metadata c, rr_version = v, rr_record = r\<rparr>))"
    by (metis fst_conv snd_conv prod.collapse)
  also have "\<dots> \<longleftrightarrow> (\<exists>i c v r. mget (credentials b) i = Some c \<and> mget (mc_records c) v = Some r \<and>
      x = (i, \<lparr>rr_metadata = mc_metadata c, rr_version = v, rr_record = r\<rparr>))"
    using assms in_set_mget unfolding wf_store_def by metis
  also have "\<dots> \<longleftrightarrow> (\<exists>c. mget (credentials b) (fst x) = Some c \<and>
    rr_metadata (snd x) = mc_metadata c \<and> mget (mc_records c) (rr_version (snd x)) = Some (rr_record (snd x)))"
    by (cases x; cases "snd x") auto
  finally show ?thesis .
qed

lemma positions_eq:
  "map position (stored_items b) = concat (map (\<lambda>(i, c). map (Pair i) (map fst (mc_records c))) (credentials b))"
  by (auto simp: stored_items_def map_concat position_def intro!: arg_cong [where f = concat])

lemma distinct_positions:
  assumes "wf_store b"
  shows "distinct (map position (stored_items b))"
proof -
  have "distinct (concat (map (\<lambda>(i, c). map (Pair i) (map fst (mc_records c))) cs))"
    if "distinct (map fst cs)" "\<forall>x \<in> set cs. wf_map (mc_records (snd x))" for cs :: "(string \<times> memoryCredential) list"
    using that
  proof (induction cs)
    case (Cons y cs)
    then have "distinct (map (Pair (fst y)) (map fst (mc_records (snd y))))"
      by (subst distinct_map) (simp add: wf_map_def inj_on_def)
    with Cons show ?case by (cases y) force
  qed simp
  moreover have "\<forall>x \<in> set (credentials b). wf_map (mc_records (snd x))"
    using assms in_set_mget unfolding wf_store_def by fastforce
  ultimately show ?thesis
    using assms by (simp add: positions_eq wf_store_def wf_map_def)
qed

lemma source_positions:
  assumes "wf_store b"
  shows "position ` set (filter (\<lambda>x. record_key x = k) (stored_items b)) = keyrefs b k"
proof -
  have "position x \<in> keyrefs b k" if "x \<in> set (stored_items b)" "record_key x = k" for x
    using that assms by (auto simp: in_stored_items keyrefs_def rec_at_def position_def record_key_def)
  moreover have "(i, v) \<in> position ` set (filter (\<lambda>x. record_key x = k) (stored_items b))"
    if iv: "(i, v) \<in> keyrefs b k" for i v
  proof -
    from iv obtain c r where "mget (credentials b) i = Some c" "mget (mc_records c) v = Some r" "rec_MasterKeyID r = k"
      by (auto simp: keyrefs_def rec_at_def split: option.splits)
    then have "(i, \<lparr>rr_metadata = mc_metadata c, rr_version = v, rr_record = r\<rparr>) \<in>
        set (filter (\<lambda>x. record_key x = k) (stored_items b))"
      using assms by (simp add: in_stored_items record_key_def)
    then show ?thesis by (force simp: position_def)
  qed
  ultimately show ?thesis by auto
qed

lemma count_keyrefs:
  assumes "wf_store b"
  shows "length (filter (\<lambda>x. record_key x = k) (stored_items b)) = card (keyrefs b k)"
proof -
  have "distinct (map position (filter (\<lambda>x. record_key x = k) (stored_items b)))"
    using distinct_positions [OF assms] by (rule distinct_map_filter)
  then show ?thesis
    using distinct_card source_positions [OF assms, of k] by fastforce
qed

lemma start_effect:
  assumes "StartMasterKeyRotation m now src = (res, n, src')" and inv: "store_inv K m"
    and "fresh_id (rotations (m_backend m)) src"
  shows "n = m \<or> effect K m n"
proof (cases "n = m")
  case False
  with assms(1) obtain p i s where p: "ks_Previous (m_keys m) = Some p" and i: "newUUID src = (Some i, s)"
    and st: "StartRotation_be (m_backend m) \<lparr>ro_ID = i, ro_SourceKeyID = mk_id p,
      ro_TargetKeyID = mk_id (ks_Current (m_keys m)), ro_State = RotationPending, ro_TotalRecords = 0,
      ro_ProcessedRecords = 0, ro_CreatedAt = now, ro_UpdatedAt = now, ro_FinalizedAt = zero_time\<rparr> = (res, m_backend n)"
    and n: "n = m\<lparr>m_backend := m_backend n\<rparr>"
    by (auto simp: StartMasterKeyRotation_def split: option.splits if_splits prod.splits)
  from n False have ne: "m_backend n \<noteq> m_backend m" by auto
  have f: "mget (rotations (m_backend m)) i = None" using assms(3) i by (simp add: fresh_id_def)
  from st ne have a: "list_all (\<lambda>(_, r). ro_State r = RotationFinalized) (rotations (m_backend m))"
    by (auto simp: StartRotation_be_def list_ex_iff list_all_iff split: if_splits)
  then have na: "\<not> list_ex (\<lambda>(_, r). ro_State r \<noteq> RotationFinalized) (rotations (m_backend m))"
    by (auto simp: list_ex_iff list_all_iff)
  define N where "N = int (card (keyrefs (m_backend m) (mk_id p)))"
  define r where "r = \<lparr>ro_ID = i, ro_SourceKeyID = mk_id p, ro_TargetKeyID = mk_id (ks_Current (m_keys m)),
      ro_State = (if N = 0 then RotationReady else RotationPending), ro_TotalRecords = N,
      ro_ProcessedRecords = 0, ro_CreatedAt = now, ro_UpdatedAt = now, ro_FinalizedAt = zero_time\<rparr>"
  have b: "m_backend n = (m_backend m)\<lparr>rotations := mput (ro_ID r) r (rotations (m_backend m))\<rparr>"
    using st na count_keyrefs [OF store_inv_wf [OF inv], of "mk_id p"]
    by (simp add: StartRotation_be_def Let_def r_def N_def split: if_splits)
  have "effect K m (m\<lparr>m_backend := (m_backend m)\<lparr>rotations := mput (ro_ID r) r (rotations (m_backend m))\<rparr>\<rparr>)"
    using a p f by (intro effect.rotation_started) (auto simp: r_def N_def)
  with n b show ?thesis by simp
qed simp

text \<open>A batch replaces the first records, in the order of the map, that still reference the source key.\<close>

definition replaces :: "'s transform \<Rightarrow> string \<times> rotationRecord \<Rightarrow> string \<times> 64 word \<times> Record \<Rightarrow> bool" where
  "replaces transform x y \<longleftrightarrow> fst y = fst x \<and> fst (snd y) = rr_version (snd x) \<and>
     (\<exists>s s'. transform (snd x) s = (Inr (snd (snd y)), s'))"

lemma collect_Inr:
  assumes "collect transform source limit xs acc s = (Inr reps, s')" and "int (length acc) \<le> limit"
  shows "\<exists>news. reps = acc @ news \<and>
    list_all2 (replaces transform) (take (nat limit - length acc) (filter (\<lambda>x. record_key x = source) xs)) news"
  using assms
proof (induction transform source limit xs acc s rule: collect.induct)
  case (2 transform source limit x xs acc s)
  show ?case
  proof (cases "int (length acc) = limit")
    case True
    with "2.prems" show ?thesis by auto
  next
    case room: False
    show ?thesis
    proof (cases "record_key x = source")
      case False
      with room 2 show ?thesis by simp
    next
      case True
      with room "2.prems" obtain r s1 where t: "transform (snd x) s = (Inr r, s1)"
        by (auto split: prod.splits sum.splits)
      let ?y = "(fst x, rr_version (snd x), r)"
      from room True t "2.prems" have
        "collect transform source limit xs (acc @ [?y]) s1 = (Inr reps, s')" "int (length (acc @ [?y])) \<le> limit"
        by simp_all
      with "2.IH"(2) [OF room _ t [symmetric] refl] True obtain news where n: "reps = (acc @ [?y]) @ news"
        "list_all2 (replaces transform) (take (nat limit - length (acc @ [?y])) (filter (\<lambda>x. record_key x = source) xs)) news"
        by auto
      have "replaces transform x ?y" using t by (auto simp: replaces_def)
      moreover have "nat limit - length acc = Suc (nat limit - length (acc @ [?y]))"
        using room "2.prems"(2) by simp
      ultimately show ?thesis
        using n True by (intro exI [of _ "?y # news"]) auto
    qed
  qed
qed simp

lemma list_all2_length_take: "list_all2 P (take n xs) ys \<Longrightarrow> length ys = min n (length xs)"
  by (auto dest: list_all2_lengthD)

lemma rec_at_put_record:
  assumes "rec_at b i v \<noteq> None"
  shows "rec_at (put_record (i, v, r) b) j w = (if (j, w) = (i, v) then Some r else rec_at b j w)"
proof -
  from assms obtain c where "mget (credentials b) i = Some c"
    by (auto simp: rec_at_def split: option.splits)
  then show ?thesis by (simp add: put_record_eq rec_at_def)
qed

lemma keyrefs_put_record:
  assumes "rec_at b i v \<noteq> None" and "rec_MasterKeyID r \<noteq> k"
  shows "keyrefs (put_record (i, v, r) b) k = keyrefs b k - {(i, v)}"
  using assms by (auto simp: keyrefs_def rec_at_put_record split: if_splits)

lemma put_record_metadata:
  "mget (credentials (put_record x b)) i = Some c' \<Longrightarrow> \<exists>c. mget (credentials b) i = Some c \<and> mc_metadata c = mc_metadata c'"
  by (auto simp: put_record_def split: prod.splits option.splits if_splits)

lemma put_record_metadata':
  "mget (credentials b) i = Some c \<Longrightarrow> \<exists>c'. mget (credentials (put_record x b)) i = Some c' \<and> mc_metadata c' = mc_metadata c"
  by (auto simp: put_record_def split: prod.splits option.splits if_splits)

text \<open>A replacement is good for a store if it stands for a record of the source key that it re-encrypts.\<close>

definition good_replacement :: "crypto \<Rightarrow> Manager \<Rightarrow> string \<Rightarrow> string \<times> 64 word \<times> Record \<Rightarrow> bool" where
  "good_replacement K m source y \<longleftrightarrow>
     (case y of (i, v, r') \<Rightarrow> \<exists>c r. mget (credentials (m_backend m)) i = Some c \<and> mget (mc_records c) v = Some r \<and>
        rec_MasterKeyID r = source \<and> rec_MasterKeyID r' = mk_id (ks_Current (m_keys m)) \<and>
        Decrypt (c_aead K) r' (version_context (mc_metadata c) v) (Keyring (m_keys m)) =
        Decrypt (c_aead K) r (version_context (mc_metadata c) v) (Keyring (m_keys m)))"

lemma good_replacement_mono:
  assumes "good_replacement K m source (i, v, r')" and "(i, v) \<noteq> (j, w)"
  shows "good_replacement K (m\<lparr>m_backend := put_record (j, w, r) (m_backend m)\<rparr>) source (i, v, r')"
  using assms
  by (auto simp: good_replacement_def put_record_def split: option.splits)

lemma replacements_effects:
  assumes "list_all (good_replacement K m source) reps" and "distinct (map (\<lambda>(i, v, r). (i, v)) reps)"
    and "source \<noteq> mk_id (ks_Current (m_keys m))"
  shows "(effect K)\<^sup>*\<^sup>* m (m\<lparr>m_backend := fold put_record reps (m_backend m)\<rparr>) \<and>
    card (keyrefs (fold put_record reps (m_backend m)) source) + length reps = card (keyrefs (m_backend m) source)"
  using assms
proof (induction reps arbitrary: m)
  case (Cons y reps)
  obtain i v r' where y: "y = (i, v, r')" by (cases y)
  let ?n = "m\<lparr>m_backend := put_record (i, v, r') (m_backend m)\<rparr>"
  from Cons.prems y obtain c r where c: "mget (credentials (m_backend m)) i = Some c" "mget (mc_records c) v = Some r"
    "rec_MasterKeyID r = source" "rec_MasterKeyID r' = mk_id (ks_Current (m_keys m))"
    "Decrypt (c_aead K) r' (version_context (mc_metadata c) v) (Keyring (m_keys m)) =
        Decrypt (c_aead K) r (version_context (mc_metadata c) v) (Keyring (m_keys m))"
    by (auto simp: good_replacement_def)
  have e: "effect K m ?n" by (rule effect.rekeyed [OF refl c(1,2,5,4)])
  have "good_replacement K ?n source z" if z: "z \<in> set reps" for z
  proof -
    obtain j w q where jw: "z = (j, w, q)" by (cases z)
    with z Cons.prems(2) y have "(j, w) \<noteq> (i, v)" by force
    with z jw Cons.prems(1) show ?thesis
      by (simp add: list_all_iff good_replacement_mono)
  qed
  then have "list_all (good_replacement K ?n source) reps" by (simp add: list_all_iff)
  with Cons.IH [of ?n] Cons.prems have ih: "(effect K)\<^sup>*\<^sup>* ?n (?n\<lparr>m_backend := fold put_record reps (m_backend ?n)\<rparr>)"
    "card (keyrefs (fold put_record reps (m_backend ?n)) source) + length reps = card (keyrefs (m_backend ?n) source)"
    by simp_all
  have "rec_at (m_backend m) i v = Some r" using c by (simp add: rec_at_def)
  then have "(i, v) \<in> keyrefs (m_backend m) source"
    "keyrefs (m_backend ?n) source = keyrefs (m_backend m) source - {(i, v)}"
    using c Cons.prems(3) keyrefs_put_record [of "m_backend m" i v r' source] by (auto simp: keyrefs_def)
  then have "Suc (card (keyrefs (m_backend ?n) source)) = card (keyrefs (m_backend m) source)"
    by (metis card_Suc_Diff1 finite_keyrefs)
  with ih e y show ?case
    by (auto intro: converse_rtranclp_into_rtranclp)
qed simp

lemma item_context_version: "item_context x = version_context (rr_metadata x) (rr_version x)"
  by (simp add: item_context_def version_context_def envelopeContext_def)

lemma rewrap_good:
  assumes "wf_store (m_backend m)" and "aead_correct (c_aead K)" and "keys_ok (m_keys m)"
    and "x \<in> set (stored_items (m_backend m))" and "record_key x = source" and "replaces (rewrap_item K m) x y"
  shows "good_replacement K m source y"
proof -
  obtain i v r' where y: "y = (i, v, r')" by (cases y)
  from assms(6) y obtain s s' where t: "rewrap_item K m (snd x) s = (Inr r', s')"
    and p: "i = fst x" "v = rr_version (snd x)" by (auto simp: replaces_def)
  from t have w: "Rewrap (c_aead K) (rr_record (snd x)) (item_context (snd x)) (Keyring (m_keys m)) (ks_Current (m_keys m)) s = (Inr r', s')"
    by (auto simp: rewrap_item_def split: prod.splits sum.splits)
  have "Decrypt (c_aead K) r' (item_context (snd x)) (Keyring (m_keys m)) =
      Decrypt (c_aead K) (rr_record (snd x)) (item_context (snd x)) (Keyring (m_keys m))"
    using assms(2) w by (rule Rewrap_Decrypt) (simp add: assms(3))
  moreover have "rec_MasterKeyID r' = mk_id (ks_Current (m_keys m))"
    using w by (auto elim: Rewrap_Inr)
  moreover obtain c where "mget (credentials (m_backend m)) (fst x) = Some c"
    "rr_metadata (snd x) = mc_metadata c" "mget (mc_records c) (rr_version (snd x)) = Some (rr_record (snd x))"
    using assms(4) in_stored_items [OF assms(1)] by blast
  ultimately show ?thesis
    using assms(5) by (auto simp: good_replacement_def y p item_context_version record_key_def)
qed

lemma rotation_at: "store_inv K m \<Longrightarrow> mget (rotations (m_backend m)) i = Some r \<Longrightarrow> rotation_inv m r"
  by (simp add: store_inv_def inv_rotations_def)

lemma active_source:
  assumes "store_inv K m" and "mget (rotations (m_backend m)) i = Some r" and "ro_State r \<noteq> RotationFinalized"
  shows "ro_SourceKeyID r \<noteq> mk_id (ks_Current (m_keys m))"
proof -
  obtain p where "ks_Previous (m_keys m) = Some p" "ro_SourceKeyID r = mk_id p"
    using rotation_at [OF assms(1,2)] assms(3) by (auto simp: rotation_inv_def)
  with assms(1) show ?thesis by (simp add: previous_differs store_inv_def)
qed

lemma fold_put_record_rotations [simp]: "rotations (fold put_record reps b) = rotations b"
  by (induction reps arbitrary: b) simp_all

text \<open>
  A batch on a rotation in progress either fails and changes nothing, or re-encrypts
  \<open>min size (card refs)\<close> records of the source key and counts them.
\<close>

lemma batch_cases:
  assumes res: "RotateBatch_be (m_backend m) i lim now (rewrap_item K m) src = ((res, b'), src')"
    and inv: "store_inv K m" and A: "aead_correct (c_aead K)" and lim: "0 \<le> lim"
    and r: "mget (rotations (m_backend m)) i = Some r" and nf: "ro_State r \<noteq> RotationFinalized"
  obtains (failed) e where "res = Inl e" "b' = m_backend m"
  | (advanced) reps r2 where "res = Inr r2" "b' = (fold put_record reps (m_backend m))\<lparr>rotations := mput i r2 (rotations (m_backend m))\<rparr>"
    "int (length reps) = min lim (int (card (keyrefs (m_backend m) (ro_SourceKeyID r))))"
    "(effect K)\<^sup>*\<^sup>* m (m\<lparr>m_backend := fold put_record reps (m_backend m)\<rparr>)"
    "card (keyrefs (fold put_record reps (m_backend m)) (ro_SourceKeyID r)) + length reps =
       card (keyrefs (m_backend m) (ro_SourceKeyID r))"
    "r2 = r\<lparr>ro_ProcessedRecords := ro_ProcessedRecords r + int (length reps),
       ro_State := (if ro_ProcessedRecords r + int (length reps) = ro_TotalRecords r then RotationReady else RotationRunning),
       ro_UpdatedAt := now\<rparr>"
proof (cases "fst (collect (rewrap_item K m) (ro_SourceKeyID r) lim (stored_items (m_backend m)) [] src)")
  case (Inl e)
  with res r nf show ?thesis
    by (intro failed) (auto simp: RotateBatch_be_def split: prod.splits sum.splits)
next
  case (Inr reps)
  then obtain s1 where c: "collect (rewrap_item K m) (ro_SourceKeyID r) lim (stored_items (m_backend m)) [] src = (Inr reps, s1)"
    by (metis prod.collapse)
  let ?xs = "filter (\<lambda>x. record_key x = ro_SourceKeyID r) (stored_items (m_backend m))"
  have wf: "wf_store (m_backend m)" and k: "keys_ok (m_keys m)"
    using inv store_inv_wf [OF inv] by (simp_all add: store_inv_def)
  have ne: "ro_SourceKeyID r \<noteq> mk_id (ks_Current (m_keys m))"
    using inv r nf by (rule active_source)
  from collect_Inr [OF c] lim have l: "list_all2 (replaces (rewrap_item K m)) (take (nat lim) ?xs) reps"
    by auto
  have "good_replacement K m (ro_SourceKeyID r) (reps ! j)" if "j < length reps" for j
  proof -
    have "replaces (rewrap_item K m) (take (nat lim) ?xs ! j) (reps ! j)"
      using l that by (rule list_all2_nthD2)
    moreover have "take (nat lim) ?xs ! j \<in> set ?xs"
      using l that by (metis in_set_takeD list_all2_lengthD nth_mem)
    ultimately show ?thesis by (intro rewrap_good [OF wf A k]) simp_all
  qed
  then have "list_all (good_replacement K m (ro_SourceKeyID r)) reps"
    by (auto simp: list_all_length)
  moreover have "map (\<lambda>(i, v, r). (i, v)) reps = map position (take (nat lim) ?xs)"
    using l by (induction rule: list_all2_induct) (auto simp: replaces_def position_def)
  then have "distinct (map (\<lambda>(i, v, r). (i, v)) reps)"
    using distinct_map_filter [OF distinct_positions [OF wf]] by (metis distinct_take take_map)
  ultimately have e: "(effect K)\<^sup>*\<^sup>* m (m\<lparr>m_backend := fold put_record reps (m_backend m)\<rparr>)"
    "card (keyrefs (fold put_record reps (m_backend m)) (ro_SourceKeyID r)) + length reps =
       card (keyrefs (m_backend m) (ro_SourceKeyID r))"
    using replacements_effects ne by blast+
  have "length reps = min (nat lim) (card (keyrefs (m_backend m) (ro_SourceKeyID r)))"
    using list_all2_length_take [OF l] count_keyrefs [OF wf] by simp
  with lim have "int (length reps) = min lim (int (card (keyrefs (m_backend m) (ro_SourceKeyID r))))"
    by (auto simp: min_def)
  with e show ?thesis
    using res r nf c by (intro advanced [of _ reps]) (auto simp: RotateBatch_be_def Let_def)
qed

lemma resume_effects:
  assumes "ResumeMasterKeyRotation K m i lim now src = (res, n, src')" and inv: "store_inv K m"
    and A: "aead_correct (c_aead K)"
  shows "(effect K)\<^sup>*\<^sup>* m n"
proof (cases "n = m")
  case False
  with assms(1) have b: "RotateBatch_be (m_backend m) i lim now (rewrap_item K m) src = ((res, m_backend n), src')"
    and n: "n = m\<lparr>m_backend := m_backend n\<rparr>" and lim: "0 \<le> lim"
    by (auto simp: ResumeMasterKeyRotation_def split: if_splits prod.splits)
  from n False have ne: "m_backend n \<noteq> m_backend m" by auto
  with b obtain r where r: "mget (rotations (m_backend m)) i = Some r" and nf: "ro_State r \<noteq> RotationFinalized"
    by (auto simp: RotateBatch_be_def split: option.splits if_splits)
  from b inv A lim r nf show ?thesis
  proof (cases rule: batch_cases)
    case (failed e)
    with ne show ?thesis by simp
  next
    case (advanced reps r2)
    let ?m1 = "m\<lparr>m_backend := fold put_record reps (m_backend m)\<rparr>"
    have "effect K ?m1 (?m1\<lparr>m_backend := (m_backend ?m1)\<lparr>rotations := mput i r2 (rotations (m_backend ?m1))\<rparr>\<rparr>)"
      using r nf advanced(5,6) rotation_at [OF inv r]
      by (intro effect.rotation_advanced [where r = r]) (auto simp: rotation_inv_def)
    moreover have "n = ?m1\<lparr>m_backend := (m_backend ?m1)\<lparr>rotations := mput i r2 (rotations (m_backend ?m1))\<rparr>\<rparr>"
      using n advanced(2) by simp
    ultimately show ?thesis
      using advanced(4) by (simp add: rtranclp.rtrancl_into_rtrancl)
  qed
qed simp

lemma list_ex_keyrefs: "wf_store b \<Longrightarrow> list_ex (\<lambda>x. record_key x = k) (stored_items b) \<longleftrightarrow> keyrefs b k \<noteq> {}"
  using source_positions [of b k] by (auto simp: list_ex_iff filter_empty_conv)

lemma finalize_effect:
  assumes "FinalizeMasterKeyRotation m i now = (res, n)" and inv: "store_inv K m"
  shows "n = m \<or> effect K m n"
  using assms(1) list_ex_keyrefs [OF store_inv_wf [OF inv]]
  by (auto simp: FinalizeMasterKeyRotation_def FinalizeRotation_be_def Let_def
      split: if_splits option.splits prod.splits intro: effect.rotation_finalized)

lemma rotate_credential_effect:
  assumes "RotateCredentialKey K m request src = (res, n, src')" and inv: "store_inv K m"
    and A: "aead_correct (c_aead K)"
  shows "n = m \<or> effect K m n"
proof (cases "n = m")
  case False
  with assms(1) obtain c r s r' where c: "mget (credentials (m_backend m)) (crr_CredentialID request) = Some c"
    "mget (mc_records c) (crr_Version request) = Some r"
    and t: "rotate_item K m \<lparr>rr_metadata = mc_metadata c, rr_version = crr_Version request, rr_record = r\<rparr> src = (Inr r', s)"
    and n: "n = m\<lparr>m_backend := put_record (crr_CredentialID request, crr_Version request, r') (m_backend m)\<rparr>"
    by (auto simp: RotateCredentialKey_def RotateCredential_be_def split: if_splits option.splits prod.splits sum.splits)
  from t have w: "RotateDataKey (c_aead K) r (version_context (mc_metadata c) (crr_Version request))
      (Keyring (m_keys m)) (ks_Current (m_keys m)) src = (Inr r', s)"
    by (auto simp: rotate_item_def item_context_version split: prod.splits sum.splits)
  have "mget (Keyring (m_keys m)) (mk_id (ks_Current (m_keys m))) = Some (ks_Current (m_keys m))"
    using inv by (simp add: store_inv_def)
  then have d: "Decrypt (c_aead K) r' (version_context (mc_metadata c) (crr_Version request)) (Keyring (m_keys m)) =
      Decrypt (c_aead K) r (version_context (mc_metadata c) (crr_Version request)) (Keyring (m_keys m))"
    by (rule RotateDataKey_Decrypt [OF A w])
  have "rec_MasterKeyID r' = mk_id (ks_Current (m_keys m))"
    using w by (auto simp: RotateDataKey_def Encrypt_Inr_iff envelope_record_sel split: sum.splits)
  with c d n show ?thesis
    by (auto intro: effect.rekeyed)
qed simp

section \<open>Backups and policy\<close>

lemma validBackup_sort [simp]: "validBackup (k\<lparr>bk_KeyIDs := sort (bk_KeyIDs k)\<rparr>) = validBackup k"
  by (simp add: validBackup_def valid_key_ids_iff list_all_iff)

lemma register_backup_effect:
  "RegisterBackup m k = (res, n) \<Longrightarrow> n = m \<or> effect K m n"
  using effect.backed_up [OF refl, of m "k\<lparr>bk_KeyIDs := sort (bk_KeyIDs k)\<rparr>"]
  by (auto simp: RegisterBackup_def RegisterBackup_be_def split: if_splits option.splits prod.splits)

lemma expire_backup_effect:
  assumes "ExpireBackup m i now = (res, n)"
  shows "n = m \<or> effect K m n"
proof (cases "n = m")
  case False
  with assms obtain k where k: "mget (backups (m_backend m)) i = Some k"
    and n: "n = m\<lparr>m_backend := (m_backend m)\<lparr>backups := mput i
      (if z_instant (bk_ExpiredAt k) = zero_time then k\<lparr>bk_ExpiredAt := utc now\<rparr> else k) (backups (m_backend m))\<rparr>\<rparr>"
    by (auto simp: ExpireBackup_def ExpireBackup_be_def Let_def split: if_splits option.splits prod.splits)
  have "n = m\<lparr>m_backend := (m_backend m)\<lparr>backups := mput i
      (k\<lparr>bk_ExpiredAt := if z_instant (bk_ExpiredAt k) = zero_time then utc now else bk_ExpiredAt k\<rparr>) (backups (m_backend m))\<rparr>\<rparr>"
    by (simp add: n)
  with effect.expired [OF refl k] show ?thesis by auto
qed simp

section \<open>Runs\<close>

text \<open>The calls that may change the store, with everything they depend on.\<close>

datatype op =
    OpCreate CreateRequest time bytes
  | OpReplaceInputs ReplaceInputsRequest time bytes
  | OpUpdateMetadata UpdateMetadataRequest time bytes
  | OpRetire RetireRequest time bytes
  | OpSetPolicy ResolutionPolicy
  | OpRegisterBinding WorkloadIdentity RegisterBindingRequest time
  | OpCancelBinding WorkloadIdentity CancelBindingRequest time
  | OpResolve WorkloadIdentity ResolveRequest time
  | OpStartRotation time bytes
  | OpResumeRotation string int time bytes
  | OpFinalizeRotation string time
  | OpRotateCredential CredentialRotationRequest bytes
  | OpRegisterBackup BackupSet
  | OpExpireBackup string time

fun manager_step :: "crypto \<Rightarrow> (nat \<Rightarrow> bool) \<Rightarrow> Manager \<Rightarrow> op \<Rightarrow> Manager" where
  "manager_step K uni m (OpCreate r now src) = fst (snd (CreateContext K m r now src))"
| "manager_step K uni m (OpReplaceInputs r now src) = fst (snd (ReplaceInputsContext K m r now src))"
| "manager_step K uni m (OpUpdateMetadata r now src) = fst (snd (UpdateMetadataContext K m r now src))"
| "manager_step K uni m (OpRetire r now src) = fst (snd (RetireContext K m r now src))"
| "manager_step K uni m (OpSetPolicy p) = snd (SetResolutionPolicy m p)"
| "manager_step K uni m (OpRegisterBinding w r now) = snd (RegisterBinding K m w r now)"
| "manager_step K uni m (OpCancelBinding w r now) = snd (CancelBinding uni m w r now)"
| "manager_step K uni m (OpResolve w r now) = snd (Resolve K m w r now)"
| "manager_step K uni m (OpStartRotation now src) = fst (snd (StartMasterKeyRotation m now src))"
| "manager_step K uni m (OpResumeRotation i lim now src) = fst (snd (ResumeMasterKeyRotation K m i lim now src))"
| "manager_step K uni m (OpFinalizeRotation i now) = snd (FinalizeMasterKeyRotation m i now)"
| "manager_step K uni m (OpRotateCredential r src) = fst (snd (RotateCredentialKey K m r src))"
| "manager_step K uni m (OpRegisterBackup k) = snd (RegisterBackup m k)"
| "manager_step K uni m (OpExpireBackup i now) = snd (ExpireBackup m i now)"

text \<open>
  What is assumed of a call: inputs are a map of UTF-8 strings, as the JSON decoder of the
  transport delivers them, and a UUID drawn at random is not yet in use.
\<close>

fun op_ok :: "Manager \<Rightarrow> op \<Rightarrow> bool" where
  "op_ok m (OpCreate r now src) \<longleftrightarrow> inputs_utf8 (cr_Inputs r) \<and> fresh_id (credentials (m_backend m)) src"
| "op_ok m (OpReplaceInputs r now src) \<longleftrightarrow> inputs_utf8 (ri_Inputs r)"
| "op_ok m (OpStartRotation now src) \<longleftrightarrow> fresh_id (rotations (m_backend m)) src"
| "op_ok m x \<longleftrightarrow> True"

lemma effect_or_same: "n = m \<or> effect K m n \<Longrightarrow> (effect K)\<^sup>*\<^sup>* m n"
  by auto

lemma fst_snd_pair: "fst (snd x) = n \<Longrightarrow> x = (fst x, n, snd (snd x))"
  by auto

lemma snd_pair: "snd x = n \<Longrightarrow> x = (fst x, n)"
  by auto

text \<open>Refinement: every operation amounts to a sequence of effects of the specification.\<close>

lemma step_effects:
  assumes A: "aead_correct (c_aead K)" and inv: "store_inv K m" and ok: "op_ok m x"
  shows "(effect K)\<^sup>*\<^sup>* m (manager_step K uni m x)"
proof (cases x)
  case (OpResumeRotation i lim now src)
  then show ?thesis
    using resume_effects [OF fst_snd_pair [OF refl] inv A] by simp
next
  case (OpCreate r now src)
  then show ?thesis
    using ok create_effect [OF fst_snd_pair [OF refl] A inv] by (auto intro: effect_or_same)
next
  case (OpReplaceInputs r now src)
  then show ?thesis
    using ok replace_effect [OF fst_snd_pair [OF refl] A inv] by (auto intro: effect_or_same)
next
  case (OpUpdateMetadata r now src)
  then show ?thesis
    using update_effect [OF fst_snd_pair [OF refl] A inv] by (auto intro: effect_or_same)
next
  case (OpRetire r now src)
  then show ?thesis
    using retire_effect [OF fst_snd_pair [OF refl] A inv] by (auto intro: effect_or_same)
next
  case (OpSetPolicy p)
  then show ?thesis
    by (auto simp: SetResolutionPolicy_def intro: effect.policy_set)
next
  case (OpRegisterBinding w r now)
  then show ?thesis
    using register_effect [OF snd_pair [OF refl] inv] by (auto intro: effect_or_same)
next
  case (OpCancelBinding w r now)
  then show ?thesis
    by (simp add: effect_or_same [OF cancel_effect [OF snd_pair [OF refl]]])
next
  case (OpResolve w r now)
  then show ?thesis
    using resolve_effect [OF snd_pair [OF refl] inv] by (auto intro: effect_or_same)
next
  case (OpStartRotation now src)
  then show ?thesis
    using ok start_effect [OF fst_snd_pair [OF refl] inv] by (auto intro: effect_or_same)
next
  case (OpFinalizeRotation i now)
  then show ?thesis
    using finalize_effect [OF snd_pair [OF refl] inv] by (auto intro: effect_or_same)
next
  case (OpRotateCredential r src)
  then show ?thesis
    using rotate_credential_effect [OF fst_snd_pair [OF refl] inv A] by (auto intro: effect_or_same)
next
  case (OpRegisterBackup k)
  then show ?thesis
    by (simp add: effect_or_same [OF register_backup_effect [OF snd_pair [OF refl]]])
next
  case (OpExpireBackup i now)
  then show ?thesis
    by (simp add: effect_or_same [OF expire_backup_effect [OF snd_pair [OF refl]]])
qed

definition manager_inv :: "crypto \<Rightarrow> Manager \<Rightarrow> bool" where
  "manager_inv K m \<longleftrightarrow> aead_correct (c_aead K) \<and> store_inv K m"

interpretation store: monotone_system "manager_step K uni" op_ok "manager_inv K" "store_le K"
proof
  show "manager_inv K (manager_step K uni m x)" if "manager_inv K m" "op_ok m x" for m x
    using that step_effects effects_inv_le unfolding manager_inv_def by blast
  show "store_le K m (manager_step K uni m x)" if "manager_inv K m" "op_ok m x" for m x
    using that step_effects effects_inv_le unfolding manager_inv_def by blast
qed (fact store_le_refl, fact store_le_trans)

lemma new_manager_inv:
  assumes "aead_correct (c_aead K)" and "keys_ok keys" and "NewManager keys schemas injectors = Inr m"
  shows "manager_inv K m"
proof -
  have "m_keys m = keys" "m_backend m = newMemoryBackend"
    using assms(3) by (auto simp: NewManager_def split: option.splits if_splits)
  with assms(1,2) show ?thesis
    by (simp add: manager_inv_def store_inv_def inv_maps_def inv_credentials_def inv_bindings_def
        inv_rotations_def inv_backups_def newMemoryBackend_def)
qed

end
