(* ===== verification/Credential_Properties.thy ===== *)
theory Credential_Properties
  imports Manager_Runs
begin

text \<open>
  The properties of the credential manager over the in-memory backend: what holds along every run
  of calls, what a successful call does, what a failed call leaves alone, and how the calls
  compose, from creating a credential to resolving it in a run.
\<close>

section \<open>A manager to evaluate the model on\<close>

definition ex_crypto :: crypto where
  "ex_crypto = \<lparr>c_aead = null_aead, c_sha256 = (\<lambda>b. b)\<rparr>"

definition ex_keys :: key_set where
  "ex_keys = \<lparr>ks_Current = ex_key ''k1'', ks_Previous = Some (ex_key ''k0''),
     ks_keyring = [(''k1'', ex_key ''k1''), (''k0'', ex_key ''k0'')]\<rparr>"

definition ex_manager :: Manager where
  "ex_manager = \<lparr>m_keys = ex_keys, m_schemas = Validate, m_injector = Some Render,
     m_policy = DefaultResolutionPolicy, m_backend = newMemoryBackend\<rparr>"

definition ex_entropy :: bytes where
  "ex_entropy = replicate 100 5"

definition ex_create :: CreateRequest where
  "ex_create = \<lparr>cr_OrganizationID = ''org'', cr_Name = ''db'', cr_CredentialType = ''machine'',
     cr_SchemaVersion = 1, cr_Inputs = [(''username'', ''root''), (''password'', ''pw'')],
     cr_IdempotencyKey = ''key-1''\<rparr>"

definition ex_executor :: WorkloadIdentity where
  "ex_executor = \<lparr>wi_Role = ''praetor-executor'', wi_Subject = ''praetor-executor:host-1''\<rparr>"

definition ex_scheduler :: WorkloadIdentity where
  "ex_scheduler = \<lparr>wi_Role = ''praetor-scheduler'', wi_Subject = ''praetor-scheduler''\<rparr>"

definition ex_uuid :: "char \<Rightarrow> string" where
  "ex_uuid c = replicate 8 c @ ''-'' @ replicate 4 c @ ''-'' @ replicate 4 c @ ''-'' @ replicate 4 c @ ''-'' @
     replicate 12 c"

definition ex_credential_id :: string where
  "ex_credential_id = ''05050505-0505-4505-8505-050505050505''"

definition ex_now :: time where
  "ex_now = 63844761600 * second"

definition ex_register :: RegisterBindingRequest where
  "ex_register = \<lparr>rb_RunID = ex_uuid (CHR ''a''), rb_DispatchID = ex_uuid (CHR ''b''), rb_OrganizationID = ''org'',
     rb_CredentialID = ex_credential_id, rb_ExecutorIdentity = ''praetor-executor:host-1'',
     rb_NotBefore = utc ex_now, rb_ExpiresAt = utc (ex_now + hour), rb_MaxResolutions = 1,
     rb_IdempotencyKey = ''run-1''\<rparr>"

definition ex_resolve :: ResolveRequest where
  "ex_resolve = \<lparr>rq_RunID = ex_uuid (CHR ''a''), rq_AttemptID = ex_uuid (CHR ''c''), rq_RequestedAt = ex_now\<rparr>"

definition ex_run :: "op list" where
  "ex_run = [OpCreate ex_create ex_now ex_entropy, OpRegisterBinding ex_scheduler ex_register ex_now,
     OpResolve ex_executor ex_resolve (ex_now + minute)]"

lemma ex_keys_ok [simp]: "keys_ok ex_keys"
  by (simp add: keys_ok_def ex_keys_def key_list_def)

lemma ex_crypto_correct [simp]: "aead_correct (c_aead ex_crypto)"
  by (simp add: ex_crypto_def)

lemma ex_NewManager: "NewManager ex_keys (Some Validate) [Render] = Inr ex_manager"
  by (simp add: NewManager_def ex_manager_def ex_keys_def)

lemma ex_manager_inv [simp]: "manager_inv ex_crypto ex_manager"
  by (rule new_manager_inv [OF _ _ ex_NewManager]) simp_all

lemma ex_inputs_utf8 [simp]: "inputs_utf8 (cr_Inputs ex_create)"
  by (simp add: inputs_utf8_def ex_create_def wf_map_def valid_utf8_ascii)

lemma ex_run_ok [simp]: "run_ok (manager_step ex_crypto uni) op_ok ex_manager ex_run"
  by (simp add: ex_run_def fresh_id_def ex_manager_def newMemoryBackend_def split: prod.splits option.splits)

section \<open>Invariants over all runs\<close>

text \<open>
  C1. Whatever calls are made on a new manager, in whatever order and interleaving, the store stays
  well formed: every credential holds exactly the versions 1 to its current one, each of which
  decrypts with the loaded keys to inputs that pass the schema; every binding refers to an
  existing version of a credential of its own organization and its count is the number of
  attempts recorded for it; at most one rotation is in progress.
\<close>

theorem store_invariant:
  assumes "aead_correct (c_aead K)" and "keys_ok keys" and "NewManager keys schemas injectors = Inr m"
    and "run_ok (manager_step K uni) op_ok m ops"
  shows "store_inv K (foldl (manager_step K uni) m ops)"
  using store.run_inv [OF new_manager_inv [OF assms(1-3)] assms(4)] by (simp add: manager_inv_def)

theorem store_invariant_witness:
  "store_inv ex_crypto (foldl (manager_step ex_crypto (\<lambda>_. False)) ex_manager ex_run)"
  by (rule store_invariant [OF ex_crypto_correct ex_keys_ok ex_NewManager ex_run_ok])

text \<open>
  C3. Stored payloads are immutable: once version \<open>v\<close> of a credential exists, it exists after every
  run, under the same organization, type, schema and creation time, and decrypts to the same
  payload, whatever updates, key rotations and data-key rotations ran in between.
\<close>

theorem payload_immutable:
  assumes "manager_inv K m" and "run_ok (manager_step K uni) op_ok m ops"
    and "mget (credentials (m_backend m)) i = Some c" and "mget (mc_records c) v = Some r"
  shows "\<exists>c' r'. mget (credentials (m_backend (foldl (manager_step K uni) m ops))) i = Some c' \<and>
    mget (mc_records c') v = Some r' \<and> same_identity (mc_metadata c) (mc_metadata c') \<and>
    Decrypt (c_aead K) r' (version_context (mc_metadata c) v) (Keyring (m_keys m)) =
    Decrypt (c_aead K) r (version_context (mc_metadata c) v) (Keyring (m_keys m))"
  using store.run_le [OF assms(1,2)] assms(3,4)
  unfolding store_le_def Let_def map_le_by_def credential_le_def by meson

text \<open>
  C2. The resolution limit holds over every run: the number of distinct attempts ever recorded for
  a binding equals its resolution count and never exceeds the limit it was registered with;
  the binding is exhausted exactly when the limit is reached.
\<close>

theorem resolution_limit:
  assumes "manager_inv K m" and "run_ok (manager_step K uni) op_ok m ops"
    and "n = foldl (manager_step K uni) m ops" and "mget (bindings (m_backend n)) run = Some mb"
  shows "card (attempts_of (m_backend n) run) = unat (b_ResolutionCount (mb_binding mb)) \<and>
    unat (b_ResolutionCount (mb_binding mb)) \<le> unat (b_MaxResolutions (mb_binding mb)) \<and>
    (b_State (mb_binding mb) = BindingExhausted \<longleftrightarrow>
       card (attempts_of (m_backend n) run) = unat (b_MaxResolutions (mb_binding mb)))"
proof -
  have "binding_inv (m_backend n) run mb"
    using store.run_inv [OF assms(1,2)] assms(3,4) binding_at [of K n run mb] by (simp add: manager_inv_def)
  then show ?thesis
    by (auto simp: binding_inv_def Let_def word_le_nat_alt word_unat_eq_iff)
qed

text \<open>
  C12. What was registered stays registered, and bindings only move forward: after every run a binding
  still names the same run, dispatch, credential version, executor, window and limit; its count
  has not decreased; and a canceled, expired or exhausted binding keeps its state and its count.
\<close>

theorem bindings_monotone:
  assumes "manager_inv K m" and "run_ok (manager_step K uni) op_ok m ops"
    and "mget (bindings (m_backend m)) run = Some mb"
  shows "\<exists>mb'. mget (bindings (m_backend (foldl (manager_step K uni) m ops))) run = Some mb' \<and>
    same_binding (mb_binding mb) (mb_binding mb') \<and>
    b_ResolutionCount (mb_binding mb) \<le> b_ResolutionCount (mb_binding mb') \<and>
    (terminal (b_State (mb_binding mb)) \<longrightarrow> b_State (mb_binding mb') = b_State (mb_binding mb) \<and>
       b_ResolutionCount (mb_binding mb') = b_ResolutionCount (mb_binding mb))"
  using store.run_le [OF assms(1,2)] assms(3)
  unfolding store_le_def Let_def map_le_by_def binding_le_def by meson

lemma resolve_closed:
  assumes "mget (bindings (m_backend m)) (rq_RunID request) = Some mb"
    and "b_State (mb_binding mb) \<in> {BindingCanceled, BindingExpired}"
  shows "\<exists>e. Resolve K m caller request now = (Inl e, m)"
  using assms
  by (auto simp: Resolve_def resolve_claim_def ClaimResolution_be_def Let_def split: option.splits)

text \<open>
  C6. Cancellation is final: once a binding is canceled (or has expired), no later call, whatever
  happened in between and whoever makes it, resolves it, and the attempt changes nothing.
\<close>

theorem canceled_never_resolves:
  assumes "manager_inv K m" and "run_ok (manager_step K uni) op_ok m ops"
    and "mget (bindings (m_backend m)) (rq_RunID request) = Some mb"
    and "b_State (mb_binding mb) \<in> {BindingCanceled, BindingExpired}"
    and "n = foldl (manager_step K uni) m ops"
  shows "\<exists>e. Resolve K n caller request now = (Inl e, n)"
proof -
  have "binding_le mb mb'" if "mget (bindings (m_backend n)) (rq_RunID request) = Some mb'" for mb'
    using store.run_le [OF assms(1,2)] assms(3,5) that
    unfolding store_le_def Let_def map_le_by_def by (metis option.inject)
  moreover obtain mb' where "mget (bindings (m_backend n)) (rq_RunID request) = Some mb'"
    using store.run_le [OF assms(1,2)] assms(3,5)
    unfolding store_le_def Let_def map_le_by_def by blast
  ultimately show ?thesis
    using assms(4) by (intro resolve_closed [where mb = mb']) (auto simp: binding_le_def terminal_def)
qed

section \<open>What successful operations do\<close>

lemma encrypt_enough:
  assumes "ctx_validate (envelopeContext md)" and "usable (ks_Current (m_keys m))" and "72 \<le> length src"
    and "length (marshal_inputs inputs) \<le> maxPlaintextPayload"
  shows "\<exists>r. encrypt K m md inputs src = (Inr r, drop 72 src)"
  using assms by (simp add: encrypt_def Let_def usable_def Encrypt_eq)

definition store_created :: "Manager \<Rightarrow> CreateRequest \<Rightarrow> bytes \<Rightarrow> Metadata \<Rightarrow> Record \<Rightarrow> Manager" where
  "store_created m request d md r =
     (let b = m_backend m in
      m\<lparr>m_backend := b\<lparr>
        credentials := mput (md_ID md) \<lparr>mc_metadata = md, mc_records = [(1, r)]\<rparr> (credentials b),
        idempotency := mput (idempotencyID (cr_OrganizationID request) (cr_IdempotencyKey request))
          \<lparr>ie_digest = d, ie_response = md\<rparr> (idempotency b)\<rparr>\<rparr>)"

lemma create_result:
  assumes v: "validateCreate request"
    and f: "validateSchema m (cr_CredentialType request) (cr_SchemaVersion request) (cr_Inputs request) = Inr fs"
    and len: "length (marshal_inputs (cr_Inputs request)) \<le> maxPlaintextPayload"
    and k: "usable (ks_Current (m_keys m))" and src: "88 \<le> length src"
    and new: "mget (idempotency (m_backend m))
      (idempotencyID (cr_OrganizationID request) (cr_IdempotencyKey request)) = None"
  shows "\<exists>i r. newUUID src = (Some i, drop 16 src) \<and> validUUID i \<and>
    encrypt K m (new_metadata request i fs now) (cr_Inputs request) (drop 16 src) = (Inr r, drop 88 src) \<and>
    CreateContext K m request now src =
      (Inr (new_metadata request i fs now),
       store_created m request (requestDigest (c_sha256 K) request) (new_metadata request i fs now) r, drop 88 src)"
proof -
  obtain i where i: "newUUID src = (Some i, drop 16 src)"
    using newUUID_length [of src] src by auto
  have u: "validUUID i" using i by (rule newUUID_valid)
  then have "i \<noteq> []" by (auto simp: validUUID_def)
  with v have "ctx_validate (envelopeContext (new_metadata request i fs now))"
    by (simp add: ctx_validate_def envelopeContext_def new_metadata_def validateCreate_def)
  moreover have "72 \<le> length (drop 16 src)" using src by simp
  ultimately obtain r where r: "encrypt K m (new_metadata request i fs now) (cr_Inputs request) (drop 16 src) =
      (Inr r, drop 88 src)"
    using encrypt_enough [OF _ k _ len, of "new_metadata request i fs now" "drop 16 src" K] by auto
  with v f i u new show ?thesis
    by (intro exI [of _ i] exI [of _ r])
      (simp add: CreateContext_def Create_be_def store_created_def Let_def new_metadata_def)
qed

lemma register_result:
  assumes "isScheduler caller" and "validBindingRequest request now (m_policy m)"
    and "bindingDigest (c_sha256 K) request = Some d"
    and "scan_bindings (map snd (bindings (m_backend m))) \<lparr>br_request = request, br_digest = d, br_now = now\<rparr> = None"
    and "mget (credentials (m_backend m)) (rb_CredentialID request) = Some c"
    and "md_OrganizationID (mc_metadata c) = rb_OrganizationID request" and "md_State (mc_metadata c) = StateActive"
  shows "RegisterBinding K m caller request now =
    (Inr (new_binding \<lparr>br_request = request, br_digest = d, br_now = now\<rparr> (mc_metadata c)),
     m\<lparr>m_backend := (m_backend m)\<lparr>bindings := mput (rb_RunID request)
       \<lparr>mb_binding = new_binding \<lparr>br_request = request, br_digest = d, br_now = now\<rparr> (mc_metadata c),
        mb_idempotencyKey = rb_IdempotencyKey request, mb_digest = d\<rparr> (bindings (m_backend m))\<rparr>\<rparr>)"
  using assms by (simp add: RegisterBinding_def RegisterBinding_be_def Let_def)

text \<open>The record a binding refers to opens to valid inputs.\<close>

lemma bound_opens:
  assumes inv: "store_inv K m" and mb: "mget (bindings (m_backend m)) run = Some mb"
  obtains c r inputs where "mget (credentials (m_backend m)) (b_CredentialID (mb_binding mb)) = Some c"
    "mget (mc_records c) (b_CredentialVersion (mb_binding mb)) = Some r" "inputs_utf8 inputs"
    "is_ok (validateSchema m (md_CredentialType (mc_metadata c)) (md_SchemaVersion (mc_metadata c)) inputs)"
    "boundVersion (m_backend m) (mb_binding mb) = Inr \<lparr>bd_record = r, bd_credentialType = md_CredentialType (mc_metadata c),
       bd_schemaVersion = md_SchemaVersion (mc_metadata c)\<rparr>"
    "Decrypt (c_aead K) r \<lparr>ctx_CredentialID = b_CredentialID (mb_binding mb), ctx_OrganizationID = b_OrganizationID (mb_binding mb),
       ctx_SchemaVersion = md_SchemaVersion (mc_metadata c), ctx_CredentialVersion = b_CredentialVersion (mb_binding mb)\<rparr>
       (Keyring (m_keys m)) = Inr (bytes_of (marshal_inputs inputs))"
proof -
  from binding_at [OF inv mb] obtain c where c: "mget (credentials (m_backend m)) (b_CredentialID (mb_binding mb)) = Some c"
    "b_OrganizationID (mb_binding mb) = md_OrganizationID (mc_metadata c)"
    "1 \<le> b_CredentialVersion (mb_binding mb)" "b_CredentialVersion (mb_binding mb) \<le> md_Version (mc_metadata c)"
    by (auto simp: binding_inv_def Let_def)
  have ci: "credential_inv K m (b_CredentialID (mb_binding mb)) c"
    using inv c(1) by (simp add: store_inv_def inv_credentials_def)
  with c(3,4) obtain r where r: "mget (mc_records c) (b_CredentialVersion (mb_binding mb)) = Some r"
    unfolding credential_inv_def by blast
  with ci obtain inputs where "inputs_utf8 inputs"
    "is_ok (validateSchema m (md_CredentialType (mc_metadata c)) (md_SchemaVersion (mc_metadata c)) inputs)"
    "Decrypt (c_aead K) r (version_context (mc_metadata c) (b_CredentialVersion (mb_binding mb)))
       (Keyring (m_keys m)) = Inr (bytes_of (marshal_inputs inputs))"
    unfolding credential_inv_def opens_def by blast
  with c r ci show ?thesis
    by (intro that) (auto simp: boundVersion_def version_context_def envelopeContext_def credential_inv_def)
qed

lemma validateSchema_registry:
  "is_ok (validateSchema m t v inputs) \<Longrightarrow> \<exists>fs. m_schemas m t v inputs = Some fs"
  by (auto simp: validateSchema_def split: if_splits option.splits)

lemma validInjectorResult_mono: "validInjectorResult r l \<Longrightarrow> l \<le> l' \<Longrightarrow> validInjectorResult r l'"
  by (auto simp: validInjectorResult_iff)

context registry
begin

text \<open>
  For a manager whose schemas and injector fulfil the contract of a registry, the closure of
  \<open>Resolve\<close> never fails on a version that a binding refers to, provided its rendering fits the
  response limit.
\<close>

lemma resolve_validate_total:
  assumes inv: "store_inv K m" and mb: "mget (bindings (m_backend m)) run = Some mb"
    and reg: "m_schemas m = validate"
  obtains c version inputs out where "mget (credentials (m_backend m)) (b_CredentialID (mb_binding mb)) = Some c"
    "boundVersion (m_backend m) (mb_binding mb) = Inr version" "inputs_utf8 inputs"
    "Decrypt (c_aead K) (bd_record version) (version_context (mc_metadata c) (b_CredentialVersion (mb_binding mb)))
       (Keyring (m_keys m)) = Inr (bytes_of (marshal_inputs inputs))"
    "render (md_CredentialType (mc_metadata c)) (md_SchemaVersion (mc_metadata c)) inputs = Some out"
    "input_size inputs + overhead \<le> rp_MaxResponseBytes (m_policy m) \<Longrightarrow>
       resolve_validate K m render (mb_binding mb) version = Inr out"
proof -
  from inv mb obtain c r inputs where c: "mget (credentials (m_backend m)) (b_CredentialID (mb_binding mb)) = Some c"
    and u: "inputs_utf8 inputs"
    and ok: "is_ok (validateSchema m (md_CredentialType (mc_metadata c)) (md_SchemaVersion (mc_metadata c)) inputs)"
    and bv: "boundVersion (m_backend m) (mb_binding mb) = Inr \<lparr>bd_record = r, bd_credentialType = md_CredentialType (mc_metadata c),
       bd_schemaVersion = md_SchemaVersion (mc_metadata c)\<rparr>"
    and d: "Decrypt (c_aead K) r \<lparr>ctx_CredentialID = b_CredentialID (mb_binding mb), ctx_OrganizationID = b_OrganizationID (mb_binding mb),
       ctx_SchemaVersion = md_SchemaVersion (mc_metadata c), ctx_CredentialVersion = b_CredentialVersion (mb_binding mb)\<rparr>
       (Keyring (m_keys m)) = Inr (bytes_of (marshal_inputs inputs))"
    by (rule bound_opens)
  from validateSchema_registry [OF ok] reg obtain fs where
    "validate (md_CredentialType (mc_metadata c)) (md_SchemaVersion (mc_metadata c)) inputs = Some fs" by auto
  with u obtain n out where n: "unmarshal_inputs (marshal_inputs inputs) = Some n"
    and r1: "render (md_CredentialType (mc_metadata c)) (md_SchemaVersion (mc_metadata c)) n = Some out"
    and r2: "render (md_CredentialType (mc_metadata c)) (md_SchemaVersion (mc_metadata c)) inputs = Some out"
    and vr: "validInjectorResult out (input_size inputs + overhead)"
    using render_after_reencode unfolding inputs_utf8_def by metis
  have ctx: "version_context (mc_metadata c) (b_CredentialVersion (mb_binding mb)) =
     \<lparr>ctx_CredentialID = b_CredentialID (mb_binding mb), ctx_OrganizationID = b_OrganizationID (mb_binding mb),
      ctx_SchemaVersion = md_SchemaVersion (mc_metadata c), ctx_CredentialVersion = b_CredentialVersion (mb_binding mb)\<rparr>"
    using inv c binding_at [OF inv mb]
    by (auto simp: store_inv_def inv_credentials_def credential_inv_def binding_inv_def Let_def version_context_def envelopeContext_def)
  show ?thesis
    by (rule that [OF c bv u _ r2])
      (use d n r1 vr validInjectorResult_mono ctx in \<open>simp_all add: resolve_validate_def open_inputs_def\<close>)
qed

end

section \<open>The example run\<close>

definition ex_metadata :: Metadata where
  "ex_metadata = new_metadata ex_create ex_credential_id [''password''] ex_now"

lemma ex_newUUID: "newUUID ex_entropy = (Some ex_credential_id, drop 16 ex_entropy)"
  by code_simp

lemma ex_validateCreate: "validateCreate ex_create"
  by (simp add: validateCreate_def ex_create_def validName_def TrimSpace_graphic graphic_def
      maxOrganizationID_def maxNameLength_def maxCredentialType_def)

lemma ex_validateInputs: "validateInputs [(''username'', ''root''), (''password'', ''pw'')]"
  by (simp add: validateInputs_def TrimSpace_graphic graphic_def maxInputFields_def maxFieldNameLength_def)

lemma ex_Validate: "Validate ''machine'' 1 [(''username'', ''root''), (''password'', ''pw'')] = Some [''password'']"
  by (simp add: Validate_def allowed_def mstr_def)

lemma ex_validateSchema:
  "validateSchema ex_manager ''machine'' 1 [(''username'', ''root''), (''password'', ''pw'')] = Inr [''password'']"
  by (simp add: validateSchema_def ex_validateInputs ex_manager_def ex_Validate)

lemma ex_marshal_length: "length (marshal_inputs (cr_Inputs ex_create)) \<le> maxPlaintextPayload"
proof -
  have "length (marshal_inputs (cr_Inputs ex_create)) \<le> 100" by code_simp
  then show ?thesis by (simp add: maxPlaintextPayload_def)
qed

definition ex_record1 :: Record where
  "ex_record1 = (case fst (encrypt ex_crypto ex_manager ex_metadata (cr_Inputs ex_create) (drop 16 ex_entropy)) of
     Inl _ \<Rightarrow> zero_record | Inr r \<Rightarrow> r)"

definition ex_created :: Manager where
  "ex_created = store_created ex_manager ex_create (requestDigest (c_sha256 ex_crypto) ex_create) ex_metadata ex_record1"

lemma ex_CreateContext:
  "CreateContext ex_crypto ex_manager ex_create ex_now ex_entropy = (Inr ex_metadata, ex_created, drop 88 ex_entropy)"
proof -
  have f: "validateSchema ex_manager (cr_CredentialType ex_create) (cr_SchemaVersion ex_create) (cr_Inputs ex_create) =
      Inr [''password'']"
    using ex_validateSchema by (simp add: ex_create_def)
  have "usable (ks_Current (m_keys ex_manager))" "88 \<le> length ex_entropy"
    "mget (idempotency (m_backend ex_manager)) (idempotencyID (cr_OrganizationID ex_create) (cr_IdempotencyKey ex_create)) = None"
    by (simp_all add: ex_manager_def ex_keys_def newMemoryBackend_def ex_entropy_def)
  from create_result [OF ex_validateCreate f ex_marshal_length this, of ex_crypto ex_now]
  show ?thesis
    by (auto simp: ex_newUUID ex_created_def ex_metadata_def ex_record1_def)
qed

lemma ex_created_step: "ex_created = foldl (manager_step ex_crypto uni) ex_manager [OpCreate ex_create ex_now ex_entropy]"
  by (simp add: ex_CreateContext)

lemma ex_created_ok: "run_ok (manager_step ex_crypto uni) op_ok ex_manager [OpCreate ex_create ex_now ex_entropy]"
  by (simp add: fresh_id_def ex_manager_def newMemoryBackend_def split: prod.splits option.splits)

lemma ex_created_inv [simp]: "manager_inv ex_crypto ex_created"
  unfolding ex_created_step [of "\<lambda>_. False"] by (rule store.run_inv [OF ex_manager_inv ex_created_ok])

lemma ex_created_sel [simp]:
  "m_keys ex_created = ex_keys" "m_policy ex_created = DefaultResolutionPolicy" "m_injector ex_created = Some Render"
  "m_schemas ex_created = Validate" "bindings (m_backend ex_created) = []" "attempts (m_backend ex_created) = []"
  "rotations (m_backend ex_created) = []"
  "credentials (m_backend ex_created) = [(ex_credential_id, \<lparr>mc_metadata = ex_metadata, mc_records = [(1, ex_record1)]\<rparr>)]"
  by (simp_all add: ex_created_def store_created_def Let_def ex_manager_def newMemoryBackend_def ex_metadata_def new_metadata_def)

lemma ex_metadata_sel [simp]:
  "md_ID ex_metadata = ex_credential_id" "md_OrganizationID ex_metadata = ''org''" "md_Version ex_metadata = 1"
  "md_State ex_metadata = StateActive" "md_CredentialType ex_metadata = ''machine''" "md_SchemaVersion ex_metadata = 1"
  "md_Name ex_metadata = ''db''"
  by (simp_all add: ex_metadata_def new_metadata_def ex_create_def)

lemma ex_uuid_valid [simp]: "lower_hex c \<Longrightarrow> validUUID (ex_uuid c)"
  unfolding ex_uuid_def by (rule validUUID_parts) (auto simp: list_all_iff)

lemma lower_hex_consts [simp]: "lower_hex (CHR ''a'')" "lower_hex (CHR ''b'')" "lower_hex (CHR ''c'')"
  by (simp_all add: lower_hex_def)

lemma ex_credential_id_valid [simp]: "validUUID ex_credential_id"
  using newUUID_valid [OF ex_newUUID] .

lemma ex_executor_valid: "validExecutorIdentity ''praetor-executor:host-1''"
  by code_simp

lemma ex_validBindingRequest: "validBindingRequest ex_register ex_now DefaultResolutionPolicy"
  by (simp add: validBindingRequest_def ex_register_def ex_executor_valid time_sub_def duration_defs
      DefaultResolutionPolicy_def)

definition ex_digest :: bytes where
  "ex_digest = (case bindingDigest (c_sha256 ex_crypto) ex_register of None \<Rightarrow> [] | Some d \<Rightarrow> d)"

lemma ex_bindingDigest: "bindingDigest (c_sha256 ex_crypto) ex_register = Some ex_digest"
proof -
  have "local_year (utc ex_now) = 2024" "local_year (utc (ex_now + hour)) = 2024"
    by code_simp+
  then have "marshal_time (utc ex_now) \<noteq> None" "marshal_time (utc (ex_now + hour)) \<noteq> None"
    by (simp_all add: marshal_time_def)
  then show ?thesis
    by (auto simp: ex_digest_def bindingDigest_def ex_register_def)
qed

definition ex_binding :: Binding where
  "ex_binding = new_binding \<lparr>br_request = ex_register, br_digest = ex_digest, br_now = ex_now\<rparr> ex_metadata"

definition ex_bound :: Manager where
  "ex_bound = ex_created\<lparr>m_backend := (m_backend ex_created)\<lparr>bindings :=
     [(ex_uuid (CHR ''a''), \<lparr>mb_binding = ex_binding, mb_idempotencyKey = ''run-1'', mb_digest = ex_digest\<rparr>)]\<rparr>\<rparr>"

lemma ex_RegisterBinding: "RegisterBinding ex_crypto ex_created ex_scheduler ex_register ex_now = (Inr ex_binding, ex_bound)"
proof -
  have c: "mget (credentials (m_backend ex_created)) (rb_CredentialID ex_register) =
      Some \<lparr>mc_metadata = ex_metadata, mc_records = [(1, ex_record1)]\<rparr>"
    by (simp add: ex_register_def)
  have "isScheduler ex_scheduler" "validBindingRequest ex_register ex_now (m_policy ex_created)"
    using ex_validBindingRequest by (simp_all add: isScheduler_def ex_scheduler_def role_defs)
  from register_result [OF this ex_bindingDigest _ c] show ?thesis
    by (simp add: ex_register_def [THEN arg_cong, of rb_OrganizationID] ex_bound_def ex_binding_def)
      (simp add: ex_register_def)
qed

section \<open>Witnesses of the run properties\<close>

theorem payload_immutable_witness:
  "\<exists>c' r'. mget (credentials (m_backend (foldl (manager_step ex_crypto (\<lambda>_. False)) ex_created
       [OpRotateCredential \<lparr>crr_OrganizationID = ''org'', crr_CredentialID = ex_credential_id, crr_Version = 1\<rparr> ex_entropy])))
       ex_credential_id = Some c' \<and> mget (mc_records c') 1 = Some r' \<and> same_identity ex_metadata (mc_metadata c') \<and>
     Decrypt (c_aead ex_crypto) r' (version_context ex_metadata 1) (Keyring ex_keys) =
     Decrypt (c_aead ex_crypto) ex_record1 (version_context ex_metadata 1) (Keyring ex_keys)"
  using payload_immutable [OF ex_created_inv, where v = 1 and r = ex_record1 and i = ex_credential_id and
      c = "\<lparr>mc_metadata = ex_metadata, mc_records = [(1, ex_record1)]\<rparr>" and uni = "\<lambda>_. False" and
      ops = "[OpRotateCredential \<lparr>crr_OrganizationID = ''org'', crr_CredentialID = ex_credential_id, crr_Version = 1\<rparr> ex_entropy]"]
  by (simp del: manager_step.simps)

lemma ex_bound_step: "ex_bound = foldl (manager_step ex_crypto uni) ex_created [OpRegisterBinding ex_scheduler ex_register ex_now]"
  by (simp add: ex_RegisterBinding)

lemma ex_bound_inv [simp]: "manager_inv ex_crypto ex_bound"
  unfolding ex_bound_step [of "\<lambda>_. False"] by (rule store.run_inv [OF ex_created_inv]) simp

lemma ex_bound_sel [simp]:
  "m_keys ex_bound = ex_keys" "m_policy ex_bound = DefaultResolutionPolicy" "m_injector ex_bound = Some Render"
  "m_schemas ex_bound = Validate" "attempts (m_backend ex_bound) = []" "rotations (m_backend ex_bound) = []"
  "credentials (m_backend ex_bound) = credentials (m_backend ex_created)"
  "bindings (m_backend ex_bound) = [(ex_uuid (CHR ''a''), \<lparr>mb_binding = ex_binding, mb_idempotencyKey = ''run-1'', mb_digest = ex_digest\<rparr>)]"
  by (simp_all add: ex_bound_def)

theorem resolution_limit_witness:
  "card (attempts_of (m_backend ex_bound) (ex_uuid (CHR ''a''))) = unat (b_ResolutionCount ex_binding) \<and>
    unat (b_ResolutionCount ex_binding) \<le> unat (b_MaxResolutions ex_binding) \<and>
    (b_State ex_binding = BindingExhausted \<longleftrightarrow>
       card (attempts_of (m_backend ex_bound) (ex_uuid (CHR ''a''))) = unat (b_MaxResolutions ex_binding))"
  using resolution_limit [OF ex_created_inv _ ex_bound_step, of "\<lambda>_. False" "ex_uuid (CHR ''a'')"] by simp

definition ex_cancel :: CancelBindingRequest where
  "ex_cancel = \<lparr>cb_RunID = ex_uuid (CHR ''a''), cb_DispatchID = ex_uuid (CHR ''b''), cb_Reason = ''done''\<rparr>"

theorem bindings_monotone_witness:
  "\<exists>mb'. mget (bindings (m_backend (foldl (manager_step ex_crypto (\<lambda>_. False)) ex_bound
       [OpCancelBinding ex_scheduler ex_cancel ex_now, OpResolve ex_executor ex_resolve ex_now]))) (ex_uuid (CHR ''a'')) = Some mb' \<and>
    same_binding ex_binding (mb_binding mb') \<and>
    b_ResolutionCount ex_binding \<le> b_ResolutionCount (mb_binding mb') \<and>
    (terminal (b_State ex_binding) \<longrightarrow> b_State (mb_binding mb') = b_State ex_binding \<and>
       b_ResolutionCount (mb_binding mb') = b_ResolutionCount ex_binding)"
  using bindings_monotone [OF ex_bound_inv, of "\<lambda>_. False"
      "[OpCancelBinding ex_scheduler ex_cancel ex_now, OpResolve ex_executor ex_resolve ex_now]" "ex_uuid (CHR ''a'')"]
  by (simp del: manager_step.simps)

definition ex_canceled :: Manager where
  "ex_canceled = ex_bound\<lparr>m_backend := (m_backend ex_bound)\<lparr>bindings := [(ex_uuid (CHR ''a''),
     \<lparr>mb_binding = ex_binding\<lparr>b_State := BindingCanceled, b_CancelReason := ''done'', b_UpdatedAt := ex_now\<rparr>,
      mb_idempotencyKey = ''run-1'', mb_digest = ex_digest\<rparr>)]\<rparr>\<rparr>"

lemma ex_binding_sel [simp]:
  "b_RunID ex_binding = ex_uuid (CHR ''a'')" "b_DispatchID ex_binding = ex_uuid (CHR ''b'')"
  "b_State ex_binding = BindingActive" "b_ResolutionCount ex_binding = 0" "b_MaxResolutions ex_binding = 1"
  "b_OrganizationID ex_binding = ''org''" "b_CredentialID ex_binding = ex_credential_id" "b_CredentialVersion ex_binding = 1"
  "b_ExecutorIdentity ex_binding = ''praetor-executor:host-1''" "b_NotBefore ex_binding = ex_now"
  "b_ExpiresAt ex_binding = ex_now + hour"
  by (simp_all add: ex_binding_def new_binding_def ex_register_def Let_def)

lemma validReason_bytes:
  "list_all (\<lambda>c. 97 \<le> code c \<and> code c \<le> (122 :: nat) \<or> 48 \<le> code c \<and> code c \<le> (57 :: nat) \<or> c = CHR ''_'' \<or> c = CHR ''-'') s \<Longrightarrow>
   s \<noteq> [] \<Longrightarrow> length s \<le> 64 \<Longrightarrow> validReason uni s"
proof -
  assume a: "list_all (\<lambda>c. 97 \<le> code c \<and> code c \<le> (122 :: nat) \<or> 48 \<le> code c \<and> code c \<le> (57 :: nat) \<or> c = CHR ''_'' \<or> c = CHR ''-'') s"
    and n: "s \<noteq> []" "length s \<le> 64"
  have "list_all (\<lambda>r. r < 0x80 \<and> (lower_or_digit uni r \<or> r = 95 \<or> r = 45)) (runes s)"
    using a by (subst runes_ascii) (auto simp: list_all_iff lower_or_digit_def)
  with n show ?thesis
    by (auto simp: validReason_def list_all_iff)
qed

lemma ex_CancelBinding: "CancelBinding uni ex_bound ex_scheduler ex_cancel ex_now =
  (Inr (ex_binding\<lparr>b_State := BindingCanceled, b_CancelReason := ''done'', b_UpdatedAt := ex_now\<rparr>), ex_canceled)"
  by (simp add: CancelBinding_def CancelBinding_be_def isScheduler_def ex_scheduler_def role_defs ex_cancel_def
      validReason_bytes Let_def put_binding_def ex_canceled_def)

lemma ex_canceled_step: "ex_canceled = foldl (manager_step ex_crypto uni) ex_bound [OpCancelBinding ex_scheduler ex_cancel ex_now]"
  by (simp add: ex_CancelBinding)

lemma ex_canceled_inv [simp]: "manager_inv ex_crypto ex_canceled"
  unfolding ex_canceled_step [of "\<lambda>_. False"] by (rule store.run_inv [OF ex_bound_inv]) simp

theorem canceled_never_resolves_witness:
  "\<exists>e. Resolve ex_crypto (foldl (manager_step ex_crypto (\<lambda>_. False)) ex_canceled [OpExpireBackup ''b'' 7]) ex_executor ex_resolve
     (ex_now + minute) = (Inl e, foldl (manager_step ex_crypto (\<lambda>_. False)) ex_canceled [OpExpireBackup ''b'' 7])"
  by (rule canceled_never_resolves [OF ex_canceled_inv _ _ _ refl, where mb =
      "\<lparr>mb_binding = ex_binding\<lparr>b_State := BindingCanceled, b_CancelReason := ''done'', b_UpdatedAt := ex_now\<rparr>,
        mb_idempotencyKey = ''run-1'', mb_digest = ex_digest\<rparr>"])
    (simp_all add: ex_canceled_def ex_resolve_def)

section \<open>From creation to resolution\<close>

context registry
begin

text \<open>What the closure of \<open>Resolve\<close> returns on a version whose inputs are known.\<close>

lemma resolve_validate_known:
  assumes "m_schemas m = validate" and "boundVersion (m_backend m) x = Inr version"
    and "Decrypt (c_aead K) (bd_record version) \<lparr>ctx_CredentialID = b_CredentialID x, ctx_OrganizationID = b_OrganizationID x,
       ctx_SchemaVersion = bd_schemaVersion version, ctx_CredentialVersion = b_CredentialVersion x\<rparr>
       (Keyring (m_keys m)) = Inr (bytes_of (marshal_inputs inputs))"
    and "inputs_utf8 inputs" and "validate (bd_credentialType version) (bd_schemaVersion version) inputs = Some fs"
    and "input_size inputs + overhead \<le> rp_MaxResponseBytes (m_policy m)"
  shows "\<exists>out. resolve_validate K m render x version = Inr out \<and>
    render (bd_credentialType version) (bd_schemaVersion version) inputs = Some out"
proof -
  obtain n out where "unmarshal_inputs (marshal_inputs inputs) = Some n"
    "render (bd_credentialType version) (bd_schemaVersion version) n = Some out"
    "render (bd_credentialType version) (bd_schemaVersion version) inputs = Some out"
    "validInjectorResult out (input_size inputs + overhead)"
    using render_after_reencode assms(4,5) unfolding inputs_utf8_def by metis
  with assms validInjectorResult_mono show ?thesis
    by (auto simp: resolve_validate_def open_inputs_def)
qed

end

text \<open>A claim on an open binding, inside its window, with a new attempt id, is counted and succeeds.\<close>

lemma resolve_result:
  assumes "wi_Role caller = RoleExecutor" "validExecutorIdentity (wi_Subject caller)" "m_injector m = Some injector"
    and "validUUID (rq_RunID request)" "validUUID (rq_AttemptID request)" "rq_RequestedAt request \<noteq> zero_time"
    and "mget (bindings (m_backend m)) (rq_RunID request) = Some mb"
    and "b_ExecutorIdentity (mb_binding mb) = wi_Subject caller" "\<not> terminal (b_State (mb_binding mb))"
    and "b_NotBefore (mb_binding mb) \<le> now" "now < b_ExpiresAt (mb_binding mb)"
    and "b_ResolutionCount (mb_binding mb) < b_MaxResolutions (mb_binding mb)"
    and "mget (attempts (m_backend m)) (rq_AttemptID request) = None"
    and "boundVersion (m_backend m) (mb_binding mb) = Inr version"
    and "resolve_validate K m injector (mb_binding mb) version = Inr out"
  shows "\<exists>n. Resolve K m caller request now =
    (Inr \<lparr>rc_RunID = rq_RunID request, rc_AttemptID = rq_AttemptID request,
       rc_ExpiresAt = min (now + rp_AttemptRetryWindow (m_policy m)) (b_ExpiresAt (mb_binding mb)),
       rc_Environment = ir_Environment out, rc_Files = ir_Files out\<rparr>, n)"
  using assms
  by (auto simp: Resolve_def resolve_claim_def ClaimResolution_be_def claim_attempt_def Let_def terminal_def min_def not_le)

lemma RegisterBinding_bound:
  assumes "RegisterBinding K m caller request now = (Inr x, n)"
    and "\<And>d. scan_bindings (map snd (bindings (m_backend m))) \<lparr>br_request = request, br_digest = d, br_now = now\<rparr> = None"
  obtains c d where "mget (credentials (m_backend m)) (rb_CredentialID request) = Some c"
    "x = new_binding \<lparr>br_request = request, br_digest = d, br_now = now\<rparr> (mc_metadata c)"
    "md_OrganizationID (mc_metadata c) = rb_OrganizationID request" "md_State (mc_metadata c) = StateActive"
    "validBindingRequest request now (m_policy m)"
    "n = m\<lparr>m_backend := (m_backend m)\<lparr>bindings := mput (rb_RunID request)
       \<lparr>mb_binding = x, mb_idempotencyKey = rb_IdempotencyKey request, mb_digest = d\<rparr> (bindings (m_backend m))\<rparr>\<rparr>"
  using assms
  by (auto simp: RegisterBinding_def RegisterBinding_be_def Let_def split: if_splits option.splits prod.splits)

lemma CreateContext_stored:
  assumes create: "CreateContext K m request now src = (Inr md, n, src')" and inv: "manager_inv K m"
    and new: "mget (idempotency (m_backend m)) (idempotencyID (cr_OrganizationID request) (cr_IdempotencyKey request)) = None"
  obtains fs i r where
    "validateSchema m (cr_CredentialType request) (cr_SchemaVersion request) (cr_Inputs request) = Inr fs"
    "md = new_metadata request i fs now" "n = store_created m request (requestDigest (c_sha256 K) request) md r"
    "Decrypt (c_aead K) r (envelopeContext md) (Keyring (m_keys m)) = Inr (bytes_of (marshal_inputs (cr_Inputs request)))"
proof -
  from create new obtain fs i s r where
      v: "validateSchema m (cr_CredentialType request) (cr_SchemaVersion request) (cr_Inputs request) = Inr fs"
      and e: "encrypt K m md (cr_Inputs request) s = (Inr r, src')" and md: "md = new_metadata request i fs now"
      and n: "n = store_created m request (requestDigest (c_sha256 K) request) md r"
    by (auto simp: CreateContext_def Create_be_def store_created_def Let_def new_metadata_def
        split: if_splits sum.splits prod.splits option.splits)
  have "Decrypt (c_aead K) r (envelopeContext md) (Keyring (m_keys m)) = Inr (bytes_of (marshal_inputs (cr_Inputs request)))"
    using e inv by (auto simp: encrypt_def Let_def manager_inv_def store_inv_def
        intro!: Encrypt_Decrypt split: if_splits prod.splits sum.splits)
  with v md n show ?thesis by (rule that)
qed

text \<open>
  C17. End to end with the shipped registry: a credential is created, the scheduler registers a
  binding for a run, and the named executor, inside the window and with a new attempt id, gets
  exactly the rendering of the inputs that were submitted at creation, valid until the retry
  window or the binding ends, whichever is first.
\<close>

theorem create_bind_resolve:
  assumes inv: "manager_inv K m" and reg: "m_schemas m = Validate" "m_injector m = Some Render"
    and create: "CreateContext K m creq t0 src = (Inr md, m1, src')" "inputs_utf8 (cr_Inputs creq)"
      "fresh_id (credentials (m_backend m)) src"
      "mget (idempotency (m_backend m)) (idempotencyID (cr_OrganizationID creq) (cr_IdempotencyKey creq)) = None"
    and fits: "input_size (cr_Inputs creq) + 128 \<le> rp_MaxResponseBytes (m_policy m)"
    and bind: "RegisterBinding K m1 sched breq t1 = (Inr b, m2)" "rb_CredentialID breq = md_ID md"
      "\<And>d. scan_bindings (map snd (bindings (m_backend m1))) \<lparr>br_request = breq, br_digest = d, br_now = t1\<rparr> = None"
    and exec: "wi_Role caller = RoleExecutor" "wi_Subject caller = rb_ExecutorIdentity breq"
    and req: "rq_RunID request = rb_RunID breq" "validUUID (rq_AttemptID request)" "rq_RequestedAt request \<noteq> zero_time"
      "mget (attempts (m_backend m2)) (rq_AttemptID request) = None"
    and window: "z_instant (rb_NotBefore breq) \<le> now" "now < z_instant (rb_ExpiresAt breq)"
  shows "\<exists>out m3. Render (cr_CredentialType creq) (cr_SchemaVersion creq) (cr_Inputs creq) = Some out \<and>
    Resolve K m2 caller request now =
    (Inr \<lparr>rc_RunID = rb_RunID breq, rc_AttemptID = rq_AttemptID request,
       rc_ExpiresAt = min (now + rp_AttemptRetryWindow (m_policy m)) (z_instant (rb_ExpiresAt breq)),
       rc_Environment = ir_Environment out, rc_Files = ir_Files out\<rparr>, m3)"
proof -
  from create inv obtain fs i r where
      v: "validateSchema m (cr_CredentialType creq) (cr_SchemaVersion creq) (cr_Inputs creq) = Inr fs"
      and md: "md = new_metadata creq i fs t0"
      and m1: "m1 = store_created m creq (requestDigest (c_sha256 K) creq) md r"
      and dec: "Decrypt (c_aead K) r (envelopeContext md) (Keyring (m_keys m)) = Inr (bytes_of (marshal_inputs (cr_Inputs creq)))"
    using CreateContext_stored by blast
  have m1_sel: "m_policy m1 = m_policy m" "m_keys m1 = m_keys m" "m_schemas m1 = Validate" "m_injector m1 = Some Render"
    "mget (credentials (m_backend m1)) (md_ID md) = Some \<lparr>mc_metadata = md, mc_records = [(1, r)]\<rparr>"
    using reg by (simp_all add: m1 store_created_def Let_def)
  from RegisterBinding_bound [OF bind(1,3)] obtain c d where
      c: "mget (credentials (m_backend m1)) (rb_CredentialID breq) = Some c"
      and b: "b = new_binding \<lparr>br_request = breq, br_digest = d, br_now = t1\<rparr> (mc_metadata c)"
      and org: "md_OrganizationID (mc_metadata c) = rb_OrganizationID breq" and vb: "validBindingRequest breq t1 (m_policy m1)"
      and m2: "m2 = m1\<lparr>m_backend := (m_backend m1)\<lparr>bindings := mput (rb_RunID breq)
       \<lparr>mb_binding = b, mb_idempotencyKey = rb_IdempotencyKey breq, mb_digest = d\<rparr> (bindings (m_backend m1))\<rparr>\<rparr>"
    by blast
  from c m1_sel(5) bind(2) have cc: "c = \<lparr>mc_metadata = md, mc_records = [(1, r)]\<rparr>" by simp
  let ?v = "\<lparr>bd_record = r, bd_credentialType = cr_CredentialType creq, bd_schemaVersion = cr_SchemaVersion creq\<rparr>"
  have bv: "boundVersion (m_backend m2) b = Inr ?v"
    using c by (simp add: m2 boundVersion_def b cc new_binding_def Let_def md new_metadata_def)
  obtain gs where "Validate (cr_CredentialType creq) (cr_SchemaVersion creq) (cr_Inputs creq) = Some gs"
    using v reg(1) validateSchema_registry [of m] by fastforce
  with bv dec create(2) fits obtain out where out: "resolve_validate K m2 Render b ?v = Inr out"
    "Render (cr_CredentialType creq) (cr_SchemaVersion creq) (cr_Inputs creq) = Some out"
    using builtin.resolve_validate_known [of m2 b ?v K "cr_Inputs creq" gs] bind(2) org m1_sel
    by (auto simp: m2 b cc new_binding_def Let_def md new_metadata_def envelopeContext_def)
  have vb': "validUUID (rb_RunID breq)" "validExecutorIdentity (rb_ExecutorIdentity breq)" "0 < rb_MaxResolutions breq"
    using vb by (auto simp: validBindingRequest_def)
  from resolve_result [OF exec(1) _ _ _ req(2,3), of m2 Render "\<lparr>mb_binding = b, mb_idempotencyKey = rb_IdempotencyKey breq, mb_digest = d\<rparr>" now ?v K out]
  have "\<exists>n. Resolve K m2 caller request now =
    (Inr \<lparr>rc_RunID = rq_RunID request, rc_AttemptID = rq_AttemptID request,
       rc_ExpiresAt = min (now + rp_AttemptRetryWindow (m_policy m2)) (b_ExpiresAt b),
       rc_Environment = ir_Environment out, rc_Files = ir_Files out\<rparr>, n)"
    using vb' exec(2) req(1,4) window out(1) bv m1_sel
    by (simp add: m2) (auto simp: b new_binding_def Let_def terminal_def)
  with out(2) show ?thesis
    using req(1) m1_sel(1) by (auto simp: m2 b new_binding_def Let_def)
qed

lemma ex_scan: "scan_bindings (map snd (bindings (m_backend ex_created))) reg = None"
  by simp

theorem create_bind_resolve_witness:
  "\<exists>out m3. Render (cr_CredentialType ex_create) (cr_SchemaVersion ex_create) (cr_Inputs ex_create) = Some out \<and>
    Resolve ex_crypto ex_bound ex_executor ex_resolve (ex_now + minute) =
    (Inr \<lparr>rc_RunID = rb_RunID ex_register, rc_AttemptID = rq_AttemptID ex_resolve,
       rc_ExpiresAt = min (ex_now + minute + rp_AttemptRetryWindow (m_policy ex_manager)) (z_instant (rb_ExpiresAt ex_register)),
       rc_Environment = ir_Environment out, rc_Files = ir_Files out\<rparr>, m3)"
proof (rule create_bind_resolve [OF ex_manager_inv _ _ ex_CreateContext ex_inputs_utf8 _ _ _ ex_RegisterBinding _ ex_scan])
  show "m_schemas ex_manager = Validate" "m_injector ex_manager = Some Render"
    "fresh_id (credentials (m_backend ex_manager)) ex_entropy"
    "mget (idempotency (m_backend ex_manager)) (idempotencyID (cr_OrganizationID ex_create) (cr_IdempotencyKey ex_create)) = None"
    by (simp_all add: ex_manager_def fresh_id_def newMemoryBackend_def split: prod.splits option.splits)
  show "input_size (cr_Inputs ex_create) + 128 \<le> rp_MaxResponseBytes (m_policy ex_manager)"
    by (simp add: ex_manager_def input_size_def ex_create_def DefaultResolutionPolicy_def)
qed (simp_all add: ex_executor_def ex_register_def ex_resolve_def role_defs ex_now_def duration_defs)

lemma ex_Resolve: "\<exists>out n. Resolve ex_crypto ex_bound ex_executor ex_resolve (ex_now + minute) = (Inr out, n) \<and>
  rc_ExpiresAt out = ex_now + 6 * minute"
proof -
  let ?mb = "\<lparr>mb_binding = ex_binding, mb_idempotencyKey = ''run-1'', mb_digest = ex_digest\<rparr>"
  let ?v = "\<lparr>bd_record = ex_record1, bd_credentialType = ''machine'', bd_schemaVersion = 1\<rparr>"
  have bv: "boundVersion (m_backend ex_bound) ex_binding = Inr ?v"
    by (simp add: boundVersion_def)
  have "Decrypt (c_aead ex_crypto) ex_record1 (envelopeContext ex_metadata) (Keyring (m_keys ex_manager)) =
      Inr (bytes_of (marshal_inputs (cr_Inputs ex_create)))"
    using CreateContext_stored [OF ex_CreateContext ex_manager_inv]
    by (auto simp: ex_manager_def newMemoryBackend_def ex_created_def store_created_def Let_def)
  then have d: "Decrypt (c_aead ex_crypto) (bd_record ?v) \<lparr>ctx_CredentialID = b_CredentialID ex_binding,
      ctx_OrganizationID = b_OrganizationID ex_binding, ctx_SchemaVersion = bd_schemaVersion ?v,
      ctx_CredentialVersion = b_CredentialVersion ex_binding\<rparr> (Keyring (m_keys ex_bound)) =
      Inr (bytes_of (marshal_inputs (cr_Inputs ex_create)))"
    by (simp add: envelopeContext_def ex_manager_def)
  have "Validate (bd_credentialType ?v) (bd_schemaVersion ?v) (cr_Inputs ex_create) = Some [''password'']"
    "input_size (cr_Inputs ex_create) + 128 \<le> rp_MaxResponseBytes (m_policy ex_bound)"
    using ex_Validate by (simp_all add: ex_create_def input_size_def DefaultResolutionPolicy_def)
  from builtin.resolve_validate_known [OF _ bv d ex_inputs_utf8 this] obtain out where
    v: "resolve_validate ex_crypto ex_bound Render ex_binding ?v = Inr out" by auto
  have "\<exists>n. Resolve ex_crypto ex_bound ex_executor ex_resolve (ex_now + minute) =
      (Inr \<lparr>rc_RunID = rq_RunID ex_resolve, rc_AttemptID = rq_AttemptID ex_resolve,
       rc_ExpiresAt = min (ex_now + minute + rp_AttemptRetryWindow (m_policy ex_bound)) (b_ExpiresAt (mb_binding ?mb)),
       rc_Environment = ir_Environment out, rc_Files = ir_Files out\<rparr>, n)"
    using v bv ex_executor_valid
    by (intro resolve_result [where injector = Render and version = ?v])
      (simp_all add: ex_executor_def role_defs ex_resolve_def ex_now_def duration_defs terminal_def)
  then show ?thesis by (auto simp: DefaultResolutionPolicy_def duration_defs)
qed

end
