(* ===== verification/Credential_Operations.thy ===== *)
theory Credential_Operations
  imports Credential_Properties
begin

text \<open>
  What single operations of the manager guarantee, alone and before or after any other calls:
  resolution by the bound executor only, replayed attempts, idempotent creation, optimistic
  concurrency, isolation of organizations and the finality of retirement.
\<close>

section \<open>Resolution\<close>

lemma Resolve_Inr:
  assumes "Resolve K m caller request now = (Inr out, n)"
  obtains injector mb version rendered x where "wi_Role caller = RoleExecutor" "validExecutorIdentity (wi_Subject caller)"
    "m_injector m = Some injector" "validUUID (rq_RunID request)" "validUUID (rq_AttemptID request)"
    "rq_RequestedAt request \<noteq> zero_time" "mget (bindings (m_backend m)) (rq_RunID request) = Some mb"
    "b_ExecutorIdentity (mb_binding mb) = wi_Subject caller"
    "b_State (mb_binding mb) \<noteq> BindingCanceled" "b_State (mb_binding mb) \<noteq> BindingExpired"
    "b_NotBefore (mb_binding mb) \<le> now" "now < b_ExpiresAt (mb_binding mb)"
    "boundVersion (m_backend m) (mb_binding mb) = Inr version"
    "resolve_validate K m injector (mb_binding mb) version = Inr rendered"
    "claim_attempt (m_backend m) (resolve_claim K m caller request now) mb rendered =
       (Inr (x, rc_ExpiresAt out, rendered), m_backend n)"
    "n = m\<lparr>m_backend := m_backend n\<rparr>"
    "out = \<lparr>rc_RunID = rq_RunID request, rc_AttemptID = rq_AttemptID request, rc_ExpiresAt = rc_ExpiresAt out,
       rc_Environment = ir_Environment rendered, rc_Files = ir_Files rendered\<rparr>"
proof -
  from assms obtain injector x b e rendered where a: "wi_Role caller = RoleExecutor" "validExecutorIdentity (wi_Subject caller)"
    "m_injector m = Some injector" "validUUID (rq_RunID request)" "validUUID (rq_AttemptID request)"
    "rq_RequestedAt request \<noteq> zero_time"
    and c: "ClaimResolution_be (m_backend m) (resolve_claim K m caller request now) (resolve_validate K m injector) =
      (Inr (x, e, rendered), b)" and n: "n = m\<lparr>m_backend := b\<rparr>"
    and out: "out = \<lparr>rc_RunID = rq_RunID request, rc_AttemptID = rq_AttemptID request, rc_ExpiresAt = e,
       rc_Environment = ir_Environment rendered, rc_Files = ir_Files rendered\<rparr>"
    by (auto simp: Resolve_def split: if_splits option.splits prod.splits sum.splits)
  from c obtain mb where mb: "mget (bindings (m_backend m)) (rq_RunID request) = Some mb"
    by (auto simp: ClaimResolution_be_def resolve_claim_def split: option.splits)
  note c = c [unfolded ClaimResolution_be_def Let_def]
  from c mb obtain version rendered' where
    "b_ExecutorIdentity (mb_binding mb) = wi_Subject caller"
    "b_State (mb_binding mb) \<noteq> BindingCanceled" "b_State (mb_binding mb) \<noteq> BindingExpired"
    "b_NotBefore (mb_binding mb) \<le> now" "now < b_ExpiresAt (mb_binding mb)"
    "boundVersion (m_backend m) (mb_binding mb) = Inr version"
    "resolve_validate K m injector (mb_binding mb) version = Inr rendered'"
    and ca: "claim_attempt (m_backend m) (resolve_claim K m caller request now) mb rendered' = (Inr (x, e, rendered), b)"
    by (auto simp: resolve_claim_def split: if_splits sum.splits)
  moreover from ca have "rendered' = rendered"
    by (auto simp: claim_attempt_def Let_def split: option.splits if_splits)
  ultimately show ?thesis
    using a mb n out by (intro that [of injector mb version rendered x]) simp_all
qed

text \<open>
  C18. Only the bound executor resolves, and only inside the window: a successful Resolve was made by a
  workload with the executor role whose subject is the one the binding names, on a binding that
  is neither canceled nor expired, between its start and its end; the answer to a new attempt
  expires no later than the binding, which was not exhausted; and what it contains is the injector's rendering of the JSON inputs that the
  bound credential version decrypts to under the binding's own credential, organization and
  version.
\<close>

theorem resolve_authorized:
  assumes "Resolve K m caller request now = (Inr out, n)"
  shows "\<exists>injector mb version inputs r. m_injector m = Some injector \<and>
    mget (bindings (m_backend m)) (rq_RunID request) = Some mb \<and> wi_Role caller = RoleExecutor \<and>
    wi_Subject caller = b_ExecutorIdentity (mb_binding mb) \<and>
    b_State (mb_binding mb) \<noteq> BindingCanceled \<and> b_State (mb_binding mb) \<noteq> BindingExpired \<and>
    b_NotBefore (mb_binding mb) \<le> now \<and> now < b_ExpiresAt (mb_binding mb) \<and>
    (mget (attempts (m_backend m)) (rq_AttemptID request) = None \<longrightarrow>
       b_State (mb_binding mb) \<noteq> BindingExhausted \<and> rc_ExpiresAt out \<le> b_ExpiresAt (mb_binding mb)) \<and>
    boundVersion (m_backend m) (mb_binding mb) = Inr version \<and>
    open_inputs K m (bd_record version) \<lparr>ctx_CredentialID = b_CredentialID (mb_binding mb),
      ctx_OrganizationID = b_OrganizationID (mb_binding mb), ctx_SchemaVersion = bd_schemaVersion version,
      ctx_CredentialVersion = b_CredentialVersion (mb_binding mb)\<rparr> = Some inputs \<and>
    injector (bd_credentialType version) (bd_schemaVersion version) inputs = Some r \<and>
    validInjectorResult r (rp_MaxResponseBytes (m_policy m)) \<and>
    rc_Environment out = ir_Environment r \<and> rc_Files out = ir_Files r"
  using assms(1)
proof (rule Resolve_Inr)
  fix injector mb version rendered x
  assume r: "wi_Role caller = RoleExecutor" "m_injector m = Some injector"
    "mget (bindings (m_backend m)) (rq_RunID request) = Some mb" "b_ExecutorIdentity (mb_binding mb) = wi_Subject caller"
    "b_State (mb_binding mb) \<noteq> BindingCanceled" "b_State (mb_binding mb) \<noteq> BindingExpired"
    "b_NotBefore (mb_binding mb) \<le> now" "now < b_ExpiresAt (mb_binding mb)"
    "boundVersion (m_backend m) (mb_binding mb) = Inr version"
    "resolve_validate K m injector (mb_binding mb) version = Inr rendered"
    and c: "claim_attempt (m_backend m) (resolve_claim K m caller request now) mb rendered =
       (Inr (x, rc_ExpiresAt out, rendered), m_backend n)"
    and out: "out = \<lparr>rc_RunID = rq_RunID request, rc_AttemptID = rq_AttemptID request, rc_ExpiresAt = rc_ExpiresAt out,
       rc_Environment = ir_Environment rendered, rc_Files = ir_Files rendered\<rparr>"
  from c have "mget (attempts (m_backend m)) (rq_AttemptID request) = None \<longrightarrow>
      b_State (mb_binding mb) \<noteq> BindingExhausted \<and> rc_ExpiresAt out \<le> b_ExpiresAt (mb_binding mb)"
    by (auto simp: claim_attempt_def resolve_claim_def Let_def split: if_splits)
  moreover from r(10) obtain inputs where "open_inputs K m (bd_record version) \<lparr>ctx_CredentialID = b_CredentialID (mb_binding mb),
      ctx_OrganizationID = b_OrganizationID (mb_binding mb), ctx_SchemaVersion = bd_schemaVersion version,
      ctx_CredentialVersion = b_CredentialVersion (mb_binding mb)\<rparr> = Some inputs"
    "injector (bd_credentialType version) (bd_schemaVersion version) inputs = Some rendered"
    "validInjectorResult rendered (rp_MaxResponseBytes (m_policy m))"
    by (auto simp: resolve_validate_def split: option.splits if_splits)
  moreover have "rc_Environment out = ir_Environment rendered" "rc_Files out = ir_Files rendered"
    by (subst out, simp)+
  ultimately show ?thesis
    using r by (intro exI [of _ injector] exI [of _ mb] exI [of _ version] exI [of _ inputs] exI [of _ rendered]) simp
qed

text \<open>
  C26. A failed Resolve consumes nothing: whatever the reason, no attempt is recorded and no binding's
  count changes; the only thing that may change is that a binding past its end is marked expired
  or an exhausted one is touched, and no other part of the store.
\<close>

theorem failed_resolve_consumes_nothing:
  assumes "Resolve K m caller request now = (Inl e, n)"
  shows "attempts (m_backend n) = attempts (m_backend m) \<and> credentials (m_backend n) = credentials (m_backend m) \<and>
    (\<forall>run. map_option (\<lambda>mb. b_ResolutionCount (mb_binding mb)) (mget (bindings (m_backend n)) run) =
           map_option (\<lambda>mb. b_ResolutionCount (mb_binding mb)) (mget (bindings (m_backend m)) run))"
proof (cases "n = m")
  case False
  with assms(1) obtain injector claim res d where
    c: "ClaimResolution_be (m_backend m) claim (resolve_validate K m injector) = (res, d)" and l: "\<exists>e. res = Inl e"
    and n: "n = m\<lparr>m_backend := d\<rparr>"
    by (auto simp: Resolve_def split: if_splits option.splits prod.splits sum.splits)
  from c show ?thesis
    by (cases rule: claim_cases) (use n l in auto)
qed simp

theorem resolve_authorized_witness:
  "\<exists>out n injector mb version inputs r. Resolve ex_crypto ex_bound ex_executor ex_resolve (ex_now + minute) = (Inr out, n) \<and>
    m_injector ex_bound = Some injector \<and>
    mget (bindings (m_backend ex_bound)) (rq_RunID ex_resolve) = Some mb \<and>
    wi_Subject ex_executor = b_ExecutorIdentity (mb_binding mb) \<and>
    boundVersion (m_backend ex_bound) (mb_binding mb) = Inr version \<and>
    injector (bd_credentialType version) (bd_schemaVersion version) inputs = Some r \<and> rc_Files out = ir_Files r"
proof -
  obtain out n where "Resolve ex_crypto ex_bound ex_executor ex_resolve (ex_now + minute) = (Inr out, n)"
    using ex_Resolve by blast
  with resolve_authorized [OF this] show ?thesis by blast
qed

lemma ex_resolve_late: "\<exists>n. Resolve ex_crypto ex_bound ex_executor ex_resolve (ex_now + 2 * hour) = (Inl ErrBindingNotActive, n) \<and>
  map_option (\<lambda>mb. b_State (mb_binding mb)) (mget (bindings (m_backend n)) (ex_uuid (CHR ''a''))) = Some BindingExpired"
  using ex_executor_valid
  by (simp add: Resolve_def resolve_claim_def ClaimResolution_be_def Let_def ex_executor_def role_defs ex_resolve_def
      ex_now_def duration_defs hide_binding_def put_binding_def)

theorem failed_resolve_consumes_nothing_witness:
  "\<exists>n. Resolve ex_crypto ex_bound ex_executor ex_resolve (ex_now + 2 * hour) = (Inl ErrBindingNotActive, n) \<and>
     map_option (\<lambda>mb. b_State (mb_binding mb)) (mget (bindings (m_backend n)) (ex_uuid (CHR ''a''))) = Some BindingExpired \<and>
     attempts (m_backend n) = [] \<and>
     map_option (\<lambda>mb. b_ResolutionCount (mb_binding mb)) (mget (bindings (m_backend n)) (ex_uuid (CHR ''a''))) = Some 0"
proof -
  obtain n where r: "Resolve ex_crypto ex_bound ex_executor ex_resolve (ex_now + 2 * hour) = (Inl ErrBindingNotActive, n)"
    "map_option (\<lambda>mb. b_State (mb_binding mb)) (mget (bindings (m_backend n)) (ex_uuid (CHR ''a''))) = Some BindingExpired"
    using ex_resolve_late by blast
  from r failed_resolve_consumes_nothing [OF r(1)] show ?thesis
    by (intro exI [of _ n]) auto
qed

lemma boundVersion_cong:
  "credentials d = credentials b \<Longrightarrow> same_binding x y \<Longrightarrow> boundVersion d y = boundVersion b x"
  by (simp add: boundVersion_def same_binding_def cong: option.case_cong)

lemma resolve_validate_cong:
  "m_keys n = m_keys m \<Longrightarrow> m_policy n = m_policy m \<Longrightarrow> same_binding x y \<Longrightarrow>
   resolve_validate K n injector y version = resolve_validate K m injector x version"
  by (simp add: resolve_validate_def open_inputs_def same_binding_def cong: option.case_cong)

lemma claim_attempt_new:
  assumes "claim_attempt b claim mb rendered = (Inr (x, e, rendered'), d)" and "mget (attempts b) (rcl_attemptID claim) = None"
  shows "credentials d = credentials b" "mget (bindings d) (rcl_runID claim) = Some (mb\<lparr>mb_binding := x\<rparr>)"
    "same_binding (mb_binding mb) x" "b_State x \<in> {BindingActive, BindingExhausted}" "e \<le> b_ExpiresAt (mb_binding mb)"
    "mget (attempts d) (rcl_attemptID claim) = Some \<lparr>ma_runID = rcl_runID claim,
       ma_executorIdentity = rcl_executorIdentity claim, ma_digest = rcl_digest claim, ma_expiresAt = e\<rparr>"
  using assms by (auto simp: claim_attempt_def Let_def same_binding_def split: if_splits)

text \<open>
  C25. A retried attempt is answered again and not counted again: repeating a successful Resolve with
  the same request before the answer's expiry returns the same answer and leaves the store as it
  is.
\<close>

theorem resolve_replay:
  assumes r: "Resolve K m caller request now = (Inr out, n)"
    and new: "mget (attempts (m_backend m)) (rq_AttemptID request) = None"
    and later: "now \<le> now'" "now' < rc_ExpiresAt out"
  shows "Resolve K n caller request now' = (Inr out, n)"
  using r
proof (rule Resolve_Inr)
  fix injector mb version rendered x
  assume a: "wi_Role caller = RoleExecutor" "validExecutorIdentity (wi_Subject caller)" "m_injector m = Some injector"
    "validUUID (rq_RunID request)" "validUUID (rq_AttemptID request)" "rq_RequestedAt request \<noteq> zero_time"
    "mget (bindings (m_backend m)) (rq_RunID request) = Some mb" "b_ExecutorIdentity (mb_binding mb) = wi_Subject caller"
    "b_State (mb_binding mb) \<noteq> BindingCanceled" "b_State (mb_binding mb) \<noteq> BindingExpired"
    "b_NotBefore (mb_binding mb) \<le> now" "now < b_ExpiresAt (mb_binding mb)"
    and v: "boundVersion (m_backend m) (mb_binding mb) = Inr version"
      "resolve_validate K m injector (mb_binding mb) version = Inr rendered"
    and c: "claim_attempt (m_backend m) (resolve_claim K m caller request now) mb rendered =
       (Inr (x, rc_ExpiresAt out, rendered), m_backend n)"
    and n: "n = m\<lparr>m_backend := m_backend n\<rparr>"
    and out: "out = \<lparr>rc_RunID = rq_RunID request, rc_AttemptID = rq_AttemptID request, rc_ExpiresAt = rc_ExpiresAt out,
       rc_Environment = ir_Environment rendered, rc_Files = ir_Files rendered\<rparr>"
  have sel: "m_keys n = m_keys m" "m_policy n = m_policy m" "m_injector n = m_injector m"
    by (subst n, simp)+
  have "mget (attempts (m_backend m)) (rcl_attemptID (resolve_claim K m caller request now)) = None"
    using new by (simp add: resolve_claim_def)
  note b = claim_attempt_new [OF c this, unfolded resolve_claim_def, simplified]
  have v': "boundVersion (m_backend n) x = Inr version" "resolve_validate K n injector x version = Inr rendered"
    using v boundVersion_cong [OF b(1,3)] resolve_validate_cong [OF sel(1,2) b(3)] by simp_all
  have w: "b_ExecutorIdentity x = wi_Subject caller" "b_NotBefore x \<le> now'" "now' < b_ExpiresAt x"
    using a b(3,5) later by (auto simp: same_binding_def)
  have "n\<lparr>m_backend := m_backend n\<rparr> = n" by simp
  moreover have "b_State x \<noteq> BindingCanceled" "b_State x \<noteq> BindingExpired" using b(4) by auto
  ultimately show ?thesis
    using a(1-6) b(2,6) v' w sel(3) later(2) out
    by (simp add: Resolve_def resolve_claim_def ClaimResolution_be_def claim_attempt_def Let_def)
qed

theorem resolve_replay_witness:
  "\<exists>out n. Resolve ex_crypto ex_bound ex_executor ex_resolve (ex_now + minute) = (Inr out, n) \<and>
     Resolve ex_crypto n ex_executor ex_resolve (ex_now + 3 * minute) = (Inr out, n)"
proof -
  obtain out n where r: "Resolve ex_crypto ex_bound ex_executor ex_resolve (ex_now + minute) = (Inr out, n)"
    "rc_ExpiresAt out = ex_now + 6 * minute"
    using ex_Resolve by blast
  have "Resolve ex_crypto n ex_executor ex_resolve (ex_now + 3 * minute) = (Inr out, n)"
    by (rule resolve_replay [OF r(1)]) (simp_all add: r(2) duration_defs)
  with r show ?thesis by blast
qed

section \<open>Lifecycle\<close>

lemma credential_at: "store_inv K m \<Longrightarrow> mget (credentials (m_backend m)) i = Some c \<Longrightarrow> credential_inv K m i c"
  by (simp add: store_inv_def inv_credentials_def)

lemma CreateContext_recorded:
  assumes "CreateContext K m request now src = (Inr md, n, src')"
  shows "validateCreate request \<and>
    is_ok (validateSchema m (cr_CredentialType request) (cr_SchemaVersion request) (cr_Inputs request)) \<and>
    length (marshal_inputs (cr_Inputs request)) \<le> maxPlaintextPayload \<and>
    mget (idempotency (m_backend n)) (idempotencyID (cr_OrganizationID request) (cr_IdempotencyKey request)) =
      Some \<lparr>ie_digest = requestDigest (c_sha256 K) request, ie_response = md\<rparr> \<and> m_schemas n = m_schemas m"
  using assms
  by (auto simp: CreateContext_def Create_be_def encrypt_def Let_def
      split: if_splits sum.splits prod.splits option.splits)

lemma create_known:
  assumes "validateCreate request"
    and "is_ok (validateSchema m (cr_CredentialType request) (cr_SchemaVersion request) (cr_Inputs request))"
    and "length (marshal_inputs (cr_Inputs request)) \<le> maxPlaintextPayload"
    and "usable (ks_Current (m_keys m))" and "88 \<le> length src"
    and "mget (idempotency (m_backend m)) (idempotencyID (cr_OrganizationID request) (cr_IdempotencyKey request)) = Some entry"
  shows "CreateContext K m request now src =
    (if ie_digest entry = requestDigest (c_sha256 K) request then Inr (ie_response entry) else Inl ErrIdempotencyConflict,
     m, drop 88 src)"
proof -
  obtain fs where f: "validateSchema m (cr_CredentialType request) (cr_SchemaVersion request) (cr_Inputs request) = Inr fs"
    using assms(2) by (auto elim: is_okE)
  obtain i where i: "newUUID src = (Some i, drop 16 src)"
    using newUUID_length [of src] assms(5) by auto
  from newUUID_valid [OF i] have "i \<noteq> []" by (auto simp: validUUID_def)
  with assms(1) have "ctx_validate (envelopeContext (new_metadata request i fs now))"
    by (simp add: ctx_validate_def envelopeContext_def new_metadata_def validateCreate_def)
  moreover have "72 \<le> length (drop 16 src)" using assms(5) by simp
  ultimately obtain r where "encrypt K m (new_metadata request i fs now) (cr_Inputs request) (drop 16 src) = (Inr r, drop 88 src)"
    using encrypt_enough [OF _ assms(4) _ assms(3), of "new_metadata request i fs now" "drop 16 src" K] assms(5) by auto
  with assms(1,6) f i show ?thesis
    by (simp add: CreateContext_def Create_be_def Let_def)
qed

text \<open>
  C24. Creation is idempotent across everything else: after a successful Create and any later calls,
  the same request, with fresh entropy, returns the metadata of the first answer and changes
  nothing; another request under the same organization and key, valid by itself and with another
  digest, is refused as a conflict and changes nothing either.
\<close>

theorem create_idempotent:
  assumes inv: "manager_inv K m" and create: "CreateContext K m request now src = (Inr md, n0, src')"
    and ok: "op_ok m (OpCreate request now src)" and run: "run_ok (manager_step K uni) op_ok n0 ops"
    and n: "n = foldl (manager_step K uni) n0 ops" and fresh: "88 \<le> length src2"
    and other: "validateCreate request'" "cr_OrganizationID request' = cr_OrganizationID request"
      "cr_IdempotencyKey request' = cr_IdempotencyKey request"
      "is_ok (validateSchema m (cr_CredentialType request') (cr_SchemaVersion request') (cr_Inputs request'))"
      "length (marshal_inputs (cr_Inputs request')) \<le> maxPlaintextPayload"
  shows "CreateContext K n request now' src2 = (Inr md, n, drop 88 src2) \<and>
    (requestDigest (c_sha256 K) request' \<noteq> requestDigest (c_sha256 K) request \<longrightarrow>
       CreateContext K n request' now' src2 = (Inl ErrIdempotencyConflict, n, drop 88 src2))"
proof -
  have inv0: "manager_inv K n0"
    using store.step_inv [OF inv ok] create by simp
  have le: "store_le K n0 n" and inv': "manager_inv K n"
    using store.run_le [OF inv0 run] store.run_inv [OF inv0 run] n by simp_all
  note r = CreateContext_recorded [OF create]
  have s: "m_schemas n = m_schemas m" using le r by (simp add: store_le_def Let_def)
  have e: "mget (idempotency (m_backend n)) (idempotencyID (cr_OrganizationID request) (cr_IdempotencyKey request)) =
      Some \<lparr>ie_digest = requestDigest (c_sha256 K) request, ie_response = md\<rparr>"
    using le r unfolding store_le_def Let_def map_le_by_def by metis
  have u: "usable (ks_Current (m_keys n))"
    using inv' by (simp add: manager_inv_def store_inv_def keys_ok_usable)
  show ?thesis
    using create_known [OF _ _ _ u fresh e, of K now'] create_known [OF other(1) _ other(5) u fresh, of _ K now'] e r other
      validateSchema_cong [OF s]
    by auto
qed

lemma update_stored:
  assumes "store_next K m org i v next inputs src = (Inr md, n, src')"
  shows "md = next \<and> (\<exists>c. mget (credentials (m_backend m)) i = Some c \<and> md_Version (mc_metadata c) = v) \<and>
    (\<exists>c. mget (credentials (m_backend n)) i = Some c \<and> mc_metadata c = next)"
  using assms
  by (auto simp: store_next_def Update_be_def split: prod.splits sum.splits option.splits if_splits)

lemma replace_stored:
  assumes "ReplaceInputsContext K m request now src = (Inr md, n, src')"
  obtains c fs where "mget (credentials (m_backend m)) (ri_CredentialID request) = Some c"
    "md_OrganizationID (mc_metadata c) = ri_OrganizationID request"
    "md_Version (mc_metadata c) = ri_ExpectedVersion request" "md_State (mc_metadata c) = StateActive"
    "validateSchema m (md_CredentialType (mc_metadata c)) (md_SchemaVersion (mc_metadata c)) (ri_Inputs request) = Inr fs"
    "md = (mc_metadata c)\<lparr>md_Version := md_Version (mc_metadata c) + 1, md_SecretFields := fs, md_UpdatedAt := now\<rparr>"
    "\<exists>c'. mget (credentials (m_backend n)) (ri_CredentialID request) = Some c' \<and> mc_metadata c' = md"
  using assms
  by (auto simp: ReplaceInputsContext_def dest!: update_stored split: if_splits sum.splits elim!: Get_be_Inr)



lemma scan_bindings_hit: "scan_bindings es reg = Some (Inr x) \<Longrightarrow> \<exists>e \<in> set es. mb_binding e = x"
  by (induction es) (auto simp: Let_def split: if_splits)

lemma register_inactive:
  assumes "mget (credentials b) (rb_CredentialID (br_request reg)) = Some c" and "md_State (mc_metadata c) \<noteq> StateActive"
  obtains res where "RegisterBinding_be b reg = (res, b)" "\<And>x. res = Inr x \<Longrightarrow> scan_bindings (map snd (bindings b)) reg = Some (Inr x)"
  using assms by (cases "scan_bindings (map snd (bindings b)) reg") (auto simp: RegisterBinding_be_def Let_def)

text \<open>
  C28. Retirement is final: once a credential is retired, no later call, however long the run, changes
  its metadata, and from then on registering a binding for it changes nothing: the call fails or
  replays a binding that was already there.
\<close>

theorem retired_is_final:
  assumes inv: "manager_inv K m" and run: "run_ok (manager_step K uni) op_ok m ops"
    and n: "n = foldl (manager_step K uni) m ops"
    and c: "mget (credentials (m_backend m)) i = Some c" "md_State (mc_metadata c) = StateRetired"
    and req: "rb_CredentialID request = i"
  shows "GetContext n (md_OrganizationID (mc_metadata c)) i = Inr (mc_metadata c) \<and>
    (\<exists>res. RegisterBinding K n caller request now = (res, n) \<and>
       (\<forall>x. res = Inr x \<longrightarrow> (\<exists>mb. mget (bindings (m_backend n)) (b_RunID x) = Some mb \<and> mb_binding mb = x)))"
proof
  from store.run_le [OF inv run] n c obtain c1 where
    c1: "mget (credentials (m_backend n)) i = Some c1" "mc_metadata c1 = mc_metadata c"
    unfolding store_le_def Let_def map_le_by_def credential_le_def by blast
  then show "GetContext n (md_OrganizationID (mc_metadata c)) i = Inr (mc_metadata c)"
    by (simp add: GetContext_def Get_be_def)
  have inv': "store_inv K n" using store.run_inv [OF inv run] n by (simp add: manager_inv_def)
  have known: "\<exists>mb. mget (bindings (m_backend n)) (b_RunID x) = Some mb \<and> mb_binding mb = x"
    if s: "scan_bindings (map snd (bindings (m_backend n))) reg = Some (Inr x)" for reg x
  proof -
    from scan_bindings_hit [OF s] obtain run mb where "(run, mb) \<in> set (bindings (m_backend n))" "mb_binding mb = x"
      by (metis imageE list.set_map prod.collapse)
    then have "mget (bindings (m_backend n)) run = Some mb"
      using inv' by (simp add: store_inv_def inv_maps_def in_set_mget)
    with binding_at_run [OF inv' this] \<open>mb_binding mb = x\<close> show ?thesis by auto
  qed
  show "\<exists>res. RegisterBinding K n caller request now = (res, n) \<and>
       (\<forall>x. res = Inr x \<longrightarrow> (\<exists>mb. mget (bindings (m_backend n)) (b_RunID x) = Some mb \<and> mb_binding mb = x))"
  proof (cases "bindingDigest (c_sha256 K) request")
    case None
    then show ?thesis by (simp add: RegisterBinding_def)
  next
    case (Some d)
    have "mget (credentials (m_backend n)) (rb_CredentialID (br_request \<lparr>br_request = request, br_digest = d, br_now = now\<rparr>)) = Some c1"
      "md_State (mc_metadata c1) \<noteq> StateActive"
      using c1 c req by auto
    then show ?thesis
      by (rule register_inactive) (use Some known in \<open>auto simp: RegisterBinding_def\<close>)
  qed
qed

section \<open>Witnesses of the lifecycle properties\<close>

lemma store_next_enough:
  assumes "ctx_validate (envelopeContext nextmd)" and "usable (ks_Current (m_keys m))" and "72 \<le> length src"
    and "length (marshal_inputs inputs) \<le> maxPlaintextPayload" and "mget (credentials (m_backend m)) i = Some c"
    and "md_OrganizationID (mc_metadata c) = org" and "md_Version (mc_metadata c) = v"
  shows "\<exists>n. store_next K m org i v nextmd inputs src = (Inr nextmd, n, drop 72 src)"
  using encrypt_enough [OF assms(1-4), of K] assms(5-7) by (auto simp: store_next_def Update_be_def)

lemma ex_record_opens:
  "Decrypt (c_aead ex_crypto) ex_record1 (envelopeContext ex_metadata) (Keyring ex_keys) =
     Inr (bytes_of (marshal_inputs (cr_Inputs ex_create)))"
  using CreateContext_stored [OF ex_CreateContext ex_manager_inv]
  by (auto simp: ex_manager_def newMemoryBackend_def ex_created_def store_created_def Let_def)

definition ex_replace :: ReplaceInputsRequest where
  "ex_replace = \<lparr>ri_CredentialID = ex_credential_id, ri_OrganizationID = ''org'', ri_ExpectedVersion = 1,
     ri_Inputs = cr_Inputs ex_create\<rparr>"

lemma ex_usable: "usable (ks_Current ex_keys)"
  by (simp add: ex_keys_def)

lemma ex_ReplaceInputs:
  obtains md n where "ReplaceInputsContext ex_crypto ex_created ex_replace ex_now ex_entropy = (Inr md, n, drop 72 ex_entropy)"
proof -
  have v: "validateSchema ex_created ''machine'' 1 (cr_Inputs ex_create) = Inr [''password'']"
    by (simp add: validateSchema_def ex_create_def ex_validateInputs ex_Validate)
  have e: "72 \<le> length ex_entropy" by (simp add: ex_entropy_def)
  let ?md = "ex_metadata\<lparr>md_Version := 2, md_SecretFields := [''password''], md_UpdatedAt := ex_now\<rparr>"
  have "ctx_validate (envelopeContext ?md)"
    by (simp add: ctx_validate_def envelopeContext_def ex_credential_id_def)
  then obtain n where "store_next ex_crypto ex_created ''org'' ex_credential_id 1 ?md (cr_Inputs ex_create) ex_entropy =
      (Inr ?md, n, drop 72 ex_entropy)"
    using store_next_enough [OF _ _ e ex_marshal_length, where c = "\<lparr>mc_metadata = ex_metadata, mc_records = [(1, ex_record1)]\<rparr>" and
        nextmd = ?md and m = ex_created and i = ex_credential_id and org = "''org''" and v = 1 and K = ex_crypto] ex_usable by auto
  with v show ?thesis
    by (intro that [of ?md n]) (simp add: ReplaceInputsContext_def ex_replace_def Get_be_def ex_credential_id_def)
qed

lemma ex_digest_differs:
  "requestDigest (c_sha256 ex_crypto) (ex_create\<lparr>cr_Name := ''db2''\<rparr>) \<noteq> requestDigest (c_sha256 ex_crypto) ex_create"
  unfolding requestDigest_def ex_crypto_def by code_simp

lemma ex_renamed_valid: "validateCreate (ex_create\<lparr>cr_Name := ''db2''\<rparr>)"
  by (simp add: validateCreate_def ex_create_def validName_def TrimSpace_graphic graphic_def
      maxOrganizationID_def maxNameLength_def maxCredentialType_def)

lemma ex_renamed_schema: "is_ok (validateSchema ex_manager (cr_CredentialType (ex_create\<lparr>cr_Name := ''db2''\<rparr>))
     (cr_SchemaVersion (ex_create\<lparr>cr_Name := ''db2''\<rparr>)) (cr_Inputs (ex_create\<lparr>cr_Name := ''db2''\<rparr>)))"
  using ex_validateSchema by (simp add: ex_create_def)

theorem create_idempotent_witness:
  "CreateContext ex_crypto ex_bound ex_create (ex_now + hour) ex_entropy = (Inr ex_metadata, ex_bound, drop 88 ex_entropy) \<and>
   CreateContext ex_crypto ex_bound (ex_create\<lparr>cr_Name := ''db2''\<rparr>) (ex_now + hour) ex_entropy =
     (Inl ErrIdempotencyConflict, ex_bound, drop 88 ex_entropy)"
proof -
  have ok: "op_ok ex_manager (OpCreate ex_create ex_now ex_entropy)" using ex_created_ok [of "\<lambda>_. False"] by simp
  note idempotent = create_idempotent [OF ex_manager_inv ex_CreateContext ok _ ex_bound_step [of "\<lambda>_. False"] _ ex_renamed_valid
      _ _ ex_renamed_schema, of ex_entropy "ex_now + hour"]
  show ?thesis
    using idempotent ex_digest_differs ex_marshal_length by (simp add: ex_entropy_def)
qed



definition ex_retire :: RetireRequest where
  "ex_retire = \<lparr>rt_CredentialID = ex_credential_id, rt_OrganizationID = ''org'', rt_ExpectedVersion = 1\<rparr>"

lemma ex_Retire:
  obtains n where "RetireContext ex_crypto ex_bound ex_retire ex_now ex_entropy =
    (Inr (ex_metadata\<lparr>md_Version := 2, md_State := StateRetired, md_UpdatedAt := ex_now\<rparr>), n, drop 72 ex_entropy)"
proof -
  have e: "72 \<le> length ex_entropy" by (simp add: ex_entropy_def)
  have "unmarshal_inputs (marshal_inputs (cr_Inputs ex_create)) = Some (sort_key fst (cr_Inputs ex_create))"
    using ex_inputs_utf8 by (intro unmarshal_marshal) (auto simp: inputs_utf8_def list_all_iff)
  then have o: "open_inputs ex_crypto ex_bound ex_record1 (envelopeContext ex_metadata) = Some (sort_key fst (cr_Inputs ex_create))"
    by (simp add: open_inputs_def ex_record_opens)
  let ?md = "ex_metadata\<lparr>md_Version := 2, md_State := StateRetired, md_UpdatedAt := ex_now\<rparr>"
  have "ctx_validate (envelopeContext ?md)"
    by (simp add: ctx_validate_def envelopeContext_def ex_credential_id_def)
  moreover have "length (marshal_inputs (sort_key fst (cr_Inputs ex_create))) \<le> maxPlaintextPayload"
    using ex_marshal_length ex_inputs_utf8 by (simp add: inputs_utf8_def marshal_inputs_sort)
  ultimately have "\<exists>n. store_next ex_crypto ex_bound ''org'' ex_credential_id 1 ?md (sort_key fst (cr_Inputs ex_create)) ex_entropy =
      (Inr ?md, n, drop 72 ex_entropy)"
    by (intro store_next_enough [OF _ _ e, where c = "\<lparr>mc_metadata = ex_metadata, mc_records = [(1, ex_record1)]\<rparr>"]) (simp_all add: ex_usable)
  then obtain n where "store_next ex_crypto ex_bound ''org'' ex_credential_id 1 ?md (sort_key fst (cr_Inputs ex_create)) ex_entropy =
      (Inr ?md, n, drop 72 ex_entropy)" by blast
  with o show ?thesis
    by (intro that [of n]) (simp add: RetireContext_def ex_retire_def Get_be_def ex_credential_id_def)
qed

theorem retired_is_final_witness:
  "\<exists>n md. RetireContext ex_crypto ex_bound ex_retire ex_now ex_entropy = (Inr md, n, drop 72 ex_entropy) \<and>
     GetContext n ''org'' ex_credential_id = Inr md \<and>
     (\<exists>res. RegisterBinding ex_crypto n ex_scheduler ex_register ex_now = (res, n))"
proof -
  obtain n where r: "RetireContext ex_crypto ex_bound ex_retire ex_now ex_entropy =
    (Inr (ex_metadata\<lparr>md_Version := 2, md_State := StateRetired, md_UpdatedAt := ex_now\<rparr>), n, drop 72 ex_entropy)"
    by (rule ex_Retire)
  have inv: "manager_inv ex_crypto n"
    using store.step_inv [OF ex_bound_inv, of "OpRetire ex_retire ex_now ex_entropy" "\<lambda>_. False"] r by simp
  have "\<exists>c. mget (credentials (m_backend n)) ex_credential_id = Some c \<and>
      mc_metadata c = ex_metadata\<lparr>md_Version := 2, md_State := StateRetired, md_UpdatedAt := ex_now\<rparr>"
    using r by (auto simp: RetireContext_def ex_retire_def Get_be_def dest!: update_stored split: if_splits option.splits)
  then obtain c where c: "mget (credentials (m_backend n)) ex_credential_id = Some c"
      "mc_metadata c = ex_metadata\<lparr>md_Version := 2, md_State := StateRetired, md_UpdatedAt := ex_now\<rparr>" by blast
  have "rb_CredentialID ex_register = ex_credential_id" by (simp add: ex_register_def)
  with r c retired_is_final [OF inv, where ops = "[]" and n = n and i = ex_credential_id and c = c and uni = "\<lambda>_. False" and
      request = ex_register and caller = ex_scheduler and now = ex_now]
  show ?thesis by auto
qed

end
