(* ===== verification/Transport_Service.thy ===== *)
theory Transport_Service
  imports Transport_Properties Credential_Operations
begin

text \<open>
  The server with the credential manager as its service and the spool as its auditor. The locale
  \<open>http_boundary\<close> is what the server relies on of the two; runs of requests are a monotone system
  wherever it holds, and it holds of the manager and the spool.
\<close>

section \<open>The manager as a service\<close>

record world =
  wo_manager :: Manager
  wo_now :: time
  wo_entropy :: bytes
  wo_db :: audit_db
  wo_recorder :: Recorder
  wo_worker :: DeliveryWorker

definition reading :: "(Manager \<Rightarrow> 'r) \<Rightarrow> world \<Rightarrow> 'r \<times> world" where
  "reading f s = (f (wo_manager s), s)"

definition updating :: "(Manager \<Rightarrow> time \<Rightarrow> 'r \<times> Manager) \<Rightarrow> world \<Rightarrow> 'r \<times> world" where
  "updating f s = (case f (wo_manager s) (wo_now s) of (r, m) \<Rightarrow> (r, s\<lparr>wo_manager := m\<rparr>))"

definition drawing :: "(Manager \<Rightarrow> time \<Rightarrow> bytes \<Rightarrow> 'r \<times> Manager \<times> bytes) \<Rightarrow> world \<Rightarrow> 'r \<times> world" where
  "drawing f s =
     (case f (wo_manager s) (wo_now s) (wo_entropy s) of (r, m, src) \<Rightarrow> (r, s\<lparr>wo_manager := m, wo_entropy := src\<rparr>))"

definition manager_service :: "crypto \<Rightarrow> (nat \<Rightarrow> bool) \<Rightarrow> world CredentialService" where
  "manager_service K uni =
     \<lparr>sv_CreateContext = (\<lambda>ctx r. drawing (\<lambda>m. CreateContext K m r)),
      sv_GetContext = (\<lambda>ctx org i. reading (\<lambda>m. GetContext m org i)),
      sv_ReplaceInputsContext = (\<lambda>ctx r. drawing (\<lambda>m. ReplaceInputsContext K m r)),
      sv_UpdateMetadataContext = (\<lambda>ctx r. drawing (\<lambda>m. UpdateMetadataContext K m r)),
      sv_RetireContext = (\<lambda>ctx r. drawing (\<lambda>m. RetireContext K m r)),
      sv_RegisterBinding = (\<lambda>ctx w r. updating (\<lambda>m. RegisterBinding K m w r)),
      sv_InspectBinding = (\<lambda>ctx w run. reading (\<lambda>m. InspectBinding m w run)),
      sv_CancelBinding = (\<lambda>ctx w r. updating (\<lambda>m. CancelBinding uni m w r)),
      sv_Resolve = (\<lambda>ctx w r. updating (\<lambda>m. Resolve K m w r)),
      sv_StartMasterKeyRotation = (\<lambda>ctx. drawing StartMasterKeyRotation),
      sv_GetMasterKeyRotation = (\<lambda>ctx i. reading (\<lambda>m. GetMasterKeyRotation m i)),
      sv_ResumeMasterKeyRotation = (\<lambda>ctx i n. drawing (\<lambda>m. ResumeMasterKeyRotation K m i n)),
      sv_FinalizeMasterKeyRotation = (\<lambda>ctx i. updating (\<lambda>m. FinalizeMasterKeyRotation m i)),
      sv_RotateCredentialKey = (\<lambda>ctx r. drawing (\<lambda>m now. RotateCredentialKey K m r)),
      sv_KeyStatus = (\<lambda>ctx. reading (\<lambda>m. Inr (KeyStatus_m m))),
      sv_ValidateRecovery = (\<lambda>ctx n s. (ValidateRecovery K (wo_manager s) n (wo_now s), s)),
      sv_RegisterBackup = (\<lambda>ctx k. updating (\<lambda>m now. RegisterBackup m k)),
      sv_ExpireBackup = (\<lambda>ctx i. updating (\<lambda>m. ExpireBackup m i))\<rparr>"

definition spool_recorder :: "audit_env \<Rightarrow> Spool \<Rightarrow> world AuditRecorder" where
  "spool_recorder env sp =
     \<lparr>au_Record = (\<lambda>event s. case Record_event env sp (wo_recorder s) (wo_db s) event of
        (_, r, db) \<Rightarrow> s\<lparr>wo_recorder := r, wo_db := db\<rparr>),
      au_Status = (\<lambda>s. (Inr (recorder_Status sp (wo_recorder s) (wo_worker s) (wo_db s)), s))\<rparr>"

definition manager_server :: "crypto \<Rightarrow> (nat \<Rightarrow> bool) \<Rightarrow> audit_env \<Rightarrow> Spool \<Rightarrow> SPIFFEMapper \<Rightarrow> world Server" where
  "manager_server K uni env sp mapper =
     \<lparr>srv_service = manager_service K uni, srv_mapper = mapper, srv_auditor = Some (spool_recorder env sp)\<rparr>"

section \<open>The contract of the service\<close>

text \<open>A request as a step of the system: the environment's part, what the request draws, the request.\<close>

type_synonym 'v exchange = "'v \<times> serving \<times> http_request"

definition request_step :: "'s Server \<Rightarrow> ('v \<Rightarrow> 's \<Rightarrow> 's) \<Rightarrow> 's \<Rightarrow> 'v exchange \<Rightarrow> 's" where
  "request_step server enter s x = (case x of (v, e, request) \<Rightarrow> snd (ServeHTTP server e request (enter v s)))"

definition request_ok :: "('s \<Rightarrow> bool) \<Rightarrow> ('v \<Rightarrow> 's \<Rightarrow> 's) \<Rightarrow> 's \<Rightarrow> 'v exchange \<Rightarrow> bool" where
  "request_ok ready enter s x \<longleftrightarrow> (case x of (v, e, request) \<Rightarrow>
     ready (enter v s) \<and> list_all graphic (hr_EscapedPath request) \<and> se_finished e \<noteq> zero_time)"

text \<open>
  \<open>enter\<close> is what the environment does before a request (the clock, fresh random bytes); \<open>ready\<close>
  what is assumed of the state a request meets, \<open>room\<close> the part of it the audit needs.
\<close>

locale http_boundary =
  fixes server :: "'s Server" and inv ready room :: "'s \<Rightarrow> bool" and le :: "'s \<Rightarrow> 's \<Rightarrow> bool" and enter :: "'v \<Rightarrow> 's \<Rightarrow> 's"
  assumes refl: "le s s"
    and trans: "le s t \<Longrightarrow> le t u \<Longrightarrow> le s u"
    and enter_keeps: "inv s \<Longrightarrow> inv (enter v s) \<and> le s (enter v s)"
    and ready_room: "ready s \<Longrightarrow> room s"
    and call_keeps: "inv s \<Longrightarrow> ready s \<Longrightarrow> call (srv_service server) i operation f \<Longrightarrow>
      inv (snd (f s)) \<and> le s (snd (f s)) \<and> room (snd (f s))"
    and status_keeps: "inv s \<Longrightarrow> room s \<Longrightarrow> srv_auditor server = Some a \<Longrightarrow>
      inv (snd (au_Status a s)) \<and> le s (snd (au_Status a s)) \<and> room (snd (au_Status a s))"
    and record_keeps: "inv s \<Longrightarrow> room s \<Longrightarrow> srv_auditor server = Some a \<Longrightarrow> validate_event ev \<Longrightarrow> event_utf8 ev \<Longrightarrow>
      inv (au_Record a ev s) \<and> le s (au_Record a ev s)"
begin

lemma route_keeps:
  assumes "inv s" and "ready s"
  shows "inv (snd (serve_route server ctx request i w s)) \<and> le s (snd (serve_route server ctx request i w s)) \<and>
    room (snd (serve_route server ctx request i w s))"
proof -
  let ?h = "serve_route server ctx request i w s"
  consider "refused w s ?h" | "called server request i w s ?h" | "status_read server request i w s ?h"
    using serve_route_served [of server request i w s ctx] unfolding handled_ok_def by blast
  then show ?thesis
  proof cases
    case 1 then show ?thesis using assms ready_room refl by (auto simp: refused_def)
  next
    case 2 then show ?thesis using call_keeps [OF assms] by (auto simp: called_def Let_def)
  next
    case 3 then show ?thesis using status_keeps [OF assms(1) ready_room [OF assms(2)]] by (auto simp: status_read_def)
  qed
qed

lemma serve_keeps:
  assumes "inv s" and "ready s" and "list_all graphic (hr_EscapedPath request)" and "se_finished e \<noteq> zero_time"
  shows "inv (snd (ServeHTTP server e request s)) \<and> le s (snd (ServeHTTP server e request s))"
proof -
  let ?ctx = "request_context server e request"
  define h where "h = (case requestIdentity (srv_mapper server) request of
      None \<Rightarrow> problem 401 ''workload_authentication_failed'' (new_writer e) s
    | Some i \<Rightarrow> serve_route server ?ctx request i (new_writer e) s)"
  have o: "ServeHTTP server e request s = observe server ?ctx request (se_finished e) h"
    by (simp add: ServeHTTP_def Let_def h_def)
  have k: "inv (snd h) \<and> le s (snd h) \<and> room (snd h)"
    using route_keeps [OF assms(1,2)] assms(1) ready_room [OF assms(2)] refl by (auto simp: h_def split: option.splits)
  have v: "validate_event (completion_event ?ctx request (fst h) (se_finished e))"
      "event_utf8 (completion_event ?ctx request (fst h) (se_finished e))"
    using completion_valid [OF assms(3,4), of server s] unfolding o by simp_all
  show ?thesis
    using k v record_keeps [of "snd h"] trans [of s "snd h"] refl
    unfolding o observe_def by (auto split: option.splits prod.splits)
qed

end

sublocale http_boundary \<subseteq> requests: monotone_system "request_step server enter" "request_ok ready enter" inv le
proof
  fix s x
  assume "inv s" "request_ok ready enter s x"
  moreover obtain v e request where "x = (v, e, request)" by (cases x) auto
  ultimately show "inv (request_step server enter s x)" and "le s (request_step server enter s x)"
    using enter_keeps [of s v] serve_keeps [of "enter v s" request e] trans [of s "enter v s"]
    by (auto simp: request_step_def request_ok_def)
qed (fact refl, fact trans)

section \<open>The manager and the spool keep the contract\<close>

definition world_inv :: "crypto \<Rightarrow> audit_env \<Rightarrow> Spool \<Rightarrow> world \<Rightarrow> bool" where
  "world_inv K env sp s \<longleftrightarrow> manager_inv K (wo_manager s) \<and> spool_inv env sp (wo_db s)"

definition world_room :: "world \<Rightarrow> bool" where
  "world_room s \<longleftrightarrow> int (length (db_spool (wo_db s))) < 2 ^ 63 - 1"

text \<open>The random bytes give new identifiers, and the sequence of the spool has not run out.\<close>

definition world_ready :: "world \<Rightarrow> bool" where
  "world_ready s \<longleftrightarrow> fresh_id (credentials (m_backend (wo_manager s))) (wo_entropy s) \<and>
     fresh_id (rotations (m_backend (wo_manager s))) (wo_entropy s) \<and> world_room s"

definition world_le :: "crypto \<Rightarrow> world \<Rightarrow> world \<Rightarrow> bool" where
  "world_le K s t \<longleftrightarrow> store_le K (wo_manager s) (wo_manager t) \<and> spool_le (wo_db s) (wo_db t)"

definition world_enter :: "time \<times> bytes \<Rightarrow> world \<Rightarrow> world" where
  "world_enter v s = s\<lparr>wo_now := fst v, wo_entropy := snd v\<rparr>"

lemma step_worlds [simp]:
  "snd (outcome r) = snd r" "snd (reading g s) = s"
  "snd (updating h s) = s\<lparr>wo_manager := snd (h (wo_manager s) (wo_now s))\<rparr>"
  "snd (drawing k s) = s\<lparr>wo_manager := fst (snd (k (wo_manager s) (wo_now s) (wo_entropy s))),
     wo_entropy := snd (snd (k (wo_manager s) (wo_now s) (wo_entropy s)))\<rparr>"
  by (auto simp: outcome_def reading_def updating_def drawing_def split: prod.splits sum.splits)

lemmas service_simps = manager_service_def world_ready_def

text \<open>A call of the service is one operation of the manager, or leaves it as it is.\<close>

lemma world_call:
  assumes "call (manager_service K uni) i operation f"
  shows "wo_db (snd (f s)) = wo_db s \<and>
    (wo_manager (snd (f s)) = wo_manager s \<or>
     (\<exists>x. wo_manager (snd (f s)) = manager_step K uni (wo_manager s) x \<and> (world_ready s \<longrightarrow> op_ok (wo_manager s) x)))"
  using assms
proof cases
  case (create r ctx)
  then show ?thesis by (auto simp: service_simps intro!: exI [of _ "OpCreate r (wo_now s) (wo_entropy s)"])
next
  case (replace r ctx)
  then show ?thesis by (auto simp: service_simps intro!: exI [of _ "OpReplaceInputs r (wo_now s) (wo_entropy s)"])
next
  case (update ctx u)
  then show ?thesis by (auto simp: service_simps intro!: exI [of _ "OpUpdateMetadata u (wo_now s) (wo_entropy s)"])
next
  case (retire ctx t)
  then show ?thesis by (auto simp: service_simps intro!: exI [of _ "OpRetire t (wo_now s) (wo_entropy s)"])
next
  case (register ctx b)
  then show ?thesis by (auto simp: service_simps intro!: exI [of _ "OpRegisterBinding i b (wo_now s)"])
next
  case (cancel ctx c)
  then show ?thesis by (auto simp: service_simps intro!: exI [of _ "OpCancelBinding i c (wo_now s)"])
next
  case (resolve ctx q)
  then show ?thesis by (auto simp: service_simps intro!: exI [of _ "OpResolve i q (wo_now s)"])
next
  case (start ctx)
  then show ?thesis by (auto simp: service_simps intro!: exI [of _ "OpStartRotation (wo_now s) (wo_entropy s)"])
next
  case (resume n ctx j)
  then show ?thesis by (auto simp: service_simps intro!: exI [of _ "OpResumeRotation j n (wo_now s) (wo_entropy s)"])
next
  case (finalize ctx j)
  then show ?thesis by (auto simp: service_simps intro!: exI [of _ "OpFinalizeRotation j (wo_now s)"])
next
  case (rotate ctx k)
  then show ?thesis by (auto simp: service_simps intro!: exI [of _ "OpRotateCredential k (wo_entropy s)"])
next
  case (backup ctx k)
  then show ?thesis by (auto simp: service_simps intro!: exI [of _ "OpRegisterBackup k"])
next
  case (expire ctx j)
  then show ?thesis by (auto simp: service_simps intro!: exI [of _ "OpExpireBackup j (wo_now s)"])
qed (simp_all add: manager_service_def)

lemma Record_event_step:
  "snd (snd (Record_event env sp r db ev)) = spool_step env sp db (SpoolAppend ev)"
  by (auto simp: Record_event_def split: sum.splits)

interpretation memory_http: http_boundary "manager_server K uni env sp mapper" "world_inv K env sp" world_ready world_room
  "world_le K" world_enter
proof
  fix s t u :: world and v
  show "world_le K s s" by (simp add: world_le_def store_le_refl spool_le_refl)
  show "world_le K s t \<Longrightarrow> world_le K t u \<Longrightarrow> world_le K s u"
    unfolding world_le_def using store_le_trans spool_le_trans by blast
  show "world_inv K env sp s \<Longrightarrow> world_inv K env sp (world_enter v s) \<and> world_le K s (world_enter v s)"
    by (simp add: world_inv_def world_enter_def world_le_def store_le_refl spool_le_refl)
  show "world_ready s \<Longrightarrow> world_room s" by (simp add: world_ready_def)
next
  fix s i operation f
  assume "world_inv K env sp s" "world_ready s" "call (srv_service (manager_server K uni env sp mapper)) i operation f"
  then show "world_inv K env sp (snd (f s)) \<and> world_le K s (snd (f s)) \<and> world_room (snd (f s))"
    using world_call [of K uni i operation f s] store.step_inv [of K "wo_manager s"] store.step_le [of K "wo_manager s"]
    by (auto simp: manager_server_def world_inv_def world_le_def world_room_def world_ready_def store_le_refl spool_le_refl)
next
  fix s a
  assume "world_inv K env sp s" "world_room s" "srv_auditor (manager_server K uni env sp mapper) = Some a"
  then show "world_inv K env sp (snd (au_Status a s)) \<and> world_le K s (snd (au_Status a s)) \<and> world_room (snd (au_Status a s))"
    by (auto simp: manager_server_def spool_recorder_def world_le_def store_le_refl spool_le_refl)
next
  fix s a ev
  assume "world_inv K env sp s" "world_room s" "srv_auditor (manager_server K uni env sp mapper) = Some a"
    "validate_event ev" "event_utf8 ev"
  then show "world_inv K env sp (au_Record a ev s) \<and> world_le K s (au_Record a ev s)"
    using spool.step_inv [of env sp "wo_db s" "SpoolAppend ev"] spool.step_le [of env sp "wo_db s" "SpoolAppend ev"]
      Record_event_step [of env sp "wo_recorder s" "wo_db s" ev]
    by (auto simp: manager_server_def spool_recorder_def world_inv_def world_le_def world_room_def store_le_refl split_beta)
qed

end
