(* ===== verification/Http_Runs.thy ===== *)
theory Http_Runs
  imports Transport_Service
begin

text \<open>
  The HTTP boundary over the manager and the spool: whole runs of requests, the audit trace of a
  request, identities, strict bodies, and an example server for the witnesses.
\<close>


section \<open>Runs of requests\<close>

text \<open>
  C37. Whatever requests arrive, in whatever order and from whomever, the store and the audit stay
  sound: from a new manager and an empty spool, after every sequence of HTTP requests (any method,
  path, headers, certificates and body bytes) the store invariant holds, the audit chain verifies,
  and no binding has more recorded attempts than its limit.
\<close>

theorem http_store_invariant:
  assumes "aead_correct (c_aead K)" and "keys_ok keys" and "NewManager keys schemas injectors = Inr (wo_manager s)"
    and "audit_env_ok env" and "0 \<le> sp_maximumPending sp" and "wo_db s = migrated"
    and "run_ok (request_step (manager_server K uni env sp mapper) world_enter) (request_ok world_ready world_enter) s xs"
    and "t = foldl (request_step (manager_server K uni env sp mapper) world_enter) s xs"
  shows "store_inv K (wo_manager t) \<and> Verify env sp (wo_db t) = None \<and>
    (\<forall>run mb. mget (bindings (m_backend (wo_manager t))) run = Some mb \<longrightarrow>
       card (attempts_of (m_backend (wo_manager t)) run) \<le> unat (b_MaxResolutions (mb_binding mb)))"
proof -
  have "world_inv K env sp s"
    using new_manager_inv [OF assms(1-3)] migrated_inv [OF assms(4,5)] assms(6) by (simp add: world_inv_def)
  from memory_http.requests.run_inv [OF this assms(7)] assms(8)
  have t: "manager_inv K (wo_manager t)" "spool_inv env sp (wo_db t)" by (simp_all add: world_inv_def)
  have "card (attempts_of (m_backend (wo_manager t)) run) \<le> unat (b_MaxResolutions (mb_binding mb))"
    if "mget (bindings (m_backend (wo_manager t))) run = Some mb" for run mb
  proof -
    have "binding_inv (m_backend (wo_manager t)) run mb"
      using t(1) binding_at [OF _ that] unfolding manager_inv_def by blast
    then show ?thesis by (auto simp: binding_inv_def Let_def word_le_nat_alt)
  qed
  then show ?thesis
    using t spool_inv_Verify [OF t(2)] by (simp add: manager_inv_def)
qed

section \<open>Completion events\<close>

lemma observed_record:
  assumes "srv_auditor server = Some a" and "ServeHTTP server e request s = (w, s')"
    and "\<not> (200 \<le> ow_status w \<and> ow_status w < 300 \<and> transactionallyAudited (operation_of request))"
  obtains s0 where "s' = au_Record a (completion_event (request_context server e request) request w (se_finished e)) s0"
    "requestIdentity (srv_mapper server) request = None \<longrightarrow> s0 = s"
    "\<forall>i. requestIdentity (srv_mapper server) request = Some i \<longrightarrow>
       s0 = snd (serve_route server (request_context server e request) request i (new_writer e) s)"
proof -
  define h where "h = (case requestIdentity (srv_mapper server) request of
      None \<Rightarrow> problem 401 ''workload_authentication_failed'' (new_writer e) s
    | Some i \<Rightarrow> serve_route server (request_context server e request) request i (new_writer e) s)"
  have o: "(w, s') = observe server (request_context server e request) request (se_finished e) h"
    using assms(2) by (simp add: ServeHTTP_def Let_def h_def)
  then have "fst h = w" by (metis fst_conv observe_fst)
  with o assms(1,3) have "s' = au_Record a (completion_event (request_context server e request) request w (se_finished e)) (snd h)"
    by (auto simp: observe_def split: prod.splits if_splits)
  then show ?thesis by (rule that) (auto simp: h_def)
qed

lemma route_db:
  "wo_db (snd (serve_route (manager_server K uni env sp mapper) ctx request i w s)) = wo_db s"
proof -
  let ?server = "manager_server K uni env sp mapper"
  let ?h = "serve_route ?server ctx request i w s"
  consider "refused w s ?h" | "called ?server request i w s ?h" | "status_read ?server request i w s ?h"
    using serve_route_served [of ?server request i w s ctx] unfolding handled_ok_def by blast
  then show ?thesis
  proof cases
    case 2 then show ?thesis using world_call by (auto simp: called_def Let_def manager_server_def)
  qed (auto simp: refused_def status_read_def manager_server_def spool_recorder_def)
qed

text \<open>
  C38. Every request leaves its trace: whatever is asked, by whomever, unless the answer is a success
  of an operation that the store audits in its own transaction, and as long as the spool has room,
  one row is appended to the audit chain. Its event decodes to the completion event of the request,
  with the verified workload (empty if there is none), the operation, the result class of the status
  and the reason of the problem.
\<close>

theorem completion_recorded:
  assumes inv: "world_inv K env sp s" and room: "world_room s" and pending: "int (length (pending_rows (wo_db s))) < sp_maximumPending sp"
    and path: "list_all graphic (hr_EscapedPath request)" and clock: "se_finished e \<noteq> zero_time" "marshal_time (utc (se_finished e)) \<noteq> None"
    and served: "ServeHTTP (manager_server K uni env sp mapper) e request s = (w, s')"
    and other: "\<not> (200 \<le> ow_status w \<and> ow_status w < 300 \<and> transactionallyAudited (operation_of request))"
  shows "\<exists>row ev. db_spool (wo_db s') = db_spool (wo_db s) @ [row] \<and> unmarshal_event (row_event row) = Some ev \<and>
    ev_EventType ev = EventTypeRequestCompleted \<and> ev_Operation ev = operation_of request \<and>
    ev_Result ev = fst (StableResult (ow_status w)) \<and>
    ev_ReasonCode ev = (if ow_reason w \<noteq> [] then ow_reason w else snd (StableResult (ow_status w))) \<and>
    ev_WorkloadIdentity ev = (case requestIdentity mapper request of None \<Rightarrow> [] | Some i \<Rightarrow> wi_Subject i) \<and>
    ev_RequestID ev = newRequestID (se_random e)"
proof -
  let ?server = "manager_server K uni env sp mapper"
  let ?ev = "completion_event (request_context ?server e request) request w (se_finished e)"
  have v: "validate_event ?ev" "event_utf8 ?ev"
    using completion_valid [OF path clock(1), of ?server s] served by simp_all
  obtain s0 where s': "s' = au_Record (spool_recorder env sp) ?ev s0" and s0: "wo_db s0 = wo_db s"
    using observed_record [OF _ served other, of "spool_recorder env sp"] route_db
    by (auto simp: manager_server_def) (metis option.exhaust)
  have "ev_Timestamp ?ev = utc (se_finished e)"
    by (simp add: completion_event_def Completion_def Let_def split_beta)
  then obtain t where t: "marshal_event ?ev = Some t"
    using clock(2) by (auto simp: marshal_event_def)
  have sp: "spool_inv env sp (wo_db s)" using inv by (simp add: world_inv_def)
  then obtain j where j: "ae_jsonb env t = Some j" "unmarshal_event j = Some ?ev"
    using v t unmarshal_marshal_event [OF t v(2)] unfolding spool_inv_def audit_env_ok_def by metis
  have "AppendTx env sp (wo_db s) ?ev = Inr (appended env sp (wo_db s) t j)"
    using AppendTx_result [OF sp _ t j(1)] room v(1) pending by (simp add: world_room_def)
  then have "wo_db s' = appended env sp (wo_db s) t j"
    using s' s0 by (simp add: spool_recorder_def Record_event_def)
  with j(2) show ?thesis
    by (intro exI [of _ "last (db_spool (wo_db s'))"] exI [of _ ?ev])
      (simp add: appended_def Let_def completion_event_def Completion_def split_beta request_context_def manager_server_def)
qed


section \<open>Identities\<close>

text \<open>
  C39. What a certificate can stand for: the mapper yields an identity only for exactly one SPIFFE URI
  of its trust domain, and then one of the four fixed workloads with the role as its subject, or
  an executor whose subject names its instance and is accepted by the resolution policy. The subject
  determines the identity, so no certificate can act under another workload's role.
\<close>

theorem identity_well_typed:
  assumes "Identity mapper certificate = Some i"
  shows "(\<exists>u. certificate = [u] \<and> u_Scheme u = ''spiffe'' \<and> u_Host u = sm_TrustDomain mapper \<and> u_RawQuery u = [] \<and> u_Fragment u = []) \<and>
    (wi_Role i \<in> {RoleScheduler, RoleSecretsOperator, RoleSecretsAuditor, RoleAPI} \<and> wi_Subject i = wi_Role i \<or>
     wi_Role i = RoleExecutor \<and> validExecutorIdentity (wi_Subject i) \<and>
       (\<exists>inst. validInstance inst \<and> wi_Subject i = RoleExecutor @ '':'' @ inst)) \<and>
    (\<forall>certificate' j. Identity mapper certificate' = Some j \<and> wi_Subject j = wi_Subject i \<longrightarrow> j = i)"
proof -
  have shape: "(wi_Role j \<in> {RoleScheduler, RoleSecretsOperator, RoleSecretsAuditor, RoleAPI} \<and> wi_Subject j = wi_Role j \<or>
      wi_Role j = RoleExecutor \<and> (\<exists>inst. validInstance inst \<and> wi_Subject j = RoleExecutor @ '':'' @ inst))"
    if "Identity mapper c = Some j" for c j
    using that unfolding Identity_def Let_def by (auto split: if_splits option.splits)
  have "code c \<le> (32 :: nat)" if "c \<in> set (map char_of [32, 9, 13, 10, 0 :: nat])" for c
    using that by auto
  then have blank: "\<not> ContainsAny (wi_Subject i) (map char_of [32, 9, 13, 10, 0 :: nat])" "length (wi_Subject i) \<le> 255"
    using Identity_subject_plain [OF assms]
    by (fastforce simp: plain_def graphic_def list_all_iff ContainsAny_def list_ex_iff simp del: set_map list.map)+
  have executor: "validExecutorIdentity (wi_Subject i)" if "validInstance inst" "wi_Subject i = RoleExecutor @ '':'' @ inst" for inst
    using that blank HasPrefix_append [of "RoleExecutor @ '':''" inst]
    unfolding validExecutorIdentity_def by (auto simp: validInstance_def)
  have "j = i" if "Identity mapper c = Some j" "wi_Subject j = wi_Subject i" for c j
    using shape [OF that(1)] shape [OF assms] that(2)
    by (cases i; cases j) (auto simp: role_defs)
  moreover have "\<exists>u. certificate = [u] \<and> u_Scheme u = ''spiffe'' \<and> u_Host u = sm_TrustDomain mapper \<and> u_RawQuery u = [] \<and> u_Fragment u = []"
    using assms unfolding Identity_def Let_def by (cases certificate) (auto split: if_splits)
  ultimately show ?thesis using shape [OF assms] executor by auto
qed

section \<open>Bodies\<close>

text \<open>A value inside a value, at any depth.\<close>

inductive inside :: "json \<Rightarrow> json \<Rightarrow> bool" where
  here: "inside v v"
| element: "v \<in> set vs \<Longrightarrow> inside x v \<Longrightarrow> inside x (JArray vs)"
| member: "(k, v) \<in> set kvs \<Longrightarrow> inside x v \<Longrightarrow> inside x (JObject kvs)"

inductive_cases inside_JArray: "inside x (JArray vs)"
inductive_cases inside_JObject: "inside x (JObject kvs)"
inductive_cases inside_atom: "inside x JNull" "inside x (JBool b)" "inside x (JNumber n)" "inside x (JString t)"

abbreviation distinct_keys :: "json \<Rightarrow> bool" where
  "distinct_keys v \<equiv> (\<forall>kvs. inside (JObject kvs) v \<longrightarrow> distinct (map fst kvs))"

lemma distinct_keys_JArray: "distinct_keys (JArray vs) \<longleftrightarrow> (\<forall>v \<in> set vs. distinct_keys v)"
  by (auto elim!: inside_JArray intro: inside.element)

lemma distinct_keys_JObject: "distinct_keys (JObject kvs) \<longleftrightarrow> distinct (map fst kvs) \<and> (\<forall>(k, v) \<in> set kvs. distinct_keys v)"
  by (auto elim!: inside_JObject intro: inside.here inside.member)

lemma validate_spec:
  "validateJSONValue v \<longleftrightarrow> distinct_keys v"
  "validate_object seen kvs \<longleftrightarrow>
     distinct (map fst kvs) \<and> set seen \<inter> set (map fst kvs) = {} \<and> (\<forall>(k, v) \<in> set kvs. distinct_keys v)"
  "validate_array vs \<longleftrightarrow> (\<forall>v \<in> set vs. distinct_keys v)"
proof (induction v and seen kvs and vs rule: validateJSONValue_validate_object_validate_array.induct)
  case (1 kvs) then show ?case unfolding distinct_keys_JObject by simp
next
  case (2 vs) then show ?case unfolding distinct_keys_JArray by simp
next
  case (5 seen k v kvs)
  then show ?case by auto
qed (auto elim: inside_atom)

text \<open>
  C40. The body decoder is strict: it succeeds exactly when the media type is JSON and the body, of 1
  to 1048576 bytes, is one JSON value in which no object at any depth has a key twice and which
  decodes into the fields of the request with none unknown. Too large is reported only of a longer
  body; nothing else of the request decides.
\<close>

theorem decodeJSON_strict:
  "(decodeJSON fs zero request = Inr x \<longleftrightarrow>
      hr_MediaType request = Some ''application/json'' \<and>
      (\<exists>body v. hr_Body request = Some body \<and> 1 \<le> length body \<and> length body \<le> 1048576 \<and> parse_json body = Some v \<and>
         distinct_keys v \<and> decode_struct True fs zero body = Some x)) \<and>
   (decodeJSON fs zero request = Inl errTooLarge \<longleftrightarrow>
      hr_MediaType request = Some ''application/json'' \<and> (\<exists>body. hr_Body request = Some body \<and> 1048576 < length body))"
proof -
  have n: "length body = 0 \<longleftrightarrow> \<not> 1 \<le> length body" for body :: string by (cases body) simp_all
  show ?thesis
    unfolding decodeJSON_def validate_spec(1) maxRequestBody_def
    by (cases "hr_Body request") (auto simp: n not_le Suc_le_eq split: option.splits if_splits)
qed

section \<open>Routes with two names\<close>

lemma Contains_slash: "Contains s ''/'' \<longleftrightarrow> CHR ''/'' \<in> set s"
  by (induction s) (auto simp: HasPrefix_def)

lemma TrimSuffix_slash: "CHR ''/'' \<notin> set s \<Longrightarrow> TrimSuffix s (CHR ''/'' # t) = s"
  by (auto simp: TrimSuffix_def HasSuffix_iff)

text \<open>
  A \<open>PUT\<close> to the inputs of the retire route of a credential replaces the inputs of the credential
  itself: the handler strips both suffixes.
\<close>

lemma retire_inputs_alias:
  assumes "hr_Method request = ''PUT''" and "CHR ''/'' \<notin> set i"
  shows "credentialRoute server ctx request identity (''/internal/v1/credentials/'' @ i @ ''/retire/inputs'') w s =
    credentialRoute server ctx request identity (''/internal/v1/credentials/'' @ i @ ''/inputs'') w s"
proof -
  have p: "TrimPrefix (''/internal/v1/credentials/'' @ x) ''/internal/v1/credentials/'' = x" for x by (rule TrimPrefix_append)
  have t: "TrimSuffix (i @ ''/retire/inputs'') ''/inputs'' = i @ ''/retire''" "TrimSuffix (i @ ''/inputs'') ''/inputs'' = i"
      "TrimSuffix (i @ ''/retire'') ''/retire'' = i" "TrimSuffix i ''/retire'' = i"
    using TrimSuffix_append [of "i @ ''/retire''" "''/inputs''"] TrimSuffix_append [of i] TrimSuffix_slash [OF assms(2)] by simp_all
  have h: "HasSuffix (i @ ''/retire/inputs'') ''/inputs''" "HasSuffix (i @ ''/inputs'') ''/inputs''"
      "\<not> HasSuffix (i @ ''/retire/inputs'') ''/retire''" "\<not> HasSuffix (i @ ''/inputs'') ''/retire''"
    by (simp_all add: HasSuffix_rev)
  show ?thesis
    unfolding credentialRoute_def Let_def p t assms(1) using h by simp
qed


section \<open>An example server\<close>

definition ex_mapper :: SPIFFEMapper where
  "ex_mapper = \<lparr>sm_TrustDomain = ''praetor.test''\<rparr>"

definition ex_http :: "world Server" where
  "ex_http = manager_server ex_crypto (\<lambda>_. False) ex_audit_env ex_spool ex_mapper"

definition ex_api_leaf :: "cert_uri list" where
  "ex_api_leaf = [\<lparr>u_Scheme = ''spiffe'', u_Host = ''praetor.test'', u_EscapedPath = ''/workload/praetor-api'',
     u_RawQuery = [], u_Fragment = []\<rparr>]"

definition ex_get :: http_request where
  "ex_get = \<lparr>hr_Method = ''GET'', hr_EscapedPath = ''/internal/v1/credentials/'' @ ex_credential_id,
     hr_TLS = Some \<lparr>t_HandshakeComplete = True, t_TLS13 = True, t_VerifiedChains = [[ex_api_leaf]]\<rparr>,
     hr_MediaType = None, hr_IdempotencyKeys = [], hr_Organization = ''org'', hr_Body = Some []\<rparr>"

definition ex_anonymous :: http_request where
  "ex_anonymous = ex_get\<lparr>hr_TLS := None\<rparr>"

definition ex_serving :: serving where
  "ex_serving = \<lparr>se_random = replicate 16 1, se_started = ex_now, se_finished = ex_now + 20\<rparr>"

definition ex_world :: "Manager \<Rightarrow> world" where
  "ex_world m = \<lparr>wo_manager = m, wo_now = ex_now, wo_entropy = ex_entropy, wo_db = migrated,
     wo_recorder = \<lparr>re_degraded = False\<rparr>, wo_worker = \<lparr>dw_degraded = False, dw_lastDelivered = zero_time\<rparr>\<rparr>"

lemma ex_api_identity: "requestIdentity ex_mapper ex_get = Some \<lparr>wi_Role = RoleAPI, wi_Subject = RoleAPI\<rparr>"
  unfolding requestIdentity_def by code_simp

lemma ex_anonymous_identity: "requestIdentity mapper ex_anonymous = None"
  by (simp add: requestIdentity_def ex_anonymous_def verified_leaf_def)

lemma ex_path_graphic: "list_all graphic (hr_EscapedPath ex_get)"
  by code_simp

lemma ex_finished: "se_finished ex_serving \<noteq> zero_time" "marshal_time (utc (se_finished ex_serving)) \<noteq> None"
  by code_simp+

theorem identity_well_typed_witness:
  "\<exists>i. Identity ex_mapper ex_api_leaf = Some i \<and> wi_Role i = RoleAPI \<and> wi_Subject i = RoleAPI \<and>
     (\<exists>u. ex_api_leaf = [u] \<and> u_Host u = sm_TrustDomain ex_mapper)"
proof -
  have i: "Identity ex_mapper ex_api_leaf = Some \<lparr>wi_Role = RoleAPI, wi_Subject = RoleAPI\<rparr>" by code_simp
  from identity_well_typed [OF this] i show ?thesis by auto
qed

definition ex_body :: "string \<Rightarrow> http_request" where
  "ex_body t = ex_get\<lparr>hr_MediaType := Some ''application/json'', hr_Body := Some t\<rparr>"

definition ex_sample :: string where
  "ex_sample = [CHR 0x7B, CHR 0x22] @ ''organization_id'' @ [CHR 0x22, CHR '':'', CHR 0x22, CHR ''o'', CHR 0x22, CHR 0x7D]"

definition ex_twice :: string where
  "ex_twice = [CHR 0x7B, CHR 0x22] @ ''a'' @ [CHR 0x22] @ '':1,'' @ [CHR 0x22] @ ''a'' @ [CHR 0x22] @ '':1}''"

lemma ex_twice_refused: "decodeJSON fs zero (ex_body ex_twice) = Inl errInvalidJSON"
proof -
  have "parse_json ex_twice = Some (JObject [(''a'', JNumber ''1''), (''a'', JNumber ''1'')])" "ex_twice \<noteq> []" "length ex_twice \<le> 20"
    by code_simp+
  then show ?thesis by (simp add: decodeJSON_def ex_body_def maxRequestBody_def)
qed

lemma ex_sample_decoded: "decode_struct True rotate_credential_fields [] ex_sample = Some ''o''"
    "parse_json ex_sample = Some (JObject [(''organization_id'', JString ''o'')])" "1 \<le> length ex_sample" "length ex_sample \<le> 30"
  by code_simp+

theorem decodeJSON_strict_witness: "decodeJSON rotate_credential_fields [] (ex_body ex_sample) = Inr ''o''"
proof -
  have "validateJSONValue (JObject [(''organization_id'', JString ''o'')])" by simp
  then have "distinct_keys (JObject [(''organization_id'', JString ''o'')])" unfolding validate_spec(1) .
  with decodeJSON_strict [of rotate_credential_fields "[]" "ex_body ex_sample" "''o''"] ex_sample_decoded show ?thesis
    by (auto simp: ex_body_def)
qed

theorem role_separation_witness:
  "\<exists>(status, reason) \<in> set ((401, ''workload_authentication_failed'') # refusals).
     ServeHTTP ex_http ex_serving ex_anonymous (ex_world ex_created) =
       (writeProblem status reason (new_writer ex_serving),
        recorded ex_http (completion_event (request_context ex_http ex_serving ex_anonymous) ex_anonymous
          (writeProblem status reason (new_writer ex_serving)) (se_finished ex_serving)) (ex_world ex_created))"
  by (rule role_separation) (simp add: authorized_def ex_anonymous_identity)

lemma ex_world_inv: "world_inv ex_crypto ex_audit_env ex_spool (ex_world ex_created)"
  using ex_created_inv ex_migrated_inv by (simp add: world_inv_def ex_world_def)

theorem completion_recorded_witness:
  "\<exists>row ev w s'. ServeHTTP ex_http ex_serving ex_anonymous (ex_world ex_created) = (w, s') \<and>
     db_spool (wo_db s') = [row] \<and> unmarshal_event (row_event row) = Some ev \<and> ev_Result ev = ResultDenied \<and>
     ev_ReasonCode ev = ''workload_authentication_failed'' \<and> ev_Operation ev = OperationCredentialRead \<and> ev_WorkloadIdentity ev = []"
proof -
  obtain w s' where r: "ServeHTTP ex_http ex_serving ex_anonymous (ex_world ex_created) = (w, s')" by fastforce
  then have w: "w = writeProblem 401 ''workload_authentication_failed'' (new_writer ex_serving)"
    by (auto simp: ServeHTTP_def Let_def ex_anonymous_identity observe_problem)
  have op: "operation_of ex_anonymous = OperationCredentialRead" by code_simp
  have "world_room (ex_world ex_created)" "int (length (pending_rows (wo_db (ex_world ex_created)))) < sp_maximumPending ex_spool"
    by (simp_all add: world_room_def ex_world_def migrated_def pending_rows_def ex_spool_def)
  from completion_recorded [OF ex_world_inv this _ ex_finished r [unfolded ex_http_def]] w op ex_path_graphic r show ?thesis
    by (auto simp: ex_anonymous_def StableResult_def ex_anonymous_identity [unfolded ex_anonymous_def] ex_world_def migrated_def)
qed


lemma ex_get_route:
  "serve_route ex_http ctx ex_get \<lparr>wi_Role = RoleAPI, wi_Subject = RoleAPI\<rparr> w (ex_world ex_created) =
   (writeJSON 200 (marshal_metadata ex_metadata) w, ex_world ex_created)"
proof -
  have path: "hr_EscapedPath ex_get \<noteq> ''/internal/v1/security-status''"
    "\<not> HasPrefix (hr_EscapedPath ex_get) ''/internal/v1/operations/''" "HasPrefix (hr_EscapedPath ex_get) ''/internal/v1/credentials/''"
    "TrimPrefix (hr_EscapedPath ex_get) ''/internal/v1/credentials/'' = ex_credential_id"
    "\<not> HasSuffix ex_credential_id ''/inputs''" "\<not> HasSuffix ex_credential_id ''/retire''" "\<not> Contains ex_credential_id ''/''"
    "TrimSpace ''org'' = ''org''" "ex_credential_id \<noteq> []"
    by code_simp+
  have "hr_Method ex_get = ''GET''" "hr_Organization ex_get = ''org''" by (simp_all add: ex_get_def)
  moreover have "GetContext ex_created ''org'' ex_credential_id = Inr ex_metadata"
    by (simp add: GetContext_def Get_be_def)
  ultimately show ?thesis
    using path by (simp add: serve_route_def credentialRoute_def Let_def TrimSuffix_def ex_http_def manager_server_def
        manager_service_def reading_def answer_def ex_world_def)
qed

lemma ex_get_served:
  "ServeHTTP ex_http ex_serving ex_get (ex_world ex_created) =
   (writeJSON 200 (marshal_metadata ex_metadata) (new_writer ex_serving),
    recorded ex_http (completion_event (request_context ex_http ex_serving ex_get) ex_get
      (writeJSON 200 (marshal_metadata ex_metadata) (new_writer ex_serving)) (se_finished ex_serving)) (ex_world ex_created))"
proof -
  have "requestIdentity (srv_mapper ex_http) ex_get = Some \<lparr>wi_Role = RoleAPI, wi_Subject = RoleAPI\<rparr>"
    using ex_api_identity by (simp add: ex_http_def manager_server_def)
  moreover have "\<not> transactionallyAudited (operation_of ex_get)" by code_simp
  ultimately show ?thesis
    using ex_get_route by (auto simp: ServeHTTP_def Let_def observe_def recorded_def split: option.splits)
qed


theorem http_store_invariant_witness:
  "\<exists>t. t = foldl (request_step ex_http world_enter) (ex_world ex_manager) [((ex_now, ex_entropy), ex_serving, ex_get)] \<and>
     store_inv ex_crypto (wo_manager t) \<and> Verify ex_audit_env ex_spool (wo_db t) = None"
proof -
  let ?xs = "[((ex_now, ex_entropy), ex_serving, ex_get)]"
  have r: "run_ok (request_step ex_http world_enter) (request_ok world_ready world_enter) (ex_world ex_manager) ?xs"
    using ex_path_graphic ex_finished
    by (simp add: request_ok_def world_enter_def world_ready_def world_room_def ex_world_def ex_manager_def newMemoryBackend_def
        fresh_id_def ex_newUUID migrated_def)
  have m: "NewManager ex_keys (Some Validate) [Render] = Inr (wo_manager (ex_world ex_manager))"
    using ex_NewManager by (simp add: ex_world_def)
  show ?thesis
    using http_store_invariant [OF ex_crypto_correct ex_keys_ok m ex_audit_env_ok _ _ r [unfolded ex_http_def] refl]
    by (simp add: ex_spool_def ex_world_def ex_http_def)
qed

end
