(* ===== verification/Postgres_Tables.thy ===== *)
theory Postgres_Tables
  imports Credential_Json Audit_Spool Memory_Backend
begin

text \<open>
  The tables of \<open>credential/migrations\<close> and the statements the PostgreSQL backend runs on them.
  A table is the list of its rows. A statement checks its parameters against the types of the
  columns and the new row against the constraints and triggers of the migration, and yields the
  new tables or an error; an error is a unique violation (SQLSTATE 23505) or another one, the only
  distinction the code makes. PostgreSQL refuses a row on its checks before it inserts into the
  indexes, and verifies foreign keys last.

  What PostgreSQL and its driver do with a value is a parameter: which texts a \<open>text\<close> column
  accepts, the \<open>uuid\<close> a text denotes, the instant a \<open>timestamptz\<close> column keeps and the zone in
  which it reads back, the text of a \<open>jsonb\<close> column. An empty Go slice is taken to be nil, which is
  \<open>NULL\<close>. Columns of type \<open>integer\<close> and \<open>bigint\<close> hold the numbers below 2^31 and 2^63.
\<close>

section \<open>State\<close>

record pg_env =
  pe_text :: "string \<Rightarrow> bool"
  pe_uuid :: "string \<Rightarrow> string option"
  pe_time :: "time \<Rightarrow> time option"
  pe_zone :: "time \<Rightarrow> zoned"
  pe_audit :: audit_env

record version_row =
  vr_credential_id :: string
  vr_version :: "64 word"
  vr_envelope :: string
  vr_master_key_id :: string
  vr_created_at :: time

record idempotency_row =
  ir_organization_id :: string
  ir_idempotency_key :: string
  ir_request_digest :: bytes
  ir_response_metadata :: string
  ir_credential_id :: string
  ir_created_at :: time

text \<open>A binding with its nullable column apart: \<open>b_CancelReason\<close> of \<open>bw_binding\<close> is not used.\<close>

record binding_row =
  bw_binding :: Binding
  bw_cancel_reason :: "string option"
  bw_idempotency_key :: string
  bw_request_digest :: bytes

record attempt_row =
  at_attempt_id :: string
  at_run_id :: string
  at_executor_identity :: string
  at_request_digest :: bytes
  at_created_at :: time
  at_expires_at :: time

text \<open>A rotation with its nullable column apart: \<open>ro_FinalizedAt\<close> of \<open>rw_rotation\<close> is not used.\<close>

record rotation_row =
  rw_rotation :: Rotation
  rw_finalized_at :: "time option"

record backup_row =
  bs_id :: string
  bs_artifact_sha256 :: string
  bs_key_ids :: "string list"
  bs_created_at :: time
  bs_retain_until :: time
  bs_expired_at :: "time option"

text \<open>The row of \<open>credentials\<close> has the columns of \<open>Metadata\<close>.\<close>

record pg_db =
  pg_credentials :: "Metadata list"
  pg_versions :: "version_row list"
  pg_idempotency :: "idempotency_row list"
  pg_bindings :: "binding_row list"
  pg_attempts :: "attempt_row list"
  pg_rotations :: "rotation_row list"
  pg_backups :: "backup_row list"
  pg_audit :: audit_db

definition migrated_tables :: pg_db where
  "migrated_tables = \<lparr>pg_credentials = [], pg_versions = [], pg_idempotency = [], pg_bindings = [], pg_attempts = [],
     pg_rotations = [], pg_backups = [], pg_audit = migrated\<rparr>"

section \<open>Values\<close>

datatype sql_error = UniqueViolation | StatementFailed

definition int4 :: "32 word \<Rightarrow> bool" where
  "int4 w \<longleftrightarrow> unat w < 2 ^ 31"

definition int8 :: "64 word \<Rightarrow> bool" where
  "int8 w \<longleftrightarrow> unat w < 2 ^ 63"

text \<open>A check constraint, and the result of a statement that passed its checks.\<close>

definition checked :: "bool \<Rightarrow> sql_error + 'a \<Rightarrow> sql_error + 'a" where
  "checked b r = (if b then r else Inl StatementFailed)"

definition given :: "'a option \<Rightarrow> ('a \<Rightarrow> sql_error + 'b) \<Rightarrow> sql_error + 'b" where
  "given x f = (case x of None \<Rightarrow> Inl StatementFailed | Some v \<Rightarrow> f v)"

definition unique_index :: "bool \<Rightarrow> sql_error + 'a \<Rightarrow> sql_error + 'a" where
  "unique_index b r = (if b then r else Inl UniqueViolation)"

section \<open>Migrations\<close>

text \<open>
  \<open>ApplyPostgresMigrations\<close> keeps the versions it has applied in a table. A script that creates
  a table fails when the table is there: \<open>sch_scripts\<close> are the scripts that have run.
\<close>

record schema =
  sch_versions :: "nat list"
  sch_scripts :: "nat list"

fun apply_migrations :: "nat list \<Rightarrow> schema \<Rightarrow> schema option" where
  "apply_migrations [] s = Some s"
| "apply_migrations (v # vs) s =
     (if v \<in> set (sch_versions s) then apply_migrations vs s
      else if v \<in> set (sch_scripts s) then None
      else apply_migrations vs (s\<lparr>sch_versions := sch_versions s @ [v], sch_scripts := sch_scripts s @ [v]\<rparr>))"

definition ApplyPostgresMigrations :: "schema \<Rightarrow> cred_error option \<times> schema" where
  "ApplyPostgresMigrations s =
     (case apply_migrations [1, 2, 3, 4] s of None \<Rightarrow> (Some ErrStorage, s) | Some s' \<Rightarrow> (None, s'))"

section \<open>Credentials\<close>

definition insert_credential :: "pg_env \<Rightarrow> pg_db \<Rightarrow> Metadata \<Rightarrow> sql_error + pg_db" where
  "insert_credential env db m =
     given (pe_uuid env (md_ID m)) (\<lambda>i. given (pe_time env (md_CreatedAt m)) (\<lambda>created.
     given (pe_time env (md_UpdatedAt m)) (\<lambda>updated.
     checked (list_all (pe_text env) ([md_OrganizationID m, md_Name m, md_CredentialType m] @ md_SecretFields m) \<and>
       int4 (md_SchemaVersion m) \<and> int8 (md_Version m))
     (checked (md_OrganizationID m \<noteq> [] \<and> md_Name m \<noteq> [] \<and> md_CredentialType m \<noteq> [] \<and> 0 < md_SchemaVersion m \<and>
       0 < md_Version m \<and> md_SecretFields m \<noteq> [] \<and> created \<le> updated)
     (unique_index (i \<notin> md_ID ` set (pg_credentials db))
     (Inr (db\<lparr>pg_credentials := pg_credentials db @ [m\<lparr>md_ID := i, md_CreatedAt := created, md_UpdatedAt := updated\<rparr>]\<rparr>)))))))"

definition insert_version ::
  "pg_env \<Rightarrow> pg_db \<Rightarrow> string \<Rightarrow> 64 word \<Rightarrow> string \<Rightarrow> string \<Rightarrow> time \<Rightarrow> sql_error + pg_db" where
  "insert_version env db credentialID version recordJSON masterKeyID createdAt =
     given (pe_uuid env credentialID) (\<lambda>i. given (ae_jsonb (pe_audit env) recordJSON) (\<lambda>envelope.
     given (pe_time env createdAt) (\<lambda>created.
     checked (pe_text env masterKeyID \<and> int8 version)
     (checked (0 < version \<and> masterKeyID \<noteq> [] \<and> object_members envelope \<noteq> None)
     (unique_index (\<not> list_ex (\<lambda>r. vr_credential_id r = i \<and> vr_version r = version) (pg_versions db))
     (checked (i \<in> md_ID ` set (pg_credentials db))
     (Inr (db\<lparr>pg_versions := pg_versions db @ [\<lparr>vr_credential_id = i, vr_version = version, vr_envelope = envelope,
        vr_master_key_id = masterKeyID, vr_created_at = created\<rparr>]\<rparr>))))))))"

definition insert_idempotency ::
  "pg_env \<Rightarrow> pg_db \<Rightarrow> string \<Rightarrow> string \<Rightarrow> bytes \<Rightarrow> string \<Rightarrow> string \<Rightarrow> time \<Rightarrow> sql_error + pg_db" where
  "insert_idempotency env db organizationID idempotencyKey digest metadataJSON credentialID createdAt =
     given (pe_uuid env credentialID) (\<lambda>i. given (ae_jsonb (pe_audit env) metadataJSON) (\<lambda>response.
     given (pe_time env createdAt) (\<lambda>created.
     checked (pe_text env organizationID \<and> pe_text env idempotencyKey)
     (checked (organizationID \<noteq> [] \<and> idempotencyKey \<noteq> [] \<and> length digest = 32 \<and> object_members response \<noteq> None)
     (unique_index (\<not> list_ex (\<lambda>r. ir_organization_id r = organizationID \<and> ir_idempotency_key r = idempotencyKey) (pg_idempotency db))
     (checked (i \<in> md_ID ` set (pg_credentials db))
     (Inr (db\<lparr>pg_idempotency := pg_idempotency db @ [\<lparr>ir_organization_id = organizationID,
        ir_idempotency_key = idempotencyKey, ir_request_digest = digest, ir_response_metadata = response,
        ir_credential_id = i, ir_created_at = created\<rparr>]\<rparr>))))))))"

definition select_idempotency :: "pg_env \<Rightarrow> pg_db \<Rightarrow> string \<Rightarrow> string \<Rightarrow> sql_error + idempotency_row option" where
  "select_idempotency env db organizationID idempotencyKey =
     checked (pe_text env organizationID \<and> pe_text env idempotencyKey)
     (Inr (find (\<lambda>r. ir_organization_id r = organizationID \<and> ir_idempotency_key r = idempotencyKey) (pg_idempotency db)))"

text \<open>
  \<open>UPDATE credentials\<close>: the number of rows and the new tables. The columns of a credential's
  identity are not set, so the trigger that guards them has nothing to refuse.
\<close>

definition update_credentials ::
  "pg_env \<Rightarrow> pg_db \<Rightarrow> Metadata \<Rightarrow> string \<Rightarrow> string \<Rightarrow> 64 word \<Rightarrow> sql_error + nat \<times> pg_db" where
  "update_credentials env db m credentialID organizationID expectedVersion =
     given (pe_uuid env credentialID) (\<lambda>i. given (pe_time env (md_UpdatedAt m)) (\<lambda>updated.
     checked (list_all (pe_text env) ([md_Name m, organizationID] @ md_SecretFields m) \<and> int8 (md_Version m) \<and> int8 expectedVersion)
     (let hit = (\<lambda>c. md_ID c = i \<and> md_OrganizationID c = organizationID \<and> md_Version c = expectedVersion);
          rows = filter hit (pg_credentials db) in
      checked (list_all (\<lambda>c. md_Name m \<noteq> [] \<and> 0 < md_Version m \<and> md_SecretFields m \<noteq> [] \<and> md_CreatedAt c \<le> updated) rows)
      (Inr (length rows, db\<lparr>pg_credentials := map (\<lambda>c. if hit c
         then c\<lparr>md_Name := md_Name m, md_Version := md_Version m, md_State := md_State m,
                md_SecretFields := md_SecretFields m, md_UpdatedAt := updated\<rparr>
         else c) (pg_credentials db)\<rparr>)))))"

definition select_credential :: "pg_env \<Rightarrow> pg_db \<Rightarrow> string \<Rightarrow> string \<Rightarrow> sql_error + Metadata option" where
  "select_credential env db organizationID credentialID =
     given (pe_uuid env credentialID) (\<lambda>i. checked (pe_text env organizationID)
     (Inr (find (\<lambda>c. md_ID c = i \<and> md_OrganizationID c = organizationID) (pg_credentials db))))"

definition find_version :: "pg_db \<Rightarrow> string \<Rightarrow> 64 word \<Rightarrow> version_row option" where
  "find_version db i v = find (\<lambda>r. vr_credential_id r = i \<and> vr_version r = v) (pg_versions db)"

text \<open>The join of a credential with its current version.\<close>

definition select_current :: "pg_env \<Rightarrow> pg_db \<Rightarrow> string \<Rightarrow> string \<Rightarrow> sql_error + (Metadata \<times> version_row) option" where
  "select_current env db organizationID credentialID =
     (case select_credential env db organizationID credentialID of Inl e \<Rightarrow> Inl e
      | Inr None \<Rightarrow> Inr None
      | Inr (Some c) \<Rightarrow> Inr (map_option (Pair c) (find_version db (md_ID c) (md_Version c))))"

text \<open>The join of a credential with one of its versions.\<close>

definition select_version ::
  "pg_env \<Rightarrow> pg_db \<Rightarrow> string \<Rightarrow> 64 word \<Rightarrow> string \<Rightarrow> sql_error + (Metadata \<times> version_row) option" where
  "select_version env db credentialID version organizationID =
     (case select_credential env db organizationID credentialID of Inl e \<Rightarrow> Inl e
      | Inr c \<Rightarrow> checked (int8 version) (Inr (case c of None \<Rightarrow> None
          | Some m \<Rightarrow> map_option (Pair m) (find_version db (md_ID m) version))))"

section \<open>Bindings and attempts\<close>

definition like_executor :: "string \<Rightarrow> bool" where
  "like_executor s \<longleftrightarrow> HasPrefix s ''praetor-executor:''"

definition binding_checks :: "binding_row \<Rightarrow> bool" where
  "binding_checks r \<longleftrightarrow> (let b = bw_binding r in
     b_OrganizationID b \<noteq> [] \<and> 0 < b_CredentialVersion b \<and> like_executor (b_ExecutorIdentity b) \<and>
     0 < b_MaxResolutions b \<and> b_ResolutionCount b \<le> b_MaxResolutions b \<and> bw_idempotency_key r \<noteq> [] \<and>
     length (bw_request_digest r) = 32 \<and> b_NotBefore b < b_ExpiresAt b \<and> b_CreatedAt b \<le> b_UpdatedAt b \<and>
     (b_State b = BindingCanceled) = (bw_cancel_reason r \<noteq> None))"

definition insert_binding :: "pg_env \<Rightarrow> pg_db \<Rightarrow> Binding \<Rightarrow> string \<Rightarrow> bytes \<Rightarrow> time \<Rightarrow> sql_error + pg_db" where
  "insert_binding env db b idempotencyKey digest now =
     given (pe_uuid env (b_RunID b)) (\<lambda>run. given (pe_uuid env (b_DispatchID b)) (\<lambda>dispatch.
     given (pe_uuid env (b_CredentialID b)) (\<lambda>i. given (pe_time env (b_NotBefore b)) (\<lambda>notBefore.
     given (pe_time env (b_ExpiresAt b)) (\<lambda>expires. given (pe_time env now) (\<lambda>created.
     checked (list_all (pe_text env) [b_OrganizationID b, b_ExecutorIdentity b, idempotencyKey] \<and>
       int8 (b_CredentialVersion b) \<and> int4 (b_MaxResolutions b))
     (let row = \<lparr>bw_binding = b\<lparr>b_RunID := run, b_DispatchID := dispatch, b_CredentialID := i, b_NotBefore := notBefore,
             b_ExpiresAt := expires, b_ResolutionCount := 0, b_CreatedAt := created, b_UpdatedAt := created\<rparr>,
           bw_cancel_reason = None, bw_idempotency_key = idempotencyKey, bw_request_digest = digest\<rparr> in
      checked (binding_checks row)
      (unique_index (\<not> list_ex (\<lambda>r. b_RunID (bw_binding r) = run \<or> b_DispatchID (bw_binding r) = dispatch \<or>
         b_OrganizationID (bw_binding r) = b_OrganizationID b \<and> bw_idempotency_key r = idempotencyKey) (pg_bindings db))
      (checked (find_version db i (b_CredentialVersion b) \<noteq> None)
      (Inr (db\<lparr>pg_bindings := pg_bindings db @ [row]\<rparr>)))))))))))"

text \<open>
  \<open>UPDATE run_bindings\<close> by run id. The trigger refuses a smaller count and a change of a terminal
  state; the identity columns are not set.
\<close>

definition binding_trigger :: "binding_row \<Rightarrow> binding_row \<Rightarrow> bool" where
  "binding_trigger old new \<longleftrightarrow>
     b_ResolutionCount (bw_binding old) \<le> b_ResolutionCount (bw_binding new) \<and>
     (b_State (bw_binding old) \<in> {BindingCanceled, BindingExpired, BindingExhausted} \<longrightarrow>
        b_State (bw_binding new) = b_State (bw_binding old))"

definition update_binding ::
  "pg_env \<Rightarrow> pg_db \<Rightarrow> string \<Rightarrow> time \<Rightarrow> (binding_row \<Rightarrow> binding_row) \<Rightarrow> sql_error + pg_db" where
  "update_binding env db runID now change =
     given (pe_uuid env runID) (\<lambda>run. given (pe_time env now) (\<lambda>updated.
     let hit = (\<lambda>r. b_RunID (bw_binding r) = run);
         new = (\<lambda>r. let r' = change r in r'\<lparr>bw_binding := (bw_binding r')\<lparr>b_UpdatedAt := updated\<rparr>\<rparr>) in
     checked (list_all (\<lambda>r. hit r \<longrightarrow> binding_checks (new r) \<and> binding_trigger r (new r)) (pg_bindings db))
     (Inr (db\<lparr>pg_bindings := map (\<lambda>r. if hit r then new r else r) (pg_bindings db)\<rparr>))))"

definition select_binding :: "pg_env \<Rightarrow> pg_db \<Rightarrow> string \<Rightarrow> sql_error + binding_row option" where
  "select_binding env db runID =
     given (pe_uuid env runID) (\<lambda>run. Inr (find (\<lambda>r. b_RunID (bw_binding r) = run) (pg_bindings db)))"

definition select_registration :: "pg_env \<Rightarrow> pg_db \<Rightarrow> string \<Rightarrow> string \<Rightarrow> sql_error + binding_row option" where
  "select_registration env db organizationID idempotencyKey =
     checked (pe_text env organizationID \<and> pe_text env idempotencyKey)
     (Inr (find (\<lambda>r. b_OrganizationID (bw_binding r) = organizationID \<and> bw_idempotency_key r = idempotencyKey) (pg_bindings db)))"

definition insert_attempt ::
  "pg_env \<Rightarrow> pg_db \<Rightarrow> string \<Rightarrow> string \<Rightarrow> string \<Rightarrow> bytes \<Rightarrow> time \<Rightarrow> time \<Rightarrow> sql_error + pg_db" where
  "insert_attempt env db attemptID runID executor digest now expiry =
     given (pe_uuid env attemptID) (\<lambda>a. given (pe_uuid env runID) (\<lambda>run. given (pe_time env now) (\<lambda>created.
     given (pe_time env expiry) (\<lambda>expires. checked (pe_text env executor)
     (checked (like_executor executor \<and> length digest = 32 \<and> created < expires)
     (unique_index (a \<notin> at_attempt_id ` set (pg_attempts db))
     (checked (list_ex (\<lambda>r. b_RunID (bw_binding r) = run) (pg_bindings db))
     (Inr (db\<lparr>pg_attempts := pg_attempts db @ [\<lparr>at_attempt_id = a, at_run_id = run, at_executor_identity = executor,
        at_request_digest = digest, at_created_at = created, at_expires_at = expires\<rparr>]\<rparr>)))))))))"

definition select_attempt :: "pg_env \<Rightarrow> pg_db \<Rightarrow> string \<Rightarrow> sql_error + attempt_row option" where
  "select_attempt env db attemptID =
     given (pe_uuid env attemptID) (\<lambda>a. Inr (find (\<lambda>r. at_attempt_id r = a) (pg_attempts db)))"

section \<open>Rotations\<close>

definition active_row :: "rotation_row \<Rightarrow> bool" where
  "active_row r \<longleftrightarrow> ro_State (rw_rotation r) \<noteq> RotationFinalized"

definition rotation_checks :: "rotation_row \<Rightarrow> bool" where
  "rotation_checks r \<longleftrightarrow> (let x = rw_rotation r in
     ro_SourceKeyID x \<noteq> [] \<and> ro_TargetKeyID x \<noteq> [] \<and> 0 \<le> ro_TotalRecords x \<and> 0 \<le> ro_ProcessedRecords x \<and>
     ro_ProcessedRecords x \<le> ro_TotalRecords x \<and> ro_SourceKeyID x \<noteq> ro_TargetKeyID x \<and>
     ro_CreatedAt x \<le> ro_UpdatedAt x \<and> (ro_State x = RotationFinalized) = (rw_finalized_at r \<noteq> None))"

definition insert_rotation :: "pg_env \<Rightarrow> pg_db \<Rightarrow> Rotation \<Rightarrow> sql_error + pg_db" where
  "insert_rotation env db x =
     given (pe_uuid env (ro_ID x)) (\<lambda>i. given (pe_time env (ro_CreatedAt x)) (\<lambda>created.
     checked (pe_text env (ro_SourceKeyID x) \<and> pe_text env (ro_TargetKeyID x))
     (let row = \<lparr>rw_rotation = x\<lparr>ro_ID := i, ro_ProcessedRecords := 0, ro_CreatedAt := created, ro_UpdatedAt := created\<rparr>,
            rw_finalized_at = None\<rparr> in
      checked (rotation_checks row)
      (unique_index (\<not> list_ex (\<lambda>r. ro_ID (rw_rotation r) = i \<or> active_row r \<and> active_row row) (pg_rotations db))
      (Inr (db\<lparr>pg_rotations := pg_rotations db @ [row]\<rparr>))))))"

definition update_rotation ::
  "pg_env \<Rightarrow> pg_db \<Rightarrow> string \<Rightarrow> rotation_state \<Rightarrow> int option \<Rightarrow> time \<Rightarrow> time option \<Rightarrow> sql_error + pg_db" where
  "update_rotation env db rotationID state processed now finalized =
     given (pe_uuid env rotationID) (\<lambda>i. given (pe_time env now) (\<lambda>updated.
     given (case finalized of None \<Rightarrow> Some None | Some t \<Rightarrow> map_option Some (pe_time env t)) (\<lambda>fin.
     let hit = (\<lambda>r. ro_ID (rw_rotation r) = i);
         new = (\<lambda>r. let x = rw_rotation r in
           r\<lparr>rw_rotation := x\<lparr>ro_State := state, ro_UpdatedAt := updated,
                 ro_ProcessedRecords := (case processed of None \<Rightarrow> ro_ProcessedRecords x | Some n \<Rightarrow> n)\<rparr>,
             rw_finalized_at := (case fin of None \<Rightarrow> rw_finalized_at r | Some t \<Rightarrow> Some t)\<rparr>);
         rows = map (\<lambda>r. if hit r then new r else r) (pg_rotations db) in
     checked (list_all (\<lambda>r. hit r \<longrightarrow> rotation_checks (new r)) (pg_rotations db))
     (unique_index (length (filter active_row rows) \<le> 1)
     (Inr (db\<lparr>pg_rotations := rows\<rparr>))))))"

definition select_rotation :: "pg_env \<Rightarrow> pg_db \<Rightarrow> string \<Rightarrow> sql_error + rotation_row option" where
  "select_rotation env db rotationID =
     given (pe_uuid env rotationID) (\<lambda>i. Inr (find (\<lambda>r. ro_ID (rw_rotation r) = i) (pg_rotations db)))"

definition references :: "pg_db \<Rightarrow> string \<Rightarrow> version_row list" where
  "references db key = filter (\<lambda>r. vr_master_key_id r = key) (pg_versions db)"

definition count_references :: "pg_env \<Rightarrow> pg_db \<Rightarrow> string \<Rightarrow> sql_error + int" where
  "count_references env db key = checked (pe_text env key) (Inr (int (length (references db key))))"

text \<open>
  \<open>UPDATE credential_versions\<close>: the rows of a version, of those still under a given key where the
  statement says so.
\<close>

definition update_version ::
  "pg_env \<Rightarrow> pg_db \<Rightarrow> string \<Rightarrow> string \<Rightarrow> string \<Rightarrow> 64 word \<Rightarrow> string option \<Rightarrow> sql_error + nat \<times> pg_db" where
  "update_version env db encoded masterKeyID credentialID version source =
     given (pe_uuid env credentialID) (\<lambda>i. given (ae_jsonb (pe_audit env) encoded) (\<lambda>envelope.
     checked (pe_text env masterKeyID \<and> int8 version \<and> (case source of None \<Rightarrow> True | Some k \<Rightarrow> pe_text env k))
     (let hit = (\<lambda>r. vr_credential_id r = i \<and> vr_version r = version \<and>
            (case source of None \<Rightarrow> True | Some k \<Rightarrow> vr_master_key_id r = k));
          n = length (filter hit (pg_versions db)) in
      checked (n = 0 \<or> masterKeyID \<noteq> [] \<and> object_members envelope \<noteq> None)
      (Inr (n, db\<lparr>pg_versions := map (\<lambda>r. if hit r then r\<lparr>vr_envelope := envelope, vr_master_key_id := masterKeyID\<rparr> else r)
         (pg_versions db)\<rparr>)))))"

text \<open>The versions with their credentials in the order of credential and version, at most \<open>limit\<close>.\<close>

definition versions_by_id :: "version_row list \<Rightarrow> version_row list" where
  "versions_by_id rs = sort_key vr_credential_id (sort_key vr_version rs)"

definition join_credentials :: "pg_db \<Rightarrow> version_row list \<Rightarrow> (Metadata \<times> version_row) list" where
  "join_credentials db rs = concat (map (\<lambda>r. map (\<lambda>c. (c, r)) (filter (\<lambda>c. md_ID c = vr_credential_id r) (pg_credentials db))) rs)"

definition select_versions :: "pg_db \<Rightarrow> version_row list \<Rightarrow> int \<Rightarrow> sql_error + (Metadata \<times> version_row) list" where
  "select_versions db rs limit =
     checked (0 \<le> limit) (Inr (take (nat limit) (join_credentials db (versions_by_id rs))))"

section \<open>Backups\<close>

definition backup_checks :: "backup_row \<Rightarrow> bool" where
  "backup_checks r \<longleftrightarrow> bs_id r \<noteq> [] \<and> length (bs_artifact_sha256 r) = 64 \<and> list_all lower_hex (bs_artifact_sha256 r) \<and>
     bs_key_ids r \<noteq> [] \<and> bs_created_at r \<le> bs_retain_until r \<and>
     (case bs_expired_at r of None \<Rightarrow> True | Some t \<Rightarrow> bs_created_at r \<le> t)"

definition insert_backup :: "pg_env \<Rightarrow> pg_db \<Rightarrow> BackupSet \<Rightarrow> sql_error + pg_db" where
  "insert_backup env db k =
     given (pe_time env (z_instant (bk_CreatedAt k))) (\<lambda>created. given (pe_time env (z_instant (bk_RetainUntil k))) (\<lambda>retain.
     checked (list_all (pe_text env) ([bk_ID k, bk_ArtifactSHA256 k] @ bk_KeyIDs k))
     (let row = \<lparr>bs_id = bk_ID k, bs_artifact_sha256 = bk_ArtifactSHA256 k, bs_key_ids = bk_KeyIDs k,
            bs_created_at = created, bs_retain_until = retain, bs_expired_at = None\<rparr> in
      checked (backup_checks row)
      (unique_index (bk_ID k \<notin> bs_id ` set (pg_backups db))
      (Inr (db\<lparr>pg_backups := pg_backups db @ [row]\<rparr>))))))"

definition select_backup :: "pg_env \<Rightarrow> pg_db \<Rightarrow> string \<Rightarrow> sql_error + backup_row option" where
  "select_backup env db i = checked (pe_text env i) (Inr (find (\<lambda>r. bs_id r = i) (pg_backups db)))"

text \<open>\<open>UPDATE backup_sets ... RETURNING\<close>: the row after the update, if there is one.\<close>

definition expired_row :: "time \<Rightarrow> backup_row \<Rightarrow> backup_row" where
  "expired_row t r = r\<lparr>bs_expired_at := Some (case bs_expired_at r of None \<Rightarrow> t | Some u \<Rightarrow> u)\<rparr>"

definition expire_backup :: "pg_env \<Rightarrow> pg_db \<Rightarrow> string \<Rightarrow> time \<Rightarrow> sql_error + (backup_row \<times> pg_db) option" where
  "expire_backup env db i now =
     given (pe_time env now) (\<lambda>t. checked (pe_text env i)
     (case find (\<lambda>r. bs_id r = i) (pg_backups db) of None \<Rightarrow> Inr None
      | Some r \<Rightarrow> checked (backup_checks (expired_row t r))
          (Inr (Some (expired_row t r, db\<lparr>pg_backups := map (\<lambda>r. if bs_id r = i then expired_row t r else r) (pg_backups db)\<rparr>)))))"

end
