(* ===== verification/Postgres_Backend.thy ===== *)
theory Postgres_Backend
  imports Postgres_Tables
begin

text \<open>
  The PostgreSQL implementation of the \<open>backend\<close> interface (\<open>credential/postgres.go\<close>,
  \<open>postgres_resolution.go\<close>, \<open>postgres_rotation.go\<close>, \<open>postgres_recovery.go\<close>). Row locks and advisory
  locks make the transactions of a method one step on the tables. A method takes the request in
  its context (\<open>ctx\<close>) and a \<open>pg_link\<close>: which of its statements fail because the connection does, by
  their number in the method, and what becomes of the commit. A deferred \<open>Rollback\<close> makes every
  return before the commit leave the tables as they were.
\<close>

section \<open>Transactions\<close>

datatype commit_outcome = Committed | Refused | Unacknowledged

record pg_link =
  lk_lost :: "nat \<Rightarrow> bool"
  lk_commit :: commit_outcome

definition healthy :: pg_link where
  "healthy = \<lparr>lk_lost = (\<lambda>_. False), lk_commit = Committed\<rparr>"

definition sql :: "pg_link \<Rightarrow> nat \<Rightarrow> sql_error + 'a \<Rightarrow> sql_error + 'a" where
  "sql l n r = (if lk_lost l n then Inl StatementFailed else r)"

text \<open>How the body of a method ends: it returns and the deferred call rolls back, or it commits and then returns.\<close>

datatype 'a tx_end = Rollback "cred_error + 'a" | Commit "cred_error + 'a" pg_db

definition finish :: "pg_link \<Rightarrow> pg_db \<Rightarrow> 'a tx_end \<Rightarrow> (cred_error + 'a) \<times> pg_db" where
  "finish l db t =
     (case t of Rollback r \<Rightarrow> (r, db)
      | Commit r db' \<Rightarrow>
          (case lk_commit l of Committed \<Rightarrow> (r, db') | Refused \<Rightarrow> (Inl ErrStorage, db) | Unacknowledged \<Rightarrow> (Inl ErrStorage, db')))"

definition transaction :: "pg_link \<Rightarrow> pg_db \<Rightarrow> (pg_db \<Rightarrow> 'a tx_end) \<Rightarrow> (cred_error + 'a) \<times> pg_db" where
  "transaction l db body = (if lk_lost l 0 then (Inl ErrStorage, db) else finish l db (body db))"

definition isUniqueViolation :: "sql_error \<Rightarrow> bool" where
  "isUniqueViolation e \<longleftrightarrow> e = UniqueViolation"

section \<open>Transactional audit\<close>

record postgresBackend =
  pb_audit :: "Spool option"

text \<open>\<open>RequireAuditSpool\<close> on a manager whose backend is this one.\<close>

definition RequireAuditSpool :: "postgresBackend \<Rightarrow> Spool option \<Rightarrow> cred_error + postgresBackend" where
  "RequireAuditSpool b spool = (case spool of None \<Rightarrow> Inl ErrInvalidInput | Some sp \<Rightarrow> Inr (b\<lparr>pb_audit := Some sp\<rparr>))"

type_synonym call_context = "audit_Request option"

definition appendAudit :: "pg_env \<Rightarrow> postgresBackend \<Rightarrow> pg_link \<Rightarrow> nat \<Rightarrow> pg_db \<Rightarrow> Event \<Rightarrow> cred_error + pg_db" where
  "appendAudit env b l n db event =
     (case pb_audit b of None \<Rightarrow> Inl ErrStorage
      | Some sp \<Rightarrow>
          if lk_lost l n then Inl ErrStorage
          else (case AppendTx (pe_audit env) sp (pg_audit db) event of Inl _ \<Rightarrow> Inl ErrStorage
                | Inr a \<Rightarrow> Inr (db\<lparr>pg_audit := a\<rparr>)))"

definition completion_of :: "audit_Request \<Rightarrow> Event \<Rightarrow> Event" where
  "completion_of request event =
     (Completion request ResultSuccess ReasonCompleted (z_instant (ev_Timestamp event)))
       \<lparr>ev_OrganizationID := ev_OrganizationID event, ev_CredentialID := ev_CredentialID event, ev_RunID := ev_RunID event,
        ev_RotationID := ev_RotationID event, ev_ExecutorIdentity := ev_ExecutorIdentity event,
        ev_CredentialVersion := ev_CredentialVersion event, ev_CredentialSchema := ev_CredentialSchema event,
        ev_KeyVersion := ev_KeyVersion event, ev_RequestID := ar_ID request\<rparr>"

definition appendCompletion ::
  "pg_env \<Rightarrow> postgresBackend \<Rightarrow> call_context \<Rightarrow> pg_link \<Rightarrow> nat \<Rightarrow> pg_db \<Rightarrow> Event \<Rightarrow> cred_error + pg_db" where
  "appendCompletion env b ctx l n db event =
     (case ctx of None \<Rightarrow> Inr db | Some request \<Rightarrow> appendAudit env b l n db (completion_of request event))"

definition attributed :: "call_context \<Rightarrow> Event \<Rightarrow> Event" where
  "attributed ctx event =
     (case ctx of None \<Rightarrow> event
      | Some request \<Rightarrow> event\<lparr>ev_RequestID := ar_ID request, ev_WorkloadIdentity := ar_WorkloadIdentity request,
          ev_HumanActor := ar_HumanActor request\<rparr>)"

definition appendSuccessfulTransition ::
  "pg_env \<Rightarrow> postgresBackend \<Rightarrow> call_context \<Rightarrow> pg_link \<Rightarrow> nat \<Rightarrow> pg_db \<Rightarrow> Event \<Rightarrow> cred_error + pg_db" where
  "appendSuccessfulTransition env b ctx l n db event =
     (case appendAudit env b l n db (attributed ctx event) of Inl e \<Rightarrow> Inl e
      | Inr db1 \<Rightarrow> appendCompletion env b ctx l (Suc n) db1 (attributed ctx event))"

text \<open>A transition with the fields every one of them has.\<close>

definition transition :: "string \<Rightarrow> time \<Rightarrow> Event" where
  "transition operation timestamp =
     zero_event\<lparr>ev_SchemaVersion := audit_SchemaVersion, ev_Timestamp := utc timestamp, ev_EventType := EventTypeStateTransition,
       ev_Operation := operation, ev_Result := ResultSuccess, ev_ReasonCode := ReasonCompleted\<rparr>"

definition credentialAudit :: "string \<Rightarrow> Metadata \<Rightarrow> Event" where
  "credentialAudit operation m =
     (transition operation (md_UpdatedAt m))\<lparr>ev_OrganizationID := md_OrganizationID m, ev_CredentialID := md_ID m,
       ev_CredentialVersion := md_Version m, ev_CredentialSchema := md_SchemaVersion m\<rparr>"

definition bindingAudit :: "string \<Rightarrow> Binding \<Rightarrow> string \<Rightarrow> string \<Rightarrow> time \<Rightarrow> Event" where
  "bindingAudit operation x workload reason timestamp =
     (transition operation timestamp)\<lparr>ev_ReasonCode := reason, ev_WorkloadIdentity := workload,
       ev_OrganizationID := b_OrganizationID x, ev_CredentialID := b_CredentialID x, ev_RunID := b_RunID x,
       ev_ExecutorIdentity := b_ExecutorIdentity x, ev_CredentialVersion := b_CredentialVersion x\<rparr>"

definition rotationAudit :: "string \<Rightarrow> Rotation \<Rightarrow> time \<Rightarrow> Event" where
  "rotationAudit operation x timestamp =
     (transition operation timestamp)\<lparr>ev_KeyVersion := ro_TargetKeyID x, ev_RotationID := ro_ID x\<rparr>"

section \<open>Credentials\<close>

text \<open>The first NUL splits an idempotency id; both halves must have a byte.\<close>

definition splitIdempotencyID :: "string \<Rightarrow> (string \<times> string) option" where
  "splitIdempotencyID v =
     (case dropWhile (\<lambda>c. c \<noteq> nul) v of [] \<Rightarrow> None
      | _ # key \<Rightarrow> let organization = takeWhile (\<lambda>c. c \<noteq> nul) v in
          if organization \<noteq> [] \<and> key \<noteq> [] then Some (organization, key) else None)"

definition encodeStorage :: "Metadata \<Rightarrow> Record \<Rightarrow> (string \<times> string) option" where
  "encodeStorage m r = map_option (\<lambda>t. (t, marshal_envelope r)) (marshal_metadata m)"

text \<open>The locks take texts, so they fail on a value PostgreSQL does not accept as one.\<close>

definition advisory_lock :: "pg_env \<Rightarrow> string \<Rightarrow> string \<Rightarrow> sql_error + unit" where
  "advisory_lock env x y = checked (pe_text env x \<and> pe_text env y) (Inr ())"

text \<open>The statements of a creation that found no earlier one: the three rows and the events.\<close>

definition create_rows ::
  "pg_env \<Rightarrow> postgresBackend \<Rightarrow> call_context \<Rightarrow> pg_link \<Rightarrow> pg_db \<Rightarrow> string \<Rightarrow> string \<Rightarrow> bytes \<Rightarrow> Metadata \<Rightarrow> Record \<Rightarrow>
   string \<Rightarrow> string \<Rightarrow> Metadata tx_end" where
  "create_rows env b ctx l db organizationID idempotencyKey digest m r metadataJSON recordJSON =
     (case sql l 3 (insert_credential env db m) of Inl _ \<Rightarrow> Rollback (Inl ErrStorage)
      | Inr db1 \<Rightarrow>
     (case sql l 4 (insert_version env db1 (md_ID m) (md_Version m) recordJSON (rec_MasterKeyID r) (md_UpdatedAt m)) of
        Inl _ \<Rightarrow> Rollback (Inl ErrStorage)
      | Inr db2 \<Rightarrow>
     (case sql l 5 (insert_idempotency env db2 organizationID idempotencyKey digest metadataJSON (md_ID m) (md_CreatedAt m)) of
        Inl _ \<Rightarrow> Rollback (Inl ErrStorage)
      | Inr db3 \<Rightarrow>
     (case appendSuccessfulTransition env b ctx l 6 db3 (credentialAudit OperationCredentialCreated m) of
        Inl e \<Rightarrow> Rollback (Inl e)
      | Inr db4 \<Rightarrow> Commit (Inr m) db4))))"

definition Create_pg ::
  "pg_env \<Rightarrow> postgresBackend \<Rightarrow> call_context \<Rightarrow> pg_link \<Rightarrow> pg_db \<Rightarrow> string \<Rightarrow> bytes \<Rightarrow> Metadata \<Rightarrow> Record \<Rightarrow>
   (cred_error + Metadata) \<times> pg_db" where
  "Create_pg env b ctx l db idempotencyID digest m r =
     (case splitIdempotencyID idempotencyID of None \<Rightarrow> (Inl ErrInvalidInput, db)
      | Some (organizationID, idempotencyKey) \<Rightarrow>
     (case encodeStorage m r of None \<Rightarrow> (Inl ErrStorage, db)
      | Some (metadataJSON, recordJSON) \<Rightarrow> transaction l db (\<lambda>db.
     (case sql l 1 (advisory_lock env organizationID idempotencyKey) of Inl _ \<Rightarrow> Rollback (Inl ErrStorage)
      | Inr _ \<Rightarrow>
     (case sql l 2 (select_idempotency env db organizationID idempotencyKey) of
        Inr (Some row) \<Rightarrow>
          if ir_request_digest row \<noteq> digest then Rollback (Inl ErrIdempotencyConflict)
          else (case unmarshal_metadata (ir_response_metadata row) of None \<Rightarrow> Rollback (Inl ErrStorage)
                | Some response \<Rightarrow> Commit (Inr response) db)
      | Inl _ \<Rightarrow> Rollback (Inl ErrStorage)
      | Inr None \<Rightarrow> create_rows env b ctx l db organizationID idempotencyKey digest m r metadataJSON recordJSON)))))"

definition Get_pg :: "pg_env \<Rightarrow> pg_link \<Rightarrow> pg_db \<Rightarrow> string \<Rightarrow> string \<Rightarrow> cred_error + Metadata \<times> Record" where
  "Get_pg env l db organizationID credentialID =
     (case sql l 0 (select_current env db organizationID credentialID) of
        Inr None \<Rightarrow> Inl ErrNotFound
      | Inl _ \<Rightarrow> Inl ErrStorage
      | Inr (Some (m, v)) \<Rightarrow>
          (case unmarshal_envelope (vr_envelope v) of None \<Rightarrow> Inl ErrStorage | Some r \<Rightarrow> Inr (m, r)))"

definition Update_pg ::
  "pg_env \<Rightarrow> postgresBackend \<Rightarrow> call_context \<Rightarrow> pg_link \<Rightarrow> pg_db \<Rightarrow> string \<Rightarrow> string \<Rightarrow> 64 word \<Rightarrow> Metadata \<Rightarrow> Record \<Rightarrow> string \<Rightarrow>
   (cred_error + Metadata) \<times> pg_db" where
  "Update_pg env b ctx l db organizationID credentialID expectedVersion m r operation =
     (case encodeStorage m r of None \<Rightarrow> (Inl ErrStorage, db)
      | Some (_, recordJSON) \<Rightarrow> transaction l db (\<lambda>db.
     (case sql l 1 (update_credentials env db m credentialID organizationID expectedVersion) of Inl _ \<Rightarrow> Rollback (Inl ErrStorage)
      | Inr (affected, db1) \<Rightarrow>
          if affected = 0 then
            (case sql l 2 (select_credential env db1 organizationID credentialID) of
               Inr None \<Rightarrow> Rollback (Inl ErrNotFound)
             | Inl _ \<Rightarrow> Rollback (Inl ErrStorage)
             | Inr (Some _) \<Rightarrow> Rollback (Inl ErrVersionConflict))
          else
     (case sql l 2 (insert_version env db1 credentialID (md_Version m) recordJSON (rec_MasterKeyID r) (md_UpdatedAt m)) of
        Inl _ \<Rightarrow> Rollback (Inl ErrStorage)
      | Inr db2 \<Rightarrow>
     (case appendSuccessfulTransition env b ctx l 3 db2 (credentialAudit operation m) of
        Inl e \<Rightarrow> Rollback (Inl e)
      | Inr db3 \<Rightarrow> Commit (Inr m) db3)))))"

section \<open>Bindings and resolution\<close>

definition scanBinding :: "binding_row \<Rightarrow> Binding" where
  "scanBinding row = (bw_binding row)\<lparr>b_CancelReason := (case bw_cancel_reason row of None \<Rightarrow> [] | Some reason \<Rightarrow> reason)\<rparr>"

text \<open>The query of the credential's current version, of an active credential only.\<close>

definition select_active :: "pg_env \<Rightarrow> pg_db \<Rightarrow> string \<Rightarrow> string \<Rightarrow> sql_error + Metadata option" where
  "select_active env db credentialID organizationID =
     (case select_current env db organizationID credentialID of Inl e \<Rightarrow> Inl e
      | Inr None \<Rightarrow> Inr None
      | Inr (Some (m, _)) \<Rightarrow> Inr (if md_State m = StateActive then Some m else None))"

definition RegisterBinding_pg ::
  "pg_env \<Rightarrow> postgresBackend \<Rightarrow> call_context \<Rightarrow> pg_link \<Rightarrow> pg_db \<Rightarrow> bindingRegistration \<Rightarrow> (cred_error + Binding) \<times> pg_db" where
  "RegisterBinding_pg env b ctx l db reg = transaction l db (\<lambda>db.
     let request = br_request reg; now = br_now reg in
     (case sql l 1 (advisory_lock env (rb_OrganizationID request) (rb_IdempotencyKey request)) of Inl _ \<Rightarrow> Rollback (Inl ErrStorage)
      | Inr _ \<Rightarrow>
     (case sql l 2 (select_registration env db (rb_OrganizationID request) (rb_IdempotencyKey request)) of
        Inr (Some row) \<Rightarrow>
          let existing = scanBinding row in
          if bw_request_digest row \<noteq> br_digest reg then Rollback (Inl ErrBindingConflict)
          else (case appendCompletion env b ctx l 3 db
                  (bindingAudit OperationRunBindingRegistered existing ''praetor-scheduler'' ReasonCompleted now) of
                  Inl e \<Rightarrow> Rollback (Inl e)
                | Inr db1 \<Rightarrow> Commit (Inr existing) db1)
      | Inl _ \<Rightarrow> Rollback (Inl ErrStorage)
      | Inr None \<Rightarrow>
     (case sql l 3 (select_active env db (rb_CredentialID request) (rb_OrganizationID request)) of
        Inr None \<Rightarrow> Rollback (Inl ErrNotFound)
      | Inl _ \<Rightarrow> Rollback (Inl ErrStorage)
      | Inr (Some m) \<Rightarrow>
          let binding = new_binding reg m in
     (case sql l 4 (insert_binding env db binding (rb_IdempotencyKey request) (br_digest reg) now) of
        Inl e \<Rightarrow> if isUniqueViolation e then Rollback (Inl ErrBindingConflict) else Rollback (Inl ErrStorage)
      | Inr db1 \<Rightarrow>
     (case appendSuccessfulTransition env b ctx l 5 db1
             (bindingAudit OperationRunBindingRegistered binding ''praetor-scheduler'' ReasonCompleted now) of
        Inl e \<Rightarrow> Rollback (Inl e)
      | Inr db2 \<Rightarrow> Commit (Inr binding) db2))))))"

definition GetBinding_pg :: "pg_env \<Rightarrow> pg_link \<Rightarrow> pg_db \<Rightarrow> string \<Rightarrow> cred_error + Binding" where
  "GetBinding_pg env l db runID =
     (case sql l 0 (select_binding env db runID) of
        Inr None \<Rightarrow> Inl ErrBindingNotFound
      | Inl _ \<Rightarrow> Inl ErrStorage
      | Inr (Some row) \<Rightarrow> Inr (scanBinding row))"

text \<open>The changes a method makes to the row of a binding.\<close>

definition set_binding_state :: "binding_state \<Rightarrow> binding_row \<Rightarrow> binding_row" where
  "set_binding_state s r = r\<lparr>bw_binding := (bw_binding r)\<lparr>b_State := s\<rparr>\<rparr>"

definition CancelBinding_pg ::
  "pg_env \<Rightarrow> postgresBackend \<Rightarrow> call_context \<Rightarrow> pg_link \<Rightarrow> pg_db \<Rightarrow> string \<Rightarrow> string \<Rightarrow> string \<Rightarrow> time \<Rightarrow>
   (cred_error + Binding) \<times> pg_db" where
  "CancelBinding_pg env b ctx l db runID dispatchID reason now = transaction l db (\<lambda>db.
     (case sql l 1 (select_binding env db runID) of
        Inr None \<Rightarrow> Rollback (Inl ErrBindingNotFound)
      | Inl _ \<Rightarrow> Rollback (Inl ErrStorage)
      | Inr (Some row) \<Rightarrow>
          let binding = scanBinding row in
          if b_DispatchID binding \<noteq> dispatchID then Rollback (Inl ErrBindingConflict)
          else if b_State binding \<noteq> BindingCanceled \<and> b_State binding \<noteq> BindingExpired \<and> b_State binding \<noteq> BindingExhausted then
            (let canceled = binding\<lparr>b_State := BindingCanceled, b_CancelReason := reason, b_UpdatedAt := now\<rparr> in
             case sql l 2 (checked (pe_text env reason) (update_binding env db runID now
                 (\<lambda>r. (set_binding_state BindingCanceled r)\<lparr>bw_cancel_reason := Some reason\<rparr>))) of
               Inl _ \<Rightarrow> Rollback (Inl ErrStorage)
             | Inr db1 \<Rightarrow>
                 (case appendSuccessfulTransition env b ctx l 3 db1
                     (bindingAudit OperationRunBindingCanceled canceled ''praetor-scheduler'' reason now) of
                    Inl e \<Rightarrow> Rollback (Inl e)
                  | Inr db2 \<Rightarrow> Commit (Inr canceled) db2))
          else
            (case appendCompletion env b ctx l 2 db
                (bindingAudit OperationRunBindingCanceled binding ''praetor-scheduler'' ReasonCompleted now) of
               Inl e \<Rightarrow> Rollback (Inl e)
             | Inr db1 \<Rightarrow> Commit (Inr binding) db1)))"

definition postgresBoundVersion :: "pg_env \<Rightarrow> pg_link \<Rightarrow> nat \<Rightarrow> pg_db \<Rightarrow> Binding \<Rightarrow> cred_error + boundRecord" where
  "postgresBoundVersion env l n db binding =
     (case sql l n (select_version env db (b_CredentialID binding) (b_CredentialVersion binding) (b_OrganizationID binding)) of
        Inr (Some (m, v)) \<Rightarrow>
          (case unmarshal_envelope (vr_envelope v) of None \<Rightarrow> Inl ErrResolution
           | Some r \<Rightarrow> Inr \<lparr>bd_record = r, bd_credentialType = md_CredentialType m, bd_schemaVersion = md_SchemaVersion m\<rparr>)
      | _ \<Rightarrow> Inl ErrResolution)"

text \<open>A binding found past its end or its limit: it is closed, the closing is recorded and committed, and the claim refused.\<close>

definition close_binding ::
  "pg_env \<Rightarrow> postgresBackend \<Rightarrow> pg_link \<Rightarrow> nat \<Rightarrow> pg_db \<Rightarrow> resolutionClaim \<Rightarrow> Binding \<Rightarrow> binding_state \<Rightarrow> string \<Rightarrow> string \<Rightarrow>
   cred_error \<Rightarrow> 'a tx_end" where
  "close_binding env b l n db claim binding state operation reason verdict =
     (case sql l n (update_binding env db (rcl_runID claim) (rcl_now claim) (set_binding_state state)) of
        Inl _ \<Rightarrow> Rollback (Inl ErrStorage)
      | Inr db1 \<Rightarrow>
          (case appendAudit env b l (Suc n) db1
              (bindingAudit operation (binding\<lparr>b_State := state\<rparr>) (rcl_executorIdentity claim) reason (rcl_now claim)) of
             Inl e \<Rightarrow> Rollback (Inl e)
           | Inr db2 \<Rightarrow> Commit (Inl verdict) db2))"

text \<open>The second half of a claim: the attempt is known, or it is counted.\<close>

definition claim_new ::
  "pg_env \<Rightarrow> postgresBackend \<Rightarrow> call_context \<Rightarrow> pg_link \<Rightarrow> pg_db \<Rightarrow> resolutionClaim \<Rightarrow> Binding \<Rightarrow> 'r \<Rightarrow>
   (Binding \<times> time \<times> 'r) tx_end" where
  "claim_new env b ctx l db claim binding rendered =
     (let now = rcl_now claim; expiry0 = now + rcl_retryWindow claim;
          expiry = (if expiry0 > b_ExpiresAt binding then b_ExpiresAt binding else expiry0) in
      case sql l 4 (insert_attempt env db (rcl_attemptID claim) (rcl_runID claim) (rcl_executorIdentity claim)
             (rcl_digest claim) now expiry) of
        Inl e \<Rightarrow> if isUniqueViolation e then Rollback (Inl ErrAttemptConflict) else Rollback (Inl ErrStorage)
      | Inr db1 \<Rightarrow>
          let count = b_ResolutionCount binding + 1;
              state = (if count = b_MaxResolutions binding then BindingExhausted else BindingActive);
              claimed = binding\<lparr>b_ResolutionCount := count, b_State := state, b_UpdatedAt := now\<rparr> in
          (case sql l 5 (checked (int4 count) (update_binding env db1 (b_RunID binding) now
              (\<lambda>r. (set_binding_state state r)\<lparr>bw_binding := (bw_binding (set_binding_state state r))\<lparr>b_ResolutionCount := count\<rparr>\<rparr>))) of
             Inl _ \<Rightarrow> Rollback (Inl ErrStorage)
           | Inr db2 \<Rightarrow>
               (case appendSuccessfulTransition env b ctx l 6 db2
                   (bindingAudit OperationCredentialResolved claimed (rcl_executorIdentity claim) ReasonCompleted now) of
                  Inl e \<Rightarrow> Rollback (Inl e)
                | Inr db3 \<Rightarrow> Commit (Inr (claimed, expiry, rendered)) db3)))"

definition claim_attempt_pg ::
  "pg_env \<Rightarrow> postgresBackend \<Rightarrow> call_context \<Rightarrow> pg_link \<Rightarrow> pg_db \<Rightarrow> resolutionClaim \<Rightarrow> Binding \<Rightarrow> 'r \<Rightarrow>
   (Binding \<times> time \<times> 'r) tx_end" where
  "claim_attempt_pg env b ctx l db claim binding rendered =
     (case sql l 3 (select_attempt env db (rcl_attemptID claim)) of
        Inr (Some attempt) \<Rightarrow>
          if at_run_id attempt \<noteq> rcl_runID claim \<or> at_executor_identity attempt \<noteq> rcl_executorIdentity claim \<or>
             at_request_digest attempt \<noteq> rcl_digest claim \<or> \<not> rcl_now claim < at_expires_at attempt
          then Rollback (Inl ErrAttemptConflict)
          else (case appendCompletion env b ctx l 4 db
                  (bindingAudit OperationCredentialResolved binding (rcl_executorIdentity claim) ReasonCompleted (rcl_now claim)) of
                  Inl e \<Rightarrow> Rollback (Inl e)
                | Inr db1 \<Rightarrow> Commit (Inr (binding, at_expires_at attempt, rendered)) db1)
      | Inl _ \<Rightarrow> Rollback (Inl ErrStorage)
      | Inr None \<Rightarrow>
          if b_ResolutionCount binding \<ge> b_MaxResolutions binding \<or> b_State binding = BindingExhausted then
            if b_State binding \<noteq> BindingExhausted
            then close_binding env b l 4 db claim binding BindingExhausted OperationRunBindingExhausted ''resolution_limit'' ErrBindingExhausted
            else Commit (Inl ErrBindingExhausted) db
          else claim_new env b ctx l db claim binding rendered)"

definition ClaimResolution_pg ::
  "pg_env \<Rightarrow> postgresBackend \<Rightarrow> call_context \<Rightarrow> pg_link \<Rightarrow> pg_db \<Rightarrow> resolutionClaim \<Rightarrow>
   (Binding \<Rightarrow> boundRecord \<Rightarrow> cred_error + 'r) \<Rightarrow> (cred_error + Binding \<times> time \<times> 'r) \<times> pg_db" where
  "ClaimResolution_pg env b ctx l db claim validate = transaction l db (\<lambda>db.
     (case sql l 1 (select_binding env db (rcl_runID claim)) of
        Inr None \<Rightarrow> Rollback (Inl ErrBindingNotFound)
      | Inl _ \<Rightarrow> Rollback (Inl ErrStorage)
      | Inr (Some row) \<Rightarrow>
          let binding = scanBinding row; now = rcl_now claim in
          if b_ExecutorIdentity binding \<noteq> rcl_executorIdentity claim then Rollback (Inl ErrUnauthorized)
          else if b_State binding = BindingCanceled then Rollback (Inl ErrBindingNotActive)
          else if b_State binding = BindingExpired then Rollback (Inl ErrBindingExpired)
          else if \<not> now < b_ExpiresAt binding then
            if b_State binding \<noteq> BindingExpired \<and> b_State binding \<noteq> BindingExhausted
            then close_binding env b l 2 db claim binding BindingExpired OperationRunBindingExpired ''binding_expired'' ErrBindingExpired
            else Commit (Inl ErrBindingExpired) db
          else if now < b_NotBefore binding then Rollback (Inl ErrBindingNotActive)
          else (case postgresBoundVersion env l 2 db binding of Inl e \<Rightarrow> Rollback (Inl e)
                | Inr version \<Rightarrow>
                    (case validate binding version of Inl e \<Rightarrow> Rollback (Inl e)
                     | Inr rendered \<Rightarrow> claim_attempt_pg env b ctx l db claim binding rendered))))"

section \<open>Rotation\<close>

definition scanRotation :: "rotation_row \<Rightarrow> Rotation" where
  "scanRotation row = (rw_rotation row)\<lparr>ro_FinalizedAt := (case rw_finalized_at row of None \<Rightarrow> zero_time | Some t \<Rightarrow> t)\<rparr>"

definition StartRotation_pg ::
  "pg_env \<Rightarrow> postgresBackend \<Rightarrow> call_context \<Rightarrow> pg_link \<Rightarrow> pg_db \<Rightarrow> Rotation \<Rightarrow> (cred_error + Rotation) \<times> pg_db" where
  "StartRotation_pg env b ctx l db rotation = transaction l db (\<lambda>db.
     (case sql l 1 (count_references env db (ro_SourceKeyID rotation)) of Inl _ \<Rightarrow> Rollback (Inl ErrStorage)
      | Inr n \<Rightarrow>
          let counted = rotation\<lparr>ro_TotalRecords := n\<rparr>;
              started = (if n = 0 then counted\<lparr>ro_State := RotationReady\<rparr> else counted) in
     (case sql l 2 (insert_rotation env db started) of
        Inl e \<Rightarrow> if isUniqueViolation e then Rollback (Inl ErrRotationConflict) else Rollback (Inl ErrStorage)
      | Inr db1 \<Rightarrow>
     (case appendSuccessfulTransition env b ctx l 3 db1
             (rotationAudit OperationMasterKeyRotationStarted started (ro_CreatedAt started)) of
        Inl e \<Rightarrow> Rollback (Inl e)
      | Inr db2 \<Rightarrow> Commit (Inr started) db2))))"

definition GetRotation_pg :: "pg_env \<Rightarrow> pg_link \<Rightarrow> pg_db \<Rightarrow> string \<Rightarrow> cred_error + Rotation" where
  "GetRotation_pg env l db i =
     (case sql l 0 (select_rotation env db i) of
        Inr None \<Rightarrow> Inl ErrNotFound
      | Inl _ \<Rightarrow> Inl ErrStorage
      | Inr (Some row) \<Rightarrow> Inr (scanRotation row))"

text \<open>
  The grouped counts of the two tables; an active rotation, the oldest first. The loop over the
  backups does not look at the error of its rows: when the connection is lost while they are
  read, it ends as if there were none left (number 3).
\<close>

definition KeyStatus_pg :: "pg_link \<Rightarrow> pg_db \<Rightarrow> string \<Rightarrow> string \<Rightarrow> cred_error + KeyStatus" where
  "KeyStatus_pg l db current previous =
     (if lk_lost l 0 \<or> lk_lost l 1 \<or> lk_lost l 2 then Inl ErrStorage
      else
        let counts = count_keys (map vr_master_key_id (pg_versions db));
            active = (case sort_key (\<lambda>r. ro_CreatedAt (rw_rotation r)) (filter active_row (pg_rotations db)) of
                        [] \<Rightarrow> None | row # _ \<Rightarrow> Some (scanRotation row));
            retained = count_keys (concat (map bs_key_ids (filter (\<lambda>r. bs_expired_at r = None)
              (if lk_lost l 3 then [] else pg_backups db))))
        in Inr \<lparr>kst_CurrentKeyID = current, kst_PreviousKeyID = previous, kst_RecordCounts = counts,
             kst_ActiveRotation = active,
             kst_DatabaseReferencesCleared = (previous \<noteq> [] \<and> mcount counts previous = 0 \<and> active = None),
             kst_RetainedBackupReferences = retained,
             kst_BackupReferencesCleared = (previous \<noteq> [] \<and> mcount retained previous = 0)\<rparr>)"

text \<open>A row of the join as the loops of rotation and recovery read it.\<close>

definition scanRecord :: "Metadata \<times> version_row \<Rightarrow> rotationRecord option" where
  "scanRecord x = map_option (\<lambda>r. \<lparr>rr_metadata = fst x, rr_version = vr_version (snd x), rr_record = r\<rparr>)
     (unmarshal_envelope (vr_envelope (snd x)))"

fun scanRecords :: "(Metadata \<times> version_row) list \<Rightarrow> rotationRecord list option" where
  "scanRecords [] = Some []"
| "scanRecords (x # xs) = (case scanRecord x of None \<Rightarrow> None | Some r \<Rightarrow> map_option ((#) r) (scanRecords xs))"

definition keyRotatedAudit :: "string \<Rightarrow> string \<Rightarrow> 64 word \<Rightarrow> 32 word \<Rightarrow> string \<Rightarrow> time \<Rightarrow> Event" where
  "keyRotatedAudit organizationID credentialID version schemaVersion key now =
     (transition OperationCredentialKeyRotated now)\<lparr>ev_OrganizationID := organizationID, ev_CredentialID := credentialID,
       ev_CredentialVersion := version, ev_CredentialSchema := schemaVersion, ev_KeyVersion := key\<rparr>"

text \<open>The loop over the selected records; it threads the state of the entropy source of \<open>transform\<close>.\<close>

fun rotate_records ::
  "pg_env \<Rightarrow> postgresBackend \<Rightarrow> call_context \<Rightarrow> pg_link \<Rightarrow> nat \<Rightarrow> Rotation \<Rightarrow> time \<Rightarrow> 's transform \<Rightarrow>
   rotationRecord list \<Rightarrow> pg_db \<Rightarrow> 's \<Rightarrow> (cred_error + pg_db) \<times> 's" where
  "rotate_records env b ctx l n rotation now transform [] db s = (Inr db, s)"
| "rotate_records env b ctx l n rotation now transform (x # xs) db s =
     (case transform x s of
        (Inl e, s') \<Rightarrow> (Inl e, s')
      | (Inr rotated, s') \<Rightarrow>
          let m = rr_metadata x in
          (case sql l n (update_version env db (marshal_envelope rotated) (rec_MasterKeyID rotated) (md_ID m) (rr_version x)
               (Some (ro_SourceKeyID rotation))) of
             Inl _ \<Rightarrow> (Inl ErrStorage, s')
           | Inr (affected, db1) \<Rightarrow>
               if affected \<noteq> 1 then (Inl ErrStorage, s')
               else (case appendAudit env b l (Suc n) db1 (attributed ctx
                        ((keyRotatedAudit (md_OrganizationID m) (md_ID m) (rr_version x) (md_SchemaVersion m)
                           (ro_TargetKeyID rotation) now)\<lparr>ev_RotationID := ro_ID rotation\<rparr>)) of
                       Inl e \<Rightarrow> (Inl e, s')
                     | Inr db2 \<Rightarrow> rotate_records env b ctx l (n + 2) rotation now transform xs db2 s')))"

text \<open>The end of a batch: the progress of the rotation, from the references that remain.\<close>

definition end_batch ::
  "pg_env \<Rightarrow> postgresBackend \<Rightarrow> call_context \<Rightarrow> pg_link \<Rightarrow> nat \<Rightarrow> Rotation \<Rightarrow> int \<Rightarrow> time \<Rightarrow> pg_db \<Rightarrow> Rotation tx_end" where
  "end_batch env b ctx l n rotation processed now db =
     (case sql l n (count_references env db (ro_SourceKeyID rotation)) of Inl _ \<Rightarrow> Rollback (Inl ErrStorage)
      | Inr remaining \<Rightarrow>
          let running = rotation\<lparr>ro_ProcessedRecords := ro_ProcessedRecords rotation + processed, ro_State := RotationRunning\<rparr>;
              reached = (if remaining = 0
                then running\<lparr>ro_State := RotationReady, ro_ProcessedRecords := ro_TotalRecords running\<rparr> else running)\<lparr>ro_UpdatedAt := now\<rparr> in
          (case sql l (n + 1) (update_rotation env db (ro_ID rotation) (ro_State reached) (Some (ro_ProcessedRecords reached)) now None) of
             Inl _ \<Rightarrow> Rollback (Inl ErrStorage)
           | Inr db1 \<Rightarrow>
               (case appendSuccessfulTransition env b ctx l (n + 2) db1
                   (rotationAudit OperationMasterKeyRotationResumed reached now) of
                  Inl e \<Rightarrow> Rollback (Inl e)
                | Inr db2 \<Rightarrow> Commit (Inr reached) db2)))"

text \<open>\<open>SKIP LOCKED\<close>: \<open>locked\<close> are the versions another transaction holds.\<close>

definition RotateBatch_pg ::
  "pg_env \<Rightarrow> postgresBackend \<Rightarrow> call_context \<Rightarrow> pg_link \<Rightarrow> (version_row \<Rightarrow> bool) \<Rightarrow> pg_db \<Rightarrow> string \<Rightarrow> int \<Rightarrow> time \<Rightarrow>
   's transform \<Rightarrow> 's \<Rightarrow> ((cred_error + Rotation) \<times> pg_db) \<times> 's" where
  "RotateBatch_pg env b ctx l locked db i limit now transform s =
     (if lk_lost l 0 then ((Inl ErrStorage, db), s)
      else case sql l 1 (select_rotation env db i) of
        Inr None \<Rightarrow> ((Inl ErrNotFound, db), s)
      | Inl _ \<Rightarrow> ((Inl ErrStorage, db), s)
      | Inr (Some row) \<Rightarrow>
          let rotation = scanRotation row in
          if ro_State rotation = RotationFinalized then ((Inr rotation, db), s)
          else (case sql l 2 (checked (pe_text env (ro_SourceKeyID rotation)) (select_versions db
                  (filter (\<lambda>r. \<not> locked r) (references db (ro_SourceKeyID rotation))) limit)) of
                  Inl _ \<Rightarrow> ((Inl ErrStorage, db), s)
                | Inr rows \<Rightarrow>
                    (case scanRecords rows of None \<Rightarrow> ((Inl ErrStorage, db), s)
                     | Some records \<Rightarrow>
                         (case rotate_records env b ctx l 3 rotation now transform records db s of
                            (Inl e, s') \<Rightarrow> ((Inl e, db), s')
                          | (Inr db1, s') \<Rightarrow>
                              (finish l db (end_batch env b ctx l (3 + 2 * length records) rotation (int (length records)) now db1), s')))))"

definition FinalizeRotation_pg ::
  "pg_env \<Rightarrow> postgresBackend \<Rightarrow> call_context \<Rightarrow> pg_link \<Rightarrow> pg_db \<Rightarrow> string \<Rightarrow> time \<Rightarrow> (cred_error + Rotation) \<times> pg_db" where
  "FinalizeRotation_pg env b ctx l db i now = transaction l db (\<lambda>db.
     (case sql l 1 (select_rotation env db i) of
        Inr None \<Rightarrow> Rollback (Inl ErrNotFound)
      | Inl _ \<Rightarrow> Rollback (Inl ErrStorage)
      | Inr (Some row) \<Rightarrow>
          let rotation = scanRotation row in
          if ro_State rotation = RotationFinalized then Rollback (Inr rotation)
          else (case sql l 2 (count_references env db (ro_SourceKeyID rotation)) of Inl _ \<Rightarrow> Rollback (Inl ErrStorage)
                | Inr remaining \<Rightarrow>
                    if remaining \<noteq> 0 \<or> ro_State rotation \<noteq> RotationReady then Rollback (Inl ErrRotationNotReady)
                    else
                      let final = rotation\<lparr>ro_State := RotationFinalized, ro_FinalizedAt := now, ro_UpdatedAt := now\<rparr> in
                      (case sql l 3 (update_rotation env db i RotationFinalized None now (Some now)) of
                         Inl _ \<Rightarrow> Rollback (Inl ErrStorage)
                       | Inr db1 \<Rightarrow>
                           (case appendSuccessfulTransition env b ctx l 4 db1
                               (rotationAudit OperationMasterKeyRotationFinalized final now) of
                              Inl e \<Rightarrow> Rollback (Inl e)
                            | Inr db2 \<Rightarrow> Commit (Inr final) db2)))))"

definition RotateCredential_pg ::
  "pg_env \<Rightarrow> postgresBackend \<Rightarrow> call_context \<Rightarrow> pg_link \<Rightarrow> pg_db \<Rightarrow> CredentialRotationRequest \<Rightarrow> 's transform \<Rightarrow> 's \<Rightarrow> time \<Rightarrow>
   ((cred_error + unit) \<times> pg_db) \<times> 's" where
  "RotateCredential_pg env b ctx l db request transform s now =
     (if lk_lost l 0 then ((Inl ErrStorage, db), s)
      else case sql l 1 (select_version env db (crr_CredentialID request) (crr_Version request) (crr_OrganizationID request)) of
        Inr None \<Rightarrow> ((Inl ErrNotFound, db), s)
      | Inl _ \<Rightarrow> ((Inl ErrStorage, db), s)
      | Inr (Some (m, v)) \<Rightarrow>
          (case unmarshal_envelope (vr_envelope v) of None \<Rightarrow> ((Inl ErrStorage, db), s)
           | Some r \<Rightarrow>
               (case transform \<lparr>rr_metadata = m, rr_version = crr_Version request, rr_record = r\<rparr> s of
                  (Inl e, s') \<Rightarrow> ((Inl e, db), s')
                | (Inr rotated, s') \<Rightarrow>
                    (finish l db
                      (case sql l 2 (update_version env db (marshal_envelope rotated) (rec_MasterKeyID rotated)
                           (crr_CredentialID request) (crr_Version request) None) of
                         Inl _ \<Rightarrow> Rollback (Inl ErrStorage)
                       | Inr (_, db1) \<Rightarrow>
                           (case appendSuccessfulTransition env b ctx l 3 db1
                               (keyRotatedAudit (crr_OrganizationID request) (crr_CredentialID request) (crr_Version request)
                                  (md_SchemaVersion m) (rec_MasterKeyID rotated) now) of
                              Inl e \<Rightarrow> Rollback (Inl e)
                            | Inr db2 \<Rightarrow> Commit (Inr ()) db2)), s'))))"

section \<open>Recovery\<close>

text \<open>The loop over the rows: a row that cannot be read ends it before later rows are validated.\<close>

fun validate_rows ::
  "(rotationRecord \<Rightarrow> cred_error option) \<Rightarrow> (Metadata \<times> version_row) list \<Rightarrow> string \<Rightarrow> int \<Rightarrow> cred_error + string \<times> int" where
  "validate_rows validate [] hashed n = Inr (hashed, n)"
| "validate_rows validate (x # xs) hashed n =
     (case scanRecord x of None \<Rightarrow> Inl ErrStorage
      | Some r \<Rightarrow>
          (case validate r of Some e \<Rightarrow> Inl e
           | None \<Rightarrow> validate_rows validate xs (hashed @ recovery_line r) (n + 1)))"

definition ValidateRecovery_pg ::
  "pg_env \<Rightarrow> (bytes \<Rightarrow> bytes) \<Rightarrow> postgresBackend \<Rightarrow> call_context \<Rightarrow> pg_link \<Rightarrow> pg_db \<Rightarrow> int \<Rightarrow> time \<Rightarrow>
   (rotationRecord \<Rightarrow> cred_error option) \<Rightarrow> (cred_error + RecoveryValidation) \<times> pg_db" where
  "ValidateRecovery_pg env sha256 b ctx l db limit now validate = transaction l db (\<lambda>db.
     (case appendSuccessfulTransition env b ctx l 1 db (transition OperationRecoveryValidationStarted now) of
        Inl e \<Rightarrow> Rollback (Inl e)
      | Inr db1 \<Rightarrow>
          if lk_lost l 3 \<or> lk_lost l 4 then Rollback (Inl ErrStorage)
          else (case sql l 5 (select_versions db1 (pg_versions db1) limit) of Inl _ \<Rightarrow> Rollback (Inl ErrStorage)
                | Inr rows \<Rightarrow>
                    (case validate_rows validate rows [] 0 of
                       Inl e \<Rightarrow> Rollback (Inl e)
                     | Inr (hashed, n) \<Rightarrow>
                         (case appendSuccessfulTransition env b ctx l 6 db1 (transition OperationRecoveryValidationFinished now) of
                            Inl e \<Rightarrow> Rollback (Inl e)
                          | Inr db2 \<Rightarrow> Commit (Inr
                              \<lparr>rv_ValidatedRecords = n, rv_TotalRecords = int (length (pg_versions db1)),
                               rv_KeyCounts = count_keys (map vr_master_key_id (pg_versions db1)),
                               rv_MetadataSHA256 = hex_encode (sha256 (bytes_of hashed)), rv_CompletedAt = now\<rparr>) db2)))))"

definition scanBackup :: "pg_env \<Rightarrow> backup_row \<Rightarrow> BackupSet" where
  "scanBackup env r =
     \<lparr>bk_ID = bs_id r, bk_ArtifactSHA256 = bs_artifact_sha256 r, bk_KeyIDs = bs_key_ids r,
      bk_CreatedAt = pe_zone env (bs_created_at r), bk_RetainUntil = pe_zone env (bs_retain_until r),
      bk_ExpiredAt = (case bs_expired_at r of None \<Rightarrow> utc zero_time | Some t \<Rightarrow> pe_zone env t)\<rparr>"

definition RegisterBackup_pg ::
  "pg_env \<Rightarrow> postgresBackend \<Rightarrow> call_context \<Rightarrow> pg_link \<Rightarrow> pg_db \<Rightarrow> BackupSet \<Rightarrow> time \<Rightarrow> (cred_error + BackupSet) \<times> pg_db" where
  "RegisterBackup_pg env b ctx l db backup now = transaction l db (\<lambda>db.
     (case sql l 1 (select_backup env db (bk_ID backup)) of
        Inr (Some row) \<Rightarrow>
          if bs_artifact_sha256 row \<noteq> bk_ArtifactSHA256 backup then Rollback (Inl ErrBackupConflict)
          else Rollback (Inr (scanBackup env row))
      | Inl _ \<Rightarrow> Rollback (Inl ErrStorage)
      | Inr None \<Rightarrow>
     (case sql l 2 (insert_backup env db backup) of Inl _ \<Rightarrow> Rollback (Inl ErrStorage)
      | Inr db1 \<Rightarrow>
     (case appendSuccessfulTransition env b ctx l 3 db1
             ((transition OperationBackupRegistered now)\<lparr>ev_KeyVersion := hd (bk_KeyIDs backup)\<rparr>) of
        Inl e \<Rightarrow> Rollback (Inl e)
      | Inr db2 \<Rightarrow> Commit (Inr backup) db2))))"

definition ExpireBackup_pg ::
  "pg_env \<Rightarrow> postgresBackend \<Rightarrow> call_context \<Rightarrow> pg_link \<Rightarrow> pg_db \<Rightarrow> string \<Rightarrow> time \<Rightarrow> (cred_error + BackupSet) \<times> pg_db" where
  "ExpireBackup_pg env b ctx l db i now = transaction l db (\<lambda>db.
     (case sql l 1 (expire_backup env db i now) of
        Inr None \<Rightarrow> Rollback (Inl ErrNotFound)
      | Inl _ \<Rightarrow> Rollback (Inl ErrStorage)
      | Inr (Some (row, db1)) \<Rightarrow>
          (case appendSuccessfulTransition env b ctx l 2 db1 (transition OperationBackupExpired now) of
             Inl e \<Rightarrow> Rollback (Inl e)
           | Inr db2 \<Rightarrow> Commit (Inr (scanBackup env row)) db2)))"

end
