(* ===== verification/Postgres_Runs.thy ===== *)
theory Postgres_Runs
  imports Postgres_Backend Store_Spec
begin

text \<open>
  The constraints of the tables as an invariant, and the order in which the tables may only grow:
  both hold for every statement, so for every method and every run of methods, whatever the
  connection does.
\<close>

section \<open>Statements\<close>

lemma given_Inr: "given x f = Inr y \<longleftrightarrow> (\<exists>v. x = Some v \<and> f v = Inr y)"
  by (simp add: given_def split: option.splits)

lemma checked_Inr: "checked p r = Inr y \<longleftrightarrow> p \<and> r = Inr y"
  by (simp add: checked_def)

lemma unique_index_Inr: "unique_index p r = Inr y \<longleftrightarrow> p \<and> r = Inr y"
  by (simp add: unique_index_def)

lemma sql_Inr: "sql l n r = Inr y \<longleftrightarrow> \<not> lk_lost l n \<and> r = Inr y"
  by (simp add: sql_def)

lemmas statement_Inr = given_Inr checked_Inr unique_index_Inr sql_Inr

text \<open>Rows that keep their place while a table grows.\<close>

definition rows_le :: "('a \<Rightarrow> 'a \<Rightarrow> bool) \<Rightarrow> 'a list \<Rightarrow> 'a list \<Rightarrow> bool" where
  "rows_le rel xs ys \<longleftrightarrow> length xs \<le> length ys \<and> (\<forall>i < length xs. rel (xs ! i) (ys ! i))"

lemma rows_le_refl: "(\<And>x. rel x x) \<Longrightarrow> rows_le rel xs xs"
  by (simp add: rows_le_def)

lemma rows_le_trans:
  assumes "\<And>x y z. rel x y \<Longrightarrow> rel y z \<Longrightarrow> rel x z" and "rows_le rel xs ys" and "rows_le rel ys zs"
  shows "rows_le rel xs zs"
  using assms(2,3) unfolding rows_le_def by (metis assms(1) order.strict_trans2 order.trans)

lemma rows_le_append: "(\<And>x. rel x x) \<Longrightarrow> rows_le rel xs (xs @ ys)"
  by (simp add: rows_le_def nth_append)

lemma rows_le_map: "(\<And>x. x \<in> set xs \<Longrightarrow> rel x (f x)) \<Longrightarrow> rows_le rel xs (map f xs)"
  by (simp add: rows_le_def)

lemma rows_le_set: "rows_le rel xs ys \<Longrightarrow> x \<in> set xs \<Longrightarrow> \<exists>y \<in> set ys. rel x y"
  by (metis in_set_conv_nth order.strict_trans2 rows_le_def)

section \<open>The invariant\<close>

definition credential_checks :: "Metadata \<Rightarrow> bool" where
  "credential_checks m \<longleftrightarrow> md_OrganizationID m \<noteq> [] \<and> md_Name m \<noteq> [] \<and> md_CredentialType m \<noteq> [] \<and>
     0 < md_SchemaVersion m \<and> 0 < md_Version m \<and> int8 (md_Version m) \<and> md_SecretFields m \<noteq> [] \<and> md_CreatedAt m \<le> md_UpdatedAt m"

definition version_key :: "version_row \<Rightarrow> string \<times> 64 word" where
  "version_key r = (vr_credential_id r, vr_version r)"

definition version_checks :: "version_row \<Rightarrow> bool" where
  "version_checks r \<longleftrightarrow> 0 < vr_version r \<and> vr_master_key_id r \<noteq> [] \<and> object_members (vr_envelope r) \<noteq> None"

definition registration_key :: "binding_row \<Rightarrow> string \<times> string" where
  "registration_key r = (b_OrganizationID (bw_binding r), bw_idempotency_key r)"

definition row_run :: "binding_row \<Rightarrow> string" where
  "row_run r = b_RunID (bw_binding r)"

definition row_dispatch :: "binding_row \<Rightarrow> string" where
  "row_dispatch r = b_DispatchID (bw_binding r)"

definition bound_key :: "binding_row \<Rightarrow> string \<times> 64 word" where
  "bound_key r = (b_CredentialID (bw_binding r), b_CredentialVersion (bw_binding r))"

definition idempotency_key :: "idempotency_row \<Rightarrow> string \<times> string" where
  "idempotency_key r = (ir_organization_id r, ir_idempotency_key r)"

definition row_rotation :: "rotation_row \<Rightarrow> string" where
  "row_rotation r = ro_ID (rw_rotation r)"

definition credentials_ok :: "pg_db \<Rightarrow> bool" where
  "credentials_ok db \<longleftrightarrow> distinct (map md_ID (pg_credentials db)) \<and> list_all credential_checks (pg_credentials db)"

definition versions_ok :: "pg_db \<Rightarrow> bool" where
  "versions_ok db \<longleftrightarrow> distinct (map version_key (pg_versions db)) \<and> list_all version_checks (pg_versions db) \<and>
     vr_credential_id ` set (pg_versions db) \<subseteq> md_ID ` set (pg_credentials db)"

definition idempotency_ok :: "pg_db \<Rightarrow> bool" where
  "idempotency_ok db \<longleftrightarrow> distinct (map idempotency_key (pg_idempotency db)) \<and>
     ir_credential_id ` set (pg_idempotency db) \<subseteq> md_ID ` set (pg_credentials db)"

definition bindings_ok :: "pg_db \<Rightarrow> bool" where
  "bindings_ok db \<longleftrightarrow> distinct (map row_run (pg_bindings db)) \<and> distinct (map row_dispatch (pg_bindings db)) \<and>
     distinct (map registration_key (pg_bindings db)) \<and> list_all binding_checks (pg_bindings db) \<and>
     bound_key ` set (pg_bindings db) \<subseteq> version_key ` set (pg_versions db)"

definition attempts_ok :: "pg_db \<Rightarrow> bool" where
  "attempts_ok db \<longleftrightarrow> distinct (map at_attempt_id (pg_attempts db)) \<and>
     list_all (\<lambda>r. at_created_at r < at_expires_at r \<and> like_executor (at_executor_identity r)) (pg_attempts db) \<and>
     at_run_id ` set (pg_attempts db) \<subseteq> row_run ` set (pg_bindings db)"

definition rotations_ok :: "pg_db \<Rightarrow> bool" where
  "rotations_ok db \<longleftrightarrow> distinct (map row_rotation (pg_rotations db)) \<and> list_all rotation_checks (pg_rotations db) \<and>
     length (filter active_row (pg_rotations db)) \<le> 1"

definition backups_ok :: "pg_db \<Rightarrow> bool" where
  "backups_ok db \<longleftrightarrow> distinct (map bs_id (pg_backups db)) \<and> list_all backup_checks (pg_backups db)"

definition pg_inv :: "pg_db \<Rightarrow> bool" where
  "pg_inv db \<longleftrightarrow> credentials_ok db \<and> versions_ok db \<and> idempotency_ok db \<and> bindings_ok db \<and> attempts_ok db \<and>
     rotations_ok db \<and> backups_ok db"

lemmas table_defs = credentials_ok_def versions_ok_def idempotency_ok_def bindings_ok_def attempts_ok_def rotations_ok_def backups_ok_def

lemma pg_inv_migrated: "pg_inv migrated_tables"
  by (simp add: pg_inv_def table_defs migrated_tables_def)

text \<open>The invariant does not look at the audit tables.\<close>

lemma pg_inv_audit [simp]: "pg_inv (db\<lparr>pg_audit := a\<rparr>) = pg_inv db"
  by (simp add: pg_inv_def table_defs)

section \<open>Growth\<close>

definition version_row_le :: "version_row \<Rightarrow> version_row \<Rightarrow> bool" where
  "version_row_le r r' \<longleftrightarrow> version_key r' = version_key r \<and> vr_created_at r' = vr_created_at r"

definition binding_row_le :: "binding_row \<Rightarrow> binding_row \<Rightarrow> bool" where
  "binding_row_le r r' \<longleftrightarrow> same_binding (bw_binding r) (bw_binding r') \<and> bw_idempotency_key r' = bw_idempotency_key r \<and>
     bw_request_digest r' = bw_request_digest r \<and> b_ResolutionCount (bw_binding r) \<le> b_ResolutionCount (bw_binding r') \<and>
     (terminal (b_State (bw_binding r)) \<longrightarrow> b_State (bw_binding r') = b_State (bw_binding r))"

definition rotation_row_le :: "rotation_row \<Rightarrow> rotation_row \<Rightarrow> bool" where
  "rotation_row_le r r' \<longleftrightarrow> (let x = rw_rotation r; y = rw_rotation r' in
     ro_ID y = ro_ID x \<and> ro_SourceKeyID y = ro_SourceKeyID x \<and> ro_TargetKeyID y = ro_TargetKeyID x \<and>
     ro_TotalRecords y = ro_TotalRecords x \<and> ro_CreatedAt y = ro_CreatedAt x)"

definition backup_row_le :: "backup_row \<Rightarrow> backup_row \<Rightarrow> bool" where
  "backup_row_le r r' \<longleftrightarrow> r' = r\<lparr>bs_expired_at := bs_expired_at r'\<rparr> \<and>
     (bs_expired_at r \<noteq> None \<longrightarrow> bs_expired_at r' = bs_expired_at r)"

definition pg_le :: "pg_db \<Rightarrow> pg_db \<Rightarrow> bool" where
  "pg_le db db' \<longleftrightarrow> rows_le same_identity (pg_credentials db) (pg_credentials db') \<and>
     rows_le version_row_le (pg_versions db) (pg_versions db') \<and> rows_le (=) (pg_idempotency db) (pg_idempotency db') \<and>
     rows_le binding_row_le (pg_bindings db) (pg_bindings db') \<and> rows_le (=) (pg_attempts db) (pg_attempts db') \<and>
     rows_le rotation_row_le (pg_rotations db) (pg_rotations db') \<and> rows_le backup_row_le (pg_backups db) (pg_backups db')"

lemma row_le_refls: "same_identity m m" "version_row_le v v" "binding_row_le w w" "rotation_row_le q q" "backup_row_le k k"
  by (simp_all add: same_identity_def version_row_le_def binding_row_le_def same_binding_def rotation_row_le_def backup_row_le_def)

lemma row_le_transs:
  "same_identity m m' \<Longrightarrow> same_identity m' m'' \<Longrightarrow> same_identity m m''"
  "version_row_le v v' \<Longrightarrow> version_row_le v' v'' \<Longrightarrow> version_row_le v v''"
  "binding_row_le w w' \<Longrightarrow> binding_row_le w' w'' \<Longrightarrow> binding_row_le w w''"
  "rotation_row_le q q' \<Longrightarrow> rotation_row_le q' q'' \<Longrightarrow> rotation_row_le q q''"
  by (auto simp: same_identity_def version_row_le_def binding_row_le_def same_binding_def rotation_row_le_def Let_def)

lemma backup_row_le_trans: "backup_row_le k k' \<Longrightarrow> backup_row_le k' k'' \<Longrightarrow> backup_row_le k k''"
  unfolding backup_row_le_def by (metis backup_row.fold_congs(6) backup_row.surjective backup_row.update_convs(6))

lemma pg_le_refl: "pg_le db db"
  by (simp add: pg_le_def rows_le_refl row_le_refls)

lemma pg_le_trans: "pg_le a b \<Longrightarrow> pg_le b c \<Longrightarrow> pg_le a c"
  unfolding pg_le_def
  by (elim conjE, intro conjI)
    (erule (1) rows_le_trans [rotated], blast intro: row_le_transs backup_row_le_trans)+

lemma pg_le_audit [simp]: "pg_le db (db'\<lparr>pg_audit := a\<rparr>) = pg_le db db'"
  by (simp add: pg_le_def)

section \<open>What a statement keeps\<close>

definition keeps :: "pg_db \<Rightarrow> pg_db \<Rightarrow> bool" where
  "keeps db db' \<longleftrightarrow> (pg_inv db \<longrightarrow> pg_inv db' \<and> pg_le db db')"

lemma keeps_refl: "keeps db db"
  by (simp add: keeps_def pg_le_refl)

lemma keeps_trans: "keeps a b \<Longrightarrow> keeps b c \<Longrightarrow> keeps a c"
  unfolding keeps_def by (blast intro: pg_le_trans)

lemma keeps_audit [simp]: "keeps db (db'\<lparr>pg_audit := a\<rparr>) = keeps db db'"
  by (simp add: keeps_def)

text \<open>Which tables each part of the invariant reads.\<close>

lemma credentials_ok_frame [simp]:
  "credentials_ok (db\<lparr>pg_versions := vs\<rparr>) = credentials_ok db" "credentials_ok (db\<lparr>pg_idempotency := ds\<rparr>) = credentials_ok db"
  "credentials_ok (db\<lparr>pg_bindings := ws\<rparr>) = credentials_ok db" "credentials_ok (db\<lparr>pg_attempts := as\<rparr>) = credentials_ok db"
  "credentials_ok (db\<lparr>pg_rotations := qs\<rparr>) = credentials_ok db" "credentials_ok (db\<lparr>pg_backups := ks\<rparr>) = credentials_ok db"
  by (simp_all add: credentials_ok_def)

lemma versions_ok_frame [simp]:
  "versions_ok (db\<lparr>pg_idempotency := ds\<rparr>) = versions_ok db" "versions_ok (db\<lparr>pg_bindings := ws\<rparr>) = versions_ok db"
  "versions_ok (db\<lparr>pg_attempts := as\<rparr>) = versions_ok db" "versions_ok (db\<lparr>pg_rotations := qs\<rparr>) = versions_ok db"
  "versions_ok (db\<lparr>pg_backups := ks\<rparr>) = versions_ok db"
  by (simp_all add: versions_ok_def)

lemma idempotency_ok_frame [simp]:
  "idempotency_ok (db\<lparr>pg_versions := vs\<rparr>) = idempotency_ok db" "idempotency_ok (db\<lparr>pg_bindings := ws\<rparr>) = idempotency_ok db"
  "idempotency_ok (db\<lparr>pg_attempts := as\<rparr>) = idempotency_ok db" "idempotency_ok (db\<lparr>pg_rotations := qs\<rparr>) = idempotency_ok db"
  "idempotency_ok (db\<lparr>pg_backups := ks\<rparr>) = idempotency_ok db"
  by (simp_all add: idempotency_ok_def)

lemma bindings_ok_frame [simp]:
  "bindings_ok (db\<lparr>pg_credentials := cs\<rparr>) = bindings_ok db" "bindings_ok (db\<lparr>pg_idempotency := ds\<rparr>) = bindings_ok db"
  "bindings_ok (db\<lparr>pg_attempts := as\<rparr>) = bindings_ok db" "bindings_ok (db\<lparr>pg_rotations := qs\<rparr>) = bindings_ok db"
  "bindings_ok (db\<lparr>pg_backups := ks\<rparr>) = bindings_ok db"
  by (simp_all add: bindings_ok_def)

lemma attempts_ok_frame [simp]:
  "attempts_ok (db\<lparr>pg_credentials := cs\<rparr>) = attempts_ok db" "attempts_ok (db\<lparr>pg_versions := vs\<rparr>) = attempts_ok db"
  "attempts_ok (db\<lparr>pg_idempotency := ds\<rparr>) = attempts_ok db" "attempts_ok (db\<lparr>pg_rotations := qs\<rparr>) = attempts_ok db"
  "attempts_ok (db\<lparr>pg_backups := ks\<rparr>) = attempts_ok db"
  by (simp_all add: attempts_ok_def)

lemma rotations_ok_frame [simp]:
  "rotations_ok (db\<lparr>pg_credentials := cs\<rparr>) = rotations_ok db" "rotations_ok (db\<lparr>pg_versions := vs\<rparr>) = rotations_ok db"
  "rotations_ok (db\<lparr>pg_idempotency := ds\<rparr>) = rotations_ok db" "rotations_ok (db\<lparr>pg_bindings := ws\<rparr>) = rotations_ok db"
  "rotations_ok (db\<lparr>pg_attempts := as\<rparr>) = rotations_ok db" "rotations_ok (db\<lparr>pg_backups := ks\<rparr>) = rotations_ok db"
  by (simp_all add: rotations_ok_def)

lemma backups_ok_frame [simp]:
  "backups_ok (db\<lparr>pg_credentials := cs\<rparr>) = backups_ok db" "backups_ok (db\<lparr>pg_versions := vs\<rparr>) = backups_ok db"
  "backups_ok (db\<lparr>pg_idempotency := ds\<rparr>) = backups_ok db" "backups_ok (db\<lparr>pg_bindings := ws\<rparr>) = backups_ok db"
  "backups_ok (db\<lparr>pg_attempts := as\<rparr>) = backups_ok db" "backups_ok (db\<lparr>pg_rotations := qs\<rparr>) = backups_ok db"
  by (simp_all add: backups_ok_def)

text \<open>A change of one table keeps the invariant when it keeps its own part and the references to it.\<close>

lemma keeps_credentials:
  assumes "credentials_ok db \<Longrightarrow> credentials_ok (db\<lparr>pg_credentials := cs\<rparr>) \<and> rows_le same_identity (pg_credentials db) cs"
    and "md_ID ` set (pg_credentials db) \<subseteq> md_ID ` set cs"
  shows "keeps db (db\<lparr>pg_credentials := cs\<rparr>)"
proof -
  have "versions_ok db \<Longrightarrow> versions_ok (db\<lparr>pg_credentials := cs\<rparr>)" "idempotency_ok db \<Longrightarrow> idempotency_ok (db\<lparr>pg_credentials := cs\<rparr>)"
    using assms(2) by (simp_all add: versions_ok_def idempotency_ok_def, blast+)
  with assms(1) show ?thesis
    by (simp add: keeps_def pg_inv_def pg_le_def rows_le_refl row_le_refls)
qed

lemma keeps_versions:
  assumes "pg_inv db \<Longrightarrow> versions_ok (db\<lparr>pg_versions := vs\<rparr>) \<and> rows_le version_row_le (pg_versions db) vs"
    and "version_key ` set (pg_versions db) \<subseteq> version_key ` set vs"
  shows "keeps db (db\<lparr>pg_versions := vs\<rparr>)"
proof -
  have "bindings_ok db \<Longrightarrow> bindings_ok (db\<lparr>pg_versions := vs\<rparr>)"
    using assms(2) by (simp add: bindings_ok_def) blast
  with assms(1) show ?thesis
    by (simp add: keeps_def pg_inv_def pg_le_def rows_le_refl row_le_refls)
qed

lemma keeps_bindings:
  assumes "pg_inv db \<Longrightarrow> bindings_ok (db\<lparr>pg_bindings := ws\<rparr>) \<and> rows_le binding_row_le (pg_bindings db) ws"
    and "row_run ` set (pg_bindings db) \<subseteq> row_run ` set ws"
  shows "keeps db (db\<lparr>pg_bindings := ws\<rparr>)"
proof -
  have "attempts_ok db \<Longrightarrow> attempts_ok (db\<lparr>pg_bindings := ws\<rparr>)"
    using assms(2) by (simp add: attempts_ok_def) blast
  with assms(1) show ?thesis
    by (simp add: keeps_def pg_inv_def pg_le_def rows_le_refl row_le_refls)
qed

lemma keeps_leaf:
  "(pg_inv db \<Longrightarrow> idempotency_ok (db\<lparr>pg_idempotency := ds\<rparr>) \<and> rows_le (=) (pg_idempotency db) ds) \<Longrightarrow> keeps db (db\<lparr>pg_idempotency := ds\<rparr>)"
  "(pg_inv db \<Longrightarrow> attempts_ok (db\<lparr>pg_attempts := as\<rparr>) \<and> rows_le (=) (pg_attempts db) as) \<Longrightarrow> keeps db (db\<lparr>pg_attempts := as\<rparr>)"
  "(pg_inv db \<Longrightarrow> rotations_ok (db\<lparr>pg_rotations := qs\<rparr>) \<and> rows_le rotation_row_le (pg_rotations db) qs) \<Longrightarrow> keeps db (db\<lparr>pg_rotations := qs\<rparr>)"
  "(pg_inv db \<Longrightarrow> backups_ok (db\<lparr>pg_backups := ks\<rparr>) \<and> rows_le backup_row_le (pg_backups db) ks) \<Longrightarrow> keeps db (db\<lparr>pg_backups := ks\<rparr>)"
  by (simp_all add: keeps_def pg_inv_def pg_le_def rows_le_refl row_le_refls)

lemma keeps_insert_credential: "insert_credential env db m = Inr db' \<Longrightarrow> keeps db db'"
  by (clarsimp simp: insert_credential_def statement_Inr, rule keeps_credentials)
    (auto simp: credentials_ok_def rows_le_append row_le_refls credential_checks_def)

lemma keeps_insert_version: "insert_version env db i v t k c = Inr db' \<Longrightarrow> keeps db db'"
  by (clarsimp simp: insert_version_def statement_Inr, rule keeps_versions)
    (auto simp: pg_inv_def versions_ok_def rows_le_append row_le_refls version_checks_def version_key_def list_ex_iff)

lemma keeps_insert_idempotency: "insert_idempotency env db p k d t i c = Inr db' \<Longrightarrow> keeps db db'"
  by (clarsimp simp: insert_idempotency_def statement_Inr, rule keeps_leaf)
    (auto simp: pg_inv_def idempotency_ok_def rows_le_append idempotency_key_def list_ex_iff)

lemma find_version_key: "find_version db i v = Some r \<Longrightarrow> r \<in> set (pg_versions db) \<and> version_key r = (i, v)"
  by (auto simp: find_version_def find_Some_iff version_key_def)

lemma keeps_insert_binding: "insert_binding env db x k d t = Inr db' \<Longrightarrow> keeps db db'"
  by (clarsimp simp: insert_binding_def Let_def statement_Inr, rule keeps_bindings)
    (auto simp: pg_inv_def bindings_ok_def rows_le_append row_le_refls row_run_def row_dispatch_def registration_key_def bound_key_def
      list_ex_iff dest!: find_version_key intro: rev_image_eqI)

lemma keeps_insert_attempt: "insert_attempt env db a run x d t e = Inr db' \<Longrightarrow> keeps db db'"
  by (clarsimp simp: insert_attempt_def statement_Inr, rule keeps_leaf)
    (auto simp: pg_inv_def attempts_ok_def rows_le_append row_run_def list_ex_iff)

lemma keeps_insert_rotation: "insert_rotation env db x = Inr db' \<Longrightarrow> keeps db db'"
  by (clarsimp simp: insert_rotation_def Let_def statement_Inr, rule keeps_leaf)
    (auto simp: pg_inv_def rotations_ok_def rows_le_append row_le_refls row_rotation_def list_ex_iff filter_empty_conv)

lemma keeps_insert_backup: "insert_backup env db k = Inr db' \<Longrightarrow> keeps db db'"
  by (clarsimp simp: insert_backup_def Let_def statement_Inr, rule keeps_leaf)
    (auto simp: pg_inv_def backups_ok_def rows_le_append row_le_refls)

text \<open>Updates in place keep the keys.\<close>

lemma map_key:
  assumes "\<And>x. key (f x) = key x"
  shows "map key (map f xs) = map key xs" and "key ` set (map f xs) = key ` set xs"
  using assms by (simp_all add: image_image)

lemma keeps_map_credentials:
  assumes "\<And>c. same_identity c (f c)" and "\<And>c. c \<in> set (pg_credentials db) \<Longrightarrow> credential_checks c \<Longrightarrow> credential_checks (f c)"
  shows "keeps db (db\<lparr>pg_credentials := map f (pg_credentials db)\<rparr>)"
proof (rule keeps_credentials)
  have k: "md_ID (f c) = md_ID c" for c using assms(1) [of c] by (simp add: same_identity_def)
  show "md_ID ` set (pg_credentials db) \<subseteq> md_ID ` set (map f (pg_credentials db))" by (simp only: map_key(2) [of md_ID, OF k] subset_refl)
  show "credentials_ok (db\<lparr>pg_credentials := map f (pg_credentials db)\<rparr>) \<and> rows_le same_identity (pg_credentials db) (map f (pg_credentials db))"
    if "credentials_ok db"
    using that assms map_key(1) [of md_ID f, OF k] by (auto simp: credentials_ok_def list_all_iff rows_le_map simp del: map_map)
qed

lemma keeps_map_versions:
  assumes "\<And>r. version_row_le r (f r)" and "\<And>r. r \<in> set (pg_versions db) \<Longrightarrow> version_checks r \<Longrightarrow> version_checks (f r)"
  shows "keeps db (db\<lparr>pg_versions := map f (pg_versions db)\<rparr>)"
proof (rule keeps_versions)
  have k: "version_key (f r) = version_key r" "vr_credential_id (f r) = vr_credential_id r" for r
    using assms(1) [of r] by (simp_all add: version_row_le_def version_key_def)
  show "version_key ` set (pg_versions db) \<subseteq> version_key ` set (map f (pg_versions db))"
    by (simp only: map_key(2) [of version_key, OF k(1)] subset_refl)
  show "versions_ok (db\<lparr>pg_versions := map f (pg_versions db)\<rparr>) \<and> rows_le version_row_le (pg_versions db) (map f (pg_versions db))"
    if "pg_inv db"
    using that assms map_key(1) [of version_key f, OF k(1)] map_key(2) [of vr_credential_id f, OF k(2)]
    by (auto simp: pg_inv_def versions_ok_def list_all_iff rows_le_map simp del: map_map)
qed

lemma keeps_map_bindings:
  assumes "\<And>r. r \<in> set (pg_bindings db) \<Longrightarrow> binding_checks r \<Longrightarrow> binding_row_le r (f r) \<and> binding_checks (f r)"
    and "\<And>r. same_binding (bw_binding r) (bw_binding (f r)) \<and> bw_idempotency_key (f r) = bw_idempotency_key r"
  shows "keeps db (db\<lparr>pg_bindings := map f (pg_bindings db)\<rparr>)"
proof (rule keeps_bindings)
  have k: "row_run (f r) = row_run r" "row_dispatch (f r) = row_dispatch r" "registration_key (f r) = registration_key r"
    "bound_key (f r) = bound_key r" for r
    using assms(2) [of r] by (simp_all add: same_binding_def row_run_def row_dispatch_def registration_key_def bound_key_def)
  show "row_run ` set (pg_bindings db) \<subseteq> row_run ` set (map f (pg_bindings db))"
    by (simp only: map_key(2) [of row_run, OF k(1)] subset_refl)
  show "bindings_ok (db\<lparr>pg_bindings := map f (pg_bindings db)\<rparr>) \<and> rows_le binding_row_le (pg_bindings db) (map f (pg_bindings db))"
    if "pg_inv db"
    using that assms map_key(1) [of row_run f, OF k(1)] map_key(1) [of row_dispatch f, OF k(2)]
      map_key(1) [of registration_key f, OF k(3)] map_key(2) [of bound_key f, OF k(4)]
    by (auto simp: pg_inv_def bindings_ok_def list_all_iff rows_le_map simp del: map_map)
qed

lemma keeps_map_rotations:
  assumes "\<And>r. rotation_row_le r (f r)" and "\<And>r. r \<in> set (pg_rotations db) \<Longrightarrow> rotation_checks r \<Longrightarrow> rotation_checks (f r)"
    and "length (filter active_row (map f (pg_rotations db))) \<le> 1"
  shows "keeps db (db\<lparr>pg_rotations := map f (pg_rotations db)\<rparr>)"
proof (rule keeps_leaf)
  have k: "row_rotation (f r) = row_rotation r" for r
    using assms(1) [of r] by (simp add: rotation_row_le_def row_rotation_def Let_def)
  show "rotations_ok (db\<lparr>pg_rotations := map f (pg_rotations db)\<rparr>) \<and> rows_le rotation_row_le (pg_rotations db) (map f (pg_rotations db))"
    if "pg_inv db"
    using that assms map_key(1) [of row_rotation f, OF k]
    by (auto simp: pg_inv_def rotations_ok_def list_all_iff rows_le_map simp del: map_map)
qed

lemma keeps_map_backups:
  assumes "\<And>r. backup_row_le r (f r)"
    and "\<And>r. distinct (map bs_id (pg_backups db)) \<Longrightarrow> r \<in> set (pg_backups db) \<Longrightarrow> backup_checks r \<Longrightarrow> backup_checks (f r)"
  shows "keeps db (db\<lparr>pg_backups := map f (pg_backups db)\<rparr>)"
proof (rule keeps_leaf)
  have k: "bs_id (f r) = bs_id r" for r
    using assms(1) [of r] unfolding backup_row_le_def by (metis backup_row.select_convs(1) backup_row.surjective backup_row.update_convs(6))
  show "backups_ok (db\<lparr>pg_backups := map f (pg_backups db)\<rparr>) \<and> rows_le backup_row_le (pg_backups db) (map f (pg_backups db))"
    if "pg_inv db"
    using that assms map_key(1) [of bs_id f, OF k]
    by (auto simp: pg_inv_def backups_ok_def list_all_iff rows_le_map simp del: map_map)
qed

lemma keeps_update_credentials: "update_credentials env db m i p v = Inr (n, db') \<Longrightarrow> keeps db db'"
  by (clarsimp simp: update_credentials_def Let_def statement_Inr, rule keeps_map_credentials)
    (auto simp: list_all_iff credential_checks_def same_identity_def)

lemma keeps_update_version: "update_version env db t k i v s = Inr (n, db') \<Longrightarrow> keeps db db'"
  by (clarsimp simp: update_version_def Let_def statement_Inr, rule keeps_map_versions)
    (auto simp: version_checks_def version_key_def version_row_le_def filter_empty_conv)

lemma keeps_update_rotation: "update_rotation env db i s p t z = Inr db' \<Longrightarrow> keeps db db'"
  by (clarsimp simp: update_rotation_def Let_def statement_Inr simp del: One_nat_def, rule keeps_map_rotations)
    (auto simp: rotation_row_le_def Let_def list_all_iff simp del: filter_map length_map)

lemma expire_backup_Some:
  assumes "expire_backup env db i t = Inr (Some (r, db'))"
  obtains u q where "pe_time env t = Some u" "find (\<lambda>r. bs_id r = i) (pg_backups db) = Some q" "backup_checks (expired_row u q)"
    "r = expired_row u q" "db' = db\<lparr>pg_backups := map (\<lambda>r. if bs_id r = i then expired_row u r else r) (pg_backups db)\<rparr>"
proof -
  from assms obtain u where u: "pe_time env t = Some u" by (auto simp: expire_backup_def given_Inr)
  show ?thesis
  proof (cases "find (\<lambda>r. bs_id r = i) (pg_backups db)")
    case None
    then show ?thesis using assms u by (simp add: expire_backup_def given_def checked_Inr)
  next
    case (Some q)
    then show ?thesis
      using assms u by (intro that [OF u Some]) (auto simp: expire_backup_def given_def checked_Inr)
  qed
qed

lemma keeps_expire_backup:
  assumes "expire_backup env db i t = Inr (Some (r, db'))"
  shows "keeps db db'"
proof -
  from assms obtain u q where q: "find (\<lambda>r. bs_id r = i) (pg_backups db) = Some q" and c: "backup_checks (expired_row u q)"
    and db': "db' = db\<lparr>pg_backups := map (\<lambda>r. if bs_id r = i then expired_row u r else r) (pg_backups db)\<rparr>"
    by (rule expire_backup_Some)
  have "x = q" if "distinct (map bs_id (pg_backups db))" "x \<in> set (pg_backups db)" "bs_id x = i" for x
    using that q by (metis (mono_tags, lifting) distinct_map find_Some_iff inj_onD nth_mem)
  with c show ?thesis unfolding db' by (intro keeps_map_backups) (auto simp: backup_row_le_def expired_row_def)
qed

text \<open>The trigger on bindings gives their order; the columns of the identity must be left alone.\<close>

lemma keeps_update_binding:
  assumes "update_binding env db run t f = Inr db'"
    and "\<And>r. same_binding (bw_binding r) (bw_binding (f r)) \<and> bw_idempotency_key (f r) = bw_idempotency_key r \<and>
       bw_request_digest (f r) = bw_request_digest r"
  shows "keeps db db'"
proof -
  from assms(1) obtain run' u where u: "list_all (\<lambda>r. b_RunID (bw_binding r) = run' \<longrightarrow>
       (let r' = (f r)\<lparr>bw_binding := (bw_binding (f r))\<lparr>b_UpdatedAt := u\<rparr>\<rparr> in binding_checks r' \<and> binding_trigger r r')) (pg_bindings db)"
    and db': "db' = db\<lparr>pg_bindings := map (\<lambda>r. if b_RunID (bw_binding r) = run' then (f r)\<lparr>bw_binding := (bw_binding (f r))\<lparr>b_UpdatedAt := u\<rparr>\<rparr> else r) (pg_bindings db)\<rparr>"
    by (auto simp: update_binding_def Let_def statement_Inr)
  show ?thesis unfolding db'
  proof (rule keeps_map_bindings)
    fix r
    show "same_binding (bw_binding r) (bw_binding (if b_RunID (bw_binding r) = run' then (f r)\<lparr>bw_binding := (bw_binding (f r))\<lparr>b_UpdatedAt := u\<rparr>\<rparr> else r)) \<and>
        bw_idempotency_key (if b_RunID (bw_binding r) = run' then (f r)\<lparr>bw_binding := (bw_binding (f r))\<lparr>b_UpdatedAt := u\<rparr>\<rparr> else r) = bw_idempotency_key r"
      using assms(2) [of r] by (simp add: same_binding_def)
    assume "r \<in> set (pg_bindings db)" "binding_checks r"
    then show "binding_row_le r (if b_RunID (bw_binding r) = run' then (f r)\<lparr>bw_binding := (bw_binding (f r))\<lparr>b_UpdatedAt := u\<rparr>\<rparr> else r) \<and>
        binding_checks (if b_RunID (bw_binding r) = run' then (f r)\<lparr>bw_binding := (bw_binding (f r))\<lparr>b_UpdatedAt := u\<rparr>\<rparr> else r)"
      using u assms(2) [of r] by (auto simp: list_all_iff Let_def binding_row_le_def same_binding_def binding_trigger_def terminal_def)
  qed
qed

section \<open>Methods\<close>

text \<open>
  A property of what a transaction commits. The rules follow the code: an error rolls back, a
  statement that succeeds gives its fact to the rest.
\<close>

definition commits :: "(cred_error + 'a \<Rightarrow> pg_db \<Rightarrow> bool) \<Rightarrow> 'a tx_end \<Rightarrow> bool" where
  "commits P t \<longleftrightarrow> (case t of Rollback _ \<Rightarrow> True | Commit r db \<Rightarrow> P r db)"

lemma commits_Rollback: "commits P (Rollback r)"
  by (simp add: commits_def)

lemma commits_Commit: "P r db \<Longrightarrow> commits P (Commit r db)"
  by (simp add: commits_def)

lemma commits_sum: "(\<And>e. r = Inl e \<Longrightarrow> commits P (f e)) \<Longrightarrow> (\<And>x. r = Inr x \<Longrightarrow> commits P (g x)) \<Longrightarrow> commits P (case r of Inl e \<Rightarrow> f e | Inr x \<Rightarrow> g x)"
  by (cases r) simp_all

lemma commits_sql: "(\<And>e. sql l n r = Inl e \<Longrightarrow> commits P (f e)) \<Longrightarrow> (\<And>x. r = Inr x \<Longrightarrow> commits P (g x)) \<Longrightarrow> commits P (case sql l n r of Inl e \<Rightarrow> f e | Inr x \<Rightarrow> g x)"
  using commits_sum [of "sql l n r" P f g] by (auto simp: sql_Inr)

lemma commits_option: "(x = None \<Longrightarrow> commits P a) \<Longrightarrow> (\<And>y. x = Some y \<Longrightarrow> commits P (f y)) \<Longrightarrow> commits P (case x of None \<Rightarrow> a | Some y \<Rightarrow> f y)"
  by (cases x) simp_all

lemma commits_if: "(c \<Longrightarrow> commits P a) \<Longrightarrow> (\<not> c \<Longrightarrow> commits P b) \<Longrightarrow> commits P (if c then a else b)"
  by simp

lemma commits_prod: "(\<And>a b. x = (a, b) \<Longrightarrow> commits P (f a b)) \<Longrightarrow> commits P (case x of (a, b) \<Rightarrow> f a b)"
  by (cases x) simp

lemma commits_Let: "(\<And>y. y = x \<Longrightarrow> commits P (f y)) \<Longrightarrow> commits P (Let x f)"
  by (simp add: Let_def)

lemmas commits_intros = commits_Rollback commits_Let commits_if commits_sql commits_sum commits_option commits_prod

lemma finish_commits: "commits (\<lambda>_. P) t \<Longrightarrow> P db \<Longrightarrow> P (snd (finish l db t))"
  by (auto simp: commits_def finish_def split: tx_end.splits commit_outcome.splits)

lemma transaction_commits: "commits (\<lambda>_. P) (body db) \<Longrightarrow> P db \<Longrightarrow> P (snd (transaction l db body))"
  by (simp add: transaction_def finish_commits)

lemma transaction_keeps: "commits (\<lambda>_. keeps db) (body db) \<Longrightarrow> keeps db (snd (transaction l db body))"
  by (rule transaction_commits) (simp_all add: keeps_refl)

text \<open>The audit calls change the audit tables only.\<close>

definition same_tables :: "pg_db \<Rightarrow> pg_db \<Rightarrow> bool" where
  "same_tables db db' \<longleftrightarrow> (\<exists>a. db' = db\<lparr>pg_audit := a\<rparr>)"

lemma same_tables_refl: "same_tables db db"
  unfolding same_tables_def by (metis pg_db.surjective pg_db.update_convs(8))

lemma same_tables_trans: "same_tables a b \<Longrightarrow> same_tables b c \<Longrightarrow> same_tables a c"
  by (auto simp: same_tables_def)

lemma appendAudit_tables: "appendAudit env b l n db e = Inr db' \<Longrightarrow> same_tables db db'"
  by (auto simp: appendAudit_def same_tables_def split: option.splits if_splits sum.splits)

lemma appendCompletion_tables: "appendCompletion env b ctx l n db e = Inr db' \<Longrightarrow> same_tables db db'"
  by (auto simp: appendCompletion_def same_tables_refl appendAudit_tables split: option.splits)

lemma appendSuccessfulTransition_tables: "appendSuccessfulTransition env b ctx l n db e = Inr db' \<Longrightarrow> same_tables db db'"
  unfolding appendSuccessfulTransition_def
  by (auto split: sum.splits dest!: appendAudit_tables appendCompletion_tables intro: same_tables_trans)

lemma keeps_same: "same_tables db db' \<Longrightarrow> keeps a db \<Longrightarrow> keeps a db'"
  by (auto simp: same_tables_def)

lemma keeps_set_state: "update_binding env db run t (set_binding_state s) = Inr db' \<Longrightarrow> keeps db db'"
  by (erule keeps_update_binding) (simp add: set_binding_state_def same_binding_def)

lemma keeps_cancel:
  "checked c (update_binding env db run t (\<lambda>r. (set_binding_state s r)\<lparr>bw_cancel_reason := z\<rparr>)) = Inr db' \<Longrightarrow> keeps db db'"
  unfolding checked_Inr by (elim conjE keeps_update_binding) (simp add: set_binding_state_def same_binding_def)

lemma keeps_count:
  "checked c (update_binding env db run t (\<lambda>r. (set_binding_state s r)
     \<lparr>bw_binding := (bw_binding (set_binding_state s r))\<lparr>b_ResolutionCount := k\<rparr>\<rparr>)) = Inr db' \<Longrightarrow> keeps db db'"
  unfolding checked_Inr by (elim conjE keeps_update_binding) (simp add: set_binding_state_def same_binding_def)

text \<open>One step back through a statement or an audit call.\<close>

lemma keeps_after: "keeps db db' \<Longrightarrow> keeps a db \<Longrightarrow> keeps a db'"
  by (rule keeps_trans)

lemmas keeps_steps = keeps_same [OF appendAudit_tables] keeps_same [OF appendCompletion_tables]
  keeps_same [OF appendSuccessfulTransition_tables]
  keeps_insert_credential [THEN keeps_after] keeps_insert_version [THEN keeps_after] keeps_insert_idempotency [THEN keeps_after]
  keeps_insert_binding [THEN keeps_after] keeps_insert_attempt [THEN keeps_after] keeps_insert_rotation [THEN keeps_after]
  keeps_insert_backup [THEN keeps_after] keeps_update_credentials [THEN keeps_after] keeps_update_version [THEN keeps_after]
  keeps_update_rotation [THEN keeps_after] keeps_expire_backup [THEN keeps_after] keeps_set_state [THEN keeps_after]
  keeps_cancel [THEN keeps_after] keeps_count [THEN keeps_after]

lemma keeps_create_rows: "commits (\<lambda>_. keeps db) (create_rows env b ctx l db org key d m r t u)"
  unfolding create_rows_def
  by (intro commits_intros commits_Commit) (rule keeps_refl | erule keeps_steps)+

lemma keeps_Create: "keeps db (snd (Create_pg env b ctx l db i d m r))"
  unfolding Create_pg_def
  by (auto split: option.split prod.split intro!: keeps_refl)
    (intro transaction_keeps keeps_refl keeps_create_rows commits_intros commits_Commit)

lemma keeps_Update: "keeps db (snd (Update_pg env b ctx l db p i v m r oper))"
proof -
  have "commits (\<lambda>_. keeps db) (case sql l 1 (update_credentials env db m i p v) of Inl _ \<Rightarrow> Rollback (Inl ErrStorage)
      | Inr (affected, db1) \<Rightarrow> if affected = 0 then (case sql l 2 (select_credential env db1 p i) of
           Inr None \<Rightarrow> Rollback (Inl ErrNotFound) | Inl _ \<Rightarrow> Rollback (Inl ErrStorage) | Inr (Some _) \<Rightarrow> Rollback (Inl ErrVersionConflict))
        else (case sql l 2 (insert_version env db1 i (md_Version m) t (rec_MasterKeyID r) (md_UpdatedAt m)) of
          Inl _ \<Rightarrow> Rollback (Inl ErrStorage)
        | Inr db2 \<Rightarrow> (case appendSuccessfulTransition env b ctx l 3 db2 (credentialAudit oper m) of
            Inl e \<Rightarrow> Rollback (Inl e) | Inr db3 \<Rightarrow> Commit (Inr m) db3)))" for t
    by (intro commits_intros commits_Commit; clarify) (rule keeps_refl | erule keeps_steps)+
  then show ?thesis
    unfolding Update_pg_def by (auto split: option.split prod.split intro!: keeps_refl transaction_keeps)
qed

lemma keeps_RegisterBinding: "keeps db (snd (RegisterBinding_pg env b ctx l db reg))"
  unfolding RegisterBinding_pg_def
  by (intro transaction_keeps commits_intros commits_Commit) (rule keeps_refl | erule keeps_steps)+

lemma keeps_CancelBinding: "keeps db (snd (CancelBinding_pg env b ctx l db run disp reason t))"
  unfolding CancelBinding_pg_def
  by (intro transaction_keeps commits_intros commits_Commit) (rule keeps_refl | erule keeps_steps)+

lemma keeps_close: "commits (\<lambda>_. keeps db) (close_binding env b l n db claim x s oper reason e)"
  unfolding close_binding_def
  by (intro commits_intros commits_Commit) (rule keeps_refl | erule keeps_steps)+

lemma keeps_claim_new: "commits (\<lambda>_. keeps db) (claim_new env b ctx l db claim x rendered)"
  unfolding claim_new_def
  by (intro commits_intros commits_Commit) (rule keeps_refl | erule keeps_steps)+

lemma keeps_claim_attempt: "commits (\<lambda>_. keeps db) (claim_attempt_pg env b ctx l db claim x rendered)"
  unfolding claim_attempt_pg_def
  by (intro keeps_close keeps_claim_new commits_intros commits_Commit) (rule keeps_refl | erule keeps_steps)+

lemma keeps_ClaimResolution: "keeps db (snd (ClaimResolution_pg env b ctx l db claim validate))"
  unfolding ClaimResolution_pg_def
  by (intro transaction_keeps keeps_close keeps_claim_attempt commits_intros commits_Commit keeps_refl)

lemma keeps_StartRotation: "keeps db (snd (StartRotation_pg env b ctx l db x))"
  unfolding StartRotation_pg_def
  by (intro transaction_keeps commits_intros commits_Commit) (rule keeps_refl | erule keeps_steps)+

lemma keeps_FinalizeRotation: "keeps db (snd (FinalizeRotation_pg env b ctx l db i t))"
  unfolding FinalizeRotation_pg_def
  by (intro transaction_keeps commits_intros commits_Commit) (rule keeps_refl | erule keeps_steps)+

lemma keeps_end_batch: "keeps a db \<Longrightarrow> commits (\<lambda>_. keeps a) (end_batch env b ctx l n x k t db)"
  unfolding end_batch_def
  by (intro commits_intros commits_Commit) (assumption | erule keeps_steps)+

lemma rotate_records_Cons:
  assumes "rotate_records env b ctx l n x t transform (r # rs) db s = (Inr db', s')"
  obtains rotated s1 db1 db2 where "transform r s = (Inr rotated, s1)"
    "update_version env db (marshal_envelope rotated) (rec_MasterKeyID rotated) (md_ID (rr_metadata r)) (rr_version r)
       (Some (ro_SourceKeyID x)) = Inr (1, db1)"
    "appendAudit env b l (Suc n) db1 (attributed ctx ((keyRotatedAudit (md_OrganizationID (rr_metadata r)) (md_ID (rr_metadata r))
       (rr_version r) (md_SchemaVersion (rr_metadata r)) (ro_TargetKeyID x) t)\<lparr>ev_RotationID := ro_ID x\<rparr>)) = Inr db2"
    "rotate_records env b ctx l (n + 2) x t transform rs db2 s1 = (Inr db', s')"
  using assms by (auto simp: Let_def sql_Inr split: prod.splits sum.splits if_splits)

lemma keeps_rotate_records:
  "rotate_records env b ctx l n x t transform rs db s = (Inr db', s') \<Longrightarrow> keeps db db'"
proof (induction rs arbitrary: n db s)
  case (Cons r rs)
  from Cons.prems show ?case
    by (rule rotate_records_Cons)
      (rule keeps_trans [OF _ Cons.IH], erule keeps_steps, erule keeps_steps, rule keeps_refl, assumption)
qed (simp add: keeps_refl)

text \<open>The same rules for the methods that thread the state of an entropy source.\<close>

definition leaves :: "(pg_db \<Rightarrow> bool) \<Rightarrow> ((cred_error + 'a) \<times> pg_db) \<times> 's \<Rightarrow> bool" where
  "leaves P x \<longleftrightarrow> P (snd (fst x))"

lemma leaves_refl: "P db \<Longrightarrow> leaves P ((r, db), s)"
  by (simp add: leaves_def)

lemma leaves_finish: "commits (\<lambda>_. P) t \<Longrightarrow> P db \<Longrightarrow> leaves P (finish l db t, s)"
  by (simp add: leaves_def finish_commits)

lemma leaves_sum: "(\<And>e. r = Inl e \<Longrightarrow> leaves P (f e)) \<Longrightarrow> (\<And>x. r = Inr x \<Longrightarrow> leaves P (g x)) \<Longrightarrow> leaves P (case r of Inl e \<Rightarrow> f e | Inr x \<Rightarrow> g x)"
  by (cases r) simp_all

lemma leaves_option: "(x = None \<Longrightarrow> leaves P a) \<Longrightarrow> (\<And>y. x = Some y \<Longrightarrow> leaves P (f y)) \<Longrightarrow> leaves P (case x of None \<Rightarrow> a | Some y \<Rightarrow> f y)"
  by (cases x) simp_all

lemma leaves_if: "(c \<Longrightarrow> leaves P a) \<Longrightarrow> (\<not> c \<Longrightarrow> leaves P b) \<Longrightarrow> leaves P (if c then a else b)"
  by simp

lemma leaves_prod: "(\<And>a b. x = (a, b) \<Longrightarrow> leaves P (f a b)) \<Longrightarrow> leaves P (case x of (a, b) \<Rightarrow> f a b)"
  by (cases x) simp

lemma leaves_Let: "(\<And>y. y = x \<Longrightarrow> leaves P (f y)) \<Longrightarrow> leaves P (Let x f)"
  by (simp add: Let_def)

lemmas leaves_intros = leaves_refl leaves_finish leaves_Let leaves_if leaves_sum leaves_option leaves_prod

lemma keeps_RotateBatch: "leaves (keeps db) (RotateBatch_pg env b ctx l locked db i limit t transform s)"
  unfolding RotateBatch_pg_def
  by (intro leaves_intros keeps_refl keeps_end_batch) (clarify, erule keeps_rotate_records)

lemma keeps_RotateCredential: "leaves (keeps db) (RotateCredential_pg env b ctx l db request transform s t)"
  unfolding RotateCredential_pg_def
  by (intro leaves_intros keeps_refl commits_intros commits_Commit; clarify) (rule keeps_refl | erule keeps_steps)+

lemma keeps_ValidateRecovery: "keeps db (snd (ValidateRecovery_pg env sha b ctx l db limit t validate))"
  unfolding ValidateRecovery_pg_def
  by (intro transaction_keeps commits_intros commits_Commit) (rule keeps_refl | erule keeps_steps)+

lemma keeps_RegisterBackup: "keeps db (snd (RegisterBackup_pg env b ctx l db k t))"
  unfolding RegisterBackup_pg_def
  by (intro transaction_keeps commits_intros commits_Commit) (rule keeps_refl | erule keeps_steps)+

lemma keeps_ExpireBackup: "keeps db (snd (ExpireBackup_pg env b ctx l db i t))"
  unfolding ExpireBackup_pg_def
  by (intro transaction_keeps commits_intros commits_Commit; clarify?) (rule keeps_refl | erule keeps_steps)+

end
