(* ===== verification/Postgres_Calls.thy ===== *)
theory Postgres_Calls
  imports Postgres_Runs
begin

text \<open>
  The PostgreSQL backend as a system of calls: the methods that change the tables are the steps,
  and the contract \<open>monotone_system\<close> is interpreted on them, with the constraints of the tables and
  the presence of every credential's current version as the invariant.
\<close>

section \<open>The current version\<close>

text \<open>
  No constraint of the tables says that a credential's current version is stored. The methods see
  to it: only a creation and an update set a version, and they insert its row in the same
  transaction.
\<close>

definition current_ok :: "pg_db \<Rightarrow> bool" where
  "current_ok db \<longleftrightarrow> list_all (\<lambda>c. (md_ID c, md_Version c) \<in> version_key ` set (pg_versions db)) (pg_credentials db)"

definition pg_good :: "pg_db \<Rightarrow> bool" where
  "pg_good db \<longleftrightarrow> pg_inv db \<and> current_ok db"

lemma keeps_versions_of: "keeps db db' \<Longrightarrow> pg_inv db \<Longrightarrow> version_key ` set (pg_versions db) \<subseteq> version_key ` set (pg_versions db')"
proof
  fix k assume k: "keeps db db'" "pg_inv db" and "k \<in> version_key ` set (pg_versions db)"
  then obtain r where r: "r \<in> set (pg_versions db)" "k = version_key r" by blast
  have "rows_le version_row_le (pg_versions db) (pg_versions db')" using k(1,2) by (simp add: keeps_def pg_le_def)
  then obtain r' where "r' \<in> set (pg_versions db')" "version_row_le r r'" using rows_le_set r(1) by metis
  with r(2) show "k \<in> version_key ` set (pg_versions db')" by (metis image_eqI version_row_le_def)
qed

lemma current_frame: "keeps db db' \<Longrightarrow> pg_credentials db' = pg_credentials db \<Longrightarrow> pg_good db \<Longrightarrow> pg_good db'"
  using keeps_versions_of [of db db'] by (auto simp: pg_good_def keeps_def current_ok_def list_all_iff)

text \<open>The credentials table through every other statement.\<close>

lemma same_tables_credentials: "same_tables db db' \<Longrightarrow> pg_credentials db = cs \<Longrightarrow> pg_credentials db' = cs"
  by (auto simp: same_tables_def)

lemma credentials_through:
  "insert_version env db i v t k c = Inr db' \<Longrightarrow> pg_credentials db = cs \<Longrightarrow> pg_credentials db' = cs"
  "insert_idempotency env db p k d t i c = Inr db' \<Longrightarrow> pg_credentials db = cs \<Longrightarrow> pg_credentials db' = cs"
  "insert_binding env db x k d c = Inr db' \<Longrightarrow> pg_credentials db = cs \<Longrightarrow> pg_credentials db' = cs"
  "insert_attempt env db i k t d c v' = Inr db' \<Longrightarrow> pg_credentials db = cs \<Longrightarrow> pg_credentials db' = cs"
  "insert_rotation env db q = Inr db' \<Longrightarrow> pg_credentials db = cs \<Longrightarrow> pg_credentials db' = cs"
  "insert_backup env db g = Inr db' \<Longrightarrow> pg_credentials db = cs \<Longrightarrow> pg_credentials db' = cs"
  "update_version env db t k i v s = Inr (n, db') \<Longrightarrow> pg_credentials db = cs \<Longrightarrow> pg_credentials db' = cs"
  "update_rotation env db i st pr c z = Inr db' \<Longrightarrow> pg_credentials db = cs \<Longrightarrow> pg_credentials db' = cs"
  "update_binding env db i c f = Inr db' \<Longrightarrow> pg_credentials db = cs \<Longrightarrow> pg_credentials db' = cs"
  "checked y (update_binding env db i c f) = Inr db' \<Longrightarrow> pg_credentials db = cs \<Longrightarrow> pg_credentials db' = cs"
  "expire_backup env db i c = Inr (Some (w, db')) \<Longrightarrow> pg_credentials db = cs \<Longrightarrow> pg_credentials db' = cs"
            apply (auto simp: insert_version_def insert_idempotency_def insert_binding_def insert_attempt_def insert_rotation_def insert_backup_def
      update_version_def update_rotation_def update_binding_def statement_Inr Let_def)[10]
  apply (auto elim: expire_backup_Some)
  done

lemmas credentials_steps = credentials_through same_tables_credentials [OF appendAudit_tables]
  same_tables_credentials [OF appendCompletion_tables] same_tables_credentials [OF appendSuccessfulTransition_tables]

abbreviation credentials_of :: "pg_db \<Rightarrow> pg_db \<Rightarrow> bool" where
  "credentials_of db db' \<equiv> pg_credentials db' = pg_credentials db"

lemma transaction_credentials: "commits (\<lambda>_. credentials_of db) (body db) \<Longrightarrow> credentials_of db (snd (transaction l db body))"
  by (rule transaction_commits) simp_all

lemma credentials_RegisterBinding: "credentials_of db (snd (RegisterBinding_pg env b ctx l db reg))"
  unfolding RegisterBinding_pg_def
  by (intro transaction_credentials commits_intros commits_Commit) (rule refl | erule credentials_steps)+

lemma credentials_CancelBinding: "credentials_of db (snd (CancelBinding_pg env b ctx l db run disp reason t))"
  unfolding CancelBinding_pg_def
  by (intro transaction_credentials commits_intros commits_Commit) (rule refl | erule credentials_steps)+

lemma credentials_close: "commits (\<lambda>_. credentials_of db) (close_binding env b l n db claim x s oper reason e)"
  unfolding close_binding_def
  by (intro commits_intros commits_Commit) (rule refl | erule credentials_steps)+

lemma credentials_claim_new: "commits (\<lambda>_. credentials_of db) (claim_new env b ctx l db claim x rendered)"
  unfolding claim_new_def
  by (intro commits_intros commits_Commit) (rule refl | erule credentials_steps)+

lemma credentials_claim_attempt: "commits (\<lambda>_. credentials_of db) (claim_attempt_pg env b ctx l db claim x rendered)"
  unfolding claim_attempt_pg_def
  by (intro credentials_close credentials_claim_new commits_intros commits_Commit) (rule refl | erule credentials_steps)+

lemma credentials_ClaimResolution: "credentials_of db (snd (ClaimResolution_pg env b ctx l db claim validate))"
  unfolding ClaimResolution_pg_def
  by (intro transaction_credentials credentials_close credentials_claim_attempt commits_intros commits_Commit refl)

lemma credentials_StartRotation: "credentials_of db (snd (StartRotation_pg env b ctx l db x))"
  unfolding StartRotation_pg_def
  by (intro transaction_credentials commits_intros commits_Commit) (rule refl | erule credentials_steps)+

lemma credentials_FinalizeRotation: "credentials_of db (snd (FinalizeRotation_pg env b ctx l db i t))"
  unfolding FinalizeRotation_pg_def
  by (intro transaction_credentials commits_intros commits_Commit) (rule refl | erule credentials_steps)+

lemma credentials_end_batch: "credentials_of a db \<Longrightarrow> commits (\<lambda>_. credentials_of a) (end_batch env b ctx l n x k t db)"
  unfolding end_batch_def
  by (intro commits_intros commits_Commit) (assumption | erule credentials_steps)+

lemma credentials_rotate_records:
  "rotate_records env b ctx l n x t transform rs db s = (Inr db', s') \<Longrightarrow> credentials_of db db'"
proof (induction rs arbitrary: n db s)
  case (Cons r rs)
  from Cons.prems show ?case
    by (rule rotate_records_Cons) (rule trans [OF Cons.IH], assumption, erule credentials_steps, erule credentials_steps, rule refl)
qed simp

lemma credentials_RotateBatch: "leaves (credentials_of db) (RotateBatch_pg env b ctx l locked db i limit t transform s)"
  unfolding RotateBatch_pg_def
  by (intro leaves_intros refl credentials_end_batch) (clarify, erule credentials_rotate_records)

lemma credentials_RotateCredential: "leaves (credentials_of db) (RotateCredential_pg env b ctx l db request transform s t)"
  unfolding RotateCredential_pg_def
  by (intro leaves_intros refl commits_intros commits_Commit; clarify) (rule refl | erule credentials_steps)+

lemma credentials_ValidateRecovery: "credentials_of db (snd (ValidateRecovery_pg env sha b ctx l db limit t validate))"
  unfolding ValidateRecovery_pg_def
  by (intro transaction_credentials commits_intros commits_Commit) (rule refl | erule credentials_steps)+

lemma credentials_RegisterBackup: "credentials_of db (snd (RegisterBackup_pg env b ctx l db k t))"
  unfolding RegisterBackup_pg_def
  by (intro transaction_credentials commits_intros commits_Commit) (rule refl | erule credentials_steps)+

lemma credentials_ExpireBackup: "credentials_of db (snd (ExpireBackup_pg env b ctx l db i t))"
  unfolding ExpireBackup_pg_def
  by (intro transaction_credentials commits_intros commits_Commit; clarify?) (rule refl | erule credentials_steps)+

text \<open>A creation and an update insert the version they set.\<close>

lemma insert_version_key:
  "insert_version env db i v t k c = Inr db' \<Longrightarrow>
   \<exists>j. pe_uuid env i = Some j \<and> version_key ` set (pg_versions db') = insert (j, v) (version_key ` set (pg_versions db))"
  by (auto simp: insert_version_def statement_Inr version_key_def)

lemma insert_credential_row:
  "insert_credential env db m = Inr db' \<Longrightarrow>
   \<exists>j c u. pe_uuid env (md_ID m) = Some j \<and> pg_versions db' = pg_versions db \<and>
     pg_credentials db' = pg_credentials db @ [m\<lparr>md_ID := j, md_CreatedAt := c, md_UpdatedAt := u\<rparr>]"
  by (auto simp: insert_credential_def statement_Inr) blast

lemma update_credentials_rows:
  "update_credentials env db m i p v = Inr (n, db') \<Longrightarrow>
   \<exists>j. pe_uuid env i = Some j \<and> pg_versions db' = pg_versions db \<and>
     (\<forall>c' \<in> set (pg_credentials db'). \<exists>c \<in> set (pg_credentials db). c' = c \<or> md_ID c = j \<and> md_ID c' = j \<and> md_Version c' = md_Version m)"
proof -
  assume "update_credentials env db m i p v = Inr (n, db')"
  then obtain j u where j: "pe_uuid env i = Some j" and db': "db' = db\<lparr>pg_credentials := map (\<lambda>c. if md_ID c = j \<and> md_OrganizationID c = p \<and> md_Version c = v
      then c\<lparr>md_Name := md_Name m, md_Version := md_Version m, md_State := md_State m, md_SecretFields := md_SecretFields m, md_UpdatedAt := u\<rparr>
      else c) (pg_credentials db)\<rparr>" (is "_ = db\<lparr>pg_credentials := map ?f _\<rparr>")
    by (auto simp: update_credentials_def Let_def statement_Inr)
  have e: "pg_credentials db' = map ?f (pg_credentials db)" using db' by simp
  have "\<exists>c \<in> set (pg_credentials db). c' = c \<or> md_ID c = j \<and> md_ID c' = j \<and> md_Version c' = md_Version m"
    if "c' \<in> set (pg_credentials db')" for c'
  proof -
    from that obtain c where "c \<in> set (pg_credentials db)" "c' = ?f c" unfolding e set_map by (elim imageE)
    then show ?thesis by (intro bexI [of _ c]) (simp_all split: if_splits)
  qed
  with j db' show ?thesis by auto
qed

lemma inserted_current:
  assumes "insert_credential env db m = Inr db1" and "insert_version env db1 (md_ID m) (md_Version m) t k c = Inr db2" and "current_ok db"
  shows "current_ok db2"
proof -
  obtain j c u where j: "pe_uuid env (md_ID m) = Some j" "pg_versions db1 = pg_versions db"
    "pg_credentials db1 = pg_credentials db @ [m\<lparr>md_ID := j, md_CreatedAt := c, md_UpdatedAt := u\<rparr>]"
    using insert_credential_row [OF assms(1)] by blast
  have "version_key ` set (pg_versions db2) = insert (j, md_Version m) (version_key ` set (pg_versions db))"
    using insert_version_key [OF assms(2)] j by auto
  moreover have "pg_credentials db2 = pg_credentials db1" using credentials_through(1) [OF assms(2)] by simp
  ultimately show ?thesis using assms(3) j(3) by (simp add: current_ok_def list_all_iff)
qed

lemma updated_current:
  assumes "update_credentials env db m i p v = Inr (n, db1)" and "insert_version env db1 i (md_Version m) t k c = Inr db2" and "current_ok db"
  shows "current_ok db2"
proof -
  obtain j where j: "pe_uuid env i = Some j" "pg_versions db1 = pg_versions db"
    "\<And>c'. c' \<in> set (pg_credentials db1) \<Longrightarrow> \<exists>c \<in> set (pg_credentials db). c' = c \<or> md_ID c = j \<and> md_ID c' = j \<and> md_Version c' = md_Version m"
    using update_credentials_rows [OF assms(1)] by blast
  have v: "version_key ` set (pg_versions db2) = insert (j, md_Version m) (version_key ` set (pg_versions db))"
    using insert_version_key [OF assms(2)] j(1,2) by auto
  have "pg_credentials db2 = pg_credentials db1" using credentials_through(1) [OF assms(2)] by simp
  moreover have "(md_ID c', md_Version c') \<in> insert (j, md_Version m) (version_key ` set (pg_versions db))" if "c' \<in> set (pg_credentials db1)" for c'
    using j(3) [OF that] assms(3) by (auto simp: current_ok_def list_all_iff)
  ultimately show ?thesis by (simp add: current_ok_def list_all_iff v)
qed

lemma current_after: "same_tables db db' \<Longrightarrow> current_ok db \<Longrightarrow> current_ok db'"
  by (auto simp: same_tables_def current_ok_def)

lemma current_idempotency: "insert_idempotency env db p k d t i c = Inr db' \<Longrightarrow> current_ok db \<Longrightarrow> current_ok db'"
  by (auto simp: insert_idempotency_def statement_Inr current_ok_def)

lemma transaction_current:
  "(current_ok db \<Longrightarrow> commits (\<lambda>_. current_ok) (body db)) \<Longrightarrow> current_ok db \<Longrightarrow> current_ok (snd (transaction l db body))"
  by (rule transaction_commits) simp_all

lemma current_Create: "current_ok db \<Longrightarrow> current_ok (snd (Create_pg env b ctx l db i d m r))"
proof -
  assume c: "current_ok db"
  then have "commits (\<lambda>_. current_ok) (create_rows env b ctx l db org key d m r t u)" for org key t u
    unfolding create_rows_def
    by (intro commits_intros commits_Commit)
      (erule current_after [OF appendSuccessfulTransition_tables], erule current_idempotency, erule (2) inserted_current)
  with c show ?thesis
    unfolding Create_pg_def
    by (auto split: option.split prod.split) (intro transaction_current commits_intros commits_Commit | assumption)+
qed

lemma current_Update: "current_ok db \<Longrightarrow> current_ok (snd (Update_pg env b ctx l db p i v m r oper))"
proof -
  assume c: "current_ok db"
  have "commits (\<lambda>_. current_ok) (case sql l 1 (update_credentials env db m i p v) of Inl _ \<Rightarrow> Rollback (Inl ErrStorage)
      | Inr (affected, db1) \<Rightarrow> if affected = 0 then (case sql l 2 (select_credential env db1 p i) of
           Inr None \<Rightarrow> Rollback (Inl ErrNotFound) | Inl _ \<Rightarrow> Rollback (Inl ErrStorage) | Inr (Some _) \<Rightarrow> Rollback (Inl ErrVersionConflict))
        else (case sql l 2 (insert_version env db1 i (md_Version m) t (rec_MasterKeyID r) (md_UpdatedAt m)) of
          Inl _ \<Rightarrow> Rollback (Inl ErrStorage)
        | Inr db2 \<Rightarrow> (case appendSuccessfulTransition env b ctx l 3 db2 (credentialAudit oper m) of
            Inl e \<Rightarrow> Rollback (Inl e) | Inr db3 \<Rightarrow> Commit (Inr m) db3)))" for t
    by (intro commits_intros commits_Commit; clarify)
      (erule current_after [OF appendSuccessfulTransition_tables], erule (1) updated_current, rule c)
  with c show ?thesis
    unfolding Update_pg_def by (auto split: option.split prod.split intro!: transaction_current)
qed

section \<open>Calls\<close>

text \<open>
  The methods that change the tables, with what the manager passes to them. A call carries the
  request in its context and what its connection does.
\<close>

datatype ('r, 's) pg_op =
    PgCreate string bytes Metadata Record
  | PgUpdate string string "64 word" Metadata Record string
  | PgRegisterBinding bindingRegistration
  | PgCancelBinding string string string time
  | PgClaimResolution resolutionClaim "Binding \<Rightarrow> boundRecord \<Rightarrow> cred_error + 'r"
  | PgStartRotation Rotation
  | PgRotateBatch "version_row \<Rightarrow> bool" string int time "'s transform" 's
  | PgFinalizeRotation string time
  | PgRotateCredential CredentialRotationRequest "'s transform" 's time
  | PgValidateRecovery int time "rotationRecord \<Rightarrow> cred_error option"
  | PgRegisterBackup BackupSet time
  | PgExpireBackup string time

type_synonym ('r, 's) pg_call = "call_context \<times> pg_link \<times> ('r, 's) pg_op"

fun pg_apply :: "pg_env \<Rightarrow> (bytes \<Rightarrow> bytes) \<Rightarrow> postgresBackend \<Rightarrow> call_context \<Rightarrow> pg_link \<Rightarrow> pg_db \<Rightarrow> ('r, 's) pg_op \<Rightarrow> pg_db" where
  "pg_apply env sha b ctx l db (PgCreate i d m r) = snd (Create_pg env b ctx l db i d m r)"
| "pg_apply env sha b ctx l db (PgUpdate p i v m r oper) = snd (Update_pg env b ctx l db p i v m r oper)"
| "pg_apply env sha b ctx l db (PgRegisterBinding reg) = snd (RegisterBinding_pg env b ctx l db reg)"
| "pg_apply env sha b ctx l db (PgCancelBinding run dis reason t) = snd (CancelBinding_pg env b ctx l db run dis reason t)"
| "pg_apply env sha b ctx l db (PgClaimResolution claim validate) = snd (ClaimResolution_pg env b ctx l db claim validate)"
| "pg_apply env sha b ctx l db (PgStartRotation x) = snd (StartRotation_pg env b ctx l db x)"
| "pg_apply env sha b ctx l db (PgRotateBatch locked i limit t f s) = snd (fst (RotateBatch_pg env b ctx l locked db i limit t f s))"
| "pg_apply env sha b ctx l db (PgFinalizeRotation i t) = snd (FinalizeRotation_pg env b ctx l db i t)"
| "pg_apply env sha b ctx l db (PgRotateCredential req f s t) = snd (fst (RotateCredential_pg env b ctx l db req f s t))"
| "pg_apply env sha b ctx l db (PgValidateRecovery limit t f) = snd (ValidateRecovery_pg env sha b ctx l db limit t f)"
| "pg_apply env sha b ctx l db (PgRegisterBackup k t) = snd (RegisterBackup_pg env b ctx l db k t)"
| "pg_apply env sha b ctx l db (PgExpireBackup i t) = snd (ExpireBackup_pg env b ctx l db i t)"

definition pg_step :: "pg_env \<Rightarrow> (bytes \<Rightarrow> bytes) \<Rightarrow> postgresBackend \<Rightarrow> pg_db \<Rightarrow> ('r, 's) pg_call \<Rightarrow> pg_db" where
  "pg_step env sha b db call = (case call of (ctx, l, op) \<Rightarrow> pg_apply env sha b ctx l db op)"

lemmas keeps_methods = keeps_Create keeps_Update keeps_RegisterBinding keeps_CancelBinding keeps_ClaimResolution keeps_StartRotation
  keeps_RotateBatch [unfolded leaves_def] keeps_FinalizeRotation keeps_RotateCredential [unfolded leaves_def] keeps_ValidateRecovery
  keeps_RegisterBackup keeps_ExpireBackup

lemmas credentials_methods = credentials_RegisterBinding credentials_CancelBinding credentials_ClaimResolution
  credentials_StartRotation credentials_RotateBatch [unfolded leaves_def] credentials_FinalizeRotation
  credentials_RotateCredential [unfolded leaves_def] credentials_ValidateRecovery credentials_RegisterBackup credentials_ExpireBackup

lemma keeps_apply: "keeps db (pg_apply env sha b ctx l db op)"
  by (cases op) (simp_all add: keeps_methods)

lemma current_apply: "pg_good db \<Longrightarrow> pg_good (pg_apply env sha b ctx l db op)"
proof -
  assume g: "pg_good db"
  have k: "keeps db (pg_apply env sha b ctx l db op)" by (rule keeps_apply)
  show ?thesis
  proof (cases "pg_credentials (pg_apply env sha b ctx l db op) = pg_credentials db")
    case True
    then show ?thesis using current_frame [OF k _ g] by blast
  next
    case False
    then have "(\<exists>i d m r. op = PgCreate i d m r) \<or> (\<exists>p i v m r oper. op = PgUpdate p i v m r oper)"
      by (cases op) (simp_all add: credentials_methods)
    then have "current_ok (pg_apply env sha b ctx l db op)" using g current_Create current_Update by (auto simp: pg_good_def)
    then show ?thesis using g k by (simp add: pg_good_def keeps_def)
  qed
qed

interpretation postgres: monotone_system "pg_step env sha b" "\<lambda>_ _. True" pg_good pg_le
proof
  fix db :: pg_db and call :: "('a, 'b) pg_call"
  show "pg_good db \<Longrightarrow> pg_good (pg_step env sha b db call)" by (simp add: pg_step_def current_apply split: prod.split)
  show "pg_good db \<Longrightarrow> pg_le db (pg_step env sha b db call)"
    using keeps_apply by (fastforce simp: pg_step_def pg_good_def keeps_def split: prod.split)
qed (auto intro: pg_le_refl pg_le_trans)

lemma run_ok_True: "run_ok step (\<lambda>_ _. True) s xs"
  by (induction xs arbitrary: s) simp_all

lemma pg_good_migrated: "pg_good migrated_tables"
  using pg_inv_migrated by (simp add: pg_good_def current_ok_def migrated_tables_def)

text \<open>
  C10. Whatever calls the PostgreSQL backend serves after its migrations, in whatever order, with
  whatever lost connections, refused and unacknowledged commits: the tables satisfy their keys,
  foreign keys and checks (among them at most one active rotation, and a binding's count within
  its limit), every credential has its current version stored, and no later call removes or
  changes a row beyond what the schema allows (a credential keeps its identity, a version its
  key, a binding its identity and terminal state, an attempt and an idempotency record everything).
\<close>

theorem postgres_constraints:
  "pg_good (foldl (pg_step env sha b) migrated_tables calls) \<and>
   pg_le (foldl (pg_step env sha b) migrated_tables calls) (foldl (pg_step env sha b) migrated_tables (calls @ later))"
proof -
  have "pg_good (foldl (pg_step env sha b) migrated_tables calls)"
    by (rule postgres.run_inv [OF pg_good_migrated run_ok_True])
  moreover from this have "pg_le (foldl (pg_step env sha b) migrated_tables calls)
      (foldl (pg_step env sha b) (foldl (pg_step env sha b) migrated_tables calls) later)"
    by (rule postgres.run_le [OF _ run_ok_True])
  ultimately show ?thesis by (simp add: foldl_append)
qed

end
