(* ===== verification/Postgres_Audit.thy ===== *)
theory Postgres_Audit
  imports Postgres_Calls
begin

text \<open>
  The audit of the PostgreSQL backend is part of its transactions: what every method appends to
  the audit tables, and that no method changes another table without it.
\<close>

section \<open>Events of a call\<close>

fun append_events :: "audit_env \<Rightarrow> Spool \<Rightarrow> audit_db \<Rightarrow> Event list \<Rightarrow> audit_db option" where
  "append_events env sp a [] = Some a"
| "append_events env sp a (e # es) = (case AppendTx env sp a e of Inl _ \<Rightarrow> None | Inr a' \<Rightarrow> append_events env sp a' es)"

text \<open>The audit tables after appending some events; without a spool there are none.\<close>

definition recorded :: "pg_env \<Rightarrow> postgresBackend \<Rightarrow> audit_db \<Rightarrow> Event list \<Rightarrow> audit_db \<Rightarrow> bool" where
  "recorded env b a es a' \<longleftrightarrow>
     (case pb_audit b of None \<Rightarrow> es = [] \<and> a' = a | Some sp \<Rightarrow> append_events (pe_audit env) sp a es = Some a')"

definition tables_of :: "pg_db \<Rightarrow> pg_db" where
  "tables_of db = db\<lparr>pg_audit := migrated\<rparr>"

text \<open>A change of the tables comes with an event that describes it.\<close>

definition noted :: "pg_env \<Rightarrow> postgresBackend \<Rightarrow> (Event \<Rightarrow> bool) \<Rightarrow> pg_db \<Rightarrow> pg_db \<Rightarrow> bool" where
  "noted env b D db db' \<longleftrightarrow>
     (\<exists>es. recorded env b (pg_audit db) es (pg_audit db') \<and> (tables_of db' = tables_of db \<or> (\<exists>e \<in> set es. D e)))"

lemma append_events_append:
  "append_events env sp a (es @ fs) = Option.bind (append_events env sp a es) (\<lambda>a'. append_events env sp a' fs)"
  by (induction es arbitrary: a) (auto split: sum.splits)

lemma recorded_Nil: "recorded env b a [] a"
  by (simp add: recorded_def split: option.split)

lemma recorded_append: "recorded env b a es a' \<Longrightarrow> recorded env b a' fs a'' \<Longrightarrow> recorded env b a (es @ fs) a''"
  by (auto simp: recorded_def append_events_append split: option.splits)

lemma tables_of_same: "same_tables db db' \<Longrightarrow> tables_of db' = tables_of db"
  by (auto simp: same_tables_def tables_of_def)

lemma noted_refl: "noted env b D db db"
  using recorded_Nil by (fastforce simp: noted_def)

text \<open>What each audit call appends, after a state that was reached with some events.\<close>

lemma recorded_Audit: "appendAudit env b l n db e = Inr db' \<Longrightarrow> recorded env b (pg_audit db) [e] (pg_audit db')"
  by (auto simp: appendAudit_def recorded_def split: option.splits if_splits sum.splits)

lemma recorded_Completion: "appendCompletion env b ctx l n db e = Inr db' \<Longrightarrow> \<exists>es. recorded env b (pg_audit db) es (pg_audit db')"
  by (auto simp: appendCompletion_def split: option.splits intro: recorded_Nil dest: recorded_Audit)

lemma recorded_Transition:
  "appendSuccessfulTransition env b ctx l n db e = Inr db' \<Longrightarrow> \<exists>es. recorded env b (pg_audit db) (attributed ctx e # es) (pg_audit db')"
  unfolding appendSuccessfulTransition_def
  by (auto split: sum.splits dest!: recorded_Audit recorded_Completion) (metis append_Cons append_Nil recorded_append)

definition logged :: "pg_env \<Rightarrow> postgresBackend \<Rightarrow> pg_db \<Rightarrow> pg_db \<Rightarrow> bool" where
  "logged env b db db' \<longleftrightarrow> (\<exists>es. recorded env b (pg_audit db) es (pg_audit db'))"

lemma logged_refl: "logged env b db db"
  using recorded_Nil by (auto simp: logged_def)

lemma noted_Audit: "appendAudit env b l n db1 e = Inr db' \<Longrightarrow> D e \<Longrightarrow> logged env b db db1 \<Longrightarrow> noted env b D db db'"
  unfolding noted_def logged_def using recorded_append recorded_Audit by fastforce

lemma noted_Transition:
  "appendSuccessfulTransition env b ctx l n db1 e = Inr db' \<Longrightarrow> D (attributed ctx e) \<Longrightarrow> logged env b db db1 \<Longrightarrow> noted env b D db db'"
  unfolding noted_def logged_def
  by (drule recorded_Transition) (elim exE, drule (1) recorded_append, force)

lemma noted_Completion: "appendCompletion env b ctx l n db e = Inr db' \<Longrightarrow> noted env b D db db'"
  using recorded_Completion tables_of_same [OF appendCompletion_tables] unfolding noted_def by blast

text \<open>Statements leave the audit tables alone.\<close>

lemma logged_cong: "pg_audit db2 = pg_audit db1 \<Longrightarrow> logged env b db db1 \<Longrightarrow> logged env b db db2"
  by (simp add: logged_def)

lemma audit_through:
  "insert_credential env db m = Inr db' \<Longrightarrow> pg_audit db' = pg_audit db"
  "insert_version env db i v t k c = Inr db' \<Longrightarrow> pg_audit db' = pg_audit db"
  "insert_idempotency env db p k d t i c = Inr db' \<Longrightarrow> pg_audit db' = pg_audit db"
  "insert_binding env db x k d c = Inr db' \<Longrightarrow> pg_audit db' = pg_audit db"
  "insert_attempt env db i k t d c v' = Inr db' \<Longrightarrow> pg_audit db' = pg_audit db"
  "insert_rotation env db q = Inr db' \<Longrightarrow> pg_audit db' = pg_audit db"
  "insert_backup env db g = Inr db' \<Longrightarrow> pg_audit db' = pg_audit db"
  "update_credentials env db m i p v = Inr (n, db') \<Longrightarrow> pg_audit db' = pg_audit db"
  "update_version env db t k i v s = Inr (n, db') \<Longrightarrow> pg_audit db' = pg_audit db"
  "update_rotation env db i st pr c z = Inr db' \<Longrightarrow> pg_audit db' = pg_audit db"
  "update_binding env db i c f = Inr db' \<Longrightarrow> pg_audit db' = pg_audit db"
  "checked y (update_binding env db i c f) = Inr db' \<Longrightarrow> pg_audit db' = pg_audit db"
  by (auto simp: insert_credential_def insert_version_def insert_idempotency_def insert_binding_def insert_attempt_def insert_rotation_def
      insert_backup_def update_credentials_def update_version_def update_rotation_def update_binding_def statement_Inr Let_def)

lemma audit_expire: "expire_backup env db i c = Inr (Some (w, db')) \<Longrightarrow> pg_audit db' = pg_audit db"
  by (auto elim: expire_backup_Some)

lemmas logged_steps = audit_through [THEN logged_cong] audit_expire [THEN logged_cong]

lemmas noted_steps = noted_Transition noted_Audit noted_Completion

lemma transaction_noted: "commits (\<lambda>_. noted env b D db) (body db) \<Longrightarrow> noted env b D db (snd (transaction l db body))"
  by (rule transaction_commits) (simp_all add: noted_refl)

section \<open>The event of a method\<close>

text \<open>
  The operation and the subject that the event of a call names. A run or a rotation is named by
  the value its identifier denotes.
\<close>

fun subject :: "pg_env \<Rightarrow> ('r, 's) pg_op \<Rightarrow> Event \<Rightarrow> bool" where
  "subject env (PgCreate i d m r) e \<longleftrightarrow> ev_Operation e = OperationCredentialCreated \<and>
     ev_CredentialID e = md_ID m \<and> ev_OrganizationID e = md_OrganizationID m \<and> ev_CredentialVersion e = md_Version m"
| "subject env (PgUpdate p i v m r oper) e \<longleftrightarrow> ev_Operation e = oper \<and>
     ev_CredentialID e = md_ID m \<and> ev_OrganizationID e = md_OrganizationID m \<and> ev_CredentialVersion e = md_Version m"
| "subject env (PgRegisterBinding reg) e \<longleftrightarrow> ev_Operation e = OperationRunBindingRegistered \<and>
     ev_RunID e = rb_RunID (br_request reg) \<and> ev_CredentialID e = rb_CredentialID (br_request reg) \<and>
     ev_ExecutorIdentity e = rb_ExecutorIdentity (br_request reg)"
| "subject env (PgCancelBinding run dis reason t) e \<longleftrightarrow> ev_Operation e = OperationRunBindingCanceled \<and>
     pe_uuid env run = Some (ev_RunID e) \<and> ev_ReasonCode e = reason"
| "subject env (PgClaimResolution claim validate) e \<longleftrightarrow>
     ev_Operation e \<in> {OperationCredentialResolved, OperationRunBindingExpired, OperationRunBindingExhausted} \<and>
     pe_uuid env (rcl_runID claim) = Some (ev_RunID e) \<and> ev_ExecutorIdentity e = rcl_executorIdentity claim"
| "subject env (PgStartRotation x) e \<longleftrightarrow> ev_Operation e = OperationMasterKeyRotationStarted \<and>
     ev_RotationID e = ro_ID x \<and> ev_KeyVersion e = ro_TargetKeyID x"
| "subject env (PgRotateBatch locked i limit t f s) e \<longleftrightarrow> ev_Operation e = OperationMasterKeyRotationResumed \<and>
     pe_uuid env i = Some (ev_RotationID e)"
| "subject env (PgFinalizeRotation i t) e \<longleftrightarrow> ev_Operation e = OperationMasterKeyRotationFinalized \<and>
     pe_uuid env i = Some (ev_RotationID e)"
| "subject env (PgRotateCredential req f s t) e \<longleftrightarrow> ev_Operation e = OperationCredentialKeyRotated \<and>
     ev_CredentialID e = crr_CredentialID req \<and> ev_CredentialVersion e = crr_Version req"
| "subject env (PgValidateRecovery limit t f) e \<longleftrightarrow> ev_Operation e = OperationRecoveryValidationFinished"
| "subject env (PgRegisterBackup k t) e \<longleftrightarrow> ev_Operation e = OperationBackupRegistered \<and> ev_KeyVersion e = hd (bk_KeyIDs k)"
| "subject env (PgExpireBackup i t) e \<longleftrightarrow> ev_Operation e = OperationBackupExpired"

text \<open>A successful transition with the subject of the call.\<close>

definition describes :: "pg_env \<Rightarrow> ('r, 's) pg_op \<Rightarrow> Event \<Rightarrow> bool" where
  "describes env op e \<longleftrightarrow> ev_EventType e = EventTypeStateTransition \<and> ev_Result e = ResultSuccess \<and> subject env op e"

lemma transition_sel [simp]:
  "ev_EventType (transition oper t) = EventTypeStateTransition" "ev_Result (transition oper t) = ResultSuccess"
  "ev_Operation (transition oper t) = oper"
  by (simp_all add: transition_def)

lemma attributed_sel [simp]:
  "ev_EventType (attributed ctx e) = ev_EventType e" "ev_Result (attributed ctx e) = ev_Result e"
  "ev_Operation (attributed ctx e) = ev_Operation e" "ev_CredentialID (attributed ctx e) = ev_CredentialID e"
  "ev_OrganizationID (attributed ctx e) = ev_OrganizationID e" "ev_CredentialVersion (attributed ctx e) = ev_CredentialVersion e"
  "ev_RunID (attributed ctx e) = ev_RunID e" "ev_ReasonCode (attributed ctx e) = ev_ReasonCode e"
  "ev_ExecutorIdentity (attributed ctx e) = ev_ExecutorIdentity e" "ev_RotationID (attributed ctx e) = ev_RotationID e"
  "ev_KeyVersion (attributed ctx e) = ev_KeyVersion e"
  by (simp_all add: attributed_def split: option.split)

lemma select_binding_run: "select_binding env db run = Inr (Some row) \<Longrightarrow> pe_uuid env run = Some (b_RunID (scanBinding row))"
  by (auto simp: select_binding_def given_Inr find_Some_iff scanBinding_def)

lemma select_rotation_id: "select_rotation env db i = Inr (Some row) \<Longrightarrow> pe_uuid env i = Some (ro_ID (scanRotation row))"
  by (auto simp: select_rotation_def given_Inr find_Some_iff scanRotation_def)

lemma noted_Create: "noted env b (describes env (PgCreate i d m r)) db (snd (Create_pg env b ctx l db i d m r))"
proof -
  have "commits (\<lambda>_. noted env b (describes env (PgCreate i d m r)) db) (create_rows env b ctx l db org key d m r t u)" for org key t u
    unfolding create_rows_def
    by (intro commits_intros commits_Commit)
      (erule noted_steps, simp add: describes_def credentialAudit_def, (rule logged_refl | erule logged_steps)+)
  then show ?thesis
    unfolding Create_pg_def
    by (auto split: option.split prod.split intro!: noted_refl)
      (intro transaction_noted noted_refl commits_intros commits_Commit)
qed

lemma noted_Update: "noted env b (describes env (PgUpdate p i v m r oper)) db (snd (Update_pg env b ctx l db p i v m r oper))"
proof -
  have "commits (\<lambda>_. noted env b (describes env (PgUpdate p i v m r oper)) db) (case sql l 1 (update_credentials env db m i p v) of Inl _ \<Rightarrow> Rollback (Inl ErrStorage)
      | Inr (affected, db1) \<Rightarrow> if affected = 0 then (case sql l 2 (select_credential env db1 p i) of
           Inr None \<Rightarrow> Rollback (Inl ErrNotFound) | Inl _ \<Rightarrow> Rollback (Inl ErrStorage) | Inr (Some _) \<Rightarrow> Rollback (Inl ErrVersionConflict))
        else (case sql l 2 (insert_version env db1 i (md_Version m) t (rec_MasterKeyID r) (md_UpdatedAt m)) of
          Inl _ \<Rightarrow> Rollback (Inl ErrStorage)
        | Inr db2 \<Rightarrow> (case appendSuccessfulTransition env b ctx l 3 db2 (credentialAudit oper m) of
            Inl e \<Rightarrow> Rollback (Inl e) | Inr db3 \<Rightarrow> Commit (Inr m) db3)))" for t
    by (intro commits_intros commits_Commit; (hypsubst+)?)
      (erule noted_steps, simp add: describes_def credentialAudit_def, (rule logged_refl | erule logged_steps)+)
  then show ?thesis
    unfolding Update_pg_def by (auto split: option.split prod.split intro!: noted_refl transaction_noted)
qed

lemma noted_RegisterBinding:
  "noted env b (describes env (PgRegisterBinding reg)) db (snd (RegisterBinding_pg env b ctx l db reg))"
  unfolding RegisterBinding_pg_def
  by (intro transaction_noted commits_intros commits_Commit; (hypsubst+)?)
    ((erule noted_Completion) | (erule noted_Transition, simp add: describes_def bindingAudit_def new_binding_def Let_def,
      (rule logged_refl | erule logged_steps)+))+

lemma noted_CancelBinding:
  "noted env b (describes env (PgCancelBinding run dis reason t)) db (snd (CancelBinding_pg env b ctx l db run dis reason t))"
  unfolding CancelBinding_pg_def
  by (intro transaction_noted commits_intros commits_Commit; (hypsubst+)?)
    ((erule noted_Completion) | (erule noted_Transition, simp add: describes_def bindingAudit_def select_binding_run,
      (rule logged_refl | erule logged_steps)+))+

lemma noted_close:
  assumes "pe_uuid env (rcl_runID claim) = Some (b_RunID x)" and "b_ExecutorIdentity x = rcl_executorIdentity claim"
    and "oper \<in> {OperationCredentialResolved, OperationRunBindingExpired, OperationRunBindingExhausted}"
  shows "commits (\<lambda>_. noted env b (describes env (PgClaimResolution claim validate)) db) (close_binding env b l n db claim x s oper reason e)"
  unfolding close_binding_def
  by (intro commits_intros commits_Commit)
    (erule noted_Audit, use assms in \<open>simp add: describes_def bindingAudit_def\<close>, (rule logged_refl | erule logged_steps)+)

lemma noted_claim_new:
  assumes "pe_uuid env (rcl_runID claim) = Some (b_RunID x)" and "b_ExecutorIdentity x = rcl_executorIdentity claim"
  shows "commits (\<lambda>_. noted env b (describes env (PgClaimResolution claim validate)) db) (claim_new env b ctx l db claim x rendered)"
  unfolding claim_new_def
  by (intro commits_intros commits_Commit; (hypsubst+)?)
    (erule noted_Transition, use assms in \<open>simp add: describes_def bindingAudit_def\<close>, (rule logged_refl | erule logged_steps)+)

lemma noted_claim_attempt:
  assumes "pe_uuid env (rcl_runID claim) = Some (b_RunID x)" and "b_ExecutorIdentity x = rcl_executorIdentity claim"
  shows "commits (\<lambda>_. noted env b (describes env (PgClaimResolution claim validate)) db) (claim_attempt_pg env b ctx l db claim x rendered)"
  unfolding claim_attempt_pg_def
  by (intro noted_close noted_claim_new assms commits_intros commits_Commit noted_refl) (simp_all, erule noted_Completion)

lemma noted_ClaimResolution:
  "noted env b (describes env (PgClaimResolution claim validate)) db (snd (ClaimResolution_pg env b ctx l db claim validate))"
  unfolding ClaimResolution_pg_def
  by (intro transaction_noted commits_intros commits_Commit noted_refl noted_close noted_claim_attempt; (hypsubst+)?)
    (simp_all add: select_binding_run)

lemma noted_StartRotation:
  "noted env b (describes env (PgStartRotation x)) db (snd (StartRotation_pg env b ctx l db x))"
  unfolding StartRotation_pg_def
  by (intro transaction_noted commits_intros commits_Commit; (hypsubst+)?)
    (erule noted_Transition, simp add: describes_def rotationAudit_def, (rule logged_refl | erule logged_steps)+)

lemma noted_FinalizeRotation:
  "noted env b (describes env (PgFinalizeRotation i t)) db (snd (FinalizeRotation_pg env b ctx l db i t))"
  unfolding FinalizeRotation_pg_def
  by (intro transaction_noted commits_intros commits_Commit; (hypsubst+)?)
    (erule noted_Transition, simp add: describes_def rotationAudit_def select_rotation_id, (rule logged_refl | erule logged_steps)+)

lemma logged_rotate_records:
  "rotate_records env b ctx l n x t transform rs db s = (Inr db', s') \<Longrightarrow> logged env b db0 db \<Longrightarrow> logged env b db0 db'"
proof (induction rs arbitrary: n db s)
  case (Cons r rs)
  from Cons.prems(1) show ?case
  proof (rule rotate_records_Cons)
    fix rotated s1 db1 db2
    assume u: "update_version env db (marshal_envelope rotated) (rec_MasterKeyID rotated) (md_ID (rr_metadata r)) (rr_version r)
        (Some (ro_SourceKeyID x)) = Inr (1, db1)"
      and a: "appendAudit env b l (Suc n) db1 (attributed ctx ((keyRotatedAudit (md_OrganizationID (rr_metadata r)) (md_ID (rr_metadata r))
        (rr_version r) (md_SchemaVersion (rr_metadata r)) (ro_TargetKeyID x) t)\<lparr>ev_RotationID := ro_ID x\<rparr>)) = Inr db2"
      and r: "rotate_records env b ctx l (n + 2) x t transform rs db2 s1 = (Inr db', s')"
    have "logged env b db0 db1" using u Cons.prems(2) by (rule logged_steps)
    then have "logged env b db0 db2" using recorded_Audit [OF a] unfolding logged_def by (blast intro: recorded_append)
    with r show "logged env b db0 db'" by (rule Cons.IH)
  qed
qed simp

lemma noted_RotateBatch:
  "leaves (noted env b (describes env (PgRotateBatch locked i limit t f s)) db) (RotateBatch_pg env b ctx l locked db i limit t f s)"
proof -
  have e: "commits (\<lambda>_. noted env b (describes env (PgRotateBatch locked i limit t f s)) db) (end_batch env b ctx l n x k t db1)"
    if "logged env b db db1" "pe_uuid env i = Some (ro_ID x)" for n x k db1
    unfolding end_batch_def
    by (intro commits_intros commits_Commit; (hypsubst+)?)
      (erule noted_Transition, use that in \<open>simp add: describes_def rotationAudit_def\<close>, erule logged_steps, rule that)
  show ?thesis
    unfolding RotateBatch_pg_def
    by (intro leaves_intros noted_refl e; (hypsubst+)?)
      (auto simp: sql_Inr dest!: select_rotation_id intro: logged_rotate_records logged_refl)
qed

lemma noted_RotateCredential:
  "leaves (noted env b (describes env (PgRotateCredential request f s t)) db) (RotateCredential_pg env b ctx l db request f s t)"
  unfolding RotateCredential_pg_def
  by (intro leaves_intros noted_refl commits_intros commits_Commit; (hypsubst+)?)
    (erule noted_Transition, simp add: describes_def keyRotatedAudit_def, (rule logged_refl | erule logged_steps)+)

lemma noted_ValidateRecovery:
  "noted env b (describes env (PgValidateRecovery limit t f)) db (snd (ValidateRecovery_pg env sha b ctx l db limit t f))"
  unfolding ValidateRecovery_pg_def
  by (intro transaction_noted commits_intros commits_Commit)
    (erule noted_Transition, simp add: describes_def, drule recorded_Transition, auto simp: logged_def)

lemma noted_RegisterBackup:
  "noted env b (describes env (PgRegisterBackup k t)) db (snd (RegisterBackup_pg env b ctx l db k t))"
  unfolding RegisterBackup_pg_def
  by (intro transaction_noted commits_intros commits_Commit)
    (erule noted_Transition, simp add: describes_def, (rule logged_refl | erule logged_steps)+)

lemma noted_ExpireBackup:
  "noted env b (describes env (PgExpireBackup i t)) db (snd (ExpireBackup_pg env b ctx l db i t))"
  unfolding ExpireBackup_pg_def
  by (intro transaction_noted commits_intros commits_Commit; (hypsubst+)?)
    (erule noted_Transition, simp add: describes_def, (rule logged_refl | erule logged_steps)+)

lemmas noted_methods = noted_Create noted_Update noted_RegisterBinding noted_CancelBinding noted_ClaimResolution noted_StartRotation
  noted_RotateBatch [unfolded leaves_def] noted_FinalizeRotation noted_RotateCredential [unfolded leaves_def] noted_ValidateRecovery
  noted_RegisterBackup noted_ExpireBackup

lemma noted_apply: "noted env b (describes env op) db (pg_apply env sha b ctx l db op)"
  by (cases op) (simp_all add: noted_methods)

text \<open>
  C8. The PostgreSQL backend audits in the transaction of the change. Whatever a call does and
  whatever its connection does, the audit tables change by appended events only, and a call that
  leaves any other table changed has appended, in the same transaction, a successful transition
  event that names its operation and its subject. Without an audit spool nothing is appended, so
  no call changes anything.
\<close>

theorem transactional_audit:
  "\<exists>events. recorded env b (pg_audit db) events (pg_audit (pg_step env sha b db (ctx, l, op))) \<and>
     (tables_of (pg_step env sha b db (ctx, l, op)) = tables_of db \<or> (\<exists>e \<in> set events. describes env op e))"
  using noted_apply [of env b op db sha ctx l] by (simp add: pg_step_def noted_def)

end
