(* ===== verification/Postgres_Refinement.thy ===== *)
theory Postgres_Refinement
  imports Postgres_Calls
begin

text \<open>
  The two backends behind the interface \<open>backend\<close> of the manager: on credentials, bindings and
  resolution, the PostgreSQL backend refines the in-memory one. A call answers what the in-memory
  backend answers and changes the tables as it changes its maps, or it answers \<open>ErrStorage\<close>, and
  then nothing or, when the acknowledgement of the commit was lost, that change has happened.
\<close>

section \<open>The relation\<close>

text \<open>
  The in-memory backend renews \<open>UpdatedAt\<close> of an exhausted binding at every refused attempt, the
  PostgreSQL backend does not: bindings are compared up to that time stamp.
\<close>

definition settle :: "Binding \<Rightarrow> Binding" where
  "settle x = (if b_State x = BindingExhausted then x\<lparr>b_UpdatedAt := zero_time\<rparr> else x)"

definition same_credentials :: "pg_db \<Rightarrow> memoryBackend \<Rightarrow> bool" where
  "same_credentials db b \<longleftrightarrow> (\<forall>i. map_option mc_metadata (mget (credentials b) i) = find (\<lambda>c. md_ID c = i) (pg_credentials db))"

definition same_versions :: "pg_db \<Rightarrow> memoryBackend \<Rightarrow> bool" where
  "same_versions db b \<longleftrightarrow> (\<forall>i v. Option.bind (mget (credentials b) i) (\<lambda>c. map_option Some (mget (mc_records c) v)) =
     map_option (\<lambda>r. unmarshal_envelope (vr_envelope r)) (find_version db i v))"

definition same_idempotency :: "pg_db \<Rightarrow> memoryBackend \<Rightarrow> bool" where
  "same_idempotency db b \<longleftrightarrow> (\<forall>p k. nul \<notin> set p \<longrightarrow>
     map_option (\<lambda>e. (ie_digest e, Some (ie_response e))) (mget (idempotency b) (p @ nul # k)) =
     map_option (\<lambda>r. (ir_request_digest r, unmarshal_metadata (ir_response_metadata r)))
       (find (\<lambda>r. idempotency_key r = (p, k)) (pg_idempotency db)))"

definition same_bindings :: "pg_db \<Rightarrow> memoryBackend \<Rightarrow> bool" where
  "same_bindings db b \<longleftrightarrow> wf_map (bindings b) \<and> (\<forall>run.
     map_option (\<lambda>m. (settle (mb_binding m), mb_idempotencyKey m, mb_digest m)) (mget (bindings b) run) =
     map_option (\<lambda>r. (settle (scanBinding r), bw_idempotency_key r, bw_request_digest r)) (find (\<lambda>r. row_run r = run) (pg_bindings db)))"

definition same_attempts :: "pg_db \<Rightarrow> memoryBackend \<Rightarrow> bool" where
  "same_attempts db b \<longleftrightarrow> (\<forall>a.
     map_option (\<lambda>x. (ma_runID x, ma_executorIdentity x, ma_digest x, ma_expiresAt x)) (mget (attempts b) a) =
     map_option (\<lambda>r. (at_run_id r, at_executor_identity r, at_request_digest r, at_expires_at r))
       (find (\<lambda>r. at_attempt_id r = a) (pg_attempts db)))"

text \<open>The credentials and the ends of the bindings are values their columns kept exactly.\<close>

definition exact_bindings :: "pg_db \<Rightarrow> bool" where
  "exact_bindings db \<longleftrightarrow> list_all (\<lambda>r. 1000 dvd b_ExpiresAt (bw_binding r) \<and> validUUID (b_CredentialID (bw_binding r))) (pg_bindings db)"

definition mirrors :: "pg_db \<Rightarrow> memoryBackend \<Rightarrow> bool" where
  "mirrors db b \<longleftrightarrow> pg_good db \<and> same_credentials db b \<and> same_versions db b \<and> same_idempotency db b \<and>
     same_bindings db b \<and> same_attempts db b \<and> exact_bindings db"

lemma mirrors_migrated: "mirrors migrated_tables newMemoryBackend"
  using pg_good_migrated
  by (simp add: mirrors_def same_credentials_def same_versions_def same_idempotency_def same_bindings_def same_attempts_def
      exact_bindings_def migrated_tables_def newMemoryBackend_def find_version_def)

lemma mirrors_audit: "mirrors (db\<lparr>pg_audit := a\<rparr>) b = mirrors db b"
  by (simp add: mirrors_def pg_good_def current_ok_def same_credentials_def same_versions_def same_idempotency_def same_bindings_def
      same_attempts_def exact_bindings_def find_version_def)

lemma mirrors_same: "same_tables db db' \<Longrightarrow> mirrors db b \<Longrightarrow> mirrors db' b"
  by (auto simp: same_tables_def mirrors_audit)

text \<open>What is assumed of PostgreSQL and its driver.\<close>

definition pg_env_ok :: "pg_env \<Rightarrow> bool" where
  "pg_env_ok env \<longleftrightarrow>
     (\<forall>s. pe_text env s \<longrightarrow> valid_utf8 s \<and> nul \<notin> set s) \<and>
     (\<forall>u. validUUID u \<longrightarrow> pe_uuid env u = Some u) \<and>
     (\<forall>t u. 1000 dvd t \<longrightarrow> pe_time env t = Some u \<longrightarrow> u = t) \<and>
     (\<forall>m s t. marshal_metadata m = Some s \<longrightarrow> metadata_utf8 m \<longrightarrow> ae_jsonb (pe_audit env) s = Some t \<longrightarrow>
        unmarshal_metadata t = unmarshal_metadata s) \<and>
     (\<forall>r t. envelope_utf8 r \<longrightarrow> ae_jsonb (pe_audit env) (marshal_envelope r) = Some t \<longrightarrow>
        unmarshal_envelope t = unmarshal_envelope (marshal_envelope r))"

section \<open>Simulation of a transaction\<close>

text \<open>The answers that report a failure of the storage: a claim says \<open>ErrResolution\<close> when the query of its version fails.\<close>

definition unavailable :: "cred_error + 'a \<Rightarrow> bool" where
  "unavailable r \<longleftrightarrow> r = Inl ErrStorage \<or> r = Inl ErrResolution"

text \<open>
  A transaction beside the step \<open>x\<close> of the in-memory backend from \<open>b\<close>; \<open>agree\<close> compares an answer
  with that of the in-memory backend.
\<close>

definition simulates :: "(cred_error + 'a \<Rightarrow> cred_error + 'a \<Rightarrow> bool) \<Rightarrow> memoryBackend \<Rightarrow> 'a result \<Rightarrow> 'a tx_end \<Rightarrow> bool" where
  "simulates agree b x t \<longleftrightarrow>
     (case t of Rollback r \<Rightarrow> unavailable r \<or> agree r (fst x) \<and> snd x = b
      | Commit r db \<Rightarrow> agree r (fst x) \<and> mirrors db (snd x))"

text \<open>What a call may do, by the in-memory backend: the same, or fail with or without the effect.\<close>

definition refines :: "(cred_error + 'a \<Rightarrow> cred_error + 'a \<Rightarrow> bool) \<Rightarrow> memoryBackend \<Rightarrow> 'a result \<Rightarrow> (cred_error + 'a) \<times> pg_db \<Rightarrow> bool" where
  "refines agree b x y \<longleftrightarrow>
     (\<exists>b'. mirrors (snd y) b' \<and> (agree (fst y) (fst x) \<and> b' = snd x \<or> unavailable (fst y) \<and> (b' = b \<or> b' = snd x)))"

lemma finish_refines: "simulates agree b x t \<Longrightarrow> mirrors db b \<Longrightarrow> refines agree b x (finish l db t)"
  by (auto simp: simulates_def refines_def finish_def unavailable_def split: tx_end.splits commit_outcome.splits)

lemma transaction_refines: "simulates agree b x (body db) \<Longrightarrow> mirrors db b \<Longrightarrow> refines agree b x (transaction l db body)"
  by (auto simp: transaction_def finish_refines) (auto simp: refines_def unavailable_def)

lemma sim_storage: "simulates agree b x (Rollback (Inl ErrStorage))"
  by (simp add: simulates_def unavailable_def)

lemma sim_rollback: "agree r (fst x) \<Longrightarrow> snd x = b \<Longrightarrow> simulates agree b x (Rollback r)"
  by (simp add: simulates_def)

lemma sim_commit: "agree r (fst x) \<Longrightarrow> mirrors db (snd x) \<Longrightarrow> simulates agree b x (Commit r db)"
  by (simp add: simulates_def)

lemma sim_sql:
  "(\<And>x. r = Inr x \<Longrightarrow> simulates agree b y (g x)) \<Longrightarrow> simulates agree b y (case sql l n r of Inl _ \<Rightarrow> Rollback (Inl ErrStorage) | Inr x \<Rightarrow> g x)"
  by (simp add: sql_def sim_storage split: sum.split)

lemma append_errors:
  "appendAudit env b l n db e = Inl x \<Longrightarrow> x = ErrStorage" "appendCompletion env b ctx l n db e = Inl x \<Longrightarrow> x = ErrStorage"
  "appendSuccessfulTransition env b ctx l n db e = Inl x \<Longrightarrow> x = ErrStorage"
  by (auto simp: appendSuccessfulTransition_def appendCompletion_def appendAudit_def split: option.splits if_splits sum.splits)

lemma sim_append:
  "mirrors db (snd y) \<Longrightarrow> agree r (fst y) \<Longrightarrow>
   simulates agree b y (case appendAudit env bk l n db e of Inl x \<Rightarrow> Rollback (Inl x) | Inr db' \<Rightarrow> Commit r db')"
  "mirrors db (snd y) \<Longrightarrow> agree r (fst y) \<Longrightarrow>
   simulates agree b y (case appendCompletion env bk ctx l n db e of Inl x \<Rightarrow> Rollback (Inl x) | Inr db' \<Rightarrow> Commit r db')"
  "mirrors db (snd y) \<Longrightarrow> agree r (fst y) \<Longrightarrow>
   simulates agree b y (case appendSuccessfulTransition env bk ctx l n db e of Inl x \<Rightarrow> Rollback (Inl x) | Inr db' \<Rightarrow> Commit r db')"
  by (auto split: sum.split simp: sim_storage dest!: append_errors
      intro!: sim_commit intro: mirrors_same appendAudit_tables appendCompletion_tables appendSuccessfulTransition_tables)

text \<open>Lookups in a table that grew or whose rows were changed in place.\<close>

lemma find_snoc: "find P (xs @ [y]) = (case find P xs of None \<Rightarrow> if P y then Some y else None | Some x \<Rightarrow> Some x)"
  by (induction xs) simp_all

lemma find_map_key: "(\<And>x. P (f x) = P x) \<Longrightarrow> find P (map f xs) = map_option f (find P xs)"
  by (induction xs) simp_all

lemma find_key_None: "find (\<lambda>x. key x = k) xs = None \<longleftrightarrow> k \<notin> key ` set xs"
  by (auto simp: find_None_iff)

section \<open>Credentials\<close>

lemma validUUID_utf8: "validUUID u \<Longrightarrow> valid_utf8 u"
proof (rule valid_utf8_ascii)
  assume u: "validUUID u"
  have "code (u ! i) < 0x80" if "i < length u" for i
  proof (cases "i = 8 \<or> i = 13 \<or> i = 18 \<or> i = 23")
    case True
    then show ?thesis using u by (auto simp: validUUID_def)
  next
    case False
    have "(i, u ! i) \<in> set (enumerate 0 u)" using that by (simp add: in_set_enumerate_eq)
    with u False have "lower_hex (u ! i)" by (auto simp: validUUID_def list_all_iff)
    then show ?thesis by (auto simp: lower_hex_def)
  qed
  then show "list_all (\<lambda>c. code c < 0x80) u" by (simp add: list_all_length)
qed

lemma splitIdempotencyID_Some: "splitIdempotencyID v = Some (p, k) \<Longrightarrow> v = p @ nul # k \<and> nul \<notin> set p \<and> p \<noteq> [] \<and> k \<noteq> []"
proof -
  assume s: "splitIdempotencyID v = Some (p, k)"
  then obtain c where c: "dropWhile (\<lambda>c. c \<noteq> nul) v = c # k" "takeWhile (\<lambda>c. c \<noteq> nul) v = p" "p \<noteq> []" "k \<noteq> []"
    by (auto simp: splitIdempotencyID_def Let_def split: list.splits if_splits)
  have "c = nul" using c(1) hd_dropWhile [of "\<lambda>c. c \<noteq> nul" v] by simp
  then show ?thesis
    using c takeWhile_dropWhile_id [of "\<lambda>c. c \<noteq> nul" v] set_takeWhileD [of nul "\<lambda>c. c \<noteq> nul" v] by auto
qed

text \<open>The rows of a creation whose values the columns keep exactly.\<close>

lemma insert_credential_exact:
  assumes "pg_env_ok env" and "insert_credential env db m = Inr db'" and "validUUID (md_ID m)"
    and "1000 dvd md_CreatedAt m" and "1000 dvd md_UpdatedAt m"
  shows "db' = db\<lparr>pg_credentials := pg_credentials db @ [m]\<rparr>" and "md_ID m \<notin> md_ID ` set (pg_credentials db)" and "metadata_utf8 m"
proof -
  have u: "pe_uuid env (md_ID m) = Some (md_ID m)" using assms(1,3) by (simp add: pg_env_ok_def)
  from assms(2) u obtain c t where c: "pe_time env (md_CreatedAt m) = Some c" and t: "pe_time env (md_UpdatedAt m) = Some t"
    and l: "list_all (pe_text env) ([md_OrganizationID m, md_Name m, md_CredentialType m] @ md_SecretFields m)"
    and n: "md_ID m \<notin> md_ID ` set (pg_credentials db)"
    and db': "db' = db\<lparr>pg_credentials := pg_credentials db @ [m\<lparr>md_ID := md_ID m, md_CreatedAt := c, md_UpdatedAt := t\<rparr>]\<rparr>"
    by (auto simp: insert_credential_def statement_Inr)
  have "c = md_CreatedAt m" "t = md_UpdatedAt m" using assms(1,4,5) c t unfolding pg_env_ok_def by blast+
  then show "db' = db\<lparr>pg_credentials := pg_credentials db @ [m]\<rparr>" using db' by simp
  show "md_ID m \<notin> md_ID ` set (pg_credentials db)" by (rule n)
  have "valid_utf8 s" if "pe_text env s" for s using assms(1) that unfolding pg_env_ok_def by blast
  then show "metadata_utf8 m" using l validUUID_utf8 [OF assms(3)] by (auto simp: metadata_utf8_def list_all_iff)
qed

lemma insert_version_exact:
  assumes "pg_env_ok env" and "insert_version env db i v (marshal_envelope r) k t = Inr db'" and "validUUID i" and "envelope_utf8 r"
  shows "\<exists>row. db' = db\<lparr>pg_versions := pg_versions db @ [row]\<rparr> \<and> version_key row = (i, v) \<and> unmarshal_envelope (vr_envelope row) = Some r \<and>
    (i, v) \<notin> version_key ` set (pg_versions db)"
proof -
  have u: "pe_uuid env i = Some i" using assms(1,3) by (simp add: pg_env_ok_def)
  from assms(2) u obtain e c where e: "ae_jsonb (pe_audit env) (marshal_envelope r) = Some e"
    and n: "\<not> list_ex (\<lambda>r. vr_credential_id r = i \<and> vr_version r = v) (pg_versions db)"
    and db': "db' = db\<lparr>pg_versions := pg_versions db @ [\<lparr>vr_credential_id = i, vr_version = v, vr_envelope = e, vr_master_key_id = k, vr_created_at = c\<rparr>]\<rparr>"
    by (auto simp: insert_version_def statement_Inr)
  have "unmarshal_envelope e = Some r"
    using assms(1,4) e unmarshal_marshal_envelope [OF assms(4)] unfolding pg_env_ok_def by metis
  with n db' show ?thesis by (auto simp: version_key_def list_ex_iff)
qed

lemma insert_idempotency_exact:
  assumes "pg_env_ok env" and "insert_idempotency env db p k d s i t = Inr db'" and "marshal_metadata m = Some s" and "metadata_utf8 m"
  shows "\<exists>row. db' = db\<lparr>pg_idempotency := pg_idempotency db @ [row]\<rparr> \<and> idempotency_key row = (p, k) \<and> ir_request_digest row = d \<and>
    unmarshal_metadata (ir_response_metadata row) = Some m"
proof -
  from assms(2) obtain j e c where e: "ae_jsonb (pe_audit env) s = Some e"
    and db': "db' = db\<lparr>pg_idempotency := pg_idempotency db @ [\<lparr>ir_organization_id = p, ir_idempotency_key = k, ir_request_digest = d,
        ir_response_metadata = e, ir_credential_id = j, ir_created_at = c\<rparr>]\<rparr>"
    by (auto simp: insert_idempotency_def statement_Inr)
  have "unmarshal_metadata e = Some m"
    using assms(1,3,4) e unmarshal_marshal_metadata [OF assms(3,4)] unfolding pg_env_ok_def by metis
  with db' show ?thesis by (auto simp: idempotency_key_def)
qed

lemma find_version_snoc:
  "find_version (db\<lparr>pg_versions := pg_versions db @ [row]\<rparr>) i v =
     (case find_version db i v of None \<Rightarrow> if version_key row = (i, v) then Some row else None | Some r \<Rightarrow> Some r)"
  by (simp add: find_version_def find_snoc version_key_def split: option.split)

lemma find_version_None: "find_version db i v = None \<longleftrightarrow> (i, v) \<notin> version_key ` set (pg_versions db)"
  by (auto simp: find_version_def find_None_iff version_key_def)

text \<open>A creation mirrored: a credential, its first version and its idempotency record.\<close>

lemma mirrors_created:
  assumes m: "mirrors db b" and p: "nul \<notin> set p" and new: "md_ID m \<notin> md_ID ` set (pg_credentials db)" "find (\<lambda>r. idempotency_key r = (p, k)) (pg_idempotency db) = None"
    and row: "version_key row = (md_ID m, md_Version m)" "unmarshal_envelope (vr_envelope row) = Some r"
    and idem: "idempotency_key irow = (p, k)" "ir_request_digest irow = d" "unmarshal_metadata (ir_response_metadata irow) = Some m"
    and db': "db' = db\<lparr>pg_credentials := pg_credentials db @ [m], pg_versions := pg_versions db @ [row], pg_idempotency := pg_idempotency db @ [irow]\<rparr>"
    and good: "pg_good db'"
  shows "mirrors db' (b\<lparr>credentials := mput (md_ID m) \<lparr>mc_metadata = m, mc_records = [(md_Version m, r)]\<rparr> (credentials b),
    idempotency := mput (p @ nul # k) \<lparr>ie_digest = d, ie_response = m\<rparr> (idempotency b)\<rparr>)"
proof -
  have g: "pg_inv db" and c: "same_credentials db b" and v: "same_versions db b" and i: "same_idempotency db b"
    and w: "same_bindings db b" and a: "same_attempts db b" and h: "exact_bindings db"
    using m by (simp_all add: mirrors_def pg_good_def)
  have "vr_credential_id ` set (pg_versions db) \<subseteq> md_ID ` set (pg_credentials db)" using g by (simp add: pg_inv_def versions_ok_def)
  then have nv: "find_version db (md_ID m) x = None" for x
    using new(1) by (auto simp: find_version_None version_key_def)
  have nc: "find (\<lambda>c. md_ID c = md_ID m) (pg_credentials db) = None" using new(1) by (simp add: find_key_None)
  have "same_credentials db' (b\<lparr>credentials := mput (md_ID m) \<lparr>mc_metadata = m, mc_records = [(md_Version m, r)]\<rparr> (credentials b)\<rparr>)"
    using c nc unfolding same_credentials_def db' by (auto simp: find_snoc split: option.split)
  moreover have "same_versions db' (b\<lparr>credentials := mput (md_ID m) \<lparr>mc_metadata = m, mc_records = [(md_Version m, r)]\<rparr> (credentials b)\<rparr>)"
  proof -
    have "find_version db' x y = find_version (db\<lparr>pg_versions := pg_versions db @ [row]\<rparr>) x y" for x y
      by (simp add: db' find_version_def)
    then show ?thesis
      using v nv row unfolding same_versions_def by (auto simp: find_version_snoc split: option.split)
  qed
  moreover have "same_idempotency db' (b\<lparr>idempotency := mput (p @ nul # k) \<lparr>ie_digest = d, ie_response = m\<rparr> (idempotency b)\<rparr>)"
  proof -
    have "p' @ nul # k' = p @ nul # k \<longleftrightarrow> p' = p \<and> k' = k" if "nul \<notin> set p'" for p' k'
      using that p by (auto simp: append_eq_append_conv2 Cons_eq_append_conv append_eq_Cons_conv)
    then show ?thesis
      using i new(2) idem unfolding same_idempotency_def db' by (auto simp: find_snoc split: option.split)
  qed
  ultimately show ?thesis
    using good w a h
    by (auto simp: mirrors_def same_credentials_def same_versions_def same_idempotency_def same_bindings_def same_attempts_def
        exact_bindings_def db')
qed

lemma Create_refines:
  assumes env: "pg_env_ok env" and m: "mirrors db b" and ok: "splitIdempotencyID i \<noteq> None" "validUUID (md_ID m)"
    "1000 dvd md_CreatedAt m" "1000 dvd md_UpdatedAt m" "envelope_utf8 r"
  shows "refines (=) b (Create_be b i d m r) (Create_pg env bk ctx l db i d m r)"
proof -
  obtain p k where s: "splitIdempotencyID i = Some (p, k)" using ok(1) by auto
  have i: "i = p @ nul # k" "nul \<notin> set p" using splitIdempotencyID_Some [OF s] by simp_all
  have idem: "map_option (\<lambda>e. (ie_digest e, Some (ie_response e))) (mget (idempotency b) i) =
      map_option (\<lambda>r. (ir_request_digest r, unmarshal_metadata (ir_response_metadata r)))
        (find (\<lambda>r. idempotency_key r = (p, k)) (pg_idempotency db))"
    using m i by (simp add: mirrors_def same_idempotency_def)
  show ?thesis
  proof (cases "marshal_metadata m")
    case None
    then show ?thesis using m s by (auto simp: Create_pg_def encodeStorage_def refines_def unavailable_def)
  next
    case (Some t)
    have new: "simulates (=) b (Create_be b i d m r) (create_rows env bk ctx l db p k d m r t (marshal_envelope r))"
      if none: "find (\<lambda>r. idempotency_key r = (p, k)) (pg_idempotency db) = None"
    proof -
      have "mirrors db3 (snd (Create_be b i d m r))"
        if 1: "insert_credential env db m = Inr db1" and 2: "insert_version env db1 (md_ID m) (md_Version m) (marshal_envelope r) (rec_MasterKeyID r) (md_UpdatedAt m) = Inr db2"
          and 3: "insert_idempotency env db2 p k d t (md_ID m) (md_CreatedAt m) = Inr db3" for db1 db2 db3
      proof -
        note c = insert_credential_exact [OF env 1 ok(2-4)]
        obtain row where row: "db2 = db1\<lparr>pg_versions := pg_versions db1 @ [row]\<rparr>" "version_key row = (md_ID m, md_Version m)"
          "unmarshal_envelope (vr_envelope row) = Some r"
          using insert_version_exact [OF env 2 ok(2,5)] by blast
        obtain irow where irow: "db3 = db2\<lparr>pg_idempotency := pg_idempotency db2 @ [irow]\<rparr>" "idempotency_key irow = (p, k)"
          "ir_request_digest irow = d" "unmarshal_metadata (ir_response_metadata irow) = Some m"
          using insert_idempotency_exact [OF env 3 Some c(3)] by blast
        have "keeps db db3" using 1 2 3 by (blast intro: keeps_trans keeps_insert_credential keeps_insert_version keeps_insert_idempotency)
        moreover have "current_ok db3"
          using m 1 2 3 by (intro current_idempotency [OF 3] inserted_current [OF 1 2]) (simp add: mirrors_def pg_good_def)
        ultimately have "pg_good db3" using m by (simp add: mirrors_def pg_good_def keeps_def)
        then have "mirrors db3 (b\<lparr>credentials := mput (md_ID m) \<lparr>mc_metadata = m, mc_records = [(md_Version m, r)]\<rparr> (credentials b),
            idempotency := mput (p @ nul # k) \<lparr>ie_digest = d, ie_response = m\<rparr> (idempotency b)\<rparr>)"
          by (intro mirrors_created [OF m i(2) c(2) none row(2,3) irow(2-4)]) (simp_all add: c(1) row(1) irow(1))
        moreover have "mget (idempotency b) i = None" using idem none by simp
        ultimately show ?thesis by (simp add: Create_be_def i)
      qed
      moreover have "fst (Create_be b i d m r) = Inr m" using idem none by (simp add: Create_be_def)
      ultimately show ?thesis unfolding create_rows_def by (intro sim_sql sim_append) simp_all
    qed
    have "simulates (=) b (Create_be b i d m r) (case select_idempotency env db p k of
        Inr (Some row) \<Rightarrow> if ir_request_digest row \<noteq> d then Rollback (Inl ErrIdempotencyConflict)
          else (case unmarshal_metadata (ir_response_metadata row) of None \<Rightarrow> Rollback (Inl ErrStorage) | Some response \<Rightarrow> Commit (Inr response) db)
      | Inl _ \<Rightarrow> Rollback (Inl ErrStorage)
      | Inr None \<Rightarrow> create_rows env bk ctx l db p k d m r t (marshal_envelope r))"
    proof (cases "find (\<lambda>r. idempotency_key r = (p, k)) (pg_idempotency db)")
      case None
      then show ?thesis using new by (auto simp: select_idempotency_def checked_def idempotency_key_def sim_storage)
    next
      case (Some row)
      then obtain e where "mget (idempotency b) i = Some e" "ir_request_digest row = ie_digest e"
        "unmarshal_metadata (ir_response_metadata row) = Some (ie_response e)"
        using idem by auto
      with Some m show ?thesis
        by (auto simp: select_idempotency_def checked_def idempotency_key_def sim_storage Create_be_def intro!: sim_rollback sim_commit)
    qed
    then have "simulates (=) b (Create_be b i d m r) (case sql l 2 (select_idempotency env db p k) of
        Inr (Some row) \<Rightarrow> if ir_request_digest row \<noteq> d then Rollback (Inl ErrIdempotencyConflict)
          else (case unmarshal_metadata (ir_response_metadata row) of None \<Rightarrow> Rollback (Inl ErrStorage) | Some response \<Rightarrow> Commit (Inr response) db)
      | Inl _ \<Rightarrow> Rollback (Inl ErrStorage)
      | Inr None \<Rightarrow> create_rows env bk ctx l db p k d m r t (marshal_envelope r))"
      by (simp add: sql_def sim_storage)
    with s Some m show ?thesis
      by (simp add: Create_pg_def encodeStorage_def) (rule transaction_refines, rule sim_sql, simp_all)
  qed
qed

lemma find_key_and: "distinct (map key xs) \<Longrightarrow>
  find (\<lambda>x. key x = k \<and> P x) xs = (case find (\<lambda>x. key x = k) xs of None \<Rightarrow> None | Some x \<Rightarrow> if P x then Some x else None)"
  by (induction xs) (auto split: option.split simp: find_Some_iff)

lemma find_in_set: "find P xs = Some x \<Longrightarrow> x \<in> set xs \<and> P x"
  by (auto simp: find_Some_iff)

lemma mirrored_credential:
  "mirrors db b \<Longrightarrow> find (\<lambda>c. md_ID c = i \<and> md_OrganizationID c = p) (pg_credentials db) =
     (case mget (credentials b) i of None \<Rightarrow> None
      | Some c \<Rightarrow> if md_OrganizationID (mc_metadata c) = p then Some (mc_metadata c) else None)"
proof -
  assume m: "mirrors db b"
  then have "distinct (map md_ID (pg_credentials db))" by (simp add: mirrors_def pg_good_def pg_inv_def credentials_ok_def)
  moreover have "find (\<lambda>c. md_ID c = i) (pg_credentials db) = map_option mc_metadata (mget (credentials b) i)"
    using m by (simp add: mirrors_def same_credentials_def)
  ultimately show ?thesis by (simp add: find_key_and split: option.split)
qed

lemma mirrored_version:
  assumes "mirrors db b" and "mget (credentials b) i = Some c"
  shows "map_option Some (mget (mc_records c) v) = map_option (\<lambda>r. unmarshal_envelope (vr_envelope r)) (find_version db i v)"
  using assms unfolding mirrors_def same_versions_def by (metis bind.bind_lunit)

lemma mirrored_current:
  assumes m: "mirrors db b" and c: "mget (credentials b) i = Some c"
  shows "\<exists>row r. find_version db i (md_Version (mc_metadata c)) = Some row \<and> unmarshal_envelope (vr_envelope row) = Some r \<and>
    mget (mc_records c) (md_Version (mc_metadata c)) = Some r \<and> md_ID (mc_metadata c) = i"
proof -
  have "find (\<lambda>c. md_ID c = i) (pg_credentials db) = Some (mc_metadata c)"
    using m c unfolding mirrors_def same_credentials_def by (metis option.simps(9))
  then have s: "mc_metadata c \<in> set (pg_credentials db)" "md_ID (mc_metadata c) = i" by (auto dest: find_in_set)
  then have "(i, md_Version (mc_metadata c)) \<in> version_key ` set (pg_versions db)"
    using m by (auto simp: mirrors_def pg_good_def current_ok_def list_all_iff)
  then obtain row where "find_version db i (md_Version (mc_metadata c)) = Some row"
    using find_version_None by (metis not_Some_eq)
  moreover from this obtain r where "mget (mc_records c) (md_Version (mc_metadata c)) = Some r" "unmarshal_envelope (vr_envelope row) = Some r"
    using mirrored_version [OF m c, of "md_Version (mc_metadata c)"] by (metis map_option_eq_Some)
  ultimately show ?thesis using s(2) by blast
qed

lemma Get_refines:
  assumes env: "pg_env_ok env" and m: "mirrors db b" and i: "validUUID i"
  shows "Get_pg env l db p i = Inl ErrStorage \<or> Get_pg env l db p i = Get_be b p i"
proof (cases "lk_lost l 0 \<or> \<not> pe_text env p")
  case True
  then show ?thesis using env i by (auto simp: Get_pg_def sql_def select_current_def select_credential_def checked_def given_def split: option.splits)
next
  case False
  then have s: "sql l 0 (select_current env db p i) = (case find (\<lambda>c. md_ID c = i \<and> md_OrganizationID c = p) (pg_credentials db) of
      None \<Rightarrow> Inr None | Some c \<Rightarrow> Inr (map_option (Pair c) (find_version db (md_ID c) (md_Version c))))"
    using env i by (simp add: sql_def select_current_def select_credential_def checked_def given_def pg_env_ok_def split: option.split)
  show ?thesis
    using mirrored_current [OF m, of i]
    by (auto simp: Get_pg_def Get_be_def s mirrored_credential [OF m] split: option.split)
qed

lemma update_credentials_exact:
  assumes env: "pg_env_ok env" and u: "update_credentials env db m i p v = Inr (n, db')" and ok: "validUUID i" "1000 dvd md_UpdatedAt m"
    and same: "\<forall>c \<in> set (pg_credentials db). md_ID c = i \<and> md_OrganizationID c = p \<and> md_Version c = v \<longrightarrow> same_identity c m"
  shows "db' = db\<lparr>pg_credentials := map (\<lambda>c. if md_ID c = i \<and> md_OrganizationID c = p \<and> md_Version c = v then m else c) (pg_credentials db)\<rparr>"
    and "n = 0 \<longleftrightarrow> find (\<lambda>c. md_ID c = i \<and> md_OrganizationID c = p \<and> md_Version c = v) (pg_credentials db) = None"
    and "pe_text env p"
proof -
  have j: "pe_uuid env i = Some i" using env ok(1) by (simp add: pg_env_ok_def)
  from u j obtain t where t: "pe_time env (md_UpdatedAt m) = Some t" and "pe_text env p"
    and n: "n = length (filter (\<lambda>c. md_ID c = i \<and> md_OrganizationID c = p \<and> md_Version c = v) (pg_credentials db))"
    and db': "db' = db\<lparr>pg_credentials := map (\<lambda>c. if md_ID c = i \<and> md_OrganizationID c = p \<and> md_Version c = v
         then c\<lparr>md_Name := md_Name m, md_Version := md_Version m, md_State := md_State m,
                md_SecretFields := md_SecretFields m, md_UpdatedAt := t\<rparr>
         else c) (pg_credentials db)\<rparr>"
    by (auto simp: update_credentials_def statement_Inr Let_def)
  have t': "t = md_UpdatedAt m" using env ok(2) t unfolding pg_env_ok_def by blast
  have "c\<lparr>md_Name := md_Name m, md_Version := md_Version m, md_State := md_State m,
      md_SecretFields := md_SecretFields m, md_UpdatedAt := t\<rparr> = m"
    if "c \<in> set (pg_credentials db)" "md_ID c = i \<and> md_OrganizationID c = p \<and> md_Version c = v" for c
    using same that by (auto simp: t' same_identity_def)
  then show "db' = db\<lparr>pg_credentials := map (\<lambda>c. if md_ID c = i \<and> md_OrganizationID c = p \<and> md_Version c = v then m else c) (pg_credentials db)\<rparr>"
    unfolding db' by (simp cong: map_cong)
  show "n = 0 \<longleftrightarrow> find (\<lambda>c. md_ID c = i \<and> md_OrganizationID c = p \<and> md_Version c = v) (pg_credentials db) = None"
    unfolding n by (simp add: find_None_iff filter_empty_conv) blast
  show "pe_text env p" by fact
qed

text \<open>An update mirrored: the credential's new metadata and the next version.\<close>

lemma mirrors_updated:
  assumes m: "mirrors db b" and c: "mget (credentials b) i = Some c" "md_OrganizationID (mc_metadata c) = p" "md_Version (mc_metadata c) = v"
    and same: "same_identity (mc_metadata c) m"
    and row: "version_key row = (i, md_Version m)" "unmarshal_envelope (vr_envelope row) = Some r" "(i, md_Version m) \<notin> version_key ` set (pg_versions db)"
    and db': "db' = db\<lparr>pg_credentials := map (\<lambda>c. if md_ID c = i \<and> md_OrganizationID c = p \<and> md_Version c = v then m else c) (pg_credentials db),
      pg_versions := pg_versions db @ [row]\<rparr>"
    and good: "pg_good db'"
  shows "mirrors db' (b\<lparr>credentials := mput i \<lparr>mc_metadata = m, mc_records = mput (md_Version m) r (mc_records c)\<rparr> (credentials b)\<rparr>)"
proof -
  have parts: "same_credentials db b" "same_versions db b" "same_idempotency db b" "same_bindings db b" "same_attempts db b" "exact_bindings db"
    using m by (simp_all add: mirrors_def)
  have f: "find (\<lambda>x. md_ID x = j) (pg_credentials db) = map_option mc_metadata (mget (credentials b) j)" for j
    using parts(1) by (simp add: same_credentials_def)
  have own: "md_ID (mc_metadata x) = j" if "mget (credentials b) j = Some x" for j x
    using find_in_set [OF f [of j, unfolded that, simplified]] by simp
  have ids: "md_ID (mc_metadata c) = i" "md_ID m = i" "md_OrganizationID m = p"
    using own [OF c(1)] same c(2) by (simp_all add: same_identity_def)
  have "find (\<lambda>x. md_ID x = j) (pg_credentials db') = map_option (\<lambda>x. if md_ID x = i \<and> md_OrganizationID x = p \<and> md_Version x = v then m else x)
      (find (\<lambda>x. md_ID x = j) (pg_credentials db))" for j
    unfolding db' by (simp add: find_map_key ids)
  then have "same_credentials db' (b\<lparr>credentials := mput i \<lparr>mc_metadata = m, mc_records = mput (md_Version m) r (mc_records c)\<rparr> (credentials b)\<rparr>)"
    using c ids own by (auto simp: same_credentials_def f map_option_case split: option.split)
  moreover have "same_versions db' (b\<lparr>credentials := mput i \<lparr>mc_metadata = m, mc_records = mput (md_Version m) r (mc_records c)\<rparr> (credentials b)\<rparr>)"
  proof -
    have fv: "find_version db' x y = (case find_version db x y of None \<Rightarrow> if (i, md_Version m) = (x, y) then Some row else None | Some r \<Rightarrow> Some r)" for x y
      using find_version_snoc [of db row x y] row(1) by (simp add: db' find_version_def) blast
    have new: "find_version db i (md_Version m) = None" using row(3) by (simp add: find_version_None)
    have old: "map_option Some (mget (mc_records c) y) = map_option (\<lambda>r. unmarshal_envelope (vr_envelope r)) (find_version db i y)" for y
      by (rule mirrored_version [OF m c(1)])
    have all: "Option.bind (mget (credentials b) x) (\<lambda>c. map_option Some (mget (mc_records c) y)) =
        map_option (\<lambda>r. unmarshal_envelope (vr_envelope r)) (find_version db x y)" for x y
      using parts(2) by (simp add: same_versions_def)
    show ?thesis unfolding same_versions_def
    proof (intro allI)
      fix x y
      show "Option.bind (mget (credentials (b\<lparr>credentials := mput i \<lparr>mc_metadata = m, mc_records = mput (md_Version m) r (mc_records c)\<rparr> (credentials b)\<rparr>)) x)
          (\<lambda>c. map_option Some (mget (mc_records c) y)) = map_option (\<lambda>r. unmarshal_envelope (vr_envelope r)) (find_version db' x y)"
        using all [of x y] old [of y] new row(2) by (cases "find_version db x y") (auto simp: fv)
    qed
  qed
  ultimately show ?thesis
    using good parts(3-6)
    by (auto simp: mirrors_def same_credentials_def same_versions_def same_idempotency_def same_bindings_def same_attempts_def exact_bindings_def db')
qed

lemma Update_refines:
  assumes env: "pg_env_ok env" and m: "mirrors db b" and ok: "validUUID i" "1000 dvd md_UpdatedAt m" "envelope_utf8 r"
    and same: "\<forall>c \<in> set (pg_credentials db). md_ID c = i \<and> md_OrganizationID c = p \<and> md_Version c = v \<longrightarrow> same_identity c m"
  shows "refines (=) b (Update_be b p i v m r) (Update_pg env bk ctx l db p i v m r operation)"
proof (cases "marshal_metadata m")
  case None
  then show ?thesis using m by (auto simp: Update_pg_def encodeStorage_def refines_def unavailable_def)
next
  case (Some t)
  have u: "pe_uuid env i = Some i" using env ok(1) by (simp add: pg_env_ok_def)
  have f: "find (\<lambda>c. md_ID c = i \<and> md_OrganizationID c = p \<and> md_Version c = v) (pg_credentials db) =
      (case mget (credentials b) i of None \<Rightarrow> None
       | Some c \<Rightarrow> if md_OrganizationID (mc_metadata c) = p \<and> md_Version (mc_metadata c) = v then Some (mc_metadata c) else None)"
  proof -
    have "distinct (map md_ID (pg_credentials db))" using m by (simp add: mirrors_def pg_good_def pg_inv_def credentials_ok_def)
    moreover have "find (\<lambda>c. md_ID c = i) (pg_credentials db) = map_option mc_metadata (mget (credentials b) i)"
      using m by (simp add: mirrors_def same_credentials_def)
    ultimately show ?thesis by (simp add: find_key_and split: option.split)
  qed
  have missed: "simulates (=) b (Update_be b p i v m r) (case sql l 2 (select_credential env db1 p i) of
      Inr None \<Rightarrow> Rollback (Inl ErrNotFound) | Inl _ \<Rightarrow> Rollback (Inl ErrStorage) | Inr (Some _) \<Rightarrow> Rollback (Inl ErrVersionConflict))"
    if s: "update_credentials env db m i p v = Inr (0, db1)" for db1
  proof -
    note x = update_credentials_exact [OF env s ok(1,2) same]
    have none: "find (\<lambda>c. md_ID c = i \<and> md_OrganizationID c = p \<and> md_Version c = v) (pg_credentials db) = None" using x(2) by simp
    then have "map (\<lambda>c. if md_ID c = i \<and> md_OrganizationID c = p \<and> md_Version c = v then m else c) (pg_credentials db) = pg_credentials db"
      by (intro map_idI) (auto simp: find_None_iff)
    then have "db1 = db" unfolding x(1) by simp
    then have "select_credential env db1 p i = Inr (case mget (credentials b) i of None \<Rightarrow> None
        | Some c \<Rightarrow> if md_OrganizationID (mc_metadata c) = p then Some (mc_metadata c) else None)"
      using x(3) by (simp add: select_credential_def u given_def checked_def mirrored_credential [OF m])
    then show ?thesis
      using none unfolding f
      by (auto simp: sql_def sim_storage Update_be_def split: option.split if_splits intro!: sim_rollback)
  qed
  have hit: "mirrors db2 (snd (Update_be b p i v m r)) \<and> fst (Update_be b p i v m r) = Inr m"
    if s: "update_credentials env db m i p v = Inr (n, db1)" "n \<noteq> 0"
      and w: "insert_version env db1 i (md_Version m) (marshal_envelope r) (rec_MasterKeyID r) (md_UpdatedAt m) = Inr db2" for n db1 db2
  proof -
    note x = update_credentials_exact [OF env s(1) ok(1,2) same]
    obtain c where c: "mget (credentials b) i = Some c" "md_OrganizationID (mc_metadata c) = p" "md_Version (mc_metadata c) = v"
      and fc: "find (\<lambda>c. md_ID c = i \<and> md_OrganizationID c = p \<and> md_Version c = v) (pg_credentials db) = Some (mc_metadata c)"
      using x(2) s(2) f by (auto split: option.splits if_splits)
    have "same_identity (mc_metadata c) m" using find_in_set [OF fc] same by blast
    moreover obtain row where row: "db2 = db1\<lparr>pg_versions := pg_versions db1 @ [row]\<rparr>" "version_key row = (i, md_Version m)"
      "unmarshal_envelope (vr_envelope row) = Some r" "(i, md_Version m) \<notin> version_key ` set (pg_versions db1)"
      using insert_version_exact [OF env w ok(1,3)] by blast
    moreover have "pg_good db2"
    proof -
      have "keeps db db2" using s(1) w by (blast intro: keeps_trans keeps_update_credentials keeps_insert_version)
      then show ?thesis using m updated_current [OF s(1) w] by (simp add: mirrors_def pg_good_def keeps_def)
    qed
    ultimately have "mirrors db2 (b\<lparr>credentials := mput i \<lparr>mc_metadata = m, mc_records = mput (md_Version m) r (mc_records c)\<rparr> (credentials b)\<rparr>)"
      using x(1) by (intro mirrors_updated [OF m c _ row(2,3)]) simp_all
    then show ?thesis using c by (simp add: Update_be_def)
  qed
  have "simulates (=) b (Update_be b p i v m r) (case sql l 1 (update_credentials env db m i p v) of Inl _ \<Rightarrow> Rollback (Inl ErrStorage)
      | Inr (affected, db1) \<Rightarrow> if affected = 0 then (case sql l 2 (select_credential env db1 p i) of
          Inr None \<Rightarrow> Rollback (Inl ErrNotFound) | Inl _ \<Rightarrow> Rollback (Inl ErrStorage) | Inr (Some _) \<Rightarrow> Rollback (Inl ErrVersionConflict))
        else (case sql l 2 (insert_version env db1 i (md_Version m) (marshal_envelope r) (rec_MasterKeyID r) (md_UpdatedAt m)) of
          Inl _ \<Rightarrow> Rollback (Inl ErrStorage)
        | Inr db2 \<Rightarrow> (case appendSuccessfulTransition env bk ctx l 3 db2 (credentialAudit operation m) of
            Inl e \<Rightarrow> Rollback (Inl e) | Inr db3 \<Rightarrow> Commit (Inr m) db3)))"
  proof (rule sim_sql, clarsimp, intro conjI impI)
    fix n db1 assume s: "update_credentials env db m i p v = Inr (n, db1)" and n: "0 < n"
    then show "simulates (=) b (Update_be b p i v m r) (case sql l 2 (insert_version env db1 i (md_Version m) (marshal_envelope r) (rec_MasterKeyID r) (md_UpdatedAt m)) of
          Inl _ \<Rightarrow> Rollback (Inl ErrStorage)
        | Inr db2 \<Rightarrow> (case appendSuccessfulTransition env bk ctx l 3 db2 (credentialAudit operation m) of
            Inl e \<Rightarrow> Rollback (Inl e) | Inr db3 \<Rightarrow> Commit (Inr m) db3))"
      using hit [of n db1] by (intro sim_sql sim_append) simp_all
  qed (use missed in blast)
  with Some m show ?thesis
    by (simp add: Update_pg_def encodeStorage_def) (rule transaction_refines)
qed

end
