(* ===== verification/Postgres_Bindings.thy ===== *)
theory Postgres_Bindings
  imports Postgres_Refinement
begin

text \<open>
  The methods on bindings and resolution of the PostgreSQL backend beside those of the in-memory
  backend: registration, inspection, cancellation and claims, each refines its counterpart
  (\<open>RegisterBinding_refines\<close>, \<open>GetBinding_refines\<close>, \<open>CancelBinding_refines\<close>, \<open>ClaimResolution_refines\<close>).
\<close>

section \<open>Bindings\<close>

text \<open>Answers that carry a binding agree up to \<open>settle\<close>.\<close>

definition settled :: "cred_error + Binding \<Rightarrow> cred_error + Binding \<Rightarrow> bool" where
  "settled r r' \<longleftrightarrow> map_sum id settle r = map_sum id settle r'"

text \<open>
  A registration of a run or dispatch that another registration has taken, for a credential that
  is not there or not active: the in-memory backend looks at the bindings first, the PostgreSQL
  backend at the credential.
\<close>

definition registered :: "cred_error + Binding \<Rightarrow> cred_error + Binding \<Rightarrow> bool" where
  "registered r r' \<longleftrightarrow> settled r r' \<or> r = Inl ErrNotFound \<and> r' = Inl ErrBindingConflict"

lemma settled_simps [simp]:
  "settled (Inl e) (Inl e') \<longleftrightarrow> e = e'" "settled (Inr x) (Inr y) \<longleftrightarrow> settle x = settle y" "settled r r"
  by (simp_all add: settled_def)

lemma settle_sel [simp]:
  "b_RunID (settle x) = b_RunID x" "b_DispatchID (settle x) = b_DispatchID x" "b_OrganizationID (settle x) = b_OrganizationID x"
  "b_State (settle x) = b_State x" "b_ExecutorIdentity (settle x) = b_ExecutorIdentity x" "b_ExpiresAt (settle x) = b_ExpiresAt x"
  "b_NotBefore (settle x) = b_NotBefore x" "b_CredentialID (settle x) = b_CredentialID x"
  "b_CredentialVersion (settle x) = b_CredentialVersion x" "b_ResolutionCount (settle x) = b_ResolutionCount x"
  "b_MaxResolutions (settle x) = b_MaxResolutions x"
  by (simp_all add: settle_def)

lemma settle_same:
  assumes "settle x = settle y"
  shows "b_RunID x = b_RunID y" "b_DispatchID x = b_DispatchID y" "b_OrganizationID x = b_OrganizationID y" "b_State x = b_State y"
    "b_ExecutorIdentity x = b_ExecutorIdentity y" "b_ExpiresAt x = b_ExpiresAt y" "b_NotBefore x = b_NotBefore y"
    "b_CredentialID x = b_CredentialID y" "b_CredentialVersion x = b_CredentialVersion y"
    "b_ResolutionCount x = b_ResolutionCount y" "b_MaxResolutions x = b_MaxResolutions y"
  by (insert assms) (metis settle_sel)+

lemma settle_exact: "settle x = settle y \<Longrightarrow> b_State y \<noteq> BindingExhausted \<Longrightarrow> x = y"
  by (metis settle_def settle_same(4))

lemma settle_time: "b_State x = BindingExhausted \<Longrightarrow> settle (x\<lparr>b_UpdatedAt := t\<rparr>) = settle x"
  by (simp add: settle_def)

text \<open>The entries of the map and the rows of the table.\<close>

definition entry_row :: "memoryBinding \<Rightarrow> binding_row \<Rightarrow> bool" where
  "entry_row e r \<longleftrightarrow> settle (mb_binding e) = settle (scanBinding r) \<and> mb_idempotencyKey e = bw_idempotency_key r \<and>
     mb_digest e = bw_request_digest r"

lemma scanBinding_sel [simp]:
  "b_RunID (scanBinding r) = row_run r" "b_DispatchID (scanBinding r) = row_dispatch r"
  "b_OrganizationID (scanBinding r) = b_OrganizationID (bw_binding r)"
  by (simp_all add: scanBinding_def row_run_def row_dispatch_def)

lemma mirrored_binding:
  assumes "mirrors db b"
  shows "case (mget (bindings b) run, find (\<lambda>r. row_run r = run) (pg_bindings db)) of (None, None) \<Rightarrow> True
    | (Some e, Some r) \<Rightarrow> entry_row e r \<and> row_run r = run | _ \<Rightarrow> False"
proof -
  have "map_option (\<lambda>m. (settle (mb_binding m), mb_idempotencyKey m, mb_digest m)) (mget (bindings b) run) =
      map_option (\<lambda>r. (settle (scanBinding r), bw_idempotency_key r, bw_request_digest r)) (find (\<lambda>r. row_run r = run) (pg_bindings db))"
    using assms by (simp add: mirrors_def same_bindings_def)
  then show ?thesis
    using find_in_set [of "\<lambda>r. row_run r = run" "pg_bindings db"] by (auto simp: entry_row_def split: option.split)
qed

lemma find_key_member: "distinct (map key xs) \<Longrightarrow> x \<in> set xs \<Longrightarrow> find (\<lambda>y. key y = key x) xs = Some x"
  by (induction xs) auto

lemma entry_to_row:
  assumes m: "mirrors db b" and e: "e \<in> snd ` set (bindings b)"
  shows "\<exists>r \<in> set (pg_bindings db). entry_row e r"
proof -
  have "wf_map (bindings b)" using m by (simp add: mirrors_def same_bindings_def)
  with e obtain run where "mget (bindings b) run = Some e" by (auto simp: in_set_mget)
  then show ?thesis
    using mirrored_binding [OF m, of run] find_in_set [of _ "pg_bindings db"] by (auto split: option.splits)
qed

lemma row_to_entry:
  assumes m: "mirrors db b" and r: "r \<in> set (pg_bindings db)"
  shows "\<exists>e \<in> snd ` set (bindings b). entry_row e r"
proof -
  have "distinct (map row_run (pg_bindings db))" using m by (simp add: mirrors_def pg_good_def pg_inv_def bindings_ok_def)
  then have "find (\<lambda>x. row_run x = row_run r) (pg_bindings db) = Some r" using r by (rule find_key_member)
  then obtain e where "mget (bindings b) (row_run r) = Some e" "entry_row e r"
    using mirrored_binding [OF m, of "row_run r"] by (auto split: option.splits)
  then show ?thesis by (force dest: mget_in_set)
qed

lemma mirrored_keys:
  assumes "mirrors db b" and "r \<in> set (pg_bindings db)" and "r' \<in> set (pg_bindings db)"
    and "row_run r = row_run r' \<or> row_dispatch r = row_dispatch r' \<or> registration_key r = registration_key r'"
  shows "r = r'"
  using assms by (auto simp: mirrors_def pg_good_def pg_inv_def bindings_ok_def distinct_map dest: inj_onD)

text \<open>The loop over the bindings ends at the first entry that has the registration, the run or the dispatch.\<close>

definition registration_hit :: "bindingRegistration \<Rightarrow> memoryBinding \<Rightarrow> bool" where
  "registration_hit reg e \<longleftrightarrow> b_OrganizationID (mb_binding e) = rb_OrganizationID (br_request reg) \<and> mb_idempotencyKey e = rb_IdempotencyKey (br_request reg) \<or>
     b_RunID (mb_binding e) = rb_RunID (br_request reg) \<or> b_DispatchID (mb_binding e) = rb_DispatchID (br_request reg)"

definition registration_verdict :: "bindingRegistration \<Rightarrow> memoryBinding \<Rightarrow> cred_error + Binding" where
  "registration_verdict reg e = (if b_OrganizationID (mb_binding e) = rb_OrganizationID (br_request reg) \<and>
     mb_idempotencyKey e = rb_IdempotencyKey (br_request reg) \<and> mb_digest e = br_digest reg then Inr (mb_binding e) else Inl ErrBindingConflict)"

lemma scan_bindings_find: "scan_bindings es reg = map_option (registration_verdict reg) (find (registration_hit reg) es)"
  by (induction es) (simp_all add: registration_hit_def registration_verdict_def Let_def)

lemma entry_hit:
  assumes "entry_row e r"
  shows "registration_hit reg e \<longleftrightarrow> registration_key r = (rb_OrganizationID (br_request reg), rb_IdempotencyKey (br_request reg)) \<or>
     row_run r = rb_RunID (br_request reg) \<or> row_dispatch r = rb_DispatchID (br_request reg)"
proof -
  have s: "settle (mb_binding e) = settle (scanBinding r)" "mb_idempotencyKey e = bw_idempotency_key r" using assms by (simp_all add: entry_row_def)
  show ?thesis unfolding registration_hit_def registration_key_def settle_same(1-3) [OF s(1)] s(2) by simp
qed

lemma mirrored_scan:
  assumes m: "mirrors db b"
  shows "scan_bindings (map snd (bindings b)) reg = None \<longleftrightarrow>
    \<not> list_ex (\<lambda>r. row_run r = rb_RunID (br_request reg) \<or> row_dispatch r = rb_DispatchID (br_request reg) \<or>
       registration_key r = (rb_OrganizationID (br_request reg), rb_IdempotencyKey (br_request reg))) (pg_bindings db)"
proof -
  have "registration_hit reg e \<Longrightarrow> e \<in> snd ` set (bindings b) \<Longrightarrow> \<exists>r \<in> set (pg_bindings db). row_run r = rb_RunID (br_request reg) \<or>
      row_dispatch r = rb_DispatchID (br_request reg) \<or> registration_key r = (rb_OrganizationID (br_request reg), rb_IdempotencyKey (br_request reg))" for e
    using entry_to_row [OF m, of e] entry_hit by metis
  moreover have "row_run r = rb_RunID (br_request reg) \<or> row_dispatch r = rb_DispatchID (br_request reg) \<or>
      registration_key r = (rb_OrganizationID (br_request reg), rb_IdempotencyKey (br_request reg)) \<Longrightarrow> r \<in> set (pg_bindings db) \<Longrightarrow>
      \<exists>e \<in> snd ` set (bindings b). registration_hit reg e" for r
    using row_to_entry [OF m, of r] entry_hit by metis
  ultimately show ?thesis
    unfolding scan_bindings_find map_option_is_None find_None_iff list_ex_iff set_map by meson
qed

text \<open>A registration the table has: the in-memory loop answers the binding it finds, or a conflict.\<close>

lemma scan_replay:
  assumes m: "mirrors db b" and r: "r \<in> set (pg_bindings db)"
    and key: "registration_key r = (rb_OrganizationID (br_request reg), rb_IdempotencyKey (br_request reg))"
    and same: "bw_request_digest r = br_digest reg \<Longrightarrow> row_run r = rb_RunID (br_request reg) \<and> row_dispatch r = rb_DispatchID (br_request reg)"
  shows "\<exists>v. scan_bindings (map snd (bindings b)) reg = Some v \<and>
    settled (if bw_request_digest r = br_digest reg then Inr (scanBinding r) else Inl ErrBindingConflict) v"
proof -
  have "scan_bindings (map snd (bindings b)) reg \<noteq> None"
    using r key by (auto simp: mirrored_scan [OF m] list_ex_iff)
  then obtain e where f: "find (registration_hit reg) (map snd (bindings b)) = Some e" by (auto simp: scan_bindings_find)
  then have e: "e \<in> snd ` set (bindings b)" "registration_hit reg e" using find_in_set [OF f] by simp_all
  obtain r' where r': "r' \<in> set (pg_bindings db)" "entry_row e r'" using entry_to_row [OF m e(1)] by blast
  have s: "settle (mb_binding e) = settle (scanBinding r')" "mb_idempotencyKey e = bw_idempotency_key r'" "mb_digest e = bw_request_digest r'"
    using r'(2) by (simp_all add: entry_row_def)
  have ve: "registration_verdict reg e = (if registration_key r' = registration_key r \<and> bw_request_digest r' = br_digest reg
      then Inr (mb_binding e) else Inl ErrBindingConflict)"
    unfolding registration_verdict_def key settle_same(3) [OF s(1)] s(2,3) by (simp add: registration_key_def)
  have hit: "registration_key r' = registration_key r \<or> row_run r' = rb_RunID (br_request reg) \<or> row_dispatch r' = rb_DispatchID (br_request reg)"
    using e(2) entry_hit [OF r'(2)] key by simp
  have "registration_key r' = registration_key r \<Longrightarrow> r' = r" using mirrored_keys [OF m r'(1) r] by blast
  moreover have "bw_request_digest r = br_digest reg \<Longrightarrow> r' = r" using hit same mirrored_keys [OF m r'(1) r] by metis
  ultimately have "settled (if bw_request_digest r = br_digest reg then Inr (scanBinding r) else Inl ErrBindingConflict) (registration_verdict reg e)"
    unfolding ve using s(1) by auto
  then show ?thesis by (simp add: scan_bindings_find f)
qed

text \<open>A registration mirrored: the row of the new binding.\<close>

lemma insert_binding_exact:
  assumes env: "pg_env_ok env" and i: "insert_binding env db x k d t = Inr db'"
    and ok: "validUUID (b_RunID x)" "validUUID (b_DispatchID x)" "validUUID (b_CredentialID x)"
      "1000 dvd b_NotBefore x" "1000 dvd b_ExpiresAt x" "1000 dvd t"
    and new: "b_ResolutionCount x = 0" "b_CreatedAt x = t" "b_UpdatedAt x = t"
  shows "db' = db\<lparr>pg_bindings := pg_bindings db @ [\<lparr>bw_binding = x, bw_cancel_reason = None, bw_idempotency_key = k, bw_request_digest = d\<rparr>]\<rparr>"
    and "\<not> list_ex (\<lambda>r. row_run r = b_RunID x \<or> row_dispatch r = b_DispatchID x \<or> registration_key r = (b_OrganizationID x, k)) (pg_bindings db)"
proof -
  have u: "pe_uuid env (b_RunID x) = Some (b_RunID x)" "pe_uuid env (b_DispatchID x) = Some (b_DispatchID x)"
    "pe_uuid env (b_CredentialID x) = Some (b_CredentialID x)" using env ok(1-3) by (simp_all add: pg_env_ok_def)
  have time: "v = w" if "pe_time env w = Some v" "1000 dvd w" for v w using env that unfolding pg_env_ok_def by blast
  from i u obtain nb ex c where t: "pe_time env (b_NotBefore x) = Some nb" "pe_time env (b_ExpiresAt x) = Some ex" "pe_time env t = Some c"
    and n: "\<not> list_ex (\<lambda>r. b_RunID (bw_binding r) = b_RunID x \<or> b_DispatchID (bw_binding r) = b_DispatchID x \<or>
         b_OrganizationID (bw_binding r) = b_OrganizationID x \<and> bw_idempotency_key r = k) (pg_bindings db)"
    and db': "db' = db\<lparr>pg_bindings := pg_bindings db @ [\<lparr>bw_binding = x\<lparr>b_RunID := b_RunID x, b_DispatchID := b_DispatchID x, b_CredentialID := b_CredentialID x,
        b_NotBefore := nb, b_ExpiresAt := ex, b_ResolutionCount := 0, b_CreatedAt := c, b_UpdatedAt := c\<rparr>,
        bw_cancel_reason = None, bw_idempotency_key = k, bw_request_digest = d\<rparr>]\<rparr>"
    by (auto simp: insert_binding_def statement_Inr Let_def)
  have e: "nb = b_NotBefore x" "ex = b_ExpiresAt x" "c = t" using t ok(4-6) by (auto dest: time)
  have "x\<lparr>b_RunID := b_RunID x, b_DispatchID := b_DispatchID x, b_CredentialID := b_CredentialID x,
        b_NotBefore := nb, b_ExpiresAt := ex, b_ResolutionCount := 0, b_CreatedAt := c, b_UpdatedAt := c\<rparr> = x"
    unfolding e using new by (intro Binding.equality) simp_all
  with db' show "db' = db\<lparr>pg_bindings := pg_bindings db @ [\<lparr>bw_binding = x, bw_cancel_reason = None, bw_idempotency_key = k, bw_request_digest = d\<rparr>]\<rparr>"
    by simp
  show "\<not> list_ex (\<lambda>r. row_run r = b_RunID x \<or> row_dispatch r = b_DispatchID x \<or> registration_key r = (b_OrganizationID x, k)) (pg_bindings db)"
    using n by (simp add: row_run_def row_dispatch_def registration_key_def)
qed

lemma insert_binding_taken:
  assumes "pg_env_ok env" and "insert_binding env db x k d t = Inl UniqueViolation" and "validUUID (b_RunID x)" "validUUID (b_DispatchID x)"
  shows "list_ex (\<lambda>r. row_run r = b_RunID x \<or> row_dispatch r = b_DispatchID x \<or> registration_key r = (b_OrganizationID x, k)) (pg_bindings db)"
proof -
  have u: "pe_uuid env (b_RunID x) = Some (b_RunID x)" "pe_uuid env (b_DispatchID x) = Some (b_DispatchID x)"
    using assms(1,3,4) by (simp_all add: pg_env_ok_def)
  show ?thesis
    using assms(2) u
    by (simp add: insert_binding_def given_def checked_def unique_index_def Let_def row_run_def row_dispatch_def registration_key_def split: option.splits if_splits)
qed

lemma mirrors_bound:
  assumes m: "mirrors db b" and new: "row_run row \<notin> row_run ` set (pg_bindings db)"
    and e: "entry_row e row" and x: "1000 dvd b_ExpiresAt (bw_binding row)" "validUUID (b_CredentialID (bw_binding row))"
    and db': "db' = db\<lparr>pg_bindings := pg_bindings db @ [row]\<rparr>" and good: "pg_good db'"
  shows "mirrors db' (b\<lparr>bindings := mput (row_run row) e (bindings b)\<rparr>)"
proof -
  have n: "find (\<lambda>r. row_run r = row_run row) (pg_bindings db) = None" using new by (simp add: find_key_None)
  have "same_bindings db b" using m by (simp add: mirrors_def)
  then have "same_bindings db' (b\<lparr>bindings := mput (row_run row) e (bindings b)\<rparr>)"
    using n e unfolding same_bindings_def db' entry_row_def by (simp add: find_snoc split: option.split)
  then show ?thesis
    using m good x by (simp add: mirrors_def same_credentials_def same_versions_def same_idempotency_def same_attempts_def exact_bindings_def find_version_def db')
qed

lemma select_active_mirrored:
  assumes "mirrors db b" and "pe_uuid env i = Some i" and "select_active env db i p = Inr x"
  shows "x = (case mget (credentials b) i of None \<Rightarrow> None
    | Some c \<Rightarrow> if md_OrganizationID (mc_metadata c) \<noteq> p \<or> md_State (mc_metadata c) \<noteq> StateActive then None else Some (mc_metadata c))"
  using assms mirrored_current [OF assms(1), of i]
  by (auto simp: select_active_def select_current_def select_credential_def given_def checked_def mirrored_credential [OF assms(1)] split: option.splits if_splits)

text \<open>
  A request that the table can keep exactly. The digest is that of the request: an earlier
  registration with the same key and digest was of the same run and dispatch.
\<close>

definition register_ok :: "pg_db \<Rightarrow> bindingRegistration \<Rightarrow> bool" where
  "register_ok db reg \<longleftrightarrow> (let request = br_request reg in
     validUUID (rb_RunID request) \<and> validUUID (rb_DispatchID request) \<and> validUUID (rb_CredentialID request) \<and>
     1000 dvd z_instant (rb_NotBefore request) \<and> 1000 dvd z_instant (rb_ExpiresAt request) \<and> 1000 dvd br_now reg \<and>
     list_all (\<lambda>r. registration_key r = (rb_OrganizationID request, rb_IdempotencyKey request) \<longrightarrow> bw_request_digest r = br_digest reg \<longrightarrow>
       row_run r = rb_RunID request \<and> row_dispatch r = rb_DispatchID request) (pg_bindings db))"

abbreviation request_key :: "bindingRegistration \<Rightarrow> string \<times> string" where
  "request_key reg \<equiv> (rb_OrganizationID (br_request reg), rb_IdempotencyKey (br_request reg))"

abbreviation taken :: "pg_db \<Rightarrow> bindingRegistration \<Rightarrow> bool" where
  "taken db reg \<equiv> list_ex (\<lambda>r. row_run r = rb_RunID (br_request reg) \<or> row_dispatch r = rb_DispatchID (br_request reg) \<or>
     registration_key r = request_key reg) (pg_bindings db)"

lemma new_binding_sel [simp]:
  "b_RunID (new_binding reg md) = rb_RunID (br_request reg)" "b_DispatchID (new_binding reg md) = rb_DispatchID (br_request reg)"
  "b_CredentialID (new_binding reg md) = rb_CredentialID (br_request reg)" "b_OrganizationID (new_binding reg md) = rb_OrganizationID (br_request reg)"
  "b_NotBefore (new_binding reg md) = z_instant (rb_NotBefore (br_request reg))" "b_ExpiresAt (new_binding reg md) = z_instant (rb_ExpiresAt (br_request reg))"
  "b_ResolutionCount (new_binding reg md) = 0" "b_CreatedAt (new_binding reg md) = br_now reg" "b_UpdatedAt (new_binding reg md) = br_now reg"
  "(new_binding reg md)\<lparr>b_CancelReason := []\<rparr> = new_binding reg md"
  by (simp_all add: new_binding_def Let_def)

lemma register_taken:
  assumes m: "mirrors db b" and none: "\<not> list_ex (\<lambda>r. registration_key r = request_key reg) (pg_bindings db)" and t: "taken db reg"
  shows "RegisterBinding_be b reg = (Inl ErrBindingConflict, b)"
proof -
  from t obtain e where f: "find (registration_hit reg) (map snd (bindings b)) = Some e"
    using mirrored_scan [OF m, of reg] by (auto simp: scan_bindings_find)
  obtain r where r: "r \<in> set (pg_bindings db)" "entry_row e r" using entry_to_row [OF m, of e] find_in_set [OF f] by auto
  have s: "settle (mb_binding e) = settle (scanBinding r)" "mb_idempotencyKey e = bw_idempotency_key r" using r(2) by (simp_all add: entry_row_def)
  have "registration_verdict reg e = Inl ErrBindingConflict"
    unfolding registration_verdict_def settle_same(3) [OF s(1)] s(2) using none r(1) by (auto simp: list_ex_iff registration_key_def)
  with f show ?thesis by (simp add: RegisterBinding_be_def scan_bindings_find)
qed

lemma register_inserted:
  assumes env: "pg_env_ok env" and m: "mirrors db b" and ok: "register_ok db reg"
    and c: "mget (credentials b) (rb_CredentialID (br_request reg)) = Some c" "md_OrganizationID (mc_metadata c) = rb_OrganizationID (br_request reg)"
      "md_State (mc_metadata c) = StateActive"
    and i: "insert_binding env db (new_binding reg (mc_metadata c)) (rb_IdempotencyKey (br_request reg)) (br_digest reg) (br_now reg) = Inr db1"
  shows "mirrors db1 (snd (RegisterBinding_be b reg))" and "fst (RegisterBinding_be b reg) = Inr (new_binding reg (mc_metadata c))"
proof -
  let ?q = "br_request reg"
  let ?row = "\<lparr>bw_binding = new_binding reg (mc_metadata c), bw_cancel_reason = None, bw_idempotency_key = rb_IdempotencyKey ?q, bw_request_digest = br_digest reg\<rparr>"
  let ?e = "\<lparr>mb_binding = new_binding reg (mc_metadata c), mb_idempotencyKey = rb_IdempotencyKey ?q, mb_digest = br_digest reg\<rparr>"
  have x: "db1 = db\<lparr>pg_bindings := pg_bindings db @ [?row]\<rparr>" "\<not> taken db reg"
    using insert_binding_exact [OF env i] ok by (simp_all add: register_ok_def Let_def)
  have "pg_good db1"
    using m by (intro current_frame [OF keeps_insert_binding [OF i]]) (simp_all add: x(1) mirrors_def)
  moreover have "row_run ?row \<notin> row_run ` set (pg_bindings db)" using x(2) by (auto simp: list_ex_iff row_run_def)
  moreover have "entry_row ?e ?row" by (simp add: entry_row_def scanBinding_def)
  ultimately have "mirrors db1 (b\<lparr>bindings := mput (row_run ?row) ?e (bindings b)\<rparr>)"
    using ok by (intro mirrors_bound [OF m]) (simp_all add: x(1) register_ok_def Let_def)
  moreover have "scan_bindings (map snd (bindings b)) reg = None" using x(2) mirrored_scan [OF m, of reg] by simp
  ultimately show "mirrors db1 (snd (RegisterBinding_be b reg))" "fst (RegisterBinding_be b reg) = Inr (new_binding reg (mc_metadata c))"
    using c by (simp_all add: RegisterBinding_be_def Let_def row_run_def)
qed

lemma register_new:
  assumes env: "pg_env_ok env" and m: "mirrors db b" and ok: "register_ok db reg"
    and none: "\<not> list_ex (\<lambda>r. registration_key r = request_key reg) (pg_bindings db)"
  shows "simulates registered b (RegisterBinding_be b reg)
    (case sql l 3 (select_active env db (rb_CredentialID (br_request reg)) (rb_OrganizationID (br_request reg))) of
       Inr None \<Rightarrow> Rollback (Inl ErrNotFound)
     | Inl _ \<Rightarrow> Rollback (Inl ErrStorage)
     | Inr (Some md) \<Rightarrow>
    (case sql l 4 (insert_binding env db (new_binding reg md) (rb_IdempotencyKey (br_request reg)) (br_digest reg) (br_now reg)) of
       Inl e \<Rightarrow> if isUniqueViolation e then Rollback (Inl ErrBindingConflict) else Rollback (Inl ErrStorage)
     | Inr db1 \<Rightarrow>
    (case appendSuccessfulTransition env bk ctx l 5 db1
            (bindingAudit OperationRunBindingRegistered (new_binding reg md) ''praetor-scheduler'' ReasonCompleted (br_now reg)) of
       Inl e \<Rightarrow> Rollback (Inl e)
     | Inr db2 \<Rightarrow> Commit (Inr (new_binding reg md)) db2)))"
    (is "simulates _ _ _ (case sql l 3 ?select of Inr None \<Rightarrow> _ | Inl _ \<Rightarrow> _ | Inr (Some md) \<Rightarrow> ?insert md)")
proof (cases ?select)
  case (Inl e)
  then show ?thesis by (simp add: sql_def sim_storage)
next
  case (Inr x)
  have u: "pe_uuid env (rb_CredentialID (br_request reg)) = Some (rb_CredentialID (br_request reg))"
    using env ok by (simp add: pg_env_ok_def register_ok_def Let_def)
  note s = select_active_mirrored [OF m u Inr]
  show ?thesis
  proof (cases x)
    case None
    then have "RegisterBinding_be b reg = (Inl ErrNotFound, b)" if "\<not> taken db reg"
      using s that mirrored_scan [OF m, of reg] by (auto simp: RegisterBinding_be_def Let_def split: option.splits if_splits)
    then have "simulates registered b (RegisterBinding_be b reg) (Rollback (Inl ErrNotFound))"
      using register_taken [OF m none] by (cases "taken db reg") (auto simp: registered_def intro!: sim_rollback)
    then show ?thesis by (simp add: Inr None sql_def sim_storage)
  next
    case (Some md)
    obtain c where c: "mget (credentials b) (rb_CredentialID (br_request reg)) = Some c" "md_OrganizationID (mc_metadata c) = rb_OrganizationID (br_request reg)"
      "md_State (mc_metadata c) = StateActive" "md = mc_metadata c"
    proof (cases "mget (credentials b) (rb_CredentialID (br_request reg))")
      case (Some c)
      with s [unfolded \<open>x = Some md\<close>] that [of c] show thesis by (simp split: if_splits)
    qed (use s [unfolded Some] in simp)
    have "simulates registered b (RegisterBinding_be b reg) (?insert md)"
    proof (cases "insert_binding env db (new_binding reg md) (rb_IdempotencyKey (br_request reg)) (br_digest reg) (br_now reg)")
      case (Inl e)
      have ids: "validUUID (rb_RunID (br_request reg))" "validUUID (rb_DispatchID (br_request reg))" using ok by (simp_all add: register_ok_def Let_def)
      have "RegisterBinding_be b reg = (Inl ErrBindingConflict, b)" if "e = UniqueViolation"
        using insert_binding_taken [OF env Inl [unfolded that]] ids by (intro register_taken [OF m none]) simp
      then show ?thesis
        unfolding Inl by (cases e) (auto simp: sql_def isUniqueViolation_def sim_storage registered_def intro!: sim_rollback)
    next
      case (Inr db1)
      then show ?thesis
        using register_inserted [OF env m ok c(1-3), of db1] c(4)
        by (auto simp: sql_def isUniqueViolation_def sim_storage registered_def intro!: sim_append)
    qed
    then show ?thesis by (simp add: Inr Some sql_def [of l 3] sim_storage)
  qed
qed

lemma RegisterBinding_refines:
  assumes env: "pg_env_ok env" and m: "mirrors db b" and ok: "register_ok db reg"
  shows "refines registered b (RegisterBinding_be b reg) (RegisterBinding_pg env bk ctx l db reg)"
proof -
  let ?q = "br_request reg"
  let ?find = "find (\<lambda>r. b_OrganizationID (bw_binding r) = rb_OrganizationID ?q \<and> bw_idempotency_key r = rb_IdempotencyKey ?q) (pg_bindings db)"
  have replay: "simulates registered b (RegisterBinding_be b reg)
      (if bw_request_digest row \<noteq> br_digest reg then Rollback (Inl ErrBindingConflict)
       else (case appendCompletion env bk ctx l 3 db (bindingAudit OperationRunBindingRegistered (scanBinding row) ''praetor-scheduler'' ReasonCompleted (br_now reg)) of
               Inl e \<Rightarrow> Rollback (Inl e) | Inr db1 \<Rightarrow> Commit (Inr (scanBinding row)) db1))" if f: "?find = Some row" for row
  proof -
    have r: "row \<in> set (pg_bindings db)" "registration_key row = request_key reg" using find_in_set [OF f] by (simp_all add: registration_key_def)
    have "bw_request_digest row = br_digest reg \<Longrightarrow> row_run row = rb_RunID ?q \<and> row_dispatch row = rb_DispatchID ?q"
      using ok r by (simp add: register_ok_def Let_def list_all_iff)
    from scan_replay [OF m r this] obtain v where v: "RegisterBinding_be b reg = (v, b)"
      and s: "settled (if bw_request_digest row = br_digest reg then Inr (scanBinding row) else Inl ErrBindingConflict) v"
      by (auto simp: RegisterBinding_be_def)
    show ?thesis
      using m s v by (cases "bw_request_digest row = br_digest reg") (auto simp: registered_def intro!: sim_rollback sim_append)
  qed
  have none: "\<not> list_ex (\<lambda>r. registration_key r = request_key reg) (pg_bindings db)" if "?find = None"
    using that by (auto simp: find_None_iff list_ex_iff registration_key_def)
  show ?thesis
    unfolding RegisterBinding_pg_def Let_def
  proof (rule transaction_refines [OF _ m], rule sim_sql, goal_cases)
    case 1
    show ?case
    proof (cases "sql l 2 (select_registration env db (rb_OrganizationID ?q) (rb_IdempotencyKey ?q))")
      case (Inl e)
      then show ?thesis by (simp add: sim_storage)
    next
      case (Inr x)
      then have f: "?find = x" by (simp add: statement_Inr select_registration_def)
      show ?thesis
      proof (cases x)
        case None
        show ?thesis using register_new [OF env m ok none [OF f [unfolded None]]] by (simp add: Inr None)
      next
        case (Some row)
        show ?thesis using replay [OF f [unfolded Some]] by (simp add: Inr Some)
      qed
    qed
  qed
qed

text \<open>A binding found under its run, in the map and in the table.\<close>

lemma select_binding_mirrored:
  assumes env: "pg_env_ok env" and m: "mirrors db b" and run: "validUUID run"
  shows "(select_binding env db run = Inr None \<and> mget (bindings b) run = None) \<or>
    (\<exists>row e. select_binding env db run = Inr (Some row) \<and> mget (bindings b) run = Some e \<and>
       find (\<lambda>r. row_run r = run) (pg_bindings db) = Some row \<and> entry_row e row)"
proof -
  have "select_binding env db run = Inr (find (\<lambda>r. row_run r = run) (pg_bindings db))"
    using env run by (simp add: select_binding_def given_def pg_env_ok_def row_run_def)
  then show ?thesis using mirrored_binding [OF m, of run] by (auto split: option.splits)
qed

lemma GetBinding_refines:
  assumes env: "pg_env_ok env" and m: "mirrors db b" and run: "validUUID run"
  shows "GetBinding_pg env l db run = Inl ErrStorage \<or> settled (GetBinding_pg env l db run) (GetBinding_be b run)"
  using select_binding_mirrored [OF assms]
  by (auto simp: GetBinding_pg_def GetBinding_be_def sql_def entry_row_def)

text \<open>A change of the row of a binding beside the change of its entry.\<close>

lemma update_binding_exact:
  assumes env: "pg_env_ok env" and u: "update_binding env db run t change = Inr db'" and ok: "validUUID run" "1000 dvd t"
  shows "db' = db\<lparr>pg_bindings := map (\<lambda>r. if row_run r = run then (change r)\<lparr>bw_binding := (bw_binding (change r))\<lparr>b_UpdatedAt := t\<rparr>\<rparr> else r) (pg_bindings db)\<rparr>"
proof -
  have r: "pe_uuid env run = Some run" using env ok(1) by (simp add: pg_env_ok_def)
  from u r obtain w where w: "pe_time env t = Some w"
    and db': "db' = db\<lparr>pg_bindings := map (\<lambda>r. if b_RunID (bw_binding r) = run then (change r)\<lparr>bw_binding := (bw_binding (change r))\<lparr>b_UpdatedAt := w\<rparr>\<rparr> else r) (pg_bindings db)\<rparr>"
    by (auto simp: update_binding_def statement_Inr Let_def)
  have "w = t" using env ok(2) w unfolding pg_env_ok_def by blast
  with db' show ?thesis by (simp add: row_run_def)
qed

definition keeps_row :: "(binding_row \<Rightarrow> binding_row) \<Rightarrow> bool" where
  "keeps_row change \<longleftrightarrow> (\<forall>r. row_run (change r) = row_run r \<and> b_ExpiresAt (bw_binding (change r)) = b_ExpiresAt (bw_binding r) \<and>
     b_CredentialID (bw_binding (change r)) = b_CredentialID (bw_binding r) \<and>
     bw_idempotency_key (change r) = bw_idempotency_key r \<and> bw_request_digest (change r) = bw_request_digest r)"

lemma mirrors_changed:
  assumes m: "mirrors db b" and e: "mget (bindings b) run = Some e" "find (\<lambda>r. row_run r = run) (pg_bindings db) = Some row" "entry_row e row"
    and new: "keeps_row change" "settle next = settle (scanBinding (change row))"
    and db': "db' = db\<lparr>pg_bindings := map (\<lambda>r. if row_run r = run then change r else r) (pg_bindings db)\<rparr>" and good: "pg_good db'"
  shows "mirrors db' (put_binding b run e next)"
proof -
  have f: "find (\<lambda>r. row_run r = x) (pg_bindings db') = map_option (\<lambda>r. if row_run r = run then change r else r) (find (\<lambda>r. row_run r = x) (pg_bindings db))" for x
    unfolding db' using new(1) by (simp add: find_map_key keeps_row_def)
  have key: "find (\<lambda>r. row_run r = x) (pg_bindings db) = Some r \<Longrightarrow> row_run r = x" for x r by (auto dest: find_in_set)
  have s: "same_bindings db b" using m by (simp add: mirrors_def)
  then have old: "map_option (\<lambda>m. (settle (mb_binding m), mb_idempotencyKey m, mb_digest m)) (mget (bindings b) x) =
      map_option (\<lambda>r. (settle (scanBinding r), bw_idempotency_key r, bw_request_digest r)) (find (\<lambda>r. row_run r = x) (pg_bindings db))" for x
    by (simp add: same_bindings_def)
  have "map_option (\<lambda>m. (settle (mb_binding m), mb_idempotencyKey m, mb_digest m)) (mget (bindings (put_binding b run e next)) x) =
      map_option (\<lambda>r. (settle (scanBinding r), bw_idempotency_key r, bw_request_digest r)) (find (\<lambda>r. row_run r = x) (pg_bindings db'))" for x
  proof (cases "x = run")
    case True
    then show ?thesis using e new key [OF e(2)] by (simp add: f put_binding_def keeps_row_def entry_row_def)
  next
    case False
    then show ?thesis using old [of x] key [of x] by (cases "find (\<lambda>r. row_run r = x) (pg_bindings db)") (auto simp: f put_binding_def)
  qed
  then have "same_bindings db' (put_binding b run e next)" using s by (simp add: same_bindings_def put_binding_def)
  moreover have "exact_bindings db'" using m new(1) by (auto simp: mirrors_def exact_bindings_def list_all_iff db' keeps_row_def)
  ultimately show ?thesis
    using m good by (simp add: mirrors_def same_credentials_def same_versions_def same_idempotency_def same_attempts_def find_version_def db' put_binding_def)
qed

text \<open>An entry that changes no more than \<open>settle\<close> forgets.\<close>

lemma mirrors_settled:
  assumes m: "mirrors db b" and e: "mget (bindings b) run = Some e" and s: "settle next = settle (mb_binding e)"
  shows "mirrors db (put_binding b run e next)"
proof -
  have sb: "same_bindings db b" using m by (simp add: mirrors_def)
  have "map_option (\<lambda>m. (settle (mb_binding m), mb_idempotencyKey m, mb_digest m)) (mget (bindings (put_binding b run e next)) x) =
      map_option (\<lambda>m. (settle (mb_binding m), mb_idempotencyKey m, mb_digest m)) (mget (bindings b) x)" for x
    using e s by (simp add: put_binding_def)
  then have "same_bindings db (put_binding b run e next)"
    using sb unfolding same_bindings_def by (simp add: put_binding_def)
  then show ?thesis using m by (simp add: mirrors_def same_credentials_def same_versions_def same_idempotency_def same_attempts_def put_binding_def)
qed

lemma mirrors_update:
  assumes env: "pg_env_ok env" and m: "mirrors db b" and ok: "validUUID run" "1000 dvd t"
    and e: "mget (bindings b) run = Some e" "find (\<lambda>r. row_run r = run) (pg_bindings db) = Some row" "entry_row e row"
    and u: "update_binding env db run t change = Inr db'" and k: "keeps db db'" "keeps_row change"
    and new: "settle next = settle (scanBinding ((change row)\<lparr>bw_binding := (bw_binding (change row))\<lparr>b_UpdatedAt := t\<rparr>\<rparr>))"
  shows "mirrors db' (put_binding b run e next)"
proof (rule mirrors_changed [OF m e])
  show "keeps_row (\<lambda>r. (change r)\<lparr>bw_binding := (bw_binding (change r))\<lparr>b_UpdatedAt := t\<rparr>\<rparr>)"
    using k(2) by (simp add: keeps_row_def row_run_def)
  show db': "db' = db\<lparr>pg_bindings := map (\<lambda>r. if row_run r = run then (change r)\<lparr>bw_binding := (bw_binding (change r))\<lparr>b_UpdatedAt := t\<rparr>\<rparr> else r) (pg_bindings db)\<rparr>"
    by (rule update_binding_exact [OF env u ok])
  show "pg_good db'" using m by (intro current_frame [OF k(1)]) (simp_all add: db' mirrors_def)
qed (rule new)

lemma set_binding_state_keeps:
  "keeps_row (set_binding_state s)" "keeps_row (\<lambda>r. (set_binding_state s r)\<lparr>bw_cancel_reason := z\<rparr>)"
  "keeps_row (\<lambda>r. (set_binding_state s r)\<lparr>bw_binding := (bw_binding (set_binding_state s r))\<lparr>b_ResolutionCount := k\<rparr>\<rparr>)"
  by (simp_all add: keeps_row_def set_binding_state_def row_run_def)

text \<open>What the row of a binding reads as after each change.\<close>

lemma scan_changed:
  "scanBinding ((set_binding_state s row)\<lparr>bw_binding := (bw_binding (set_binding_state s row))\<lparr>b_UpdatedAt := t\<rparr>\<rparr>) = (scanBinding row)\<lparr>b_State := s, b_UpdatedAt := t\<rparr>"
  "scanBinding ((set_binding_state s row)\<lparr>bw_cancel_reason := Some reason, bw_binding := (bw_binding (set_binding_state s row))\<lparr>b_UpdatedAt := t\<rparr>\<rparr>) =
     (scanBinding row)\<lparr>b_State := s, b_CancelReason := reason, b_UpdatedAt := t\<rparr>"
  "scanBinding ((set_binding_state s row)\<lparr>bw_binding := (bw_binding (set_binding_state s row))\<lparr>b_ResolutionCount := k, b_UpdatedAt := t\<rparr>\<rparr>) =
     (scanBinding row)\<lparr>b_ResolutionCount := k, b_State := s, b_UpdatedAt := t\<rparr>"
  by (simp_all add: scanBinding_def set_binding_state_def)

lemma CancelBinding_refines:
  assumes env: "pg_env_ok env" and m: "mirrors db b" and ok: "validUUID run" "1000 dvd now"
  shows "refines settled b (CancelBinding_be b run dispatch reason now) (CancelBinding_pg env bk ctx l db run dispatch reason now)"
  using select_binding_mirrored [OF env m ok(1)]
proof (elim disjE exE conjE)
  assume "select_binding env db run = Inr None" "mget (bindings b) run = None"
  then show ?thesis
    unfolding CancelBinding_pg_def
    by (intro transaction_refines [OF _ m]) (simp add: sql_def sim_storage CancelBinding_be_def sim_rollback)
next
  fix row e
  assume s: "select_binding env db run = Inr (Some row)"
    and e: "mget (bindings b) run = Some e" "find (\<lambda>r. row_run r = run) (pg_bindings db) = Some row" "entry_row e row"
  have st: "settle (mb_binding e) = settle (scanBinding row)" using e(3) by (simp add: entry_row_def)
  note same = settle_same [OF st]
  let ?next = "(mb_binding e)\<lparr>b_State := BindingCanceled, b_CancelReason := reason, b_UpdatedAt := now\<rparr>"
  have upd: "mirrors db1 (put_binding b run e ?next)"
    if "checked c (update_binding env db run now (\<lambda>r. (set_binding_state BindingCanceled r)\<lparr>bw_cancel_reason := Some reason\<rparr>)) = Inr db1"
      "b_State (scanBinding row) \<noteq> BindingExhausted" for c db1
  proof -
    have u: "update_binding env db run now (\<lambda>r. (set_binding_state BindingCanceled r)\<lparr>bw_cancel_reason := Some reason\<rparr>) = Inr db1"
      using that(1) by (simp add: checked_Inr)
    show ?thesis
      using settle_exact [OF st that(2)] by (intro mirrors_update [OF env m ok e u keeps_cancel [OF that(1)] set_binding_state_keeps(2)]) (simp add: scan_changed)
  qed
  show ?thesis
    unfolding CancelBinding_pg_def
  proof (rule transaction_refines [OF _ m], cases "lk_lost l 1", goal_cases)
    case 1
    then show ?case by (simp add: sql_def sim_storage)
  next
    case 2
    then have q: "sql l 1 (select_binding env db run) = Inr (Some row)" by (simp add: sql_def s)
    have dis: "b_DispatchID (mb_binding e) = b_DispatchID (scanBinding row)" and state: "b_State (mb_binding e) = b_State (scanBinding row)"
      by (rule same)+
    consider "b_DispatchID (scanBinding row) \<noteq> dispatch"
      | "b_DispatchID (scanBinding row) = dispatch" "b_State (scanBinding row) \<in> {BindingCanceled, BindingExpired, BindingExhausted}"
      | "b_DispatchID (scanBinding row) = dispatch" "b_State (scanBinding row) \<notin> {BindingCanceled, BindingExpired, BindingExhausted}" by blast
    then show ?case
    proof cases
      case 1
      then have "CancelBinding_be b run dispatch reason now = (Inl ErrBindingConflict, b)" by (simp add: CancelBinding_be_def e(1) Let_def dis)
      with 1 show ?thesis unfolding q by (simp add: Let_def sim_rollback)
    next
      case 2
      then have "CancelBinding_be b run dispatch reason now = (Inr (mb_binding e), b)" by (auto simp: CancelBinding_be_def e(1) Let_def dis state)
      moreover have "b_State (scanBinding row) = BindingCanceled \<or> b_State (scanBinding row) = BindingExpired \<or> b_State (scanBinding row) = BindingExhausted" using 2 by simp
      ultimately show ?thesis
        unfolding q using 2(1) st m by (auto simp: Let_def intro!: sim_append)
    next
      case 3
      then have "CancelBinding_be b run dispatch reason now = (Inr ?next, put_binding b run e ?next)" "mb_binding e = scanBinding row"
        using settle_exact [OF st] by (simp_all add: CancelBinding_be_def e(1) Let_def dis state)
      moreover have "b_State (scanBinding row) \<noteq> BindingCanceled" "b_State (scanBinding row) \<noteq> BindingExpired" "b_State (scanBinding row) \<noteq> BindingExhausted" using 3(2) by simp_all
      ultimately show ?thesis
        unfolding q using 3(1) upd by (simp add: Let_def) (intro sim_sql sim_append, simp_all)
    qed
  qed
qed

section \<open>Resolution\<close>

definition resolved :: "cred_error + Binding \<times> time \<times> 'r \<Rightarrow> cred_error + Binding \<times> time \<times> 'r \<Rightarrow> bool" where
  "resolved r r' \<longleftrightarrow> map_sum id (map_prod settle id) r = map_sum id (map_prod settle id) r'"

lemma resolved_simps [simp]:
  "resolved (Inl e) (Inl e') \<longleftrightarrow> e = e'" "resolved (Inr (x, t, v)) (Inr (y, u, w)) \<longleftrightarrow> settle x = settle y \<and> t = u \<and> v = w" "resolved r r"
  by (auto simp: resolved_def)

text \<open>A claim the tables keep exactly, by a closure that does not read when the binding was updated.\<close>

definition claim_ok :: "resolutionClaim \<Rightarrow> (Binding \<Rightarrow> boundRecord \<Rightarrow> cred_error + 'r) \<Rightarrow> bool" where
  "claim_ok claim validate \<longleftrightarrow> validUUID (rcl_runID claim) \<and> validUUID (rcl_attemptID claim) \<and> 1000 dvd rcl_now claim \<and>
     1000 dvd rcl_retryWindow claim \<and> (\<forall>x t v. validate (x\<lparr>b_UpdatedAt := t\<rparr>) v = validate x v)"

lemma validate_settled: "claim_ok claim validate \<Longrightarrow> settle x = settle y \<Longrightarrow> validate x v = validate y v"
proof -
  assume ok: "claim_ok claim validate" and s: "settle x = settle y"
  have t: "validate (z\<lparr>b_UpdatedAt := zero_time\<rparr>) v = validate z v" for z using ok by (simp add: claim_ok_def)
  have "validate (settle z) v = validate z v" for z by (simp add: settle_def t)
  then show "validate x v = validate y v" using s by metis
qed

lemma insert_attempt_exact:
  assumes env: "pg_env_ok env" and i: "insert_attempt env db a run x d t ex = Inr db'" and ok: "validUUID a" "validUUID run" "1000 dvd ex"
  shows "\<exists>row. db' = db\<lparr>pg_attempts := pg_attempts db @ [row]\<rparr> \<and> at_attempt_id row = a \<and> at_run_id row = run \<and> at_executor_identity row = x \<and>
    at_request_digest row = d \<and> at_expires_at row = ex" and "a \<notin> at_attempt_id ` set (pg_attempts db)"
proof -
  have u: "pe_uuid env a = Some a" "pe_uuid env run = Some run" using env ok(1,2) by (simp_all add: pg_env_ok_def)
  have e: "w = ex" if "pe_time env ex = Some w" for w using env that ok(3) unfolding pg_env_ok_def by blast
  show "\<exists>row. db' = db\<lparr>pg_attempts := pg_attempts db @ [row]\<rparr> \<and> at_attempt_id row = a \<and> at_run_id row = run \<and> at_executor_identity row = x \<and>
      at_request_digest row = d \<and> at_expires_at row = ex" "a \<notin> at_attempt_id ` set (pg_attempts db)"
    using i u by (auto simp: insert_attempt_def statement_Inr dest: e)
qed

lemma mirrors_attempted:
  assumes m: "mirrors db b" and new: "at_attempt_id row \<notin> at_attempt_id ` set (pg_attempts db)"
    and db': "db' = db\<lparr>pg_attempts := pg_attempts db @ [row]\<rparr>" and good: "pg_good db'"
  shows "mirrors db' (b\<lparr>attempts := mput (at_attempt_id row) \<lparr>ma_runID = at_run_id row, ma_executorIdentity = at_executor_identity row,
    ma_digest = at_request_digest row, ma_expiresAt = at_expires_at row\<rparr> (attempts b)\<rparr>)"
proof -
  have "find (\<lambda>r. at_attempt_id r = at_attempt_id row) (pg_attempts db) = None" using new by (simp add: find_key_None)
  then have "same_attempts db' (b\<lparr>attempts := mput (at_attempt_id row) \<lparr>ma_runID = at_run_id row, ma_executorIdentity = at_executor_identity row,
      ma_digest = at_request_digest row, ma_expiresAt = at_expires_at row\<rparr> (attempts b)\<rparr>)"
    using m unfolding mirrors_def same_attempts_def db' by (simp add: find_snoc split: option.split)
  then show ?thesis
    using m good by (simp add: mirrors_def same_credentials_def same_versions_def same_idempotency_def same_bindings_def exact_bindings_def find_version_def db')
qed

lemma mirrored_attempt:
  assumes "mirrors db b"
  shows "case (mget (attempts b) a, find (\<lambda>r. at_attempt_id r = a) (pg_attempts db)) of (None, None) \<Rightarrow> True
    | (Some x, Some r) \<Rightarrow> ma_runID x = at_run_id r \<and> ma_executorIdentity x = at_executor_identity r \<and> ma_digest x = at_request_digest r \<and>
        ma_expiresAt x = at_expires_at r
    | _ \<Rightarrow> False"
proof -
  have "map_option (\<lambda>x. (ma_runID x, ma_executorIdentity x, ma_digest x, ma_expiresAt x)) (mget (attempts b) a) =
      map_option (\<lambda>r. (at_run_id r, at_executor_identity r, at_request_digest r, at_expires_at r)) (find (\<lambda>r. at_attempt_id r = a) (pg_attempts db))"
    using assms by (simp add: mirrors_def same_attempts_def)
  then show ?thesis by (auto split: option.split)
qed

text \<open>The entry and the row of the binding a claim is for.\<close>

definition claimed :: "pg_db \<Rightarrow> memoryBackend \<Rightarrow> resolutionClaim \<Rightarrow> memoryBinding \<Rightarrow> binding_row \<Rightarrow> bool" where
  "claimed db b claim e row \<longleftrightarrow> mget (bindings b) (rcl_runID claim) = Some e \<and>
     find (\<lambda>r. row_run r = rcl_runID claim) (pg_bindings db) = Some row \<and> entry_row e row"

lemma claimed_settle: "claimed db b claim e row \<Longrightarrow> settle (mb_binding e) = settle (scanBinding row)"
  by (simp add: claimed_def entry_row_def)

lemma close_simulates:
  assumes env: "pg_env_ok env" and m: "mirrors db b" and ok: "validUUID (rcl_runID claim)" "1000 dvd rcl_now claim"
    and c: "claimed db b claim e row"
    and new: "settle next = settle ((scanBinding row)\<lparr>b_State := s, b_UpdatedAt := rcl_now claim\<rparr>)"
  shows "simulates resolved b (Inl verdict, put_binding b (rcl_runID claim) e next) (close_binding env bk l n db claim x s operation reason verdict)"
proof -
  have "mirrors db1 (put_binding b (rcl_runID claim) e next)"
    if u: "update_binding env db (rcl_runID claim) (rcl_now claim) (set_binding_state s) = Inr db1" for db1
    using c new unfolding claimed_def
    by (intro mirrors_update [OF env m ok _ _ _ u keeps_set_state [OF u] set_binding_state_keeps(1)]) (simp_all add: scan_changed)
  then show ?thesis unfolding close_binding_def by (intro sim_sql sim_append) simp_all
qed

lemma insert_attempt_taken:
  assumes "pg_env_ok env" and "insert_attempt env db a run x d t ex = Inl UniqueViolation" and "validUUID a"
  shows "a \<in> at_attempt_id ` set (pg_attempts db)"
proof -
  have "pe_uuid env a = Some a" using assms(1,3) by (simp add: pg_env_ok_def)
  then show ?thesis
    using assms(2) by (simp add: insert_attempt_def given_def checked_def unique_index_def split: option.splits if_splits)
qed

text \<open>A new attempt: its row and the count of the binding.\<close>

lemma attempt_counted:
  assumes env: "pg_env_ok env" and m: "mirrors db b" and ok: "claim_ok claim validate" and c: "claimed db b claim e row"
    and i: "insert_attempt env db (rcl_attemptID claim) (rcl_runID claim) (rcl_executorIdentity claim) (rcl_digest claim) (rcl_now claim) expiry = Inr db1"
    and u: "checked z (update_binding env db1 (rcl_runID claim) (rcl_now claim)
      (\<lambda>r. (set_binding_state s r)\<lparr>bw_binding := (bw_binding (set_binding_state s r))\<lparr>b_ResolutionCount := k\<rparr>\<rparr>)) = Inr db2"
    and ex: "1000 dvd expiry"
  shows "mirrors db2 (put_binding (b\<lparr>attempts := mput (rcl_attemptID claim) \<lparr>ma_runID = rcl_runID claim, ma_executorIdentity = rcl_executorIdentity claim,
      ma_digest = rcl_digest claim, ma_expiresAt = expiry\<rparr> (attempts b)\<rparr>) (rcl_runID claim) e
    ((scanBinding row)\<lparr>b_ResolutionCount := k, b_State := s, b_UpdatedAt := rcl_now claim\<rparr>))"
proof -
  have ids: "validUUID (rcl_runID claim)" "validUUID (rcl_attemptID claim)" "1000 dvd rcl_now claim" using ok by (simp_all add: claim_ok_def)
  obtain r where r: "db1 = db\<lparr>pg_attempts := pg_attempts db @ [r]\<rparr>" "at_attempt_id r = rcl_attemptID claim" "at_run_id r = rcl_runID claim"
    "at_executor_identity r = rcl_executorIdentity claim" "at_request_digest r = rcl_digest claim" "at_expires_at r = expiry"
    using insert_attempt_exact(1) [OF env i ids(2,1) ex] by blast
  have new: "at_attempt_id r \<notin> at_attempt_id ` set (pg_attempts db)" using insert_attempt_exact(2) [OF env i ids(2,1) ex] r(2) by simp
  have "pg_good db1" using m by (intro current_frame [OF keeps_insert_attempt [OF i]]) (simp_all add: r(1) mirrors_def)
  from mirrors_attempted [OF m new r(1) this]
  have m1: "mirrors db1 (b\<lparr>attempts := mput (rcl_attemptID claim) \<lparr>ma_runID = rcl_runID claim, ma_executorIdentity = rcl_executorIdentity claim,
      ma_digest = rcl_digest claim, ma_expiresAt = expiry\<rparr> (attempts b)\<rparr>)" (is "mirrors db1 ?b1")
    by (simp add: r)
  have e: "mget (bindings ?b1) (rcl_runID claim) = Some e" "find (\<lambda>r. row_run r = rcl_runID claim) (pg_bindings db1) = Some row" "entry_row e row"
    using c by (simp_all add: claimed_def r(1))
  have w: "update_binding env db1 (rcl_runID claim) (rcl_now claim)
      (\<lambda>r. (set_binding_state s r)\<lparr>bw_binding := (bw_binding (set_binding_state s r))\<lparr>b_ResolutionCount := k\<rparr>\<rparr>) = Inr db2"
    using u by (simp add: checked_Inr)
  show ?thesis
    by (intro mirrors_update [OF env m1 ids(1,3) e w keeps_count [OF u] set_binding_state_keeps(3)]) (simp add: scan_changed)
qed

lemma claim_new_simulates:
  assumes env: "pg_env_ok env" and m: "mirrors db b" and ok: "claim_ok claim validate" and c: "claimed db b claim e row"
    and none: "mget (attempts b) (rcl_attemptID claim) = None"
    and open_: "b_ResolutionCount (scanBinding row) < b_MaxResolutions (scanBinding row)" "b_State (scanBinding row) \<noteq> BindingExhausted"
  shows "simulates resolved b (claim_attempt b claim e rendered) (claim_new env bk ctx l db claim (scanBinding row) rendered)"
proof -
  have x: "mb_binding e = scanBinding row" by (rule settle_exact [OF claimed_settle [OF c] open_(2)])
  let ?expiry = "if rcl_now claim + rcl_retryWindow claim > b_ExpiresAt (scanBinding row) then b_ExpiresAt (scanBinding row) else rcl_now claim + rcl_retryWindow claim"
  let ?count = "b_ResolutionCount (scanBinding row) + 1"
  let ?s = "if ?count = b_MaxResolutions (scanBinding row) then BindingExhausted else BindingActive"
  let ?next = "(scanBinding row)\<lparr>b_ResolutionCount := ?count, b_State := ?s, b_UpdatedAt := rcl_now claim\<rparr>"
  let ?b1 = "b\<lparr>attempts := mput (rcl_attemptID claim) \<lparr>ma_runID = rcl_runID claim, ma_executorIdentity = rcl_executorIdentity claim,
      ma_digest = rcl_digest claim, ma_expiresAt = ?expiry\<rparr> (attempts b)\<rparr>"
  have be: "claim_attempt b claim e rendered = (Inr (?next, ?expiry, rendered), put_binding ?b1 (rcl_runID claim) e ?next)"
    using none open_ by (simp add: claim_attempt_def x Let_def not_le)
  have run: "b_RunID (scanBinding row) = rcl_runID claim" using c find_in_set [of _ "pg_bindings db" row] by (auto simp: claimed_def)
  have "1000 dvd b_ExpiresAt (scanBinding row)"
    using c m find_in_set [of _ "pg_bindings db" row] by (auto simp: claimed_def mirrors_def exact_bindings_def list_all_iff scanBinding_def)
  then have ex: "1000 dvd ?expiry" using ok by (simp add: claim_ok_def)
  have "rcl_attemptID claim \<notin> at_attempt_id ` set (pg_attempts db)"
    using mirrored_attempt [OF m, of "rcl_attemptID claim"] none by (simp add: find_key_None split: option.splits)
  then have free: "insert_attempt env db (rcl_attemptID claim) (rcl_runID claim) (rcl_executorIdentity claim) (rcl_digest claim) (rcl_now claim) ?expiry \<noteq> Inl UniqueViolation"
    using insert_attempt_taken [OF env] ok unfolding claim_ok_def by blast
  show ?thesis
  proof (cases "sql l 4 (insert_attempt env db (rcl_attemptID claim) (rcl_runID claim) (rcl_executorIdentity claim) (rcl_digest claim) (rcl_now claim) ?expiry)")
    case (Inl z)
    then have "z \<noteq> UniqueViolation" using free by (auto simp: sql_def split: if_splits)
    then show ?thesis unfolding claim_new_def Let_def Inl by (simp add: isUniqueViolation_def sim_storage)
  next
    case (Inr db1)
    then have i: "insert_attempt env db (rcl_attemptID claim) (rcl_runID claim) (rcl_executorIdentity claim) (rcl_digest claim) (rcl_now claim) ?expiry = Inr db1"
      by (simp add: sql_Inr)
    show ?thesis
      unfolding claim_new_def Let_def Inr sum.case run
      by (intro sim_sql sim_append) (use attempt_counted [OF env m ok c i _ ex] in \<open>simp_all add: be\<close>)
  qed
qed

lemma claim_attempt_simulates:
  assumes env: "pg_env_ok env" and m: "mirrors db b" and ok: "claim_ok claim validate" and c: "claimed db b claim e row"
  shows "simulates resolved b (claim_attempt b claim e rendered) (claim_attempt_pg env bk ctx l db claim (scanBinding row) rendered)"
proof (cases "sql l 3 (select_attempt env db (rcl_attemptID claim))")
  case (Inl x)
  then show ?thesis by (simp add: claim_attempt_pg_def sim_storage)
next
  case (Inr x)
  let ?x = "scanBinding row" and ?y = "mb_binding e"
  have ids: "validUUID (rcl_attemptID claim)" "validUUID (rcl_runID claim)" "1000 dvd rcl_now claim" using ok by (simp_all add: claim_ok_def)
  have "pe_uuid env (rcl_attemptID claim) = Some (rcl_attemptID claim)" using env ids(1) by (simp add: pg_env_ok_def)
  then have f: "find (\<lambda>r. at_attempt_id r = rcl_attemptID claim) (pg_attempts db) = x" using Inr by (simp add: statement_Inr select_attempt_def)
  note a = mirrored_attempt [OF m, of "rcl_attemptID claim", unfolded f]
  note same = settle_same(4,10,11) [OF claimed_settle [OF c]]
  have e: "mget (bindings b) (rcl_runID claim) = Some e" using c by (simp add: claimed_def)
  show ?thesis
  proof (cases x)
    case (Some r)
    then obtain y where "mget (attempts b) (rcl_attemptID claim) = Some y" "ma_runID y = at_run_id r" "ma_executorIdentity y = at_executor_identity r"
      "ma_digest y = at_request_digest r" "ma_expiresAt y = at_expires_at r" using a by (auto split: option.splits)
    then show ?thesis
      unfolding claim_attempt_pg_def Inr Some
      using m claimed_settle [OF c] by (auto simp: claim_attempt_def Let_def intro!: sim_rollback sim_append)
  next
    case None
    then have none: "mget (attempts b) (rcl_attemptID claim) = None" using a by (simp split: option.splits)
    consider (limit) "b_ResolutionCount ?x \<ge> b_MaxResolutions ?x" "b_State ?x \<noteq> BindingExhausted" | (exhausted) "b_State ?x = BindingExhausted"
      | (new) "b_ResolutionCount ?x < b_MaxResolutions ?x" "b_State ?x \<noteq> BindingExhausted" by fastforce
    then show ?thesis
    proof cases
      case limit
      have "claim_attempt b claim e rendered = (Inl ErrBindingExhausted, put_binding b (rcl_runID claim) e (?y\<lparr>b_State := BindingExhausted, b_UpdatedAt := rcl_now claim\<rparr>))"
        using limit none by (simp add: claim_attempt_def Let_def same)
      moreover have "?y = ?x" by (rule settle_exact [OF claimed_settle [OF c] limit(2)])
      ultimately show ?thesis
        unfolding claim_attempt_pg_def Inr None using limit by simp (rule close_simulates [OF env m ids(2,3) c refl])
    next
      case exhausted
      have "claim_attempt b claim e rendered = (Inl ErrBindingExhausted, put_binding b (rcl_runID claim) e (?y\<lparr>b_State := BindingExhausted, b_UpdatedAt := rcl_now claim\<rparr>))"
        using exhausted none by (simp add: claim_attempt_def Let_def same)
      moreover have "settle (?y\<lparr>b_State := BindingExhausted, b_UpdatedAt := rcl_now claim\<rparr>) = settle ?y"
        using exhausted same(1) by (simp add: settle_def)
      ultimately show ?thesis
        unfolding claim_attempt_pg_def Inr None using exhausted mirrors_settled [OF m e] by (simp add: sim_commit)
    next
      case new
      have "\<not> b_ResolutionCount ?x \<ge> b_MaxResolutions ?x" using new(1) by (simp only: not_le)
      with new(2) show ?thesis
        unfolding claim_attempt_pg_def Inr None using claim_new_simulates [OF env m ok c none new] by simp
    qed
  qed
qed

lemma bound_version_mirrored:
  assumes env: "pg_env_ok env" and m: "mirrors db b" and v: "postgresBoundVersion env l n db x = Inr v" and s: "settle y = settle x"
    and i: "validUUID (b_CredentialID x)"
  shows "boundVersion b y = Inr v"
proof -
  have u: "pe_uuid env (b_CredentialID x) = Some (b_CredentialID x)" using env i by (simp add: pg_env_ok_def)
  from v obtain md row r where sel: "select_version env db (b_CredentialID x) (b_CredentialVersion x) (b_OrganizationID x) = Inr (Some (md, row))"
    and r: "unmarshal_envelope (vr_envelope row) = Some r"
    and vv: "v = \<lparr>bd_record = r, bd_credentialType = md_CredentialType md, bd_schemaVersion = md_SchemaVersion md\<rparr>"
    by (auto simp: postgresBoundVersion_def sql_def split: sum.splits option.splits if_splits)
  from sel u have f: "find (\<lambda>c. md_ID c = b_CredentialID x \<and> md_OrganizationID c = b_OrganizationID x) (pg_credentials db) = Some md"
    and fv: "find_version db (md_ID md) (b_CredentialVersion x) = Some row"
    by (auto simp: select_version_def select_credential_def given_def checked_def split: option.splits if_splits sum.splits)
  obtain c where c: "mget (credentials b) (b_CredentialID x) = Some c" "mc_metadata c = md"
    using f unfolding mirrored_credential [OF m] by (auto split: option.splits if_splits)
  have "mget (mc_records c) (b_CredentialVersion x) = Some r"
    using mirrored_version [OF m c(1), of "b_CredentialVersion x"] fv find_in_set [OF f] r by auto
  then show ?thesis using c vv by (simp add: boundVersion_def settle_same [OF s])
qed

text \<open>The checks of a claim, on a binding that was found.\<close>

lemma claim_checks:
  assumes env: "pg_env_ok env" and m: "mirrors db b" and ok: "claim_ok claim validate" and c: "claimed db b claim e row"
  shows "simulates resolved b (ClaimResolution_be b claim validate)
    (let binding = scanBinding row; now = rcl_now claim in
     if b_ExecutorIdentity binding \<noteq> rcl_executorIdentity claim then Rollback (Inl ErrUnauthorized)
     else if b_State binding = BindingCanceled then Rollback (Inl ErrBindingNotActive)
     else if b_State binding = BindingExpired then Rollback (Inl ErrBindingExpired)
     else if \<not> now < b_ExpiresAt binding then
       if b_State binding \<noteq> BindingExpired \<and> b_State binding \<noteq> BindingExhausted
       then close_binding env bk l 2 db claim binding BindingExpired OperationRunBindingExpired ''binding_expired'' ErrBindingExpired
       else Commit (Inl ErrBindingExpired) db
     else if now < b_NotBefore binding then Rollback (Inl ErrBindingNotActive)
     else (case postgresBoundVersion env l 2 db binding of Inl e \<Rightarrow> Rollback (Inl e)
           | Inr version \<Rightarrow>
               (case validate binding version of Inl e \<Rightarrow> Rollback (Inl e)
                | Inr rendered \<Rightarrow> claim_attempt_pg env bk ctx l db claim binding rendered)))"
    (is "simulates resolved b ?be ?pg")
proof -
  let ?x = "scanBinding row" and ?y = "mb_binding e"
  note st = claimed_settle [OF c]
  note same = settle_same [OF st]
  have ids: "validUUID (rcl_runID claim)" "1000 dvd rcl_now claim" using ok by (simp_all add: claim_ok_def)
  have e: "mget (bindings b) (rcl_runID claim) = Some e" using c by (simp add: claimed_def)
  consider (refused) "b_ExecutorIdentity ?x \<noteq> rcl_executorIdentity claim \<or> b_State ?x = BindingCanceled \<or> b_State ?x = BindingExpired"
    | (late) "b_ExecutorIdentity ?x = rcl_executorIdentity claim" "b_State ?x \<noteq> BindingCanceled" "b_State ?x \<noteq> BindingExpired" "\<not> rcl_now claim < b_ExpiresAt ?x"
    | (live) "b_ExecutorIdentity ?x = rcl_executorIdentity claim" "b_State ?x \<noteq> BindingCanceled" "b_State ?x \<noteq> BindingExpired" "rcl_now claim < b_ExpiresAt ?x"
    by blast
  then show ?thesis
  proof cases
    case refused
    then show ?thesis by (auto simp: ClaimResolution_be_def e Let_def same intro!: sim_rollback)
  next
    case late
    show ?thesis
    proof (cases "b_State ?x = BindingExhausted")
      case True
      with late m show ?thesis by (simp add: ClaimResolution_be_def e Let_def same sim_commit)
    next
      case False
      have eq: "?y = ?x" by (rule settle_exact [OF st False])
      have "?be = (Inl ErrBindingExpired, put_binding b (rcl_runID claim) e (?x\<lparr>b_State := BindingExpired, b_UpdatedAt := rcl_now claim\<rparr>))"
        using late False by (simp add: ClaimResolution_be_def e Let_def eq)
      then show ?thesis using late False by (simp add: Let_def) (rule close_simulates [OF env m ids c refl])
    qed
  next
    case live
    have cred: "validUUID (b_CredentialID ?x)"
      using c m find_in_set [of _ "pg_bindings db" row] by (auto simp: claimed_def mirrors_def exact_bindings_def list_all_iff scanBinding_def)
    have failed: "z = ErrResolution" if "postgresBoundVersion env l 2 db ?x = Inl z" for z
      using that by (auto simp: postgresBoundVersion_def split: sum.splits option.splits)
    have "simulates resolved b ?be (case postgresBoundVersion env l 2 db ?x of Inl e \<Rightarrow> Rollback (Inl e)
        | Inr version \<Rightarrow> (case validate ?x version of Inl e \<Rightarrow> Rollback (Inl e)
          | Inr rendered \<Rightarrow> claim_attempt_pg env bk ctx l db claim ?x rendered))" if "\<not> rcl_now claim < b_NotBefore ?x"
    proof (cases "postgresBoundVersion env l 2 db ?x")
      case (Inl z)
      then show ?thesis using failed by (simp add: simulates_def unavailable_def)
    next
      case (Inr v)
      have v: "boundVersion b ?y = Inr v" "validate ?y v = validate ?x v"
        using bound_version_mirrored [OF env m Inr st cred] validate_settled [OF ok st] by simp_all
      show ?thesis
        using live that Inr v claim_attempt_simulates [OF env m ok c]
        by (auto simp: ClaimResolution_be_def e Let_def same sim_rollback split: sum.split)
    qed
    then show ?thesis using live by (auto simp: Let_def ClaimResolution_be_def e same intro!: sim_rollback)
  qed
qed

lemma ClaimResolution_refines:
  assumes env: "pg_env_ok env" and m: "mirrors db b" and ok: "claim_ok claim validate"
  shows "refines resolved b (ClaimResolution_be b claim validate) (ClaimResolution_pg env bk ctx l db claim validate)"
proof -
  have ids: "validUUID (rcl_runID claim)" "1000 dvd rcl_now claim" using ok by (simp_all add: claim_ok_def)
  show ?thesis
    using select_binding_mirrored [OF env m ids(1)]
  proof (elim disjE exE conjE)
    assume "select_binding env db (rcl_runID claim) = Inr None" "mget (bindings b) (rcl_runID claim) = None"
    then show ?thesis
      unfolding ClaimResolution_pg_def
      by (intro transaction_refines [OF _ m]) (simp add: sql_def sim_storage ClaimResolution_be_def sim_rollback)
  next
    fix row e
    assume s: "select_binding env db (rcl_runID claim) = Inr (Some row)"
      and e: "mget (bindings b) (rcl_runID claim) = Some e" "find (\<lambda>r. row_run r = rcl_runID claim) (pg_bindings db) = Some row" "entry_row e row"
    have c: "claimed db b claim e row" using e by (simp add: claimed_def)
    show ?thesis
      unfolding ClaimResolution_pg_def
    proof (rule transaction_refines [OF _ m], cases "lk_lost l 1", goal_cases)
      case 1
      then show ?case by (simp add: sql_def sim_storage)
    next
      case 2
      then have q: "sql l 1 (select_binding env db (rcl_runID claim)) = Inr (Some row)" by (simp add: sql_def s)
      show ?case unfolding q using claim_checks [OF env m ok c] by (simp add: Let_def ClaimResolution_be_def e(1))
    qed
  qed
qed

end
