(* ===== verification/Postgres_Simulation.thy ===== *)
theory Postgres_Simulation
  imports Postgres_Bindings
begin

text \<open>
  Runs of the two backends: the interface they share as a type of operations and answers, the
  in-memory backend behind a connection that may fail as the abstract system, and the simulation
  of every run of the PostgreSQL backend by it.
\<close>

section \<open>The interface\<close>

text \<open>The methods of the interface that deal with credentials, bindings and resolution, and their answers.\<close>

datatype 'r store_op =
    StCreate string bytes Metadata Record
  | StGet string string
  | StUpdate string string "64 word" Metadata Record string
  | StRegisterBinding bindingRegistration
  | StGetBinding string
  | StCancelBinding string string string time
  | StClaimResolution resolutionClaim "Binding \<Rightarrow> boundRecord \<Rightarrow> cred_error + 'r"

datatype 'r store_answer =
    AnsMetadata "cred_error + Metadata"
  | AnsRecord "cred_error + Metadata \<times> Record"
  | AnsRegistration "cred_error + Binding"
  | AnsBinding "cred_error + Binding"
  | AnsResolution "cred_error + Binding \<times> time \<times> 'r"

type_synonym 'r store_call = "call_context \<times> pg_link \<times> 'r store_op"

abbreviation op_of_call :: "'r store_call \<Rightarrow> 'r store_op" where
  "op_of_call call \<equiv> snd (snd call)"

fun serve_pg :: "pg_env \<Rightarrow> postgresBackend \<Rightarrow> pg_db \<Rightarrow> 'r store_call \<Rightarrow> 'r store_answer \<times> pg_db" where
  "serve_pg env bk db (ctx, l, StCreate i d m r) = apfst AnsMetadata (Create_pg env bk ctx l db i d m r)"
| "serve_pg env bk db (ctx, l, StGet p i) = (AnsRecord (Get_pg env l db p i), db)"
| "serve_pg env bk db (ctx, l, StUpdate p i v m r operation) = apfst AnsMetadata (Update_pg env bk ctx l db p i v m r operation)"
| "serve_pg env bk db (ctx, l, StRegisterBinding reg) = apfst AnsRegistration (RegisterBinding_pg env bk ctx l db reg)"
| "serve_pg env bk db (ctx, l, StGetBinding run) = (AnsBinding (GetBinding_pg env l db run), db)"
| "serve_pg env bk db (ctx, l, StCancelBinding run dispatch reason now) =
     apfst AnsBinding (CancelBinding_pg env bk ctx l db run dispatch reason now)"
| "serve_pg env bk db (ctx, l, StClaimResolution claim validate) = apfst AnsResolution (ClaimResolution_pg env bk ctx l db claim validate)"

fun serve_memory :: "memoryBackend \<Rightarrow> 'r store_op \<Rightarrow> 'r store_answer \<times> memoryBackend" where
  "serve_memory b (StCreate i d m r) = apfst AnsMetadata (Create_be b i d m r)"
| "serve_memory b (StGet p i) = (AnsRecord (Get_be b p i), b)"
| "serve_memory b (StUpdate p i v m r operation) = apfst AnsMetadata (Update_be b p i v m r)"
| "serve_memory b (StRegisterBinding reg) = apfst AnsRegistration (RegisterBinding_be b reg)"
| "serve_memory b (StGetBinding run) = (AnsBinding (GetBinding_be b run), b)"
| "serve_memory b (StCancelBinding run dispatch reason now) = apfst AnsBinding (CancelBinding_be b run dispatch reason now)"
| "serve_memory b (StClaimResolution claim validate) = apfst AnsResolution (ClaimResolution_be b claim validate)"

text \<open>An answer beside that of the in-memory backend, and the answers that only report a failure.\<close>

fun agrees :: "'r store_answer \<Rightarrow> 'r store_answer \<Rightarrow> bool" where
  "agrees (AnsMetadata r) (AnsMetadata r') \<longleftrightarrow> r = r'"
| "agrees (AnsRecord r) (AnsRecord r') \<longleftrightarrow> r = r'"
| "agrees (AnsRegistration r) (AnsRegistration r') \<longleftrightarrow> registered r r'"
| "agrees (AnsBinding r) (AnsBinding r') \<longleftrightarrow> settled r r'"
| "agrees (AnsResolution r) (AnsResolution r') \<longleftrightarrow> resolved r r'"
| "agrees _ _ \<longleftrightarrow> False"

fun fails :: "'r store_answer \<Rightarrow> bool" where
  "fails (AnsMetadata r) \<longleftrightarrow> unavailable r"
| "fails (AnsRecord r) \<longleftrightarrow> unavailable r"
| "fails (AnsRegistration r) \<longleftrightarrow> unavailable r"
| "fails (AnsBinding r) \<longleftrightarrow> unavailable r"
| "fails (AnsResolution r) \<longleftrightarrow> unavailable r"

text \<open>The abstract system: the in-memory backend behind a connection that may fail, before or after the call took effect.\<close>

inductive memory_step :: "memoryBackend \<Rightarrow> 'r store_op \<Rightarrow> 'r store_answer \<Rightarrow> memoryBackend \<Rightarrow> bool" where
  served: "serve_memory b x = (a', b') \<Longrightarrow> agrees a a' \<Longrightarrow> memory_step b x a b'"
| not_done: "fails a \<Longrightarrow> memory_step b x a b"
| not_acknowledged: "serve_memory b x = (a', b') \<Longrightarrow> fails a \<Longrightarrow> memory_step b x a b'"

text \<open>
  What the manager passes: identifiers are lower-case UUIDs, times are whole microseconds, an
  update keeps the identity of its credential, texts of a record are UTF-8.
\<close>

fun call_ok :: "pg_db \<Rightarrow> 'r store_op \<Rightarrow> bool" where
  "call_ok db (StCreate i d m r) \<longleftrightarrow> splitIdempotencyID i \<noteq> None \<and> validUUID (md_ID m) \<and> 1000 dvd md_CreatedAt m \<and> 1000 dvd md_UpdatedAt m \<and> envelope_utf8 r"
| "call_ok db (StGet p i) \<longleftrightarrow> validUUID i"
| "call_ok db (StUpdate p i v m r operation) \<longleftrightarrow> validUUID i \<and> 1000 dvd md_UpdatedAt m \<and> envelope_utf8 r \<and>
     (\<forall>c \<in> set (pg_credentials db). md_ID c = i \<and> md_OrganizationID c = p \<and> md_Version c = v \<longrightarrow> same_identity c m)"
| "call_ok db (StRegisterBinding reg) \<longleftrightarrow> register_ok db reg"
| "call_ok db (StGetBinding run) \<longleftrightarrow> validUUID run"
| "call_ok db (StCancelBinding run dispatch reason now) \<longleftrightarrow> validUUID run \<and> 1000 dvd now"
| "call_ok db (StClaimResolution claim validate) \<longleftrightarrow> claim_ok claim validate"

lemma refined_step:
  assumes "refines agree b x y" and "serve_memory b op = apfst f x" and "\<And>r r'. agree r r' \<Longrightarrow> agrees (f r) (f r')" and "\<And>r. unavailable r \<Longrightarrow> fails (f r)"
  shows "\<exists>b'. memory_step b op (fst (apfst f y)) b' \<and> mirrors (snd (apfst f y)) b'"
proof -
  from assms(1) obtain b' where m: "mirrors (snd y) b'"
    and c: "agree (fst y) (fst x) \<and> b' = snd x \<or> unavailable (fst y) \<and> (b' = b \<or> b' = snd x)" by (auto simp: refines_def)
  have s: "serve_memory b op = (f (fst x), snd x)" using assms(2) by (simp add: apfst_def map_prod_def split_beta)
  have "memory_step b op (f (fst y)) b'"
    using c assms(3,4) s by (auto intro: memory_step.intros)
  with m show ?thesis by auto
qed

lemma read_step:
  assumes "mirrors db b" and "serve_memory b op = (f x, b)" and "y = Inl ErrStorage \<or> agree y x"
    and "\<And>r r'. agree r r' \<Longrightarrow> agrees (f r) (f r')" and "\<And>r. unavailable r \<Longrightarrow> fails (f r)"
  shows "\<exists>b'. memory_step b op (f y) b' \<and> mirrors db b'"
proof -
  have "y = Inl ErrStorage \<Longrightarrow> fails (f y)" using assms(5) [of y] by (simp add: unavailable_def)
  then show ?thesis using assms(1-4) by (auto intro: memory_step.intros)
qed

interpretation postgres_memory: simulation "serve_pg env bk" "\<lambda>db call. pg_env_ok env \<and> call_ok db (op_of_call call)" op_of_call memory_step mirrors
proof
  fix db b and call :: "'r store_call"
  assume m: "mirrors db b" and "pg_env_ok env \<and> call_ok db (op_of_call call)"
  moreover obtain ctx l op where call: "call = (ctx, l, op)" by (cases call)
  ultimately have env: "pg_env_ok env" and ok: "call_ok db op" by simp_all
  show "\<exists>b'. memory_step b (op_of_call call) (fst (serve_pg env bk db call)) b' \<and> mirrors (snd (serve_pg env bk db call)) b'"
  proof (cases op)
    case (StCreate i d m' r)
    with ok show ?thesis by (simp add: call del: fst_apfst snd_apfst) (rule refined_step [OF Create_refines [OF env m]], simp_all)
  next
    case (StGet p i)
    with ok show ?thesis by (simp add: call) (rule read_step [where agree = "(=)", OF m _ Get_refines [OF env m]], simp_all)
  next
    case (StUpdate p i v m' r operation)
    with ok show ?thesis by (simp add: call del: fst_apfst snd_apfst) (rule refined_step [OF Update_refines [OF env m]], simp_all)
  next
    case (StRegisterBinding reg)
    with ok show ?thesis by (simp add: call del: fst_apfst snd_apfst) (rule refined_step [OF RegisterBinding_refines [OF env m]], simp_all)
  next
    case (StGetBinding run)
    with ok show ?thesis by (simp add: call) (rule read_step [where agree = settled, OF m _ GetBinding_refines [OF env m]], simp_all)
  next
    case (StCancelBinding run dispatch reason now)
    with ok show ?thesis by (simp add: call del: fst_apfst snd_apfst) (rule refined_step [OF CancelBinding_refines [OF env m]], simp_all)
  next
    case (StClaimResolution claim validate)
    with ok show ?thesis by (simp add: call del: fst_apfst snd_apfst) (rule refined_step [OF ClaimResolution_refines [OF env m]], simp_all)
  qed
qed


section \<open>A run\<close>

definition ex_pg_env :: pg_env where
  "ex_pg_env = \<lparr>pe_text = (\<lambda>s. valid_utf8 s \<and> nul \<notin> set s), pe_uuid = (\<lambda>s. if validUUID s then Some s else None), pe_time = Some,
     pe_zone = utc, pe_audit = ex_audit_env\<rparr>"

lemma ex_pg_env_ok: "pg_env_ok ex_pg_env"
  by (simp add: pg_env_ok_def ex_pg_env_def ex_audit_env_def)

definition ex_pg_id :: string where
  "ex_pg_id = ''0a1b2c3d-0a1b-4c3d-8e4f-0a1b2c3d4e5f''"

definition ex_pg_metadata :: Metadata where
  "ex_pg_metadata = \<lparr>md_ID = ex_pg_id, md_OrganizationID = ''org'', md_Name = ''db'', md_CredentialType = ''database'', md_SchemaVersion = 1,
     md_Version = 1, md_State = StateActive, md_SecretFields = [''password''], md_CreatedAt = 1000, md_UpdatedAt = 1000\<rparr>"

definition ex_store_calls :: "unit store_call list" where
  "ex_store_calls =
     [(None, healthy, StCreate (''org'' @ nul # ''key'') [1] ex_pg_metadata zero_record),
      (None, healthy\<lparr>lk_commit := Unacknowledged\<rparr>, StCreate (''org'' @ nul # ''other'') [2] ex_pg_metadata zero_record),
      (None, healthy, StGet ''org'' ex_pg_id),
      (None, healthy, StCancelBinding ex_pg_id ex_pg_id ''done'' 2000)]"

lemma ex_pg_id_valid: "validUUID ex_pg_id"
  by code_simp

lemma ex_store_ok: "run_ok (\<lambda>db call. snd (serve_pg env bk db call)) (\<lambda>db call. call_ok db (op_of_call call)) db ex_store_calls"
  by (simp add: ex_store_calls_def ex_pg_metadata_def ex_pg_id_valid splitIdempotencyID_def Let_def envelope_utf8_def zero_record_def nul_def char_of_def)


end
