(* ===== verification/Postgres_Rotation.thy ===== *)
theory Postgres_Rotation
  imports Postgres_Simulation
begin

text \<open>
  Master key rotation in batches by the PostgreSQL backend: what a batch does to the versions
  under the retired key, and how often an operator who repeats it is told that the rotation is
  still running.
\<close>

section \<open>References through a batch\<close>

text \<open>The references to a key, and the names of the rotations with their source keys, through every statement.\<close>

lemma versions_through:
  "appendAudit env b l n db e = Inr db' \<Longrightarrow> pg_versions db' = pg_versions db"
  "appendCompletion env b ctx l n db e = Inr db' \<Longrightarrow> pg_versions db' = pg_versions db"
  "appendSuccessfulTransition env b ctx l n db e = Inr db' \<Longrightarrow> pg_versions db' = pg_versions db"
  "update_rotation env db i st p t z = Inr db' \<Longrightarrow> pg_versions db' = pg_versions db"
  by (auto dest!: appendAudit_tables appendCompletion_tables appendSuccessfulTransition_tables simp: same_tables_def)
    (auto simp: update_rotation_def statement_Inr Let_def)

abbreviation rotation_keys :: "pg_db \<Rightarrow> (string \<times> string) list" where
  "rotation_keys db \<equiv> map (\<lambda>r. (ro_ID (rw_rotation r), ro_SourceKeyID (rw_rotation r))) (pg_rotations db)"

lemma rotations_through:
  "appendAudit env b l n db e = Inr db' \<Longrightarrow> rotation_keys db' = rotation_keys db"
  "appendSuccessfulTransition env b ctx l n db e = Inr db' \<Longrightarrow> rotation_keys db' = rotation_keys db"
  "update_version env db t k j v src = Inr (n', db') \<Longrightarrow> rotation_keys db' = rotation_keys db"
  "update_rotation env db i st p tm z = Inr db' \<Longrightarrow> rotation_keys db' = rotation_keys db"
  by (auto dest!: appendAudit_tables appendSuccessfulTransition_tables simp: same_tables_def)
    (auto simp: update_version_def update_rotation_def statement_Inr Let_def)

lemma update_version_reference:
  assumes u: "update_version env db t k i v (Some source) = Inr (1, db')" and k: "k \<noteq> source"
  shows "Suc (length (references db' source)) = length (references db source)"
proof -
  from u obtain j envelope where n: "length (filter (\<lambda>r. vr_credential_id r = j \<and> vr_version r = v \<and> vr_master_key_id r = source) (pg_versions db)) = 1"
    and db': "db' = db\<lparr>pg_versions := map (\<lambda>r. if vr_credential_id r = j \<and> vr_version r = v \<and> vr_master_key_id r = source
        then r\<lparr>vr_envelope := envelope, vr_master_key_id := k\<rparr> else r) (pg_versions db)\<rparr>"
    by (auto simp: update_version_def statement_Inr Let_def)
  have "length (filter (\<lambda>r. vr_master_key_id r = source) (map (\<lambda>r. if vr_credential_id r = j \<and> vr_version r = v \<and> vr_master_key_id r = source
        then r\<lparr>vr_envelope := envelope, vr_master_key_id := k\<rparr> else r) rs)) +
      length (filter (\<lambda>r. vr_credential_id r = j \<and> vr_version r = v \<and> vr_master_key_id r = source) rs) =
      length (filter (\<lambda>r. vr_master_key_id r = source) rs)" for rs
    using k by (induction rs) auto
  from this [of "pg_versions db"] n show ?thesis by (simp add: references_def db')
qed

text \<open>The transformation of a rotation seals with another key than the one it retires.\<close>

definition leaves_key :: "string \<Rightarrow> 's transform \<Rightarrow> bool" where
  "leaves_key source transform \<longleftrightarrow> (\<forall>x s r s'. transform x s = (Inr r, s') \<longrightarrow> rec_MasterKeyID r \<noteq> source)"

lemma rotate_records_references:
  "rotate_records env b ctx l n x t transform rs db s = (Inr db', s') \<Longrightarrow> leaves_key (ro_SourceKeyID x) transform \<Longrightarrow>
   length (references db' (ro_SourceKeyID x)) + length rs = length (references db (ro_SourceKeyID x)) \<and> rotation_keys db' = rotation_keys db"
proof (induction rs arbitrary: n db s)
  case (Cons r rs)
  from Cons.prems(1) obtain rotated s1 db1 db2 e where
      tr: "transform r s = (Inr rotated, s1)"
    and u: "update_version env db (marshal_envelope rotated) (rec_MasterKeyID rotated) (md_ID (rr_metadata r)) (rr_version r) (Some (ro_SourceKeyID x)) = Inr (1, db1)"
    and a: "appendAudit env b l (Suc n) db1 e = Inr db2"
    and rest: "rotate_records env b ctx l (n + 2) x t transform rs db2 s1 = (Inr db', s')"
    by (auto simp: Let_def sql_def split: prod.splits sum.splits if_splits)
  have "rec_MasterKeyID rotated \<noteq> ro_SourceKeyID x" using Cons.prems(2) tr by (auto simp: leaves_key_def)
  from update_version_reference [OF u this] Cons.IH [OF rest Cons.prems(2)] versions_through(1) [OF a] rotations_through(1) [OF a] rotations_through(3) [OF u]
  show ?case by (simp add: references_def)
qed simp

lemma references_selected:
  assumes g: "pg_good db" and r: "references db key \<noteq> []" and limit: "1 \<le> limit" and s: "select_versions db (references db key) limit = Inr rows"
  shows "rows \<noteq> []"
proof -
  obtain r rs where v: "versions_by_id (references db key) = r # rs"
    using r by (cases "versions_by_id (references db key)") (auto simp: versions_by_id_def dest: arg_cong [of _ _ length])
  have "set (versions_by_id (references db key)) = set (references db key)" by (simp add: versions_by_id_def)
  then have "r \<in> set (pg_versions db)" by (metis filter_is_subset in_mono list.set_intros(1) references_def v)
  then have "vr_credential_id r \<in> md_ID ` set (pg_credentials db)" using g by (auto simp: pg_good_def pg_inv_def versions_ok_def)
  then have "filter (\<lambda>c. md_ID c = vr_credential_id r) (pg_credentials db) \<noteq> []" by (auto simp: filter_empty_conv)
  then have "join_credentials db (r # rs) \<noteq> []" by (simp add: join_credentials_def)
  then show ?thesis using s limit v by (auto simp: select_versions_def statement_Inr)
qed

lemma scanRecords_length: "scanRecords rows = Some rs \<Longrightarrow> length rs = length rows"
  by (induction rows arbitrary: rs) (auto split: option.splits)

text \<open>The end of a batch says whether references are left.\<close>

lemma end_batch_rollback: "end_batch env b ctx l n x processed t db = Rollback r \<Longrightarrow> \<exists>e. r = Inl e"
  by (auto simp: end_batch_def Let_def split: sum.splits)

lemma end_batch_commit:
  assumes "end_batch env b ctx l n x processed t db = Commit r db'"
  shows "pg_versions db' = pg_versions db \<and> rotation_keys db' = rotation_keys db \<and>
    (\<exists>reached. r = Inr reached \<and> ro_State reached = (if references db (ro_SourceKeyID x) = [] then RotationReady else RotationRunning))"
proof -
  from assms obtain reached db1 where r: "r = Inr reached"
    and st: "ro_State reached = (if references db (ro_SourceKeyID x) = [] then RotationReady else RotationRunning)"
    and u: "update_rotation env db (ro_ID x) (ro_State reached) (Some (ro_ProcessedRecords reached)) t None = Inr db1"
    and a: "appendSuccessfulTransition env b ctx l (n + 2) db1 (rotationAudit OperationMasterKeyRotationResumed reached t) = Inr db'"
    by (auto simp: end_batch_def count_references_def sql_def checked_def Let_def split: sum.splits if_splits)
  then show ?thesis
    using versions_through(3) [OF a] versions_through(4) [OF u] rotations_through(2) [OF a] rotations_through(4) [OF u] by simp
qed

section \<open>Batches\<close>

text \<open>A batch the operator asks for: request, connection, size, time and the entropy the transformation draws from.\<close>

type_synonym 's batch = "call_context \<times> pg_link \<times> int \<times> time \<times> 's"

definition rotate_step ::
  "pg_env \<Rightarrow> postgresBackend \<Rightarrow> string \<Rightarrow> 's transform \<Rightarrow> pg_db \<Rightarrow> 's batch \<Rightarrow> (cred_error + Rotation) \<times> pg_db" where
  "rotate_step env b i transform db batch =
     (case batch of (ctx, l, limit, now, s) \<Rightarrow> fst (RotateBatch_pg env b ctx l (\<lambda>_. False) db i limit now transform s))"

definition batch_ok :: "'s batch \<Rightarrow> bool" where
  "batch_ok batch \<longleftrightarrow> (case batch of (_, _, limit, _, _) \<Rightarrow> 1 \<le> limit)"

definition still_running :: "cred_error + Rotation \<Rightarrow> bool" where
  "still_running r \<longleftrightarrow> (case r of Inl _ \<Rightarrow> False | Inr x \<Rightarrow> ro_State x = RotationRunning)"

text \<open>Good tables in which the rotations of this id retire the key, and a transformation that leaves it.\<close>

definition rotating :: "pg_env \<Rightarrow> string \<Rightarrow> string \<Rightarrow> 's transform \<Rightarrow> pg_db \<Rightarrow> bool" where
  "rotating env i key transform db \<longleftrightarrow> pg_good db \<and> leaves_key key transform \<and>
     list_all (\<lambda>(j, source). pe_uuid env i = Some j \<longrightarrow> source = key) (rotation_keys db)"

lemma rotate_batch_cases:
  assumes r: "rotating env i key transform db" and limit: "1 \<le> limit"
    and st: "fst (RotateBatch_pg env b ctx l (\<lambda>_. False) db i limit now transform s) = (answer, db')"
  shows "(db' = db \<and> \<not> still_running answer) \<or>
    (rotation_keys db' = rotation_keys db \<and> length (references db' key) \<le> length (references db key) \<and>
     (still_running answer \<longrightarrow> length (references db' key) < length (references db key)))"
proof (cases "db' = db \<and> \<not> still_running answer")
  case False
  have running: "\<not> still_running (Inl e)" "still_running (Inr x) \<longleftrightarrow> ro_State x = RotationRunning" for e x by (simp_all add: still_running_def)
  from False st obtain row rows records db1 s' where
      row: "select_rotation env db i = Inr (Some row)"
    and rows: "select_versions db (references db (ro_SourceKeyID (scanRotation row))) limit = Inr rows" "scanRecords rows = Some records"
    and rec: "rotate_records env b ctx l 3 (scanRotation row) now transform records db s = (Inr db1, s')"
    and fin: "finish l db (end_batch env b ctx l (3 + 2 * length records) (scanRotation row) (int (length records)) now db1) = (answer, db')"
    by (auto simp: RotateBatch_pg_def sql_def checked_def Let_def running split: sum.splits option.splits prod.splits if_splits)
  obtain j where "pe_uuid env i = Some j" "find (\<lambda>r. ro_ID (rw_rotation r) = j) (pg_rotations db) = Some row"
    using row by (auto simp: select_rotation_def statement_Inr)
  then have key: "ro_SourceKeyID (scanRotation row) = key"
    using r find_in_set [of _ "pg_rotations db" row] by (auto simp: rotating_def list_all_iff scanRotation_def)
  have refs: "length (references db1 key) + length records = length (references db key)" "rotation_keys db1 = rotation_keys db"
    using rotate_records_references [OF rec] r key by (simp_all add: rotating_def)
  obtain reached db2 where c: "end_batch env b ctx l (3 + 2 * length records) (scanRotation row) (int (length records)) now db1 = Commit (Inr reached) db2"
    and state: "ro_State reached = (if references db1 key = [] then RotationReady else RotationRunning)"
    and same: "references db' key = references db1 key" "rotation_keys db' = rotation_keys db1" and ans: "still_running answer \<longrightarrow> answer = Inr reached"
    using fin False end_batch_commit [of env b ctx l "3 + 2 * length records" "scanRotation row" "int (length records)" now db1]
      end_batch_rollback [of env b ctx l "3 + 2 * length records" "scanRotation row" "int (length records)" now db1]
    by (auto simp: finish_def running key references_def split: tx_end.splits commit_outcome.splits)
  have "records \<noteq> []" if "still_running answer"
  proof -
    have "references db1 key \<noteq> []" using that ans state by (auto simp: running split: if_splits)
    then have "references db key \<noteq> []" using refs(1) by auto
    then have "rows \<noteq> []" using references_selected [of db key limit rows] r rows(1) limit key by (simp add: rotating_def)
    then show ?thesis using scanRecords_length [OF rows(2)] by auto
  qed
  then have "length (references db' key) < length (references db key)" if "still_running answer"
    using that refs(1) same(1) by (cases records) auto
  moreover have "length (references db' key) \<le> length (references db key)" "rotation_keys db' = rotation_keys db" using refs same by simp_all
  ultimately show ?thesis by blast
qed simp

interpretation rotation_progress: progress "rotate_step env b i transform" batch_ok "rotating env i key transform" "\<lambda>db. length (references db key)" still_running
proof
  fix db and batch :: "'a batch"
  assume r: "rotating env i key transform db" and ok: "batch_ok batch"
  obtain ctx l limit now s where batch: "batch = (ctx, l, limit, now, s)" by (cases batch)
  obtain answer db' where st: "fst (RotateBatch_pg env b ctx l (\<lambda>_. False) db i limit now transform s) = (answer, db')" by fastforce
  have step: "rotate_step env b i transform db batch = (answer, db')" using st by (simp add: rotate_step_def batch)
  have "1 \<le> limit" using ok by (simp add: batch_ok_def batch)
  note c = rotate_batch_cases [OF r this st]
  have "pg_good db'"
  proof -
    have k: "keeps db db'" using keeps_RotateBatch [of db env b ctx l "\<lambda>_. False" i limit now transform s] st by (simp add: leaves_def)
    have "credentials_of db db'" using credentials_RotateBatch [of db env b ctx l "\<lambda>_. False" i limit now transform s] st by (simp add: leaves_def)
    moreover have "pg_good db" using r by (simp add: rotating_def)
    ultimately show ?thesis by (rule current_frame [OF k])
  qed
  then show "rotating env i key transform (snd (rotate_step env b i transform db batch))"
    using r c unfolding step by (auto simp: rotating_def)
  show "length (references (snd (rotate_step env b i transform db batch)) key) \<le> length (references db key)" using c unfolding step by auto
  show "still_running (fst (rotate_step env b i transform db batch)) \<Longrightarrow>
      length (references (snd (rotate_step env b i transform db batch)) key) < length (references db key)" using c unfolding step by auto
qed


section \<open>A rotation\<close>

definition ex_rotation_id :: string where
  "ex_rotation_id = ''1b2c3d4e-1b2c-4d4e-8f5a-1b2c3d4e5f6a''"

definition ex_rotating :: pg_db where
  "ex_rotating = migrated_tables\<lparr>
     pg_credentials := [ex_pg_metadata],
     pg_versions := [\<lparr>vr_credential_id = ex_pg_id, vr_version = 1, vr_envelope = ''{}'', vr_master_key_id = ''k1'', vr_created_at = 1000\<rparr>],
     pg_rotations := [\<lparr>rw_rotation = \<lparr>ro_ID = ex_rotation_id, ro_SourceKeyID = ''k1'', ro_TargetKeyID = ''k2'', ro_State = RotationRunning,
        ro_TotalRecords = 1, ro_ProcessedRecords = 0, ro_CreatedAt = 1000, ro_UpdatedAt = 1000, ro_FinalizedAt = zero_time\<rparr>, rw_finalized_at = None\<rparr>]\<rparr>"

definition ex_transform :: "unit transform" where
  "ex_transform x s = (Inr ((rr_record x)\<lparr>rec_MasterKeyID := ''k2''\<rparr>), s)"

lemma ex_rotating_good: "pg_good ex_rotating"
proof -
  have "object_members ''{}'' \<noteq> None" by code_simp
  then show ?thesis
    by (simp add: pg_good_def pg_inv_def table_defs current_ok_def ex_rotating_def migrated_tables_def ex_pg_metadata_def credential_checks_def version_checks_def
        version_key_def rotation_checks_def int8_def)
qed

lemma ex_rotating_ok: "rotating ex_pg_env ex_rotation_id ''k1'' ex_transform ex_rotating"
  using ex_rotating_good by (auto simp: rotating_def leaves_key_def ex_transform_def ex_rotating_def)

lemma ex_rotating_references: "length (references ex_rotating ''k1'') = 1"
  by (simp add: references_def ex_rotating_def)


end
