(* ===== verification/Postgres_Retry.thy ===== *)
theory Postgres_Retry
  imports Postgres_Simulation
begin

text \<open>
  Retries of a creation whose commit was not acknowledged: the idempotency record is written in
  the transaction of the credential, and no later call removes it.
\<close>

section \<open>Retries\<close>

lemma insert_credential_utf8:
  assumes "pg_env_ok env" and "insert_credential env db m = Inr db'" and "validUUID (md_ID m)"
  shows "metadata_utf8 m"
proof -
  have "list_all (pe_text env) ([md_OrganizationID m, md_Name m, md_CredentialType m] @ md_SecretFields m)"
    using assms(2) by (auto simp: insert_credential_def statement_Inr)
  moreover have "valid_utf8 s" if "pe_text env s" for s using assms(1) that unfolding pg_env_ok_def by blast
  ultimately show ?thesis using validUUID_utf8 [OF assms(3)] by (auto simp: metadata_utf8_def list_all_iff)
qed

lemma insert_idempotency_text: "insert_idempotency env db p k d s i t = Inr db' \<Longrightarrow> pe_text env p \<and> pe_text env k"
  by (auto simp: insert_idempotency_def statement_Inr)

text \<open>A creation that changed the tables, whatever it answered, has left its record.\<close>

lemma create_recorded:
  assumes env: "pg_env_ok env" and id: "validUUID (md_ID m)" and ch: "snd (Create_pg env bk ctx l db i d m r) \<noteq> db"
  shows "\<exists>p k row. splitIdempotencyID i = Some (p, k) \<and> pe_text env p \<and> pe_text env k \<and>
    row \<in> set (pg_idempotency (snd (Create_pg env bk ctx l db i d m r))) \<and>
    idempotency_key row = (p, k) \<and> ir_request_digest row = d \<and> unmarshal_metadata (ir_response_metadata row) = Some m"
proof -
  obtain p k t db4 where s: "splitIdempotencyID i = Some (p, k)" and t: "marshal_metadata m = Some t"
    and c: "create_rows env bk ctx l db p k d m r t (marshal_envelope r) = Commit (Inr m) db4"
    and after: "snd (Create_pg env bk ctx l db i d m r) = db4"
  proof (cases "splitIdempotencyID i")
    case None
    then show thesis using ch by (simp add: Create_pg_def)
  next
    case (Some pk)
    then obtain p k where pk: "splitIdempotencyID i = Some (p, k)" by (cases pk) simp
    show thesis
    proof (cases "marshal_metadata m")
      case None
      then show thesis using ch pk by (simp add: Create_pg_def encodeStorage_def)
    next
      case (Some t)
      have row: "\<exists>x. create_rows env bk ctx l db p k d m r t (marshal_envelope r) = Rollback x \<or>
          (\<exists>db4. create_rows env bk ctx l db p k d m r t (marshal_envelope r) = Commit (Inr m) db4)"
        by (auto simp: create_rows_def split: sum.split)
      show thesis
        using ch row that [OF pk Some]
        by (auto simp: Create_pg_def encodeStorage_def pk Some transaction_def finish_def split: sum.splits option.splits if_splits commit_outcome.splits)
    qed
  qed
  then obtain db1 db2 db3 where 1: "insert_credential env db m = Inr db1"
    and 2: "insert_version env db1 (md_ID m) (md_Version m) (marshal_envelope r) (rec_MasterKeyID r) (md_UpdatedAt m) = Inr db2"
    and 3: "insert_idempotency env db2 p k d t (md_ID m) (md_CreatedAt m) = Inr db3" and "same_tables db3 db4"
    by (auto simp: create_rows_def sql_def dest: appendSuccessfulTransition_tables split: sum.splits if_splits)
  then have "pg_idempotency db4 = pg_idempotency db3" by (auto simp: same_tables_def)
  with insert_idempotency_exact [OF env 3 t insert_credential_utf8 [OF env 1 id]] insert_idempotency_text [OF 3] s after
  show ?thesis by auto
qed

text \<open>
  C9. Creation is exactly once under lost acknowledgements. When a creation has changed the
  tables, even if its client was told of a storage error because the commit was not
  acknowledged, then whatever calls are served in between, a retry with the same idempotency key
  and request over a connection that works answers the credential of the first attempt and
  changes nothing, although the manager drew a new identifier and time for it; another request
  under the key is a conflict.
\<close>

theorem lost_commit_retry:
  assumes env: "pg_env_ok env" and good: "pg_good db" and id: "validUUID (md_ID m)"
    and created: "Create_pg env bk ctx l db i d m r = (answer, db1)" "db1 \<noteq> db"
    and later: "db2 = foldl (pg_step env sha bk) db1 calls" and again: "marshal_metadata m2 \<noteq> None"
  shows "Create_pg env bk ctx2 healthy db2 i d2 m2 r2 = (if d2 = d then Inr m else Inl ErrIdempotencyConflict, db2)"
proof -
  have ch: "snd (Create_pg env bk ctx l db i d m r) \<noteq> db" using created by simp
  have good1: "pg_good db1"
    using keeps_Create [of db env bk ctx l i d m r] current_Create [of db env bk ctx l i d m r] good created(1) by (simp add: pg_good_def keeps_def)
  have good2: "pg_good db2" unfolding later by (rule postgres.run_inv [OF good1 run_ok_True])
  have "pg_le db1 db2" unfolding later by (rule postgres.run_le [OF good1 run_ok_True])
  then have le: "rows_le (=) (pg_idempotency db1) (pg_idempotency db2)" by (simp add: pg_le_def)
  obtain p k row where s: "splitIdempotencyID i = Some (p, k)" and texts: "pe_text env p" "pe_text env k"
    and row: "row \<in> set (pg_idempotency db1)" "idempotency_key row = (p, k)" "ir_request_digest row = d" "unmarshal_metadata (ir_response_metadata row) = Some m"
    using create_recorded [OF env id ch] created(1) by auto
  have "row \<in> set (pg_idempotency db2)" using rows_le_set [OF le row(1)] by blast
  moreover have "distinct (map idempotency_key (pg_idempotency db2))" using good2 by (simp add: pg_good_def pg_inv_def idempotency_ok_def)
  ultimately have "find (\<lambda>x. idempotency_key x = (p, k)) (pg_idempotency db2) = Some row"
    using find_key_member [of idempotency_key "pg_idempotency db2" row] row(2) by simp
  then have "select_idempotency env db2 p k = Inr (Some row)"
    using texts by (simp add: select_idempotency_def checked_def idempotency_key_def)
  then show ?thesis
    using s again texts row(3,4)
    by (auto simp: Create_pg_def encodeStorage_def transaction_def finish_def healthy_def sql_def advisory_lock_def checked_def)
qed

definition ex_pg_record :: Record where
  "ex_pg_record = zero_record\<lparr>rec_MasterKeyID := ''k1''\<rparr>"

definition ex_lost :: pg_link where
  "ex_lost = healthy\<lparr>lk_commit := Unacknowledged\<rparr>"

abbreviation ex_pg_backend :: postgresBackend where
  "ex_pg_backend \<equiv> \<lparr>pb_audit = Some ex_spool\<rparr>"

lemma decode_struct_object_members: "decode_struct strict fs z s = Some x \<Longrightarrow> x \<noteq> z \<Longrightarrow> object_members s \<noteq> None"
  by (auto simp: decode_struct_def split: option.splits json.splits)

lemma ex_pg_text: "pe_text ex_pg_env ''org''" "pe_text ex_pg_env ''db''" "pe_text ex_pg_env ''database''" "pe_text ex_pg_env ''password''"
  "pe_text ex_pg_env ''key''" "pe_text ex_pg_env ''k1''"
  by (simp_all add: ex_pg_env_def valid_utf8_ascii nul_def char_of_def)

lemma ex_pg_utf8: "metadata_utf8 ex_pg_metadata" "envelope_utf8 ex_pg_record"
  using validUUID_utf8 [OF ex_pg_id_valid]
  by (simp_all add: metadata_utf8_def ex_pg_metadata_def envelope_utf8_def ex_pg_record_def zero_record_def valid_utf8_ascii)

lemma ex_pg_marshal: "\<exists>t. marshal_metadata ex_pg_metadata = Some t"
proof -
  have "local_year (utc 1000) = 1" by code_simp
  then show ?thesis by (simp add: marshal_metadata_def marshal_time_def ex_pg_metadata_def)
qed

lemma ex_pg_members:
  "marshal_metadata ex_pg_metadata = Some t \<Longrightarrow> object_members t \<noteq> None" "object_members (marshal_envelope ex_pg_record) \<noteq> None"
proof -
  assume "marshal_metadata ex_pg_metadata = Some t"
  from unmarshal_marshal_metadata [OF this ex_pg_utf8(1)] show "object_members t \<noteq> None"
    unfolding unmarshal_metadata_def by (rule decode_struct_object_members) (simp add: zero_metadata_def ex_pg_metadata_def)
next
  from unmarshal_marshal_envelope [OF ex_pg_utf8(2)] show "object_members (marshal_envelope ex_pg_record) \<noteq> None"
    unfolding unmarshal_envelope_def by (rule decode_struct_object_members) (simp add: zero_envelope_def zero_record_def ex_pg_record_def)
qed

lemma ex_pg_event: "\<exists>a. AppendTx ex_audit_env ex_spool migrated (credentialAudit OperationCredentialCreated ex_pg_metadata) = Inr a"
proof -
  let ?e = "credentialAudit OperationCredentialCreated ex_pg_metadata"
  have "token ReasonCompleted" "\<not> ContainsAny ex_pg_id [nul, CHR 0x0D, CHR 0x0A]"
    "\<not> ContainsAny ''org'' [nul, CHR 0x0D, CHR 0x0A]" "\<not> ContainsAny [] [nul, CHR 0x0D, CHR 0x0A]" "length ex_pg_id \<le> 255"
    by code_simp+
  then have v: "validate_event ?e"
    by (simp add: validate_event_def event_strings_def credentialAudit_def transition_def ex_pg_metadata_def zero_event_def
        known_def knownEventTypes_def KnownOperation_def knownOperations_def knownResults_def)
  have "local_year (utc 1000) = 1" by code_simp
  then obtain s where s: "marshal_event ?e = Some s" by (simp add: marshal_event_def marshal_time_def credentialAudit_def transition_def ex_pg_metadata_def)
  have "ae_jsonb ex_audit_env s = Some s" by (simp add: ex_audit_env_def)
  from AppendTx_result [OF ex_migrated_inv _ s this] v show ?thesis
    by (simp add: migrated_def pending_rows_def ex_spool_def)
qed

lemma ex_lost_create:
  "\<exists>db1. Create_pg ex_pg_env ex_pg_backend None ex_lost migrated_tables (''org'' @ nul # ''key'') (replicate 32 0) ex_pg_metadata ex_pg_record = (Inl ErrStorage, db1) \<and>
     db1 \<noteq> migrated_tables"
proof -
  obtain t where t: "marshal_metadata ex_pg_metadata = Some t" using ex_pg_marshal by blast
  obtain a where a: "AppendTx ex_audit_env ex_spool migrated (credentialAudit OperationCredentialCreated ex_pg_metadata) = Inr a" using ex_pg_event by blast
  obtain x y where m: "object_members t = Some x" "object_members (marshal_envelope ex_pg_record) = Some y" using ex_pg_members(1) [OF t] ex_pg_members(2) by auto
  have s: "splitIdempotencyID (''org'' @ nul # ''key'') = Some (''org'', ''key'')" by (simp add: splitIdempotencyID_def Let_def nul_def char_of_def)
  have e: "pe_audit ex_pg_env = ex_audit_env" "pe_uuid ex_pg_env ex_pg_id = Some ex_pg_id" "pe_time ex_pg_env = Some" "ae_jsonb ex_audit_env = Some"
    using ex_pg_id_valid by (simp_all add: ex_pg_env_def ex_audit_env_def)
  have md: "md_ID ex_pg_metadata = ex_pg_id" "md_OrganizationID ex_pg_metadata = ''org''" "md_Name ex_pg_metadata = ''db''" "md_CredentialType ex_pg_metadata = ''database''"
    "md_SchemaVersion ex_pg_metadata = 1" "md_Version ex_pg_metadata = 1" "md_SecretFields ex_pg_metadata = [''password'']"
    "md_CreatedAt ex_pg_metadata = 1000" "md_UpdatedAt ex_pg_metadata = 1000" by (simp_all add: ex_pg_metadata_def)
  have k: "rec_MasterKeyID ex_pg_record = ''k1''" by (simp add: ex_pg_record_def)
  have 1: "insert_credential ex_pg_env migrated_tables ex_pg_metadata = Inr (migrated_tables\<lparr>pg_credentials := [ex_pg_metadata]\<rparr>)" (is "_ = Inr ?db1")
    by (simp add: insert_credential_def given_def checked_def unique_index_def e md ex_pg_text int4_def int8_def migrated_tables_def)
  obtain db2 where 2: "insert_version ex_pg_env ?db1 ex_pg_id 1 (marshal_envelope ex_pg_record) ''k1'' 1000 = Inr db2"
    and db2: "pg_credentials db2 = [ex_pg_metadata]" "pg_idempotency db2 = []" "pg_audit db2 = migrated"
    by (simp add: insert_version_def given_def checked_def unique_index_def e md ex_pg_text int8_def m migrated_tables_def)
  obtain db3 where 3: "insert_idempotency ex_pg_env db2 ''org'' ''key'' (replicate 32 0) t ex_pg_id 1000 = Inr db3"
    and db3: "pg_credentials db3 = [ex_pg_metadata]" "pg_audit db3 = migrated"
    by (simp add: insert_idempotency_def given_def checked_def unique_index_def e md ex_pg_text m db2)
  have "pg_credentials (db3\<lparr>pg_audit := a\<rparr>) \<noteq> pg_credentials migrated_tables" using db3(1) by (simp add: migrated_tables_def)
  then have "db3\<lparr>pg_audit := a\<rparr> \<noteq> migrated_tables" by metis
  moreover have "pg_idempotency migrated_tables = []" by (simp add: migrated_tables_def)
  ultimately show ?thesis
    using a by (simp add: Create_pg_def s [simplified] encodeStorage_def t transaction_def ex_lost_def healthy_def sql_def advisory_lock_def checked_def ex_pg_text
        select_idempotency_def create_rows_def md k 1 2 3 appendSuccessfulTransition_def attributed_def appendAudit_def appendCompletion_def e db3 finish_def)
qed

theorem lost_commit_retry_witness:
  "\<exists>db1. Create_pg ex_pg_env ex_pg_backend None ex_lost migrated_tables (''org'' @ nul # ''key'') (replicate 32 0) ex_pg_metadata ex_pg_record = (Inl ErrStorage, db1) \<and>
     Create_pg ex_pg_env ex_pg_backend None healthy db1 (''org'' @ nul # ''key'') (replicate 32 0) ex_pg_metadata ex_pg_record = (Inr ex_pg_metadata, db1)"
proof -
  obtain db1 where c: "Create_pg ex_pg_env ex_pg_backend None ex_lost migrated_tables (''org'' @ nul # ''key'') (replicate 32 0) ex_pg_metadata ex_pg_record = (Inl ErrStorage, db1)"
    "db1 \<noteq> migrated_tables" using ex_lost_create by blast
  have "validUUID (md_ID ex_pg_metadata)" using ex_pg_id_valid by (simp add: ex_pg_metadata_def)
  moreover have "marshal_metadata ex_pg_metadata \<noteq> None" using ex_pg_marshal by auto
  ultimately show ?thesis
    using lost_commit_retry [OF ex_pg_env_ok pg_good_migrated _ c, of db1 "\<lambda>_. []" "[]" ex_pg_metadata None "replicate 32 0" ex_pg_record] c(1) by auto
qed

end
