(* ===== verification/Spec2Isabelle.thy ===== *)
theory Spec2Isabelle
  imports Http_Runs Postgres_Audit Postgres_Rotation Postgres_Retry
begin

text \<open>
  Verification of the Praetor Secrets Service.

  The service keeps credentials encrypted, lets a scheduler bind one credential version to one run,
  and lets the executor of that run resolve it a limited number of times. Its parts and the theories
  that model them, in the order in which they rest on each other:

  \<^item> The language. \<open>Prelude\<close> holds maps as association lists, durations, results, and the locales
    \<open>transition_system\<close>, \<open>monotone_system\<close>, \<open>simulation\<close> and \<open>progress\<close> that carry every statement
    about runs. \<open>GoStrings\<close>,
    \<open>GoJson\<close>, \<open>GoTime\<close>, \<open>GoStruct\<close> and \<open>Json_Utf8\<close> hold what the code uses of the packages
    \<open>strings\<close>, \<open>utf8\<close>, \<open>hex\<close>, \<open>base64\<close>, \<open>time\<close> and \<open>encoding/json\<close>: strings are lists of bytes,
    decoding is by fuel that is shown to be enough (twice the length of the text and two), a time is
    an instant in nanoseconds since year 1, with a zone where the zone is printed.
  \<^item> \<open>Envelope\<close> models \<open>envelope/envelope.go\<close>: sealing a payload under a fresh data key that is
    wrapped by a master key, with the context as associated data. AES-GCM is the parameter \<open>aead\<close>.
    The entropy source is the list of bytes it will still deliver.
  \<^item> \<open>MasterKeys\<close> models \<open>masterkey/loader.go\<close> over a file system given as a function;
    \<open>Builtin\<close> the registry of \<open>builtin/registry.go\<close>, with the locale \<open>registry\<close> for what the
    manager relies on of schemas and injectors.
  \<^item> \<open>Credential_Types\<close>, \<open>Memory_Backend\<close> and \<open>Credential_Manager\<close> model the package
    \<open>credential\<close>: the validators, the in-memory backend (\<open>backend.go\<close>, \<open>backend_resolution.go\<close>,
    \<open>backend_recovery.go\<close>; its methods have the suffix \<open>_be\<close>) and the manager over it (\<open>manager.go\<close>,
    \<open>resolution.go\<close>, \<open>rotation.go\<close>, \<open>recovery.go\<close>). Each operation takes its clock reading and its
    entropy and returns result, manager and remaining entropy. A method runs under the lock of the
    backend, so an interleaving of calls is a sequence of these steps.
  \<^item> \<open>Store_Spec\<close> is the abstract specification of the store: its effects as an inductive relation,
    the invariant and the order in which stores grow. \<open>Manager_Runs\<close> shows that every operation of
    the manager is a sequence of effects; \<open>Credential_Properties\<close> and \<open>Credential_Operations\<close> hold
    the properties of runs and of single operations.
  \<^item> \<open>Audit_Events\<close> and \<open>Audit_Spool\<close> model \<open>audit/events.go\<close> and \<open>audit/spool.go\<close>: the events, their
    JSON, and the authenticated chain in its two tables. \<open>Audit_Sink\<close> models \<open>auditsink/store.go\<close> and
    \<open>auditsink/handler.go\<close> with the triggers of the migration, \<open>Audit_Delivery\<close> the recorder, the
    worker and the HTTP client of \<open>audit/recorder.go\<close> and \<open>audit/delivery.go\<close>, over a network that may
    lose requests and answers; \<open>Audit_Liveness\<close> adds what holds when the network answers. The
    interfaces are the locales \<open>audit_sink\<close> and \<open>responsive_sink\<close>. HMAC and the normalisation of a
    document by \<open>jsonb\<close> are the parameter \<open>audit_env\<close>; \<open>audit_env_ok\<close> states what is relied on: codes
    have 32 bytes, and a valid event is stored and read back as the same event.
  \<^item> \<open>Transport_Request\<close>, \<open>Transport_Bodies\<close> and \<open>Transport_Server\<close> model the package \<open>transport\<close>:
    the mapping from certificates to workloads, strict JSON bodies, the routes and handlers, the
    answers byte by byte and the completion events. The Go interfaces \<open>CredentialService\<close> and
    \<open>AuditRecorder\<close> are records of functions over a state. \<open>Transport_Routes\<close> specifies which role may
    make which call and shows that every handler refuses or makes the one call that the audited
    operation names; \<open>Transport_Properties\<close>, \<open>Transport_Service\<close> and \<open>Http_Runs\<close> draw the consequences
    for any service, and, through the locale \<open>http_boundary\<close>, for the manager with the spool.
  \<^item> \<open>Credential_Json\<close> holds the JSON of metadata, bindings and envelope records, with the round trips
    that storage rests on. \<open>Postgres_Tables\<close> models the schema of \<open>credential/migrations\<close>, its keys,
    checks and triggers, \<open>ApplyPostgresMigrations\<close>, and each SQL statement as a function on the
    tables that may fail; \<open>Postgres_Backend\<close> the methods of \<open>credential/postgres*.go\<close> (suffix \<open>_pg\<close>).
    A method is one transaction; a \<open>pg_link\<close> says which of its statements the connection loses and
    whether the commit happens and is acknowledged. What PostgreSQL and its driver accept and keep
    of texts, UUIDs, times and \<open>jsonb\<close> is the parameter \<open>pg_env\<close>; \<open>pg_env_ok\<close> states what is relied on.
    \<open>Postgres_Runs\<close> and \<open>Postgres_Calls\<close> show the invariant of the tables and how rows may change,
    \<open>Postgres_Audit\<close> that a change and its audit event are one transaction, \<open>Postgres_Refinement\<close>,
    \<open>Postgres_Bindings\<close> and \<open>Postgres_Simulation\<close> that the backend refines the in-memory one,
    \<open>Postgres_Rotation\<close> the progress of rotation in batches, \<open>Postgres_Retry\<close> that a creation happens
    once although its acknowledgement is lost.

  What the groups of properties show. Of the envelope: round trips, isolation of contexts, no
  transplant of keys, rotation preserves payloads. Of the store: the invariant over every run, the
  limit on resolutions, immutable payloads, forward-only bindings, no lost updates, idempotent
  creation and resolution, isolation of organizations. Of the audit: the chain verifies after every
  run, is append-only, bounded and tamper-evident, and the remote sink holds an exact copy of its
  first records, which a responsive network completes. Of the boundary: roles are separated, a
  success is the answer of the named call, every other outcome is recorded, and the store invariant
  holds after every sequence of requests of whatever content. Of the PostgreSQL backend: its tables
  stay consistent, it answers as the in-memory backend does or reports a failure, what it changes is
  audited in the same transaction, retries are safe, and rotation in batches comes to an end.

  What is assumed. The cipher opens what it seals and, for the property about transplants, opens
  nothing else (\<open>aead_correct\<close>, \<open>aead_authentic\<close>); an identifier drawn at random is new (\<open>fresh_id\<close>);
  fewer than 2^63 audit rows exist; \<open>net/http\<close> delivers an escaped path of printable ASCII. Witnesses
  instantiate every parameter with a concrete function.

  Bounds. A step of a backend is a method under its lock or transaction; the serializability that
  row and advisory locks give is taken for granted, apart from rows that \<open>SKIP LOCKED\<close> passes over.
  Refinement is stated for identifiers in lower case and times of whole microseconds, which the
  columns keep exactly, and for the methods on credentials, bindings and resolution; for rotation
  and recovery the two backends differ in what they count and require.

  Not modelled. The HTTP client (\<open>client/client.go\<close>) encodes requests and decodes answers of this
  service for other programs and keeps no state. The runtimes, configuration and
  entry points (\<open>app\<close>, \<open>auditsink/config.go\<close>, \<open>auditsink/runtime.go\<close>, \<open>cmd\<close>) read environment
  variables and files and start goroutines; \<open>devbootstrap\<close> and \<open>scripts\<close> generate files for
  development and checks. \<open>clear\<close> on maps and byte slices has no counterpart, since values of the
  model are not mutable memory.
\<close>

end
